(* ===== verification/Go_Prelude.thy ===== *)
theory Go_Prelude
  imports Main "HOL-Library.Sublist" "HOL-Library.Monad_Syntax" "HOL-Library.Word"
    "HOL-Library.List_Lexorder" "HOL-Library.Char_ord"
begin

text \<open>
  Shared ground of the development: the parts of Go and of its standard library that the
  modelled packages rely on.

  \<^item> strings are byte lists; \<open>index_rune\<close> and \<open>strings_index\<close> are \<open>strings.IndexRune\<close> (for
    an ASCII rune) and \<open>strings.Index\<close>, with the result -1 written as \<open>None\<close>;
  \<^item> a Go map is a partial function; ranging over a map visits its keys in an order the
    language leaves open, so a function that ranges takes the order as an argument and
    \<open>map_order\<close> says what an order is;
  \<^item> a slice is a header (backing array, length, capacity) over a store of arrays, so that
    two slices can share cells. Every slice of the modelled code starts at offset 0 of its
    array (they are built by \<open>make\<close>, \<open>append\<close> and \<open>s[:0]\<close>), so the header has no offset.
    How far \<open>append\<close> grows a full slice is a choice of the runtime: it is the parameter
    \<open>grow\<close>, and \<open>growslice\<close> is its contract;
  \<^item> a panic (nil dereference, failed assertion) is the value \<open>None\<close> of an option.
\<close>

named_theorems go_string \<open>unfolding of the string helpers\<close>
named_theorems slice_simps \<open>what slice operations return\<close>

type_synonym duration = int \<comment> \<open>\<open>time.Duration\<close>, nanoseconds\<close>

section \<open>Strings\<close>

fun index_rune :: "char \<Rightarrow> string \<Rightarrow> nat option" where
  "index_rune c [] = None"
| "index_rune c (x # xs) = (if x = c then Some 0 else map_option Suc (index_rune c xs))"

fun strings_index :: "string \<Rightarrow> string \<Rightarrow> nat option" where
  "strings_index [] sub = (if sub = [] then Some 0 else None)"
| "strings_index (x # xs) sub =
     (if prefix sub (x # xs) then Some 0 else map_option Suc (strings_index xs sub))"

lemma index_rune_None [simp]: "index_rune c s = None \<longleftrightarrow> c \<notin> set s"
  by (induction s) auto

lemma index_rune_Some:
  "index_rune c s = Some i \<longleftrightarrow> i < length s \<and> s ! i = c \<and> c \<notin> set (take i s)"
proof (induction s arbitrary: i)
  case (Cons x s)
  then show ?case by (cases i) auto
qed simp

lemma index_rune_append: "c \<notin> set g \<Longrightarrow> index_rune c (g @ c # v) = Some (length g)"
  by (simp add: index_rune_Some)

lemma strings_index_None: "strings_index s sub = None \<longleftrightarrow> \<not> sublist sub s"
proof (induction s)
  case (Cons x s)
  then show ?case by (auto simp: sublist_Cons_right)
qed simp

text \<open>Decimal numbers, as \<open>%d\<close> prints them, and \<open>strings.Join\<close>.\<close>

fun show_nat :: "nat \<Rightarrow> string" where
  "show_nat n = (if n < 10 then [char_of (48 + n)] else show_nat (n div 10) @ [char_of (48 + n mod 10)])"

declare show_nat.simps [simp del]

fun strings_join :: "string \<Rightarrow> string list \<Rightarrow> string" where
  "strings_join sep [] = []"
| "strings_join sep [x] = x"
| "strings_join sep (x # xs) = x @ sep @ strings_join sep xs"

text \<open>Values that arrive as JSON or YAML, and are passed on as such.\<close>

datatype json = JNull | JBool bool | JNum int | JStr string | JArr "json list" | JObj "(string \<times> json) list"

section \<open>Maps\<close>

definition map_order :: "('k \<rightharpoonup> 'v) \<Rightarrow> 'k list \<Rightarrow> bool" where
  "map_order m ks \<longleftrightarrow> distinct ks \<and> set ks = dom m"

lemma map_order_memD: "map_order m ks \<Longrightarrow> k \<in> set ks \<Longrightarrow> \<exists>v. m k = Some v"
  by (auto simp: map_order_def)

lemma map_order_Nil [simp]: "map_order m [] \<longleftrightarrow> m = Map.empty"
  by (auto simp: map_order_def)

lemma map_order_exists: "finite (dom m) \<Longrightarrow> \<exists>ks. map_order m ks"
  using finite_distinct_list [of "dom m"] by (auto simp: map_order_def)

section \<open>Slices over a store of arrays\<close>

record slice =
  s_arr :: nat
  s_len :: nat
  s_cap :: nat

type_synonym 'a store = "'a list list" \<comment> \<open>the written cells of each backing array\<close>

definition nil_slice :: slice where
  "nil_slice = \<lparr>s_arr = 0, s_len = 0, s_cap = 0\<rparr>"

definition slice_vals :: "'a store \<Rightarrow> slice \<Rightarrow> 'a list" where
  "slice_vals st s = (if s_len s = 0 then [] else take (s_len s) (st ! s_arr s))"

definition slice_make :: "'a store \<Rightarrow> nat \<Rightarrow> slice \<times> 'a store" where
  "slice_make st n = (\<lparr>s_arr = length st, s_len = 0, s_cap = n\<rparr>, st @ [[]])"

definition slice_reset :: "slice \<Rightarrow> slice" where
  "slice_reset s = s\<lparr>s_len := 0\<rparr>" \<comment> \<open>\<open>s[:0]\<close>\<close>

definition write_cells :: "nat \<Rightarrow> 'a list \<Rightarrow> 'a list \<Rightarrow> 'a list" where
  "write_cells n xs a = take n a @ xs @ drop (n + length xs) a"

definition slice_append :: "(nat \<Rightarrow> nat \<Rightarrow> nat) \<Rightarrow> 'a store \<Rightarrow> slice \<Rightarrow> 'a list \<Rightarrow> slice \<times> 'a store" where
  "slice_append grow st s xs =
     (let n = s_len s + length xs in
      if n \<le> s_cap s
      then (s\<lparr>s_len := n\<rparr>,
            if xs = [] then st
            else st[s_arr s := write_cells (s_len s) xs (st ! s_arr s)])
      else (\<lparr>s_arr = length st, s_len = n, s_cap = grow (s_cap s) n\<rparr>,
            st @ [slice_vals st s @ xs]))"

definition slice_of_list :: "'a store \<Rightarrow> 'a list \<Rightarrow> slice \<times> 'a store" where
  "slice_of_list st xs = (\<lparr>s_arr = length st, s_len = length xs, s_cap = length xs\<rparr>, st @ [xs])"

definition slice_ok :: "'a store \<Rightarrow> slice \<Rightarrow> bool" where
  "slice_ok st s \<longleftrightarrow>
     s_len s \<le> s_cap s \<and>
     (s_cap s = 0 \<or> s_arr s < length st \<and> s_len s \<le> length (st ! s_arr s))"

text \<open>\<open>slice_safe s t\<close>: writing behind the end of \<open>s\<close> cannot change what \<open>t\<close> shows.\<close>

definition slice_safe :: "slice \<Rightarrow> slice \<Rightarrow> bool" where
  "slice_safe s t \<longleftrightarrow> s_arr s \<noteq> s_arr t \<or> s_len t \<le> s_len s \<or> s_cap s = 0"

lemma slice_vals_nil [simp]: "slice_vals st nil_slice = []"
  by (simp add: slice_vals_def nil_slice_def)

lemma slice_ok_nil [simp]: "slice_ok st nil_slice"
  by (simp add: slice_ok_def nil_slice_def)

lemma slice_vals_reset [simp]: "slice_vals st (slice_reset s) = []"
  by (simp add: slice_vals_def slice_reset_def)

lemma slice_ok_reset [simp]: "slice_ok st s \<Longrightarrow> slice_ok st (slice_reset s)"
  by (auto simp: slice_ok_def slice_reset_def)

lemma slice_make_ok [slice_simps]:
  "slice_make st n = (s, st') \<Longrightarrow> slice_ok st' s \<and> slice_vals st' s = []"
  by (auto simp: slice_make_def slice_ok_def slice_vals_def)

lemma slice_of_list_ok [slice_simps]:
  "slice_of_list st xs = (s, st') \<Longrightarrow> slice_ok st' s \<and> slice_vals st' s = xs"
  by (auto simp: slice_of_list_def slice_ok_def slice_vals_def)

lemma slice_vals_length: "slice_ok st s \<Longrightarrow> length (slice_vals st s) = s_len s"
  by (auto simp: slice_vals_def slice_ok_def)

lemma slice_vals_extend [simp]:
  "slice_ok st s \<Longrightarrow> slice_vals (st @ rest) s = slice_vals st s"
  by (auto simp: slice_vals_def slice_ok_def nth_append)

lemma slice_ok_extend [simp]: "slice_ok st s \<Longrightarrow> slice_ok (st @ rest) s"
  by (auto simp: slice_ok_def nth_append)

lemma write_cells_length [simp]:
  "n \<le> length a \<Longrightarrow> length (write_cells n xs a) = max (length a) (n + length xs)"
  by (auto simp: write_cells_def)

lemma take_write_cells:
  "n \<le> length a \<Longrightarrow> m \<le> n \<Longrightarrow> take m (write_cells n xs a) = take m a"
  by (simp add: write_cells_def min_def)

lemma take_write_cells_all:
  "n \<le> length a \<Longrightarrow> take (n + length xs) (write_cells n xs a) = take n a @ xs"
  by (simp add: write_cells_def)

lemma slice_append_vals [slice_simps]:
  assumes "slice_ok st s" and "slice_append grow st s xs = (s', st')"
  shows "slice_vals st' s' = slice_vals st s @ xs"
proof (cases "s_len s + length xs \<le> s_cap s")
  case True
  show ?thesis
  proof (cases "xs = []")
    case True
    with assms show ?thesis by (auto simp: slice_append_def slice_ok_def slice_vals_def)
  next
    case False
    with True assms have ok: "s_arr s < length st" "s_len s \<le> length (st ! s_arr s)"
      by (auto simp: slice_ok_def)
    from True False assms(2) have eq: "s' = s\<lparr>s_len := s_len s + length xs\<rparr>"
        "st' = st[s_arr s := write_cells (s_len s) xs (st ! s_arr s)]"
      by (auto simp: slice_append_def)
    with ok False show ?thesis
      by (simp add: slice_vals_def take_write_cells_all)
  qed
next
  case False
  with assms have "s' = \<lparr>s_arr = length st, s_len = s_len s + length xs,
        s_cap = grow (s_cap s) (s_len s + length xs)\<rparr>" "st' = st @ [slice_vals st s @ xs]"
    by (auto simp: slice_append_def Let_def)
  moreover have "length (slice_vals st s) = s_len s"
    using assms(1) by (rule slice_vals_length)
  moreover have "xs \<noteq> []" using False assms(1) by (auto simp: slice_ok_def)
  ultimately have "slice_vals st' s' = take (s_len s + length xs) (slice_vals st s @ xs)"
    by (simp add: slice_vals_def [of "st @ _"])
  with \<open>length (slice_vals st s) = s_len s\<close> show ?thesis by simp
qed

lemma slice_append_frame [slice_simps]:
  assumes "slice_ok st s" and "slice_ok st t" and "slice_safe s t"
    and "slice_append grow st s xs = (s', st')"
  shows "slice_vals st' t = slice_vals st t"
proof (cases "s_len s + length xs \<le> s_cap s \<and> xs \<noteq> []")
  case True
  with assms(4) have st': "st' = st[s_arr s := write_cells (s_len s) xs (st ! s_arr s)]"
    by (auto simp: slice_append_def Let_def)
  from True have "s_cap s \<noteq> 0" by (cases xs) auto
  moreover from this assms(1) have "s_arr s < length st" "s_len s \<le> length (st ! s_arr s)"
    by (auto simp: slice_ok_def)
  ultimately show ?thesis using assms(3) st'
    by (auto simp: slice_safe_def slice_vals_def nth_list_update take_write_cells)
next
  case False
  with assms(4) have "st' = st \<or> st' = st @ [slice_vals st s @ xs]"
    by (auto simp: slice_append_def Let_def split: if_splits)
  with assms(2) show ?thesis by auto
qed

text \<open>What the runtime promises of \<open>append\<close>: a new array is large enough.\<close>

locale growslice =
  fixes grow :: "nat \<Rightarrow> nat \<Rightarrow> nat"
  assumes grow_enough: "n \<le> grow c n"
begin

lemma append_ok:
  assumes "slice_ok st s" and "slice_append grow st s xs = (s', st')"
  shows "slice_ok st' s'"
proof (cases "s_len s + length xs \<le> s_cap s")
  case True
  with assms show ?thesis
    by (auto simp: slice_append_def slice_ok_def split: if_splits)
next
  case False
  with assms have "s' = \<lparr>s_arr = length st, s_len = s_len s + length xs,
        s_cap = grow (s_cap s) (s_len s + length xs)\<rparr>" "st' = st @ [slice_vals st s @ xs]"
    by (auto simp: slice_append_def Let_def)
  then show ?thesis
    using grow_enough [of "s_len s + length xs" "s_cap s"] slice_vals_length [OF assms(1)]
    by (simp add: slice_ok_def)
qed

lemma append_ok_other:
  assumes "slice_ok st s" and "slice_ok st t" and "slice_append grow st s xs = (s', st')"
  shows "slice_ok st' t"
  using assms
  by (auto simp: slice_append_def slice_ok_def Let_def nth_list_update nth_append
      split: if_splits)

end

text \<open>
  The Go runtime's rule (\<open>growslice\<close>, before rounding up to an allocation size class): what
  is needed when that is more than twice the old capacity, else twice the old capacity for
  small slices, else steps of about a quarter.
\<close>

fun go_grow_step :: "nat \<Rightarrow> nat \<Rightarrow> nat \<Rightarrow> nat" where
  "go_grow_step 0 c n = n"
| "go_grow_step (Suc fuel) c n =
     (if n \<le> c then c else go_grow_step fuel (c + (c + 768) div 4) n)"

definition go_grow :: "nat \<Rightarrow> nat \<Rightarrow> nat" where
  "go_grow c n =
     (if 2 * c < n then n else if c < 256 then 2 * c else go_grow_step n (c + (c + 768) div 4) n)"

lemma go_grow_step_ge: "n \<le> go_grow_step fuel c n"
  by (induction fuel arbitrary: c) auto

interpretation go_runtime: growslice go_grow
  by unfold_locales (auto simp: go_grow_def go_grow_step_ge)

end
