(* ===== verification/Kube_Types.thy ===== *)
theory Kube_Types
  imports Go_Prelude
begin

text \<open>
  \<open>pkg/kube_events_manager/types/types.go\<close>: the objects and events that flow from the monitors
  to the hooks.

  An \<open>unstructured.Unstructured\<close> is a library type: the model keeps what the code reads of it
  (api version, kind, namespace, name) and its content. Decoding the output of jq
  (\<open>json.Unmarshal\<close>) is the parameter \<open>unmarshal\<close>; \<open>None\<close> is its error.
  Field maps built for hooks are partial functions from field names to \<open>field_value\<close>.
\<close>

type_synonym WatchEventType = string
type_synonym KubeEventType = string

abbreviation WatchEventAdded :: WatchEventType where "WatchEventAdded \<equiv> ''Added''"
abbreviation WatchEventModified :: WatchEventType where "WatchEventModified \<equiv> ''Modified''"
abbreviation WatchEventDeleted :: WatchEventType where "WatchEventDeleted \<equiv> ''Deleted''"
abbreviation TypeSynchronization :: KubeEventType where "TypeSynchronization \<equiv> ''Synchronization''"
abbreviation TypeEvent :: KubeEventType where "TypeEvent \<equiv> ''Event''"

record kube_object =
  obj_apiVersion :: string
  obj_kind :: string
  obj_namespace :: string
  obj_name :: string
  obj_content :: json

record ObjectAndFilterResult =
  ofr_JqFilter :: string
  ofr_Checksum :: string
  ofr_ResourceId :: string
  ofr_RemoveObject :: bool
  ofr_Object :: "kube_object option"
  ofr_FilterResult :: "json option"

datatype field_value =
    FStr string
  | FNil
  | FObject "kube_object option"
  | FObjects "ObjectAndFilterResult list"
  | FJson json
  | FSnapshots "string \<rightharpoonup> ObjectAndFilterResult list"
  | FReview json

definition ofr_Map :: "(string \<Rightarrow> json option) \<Rightarrow> ObjectAndFilterResult \<Rightarrow> string \<rightharpoonup> field_value" where
  "ofr_Map unmarshal ob =
     (let m = (if \<not> ofr_RemoveObject ob then [''object'' \<mapsto> FObject (ofr_Object ob)] else Map.empty) in
      if ofr_JqFilter ob = '''' \<and> ofr_FilterResult ob = None then m
      else if ofr_JqFilter ob \<noteq> '''' then
        (case ofr_FilterResult ob of
           Some (JStr s) \<Rightarrow>
             if s = '''' then m(''filterResult'' \<mapsto> FNil)
             else (case unmarshal s of
                     None \<Rightarrow> m(''filterResult'' \<mapsto> FNil)
                   | Some v \<Rightarrow> m(''filterResult'' \<mapsto> FJson v))
         | _ \<Rightarrow> m(''filterResult'' \<mapsto> FNil))
      else (case ofr_FilterResult ob of
              Some v \<Rightarrow> m(''filterResult'' \<mapsto> FJson v)
            | None \<Rightarrow> m(''filterResult'' \<mapsto> FNil)))"

definition RemoveFullObject :: "ObjectAndFilterResult \<Rightarrow> ObjectAndFilterResult" where
  "RemoveFullObject ob = ob\<lparr>ofr_Object := None, ofr_RemoveObject := True\<rparr>"

text \<open>\<open>ByNamespaceAndName.Less\<close>; Go compares strings bytewise.\<close>

definition ofr_Less :: "ObjectAndFilterResult \<Rightarrow> ObjectAndFilterResult \<Rightarrow> bool" where
  "ofr_Less p q =
     (case (ofr_Object p, ofr_Object q) of
        (Some a, Some b) \<Rightarrow>
          if obj_namespace a < obj_namespace b then True
          else if obj_namespace b < obj_namespace a then False
          else obj_name a < obj_name b
      | _ \<Rightarrow> ofr_ResourceId p < ofr_ResourceId q)"

record KubeEvent =
  ke_MonitorId :: string
  ke_Type :: KubeEventType
  ke_WatchEvents :: "WatchEventType list"
  ke_Objects :: "ObjectAndFilterResult list"

definition obj_path :: "kube_object \<Rightarrow> string" where
  "obj_path ob = obj_namespace ob @ ''/'' @ obj_kind ob @ ''/'' @ obj_name ob"

text \<open>\<open>None\<close>: the kind of the first object is read, and it has none (its full object was dropped).\<close>

definition KubeEvent_String :: "KubeEvent \<Rightarrow> string option" where
  "KubeEvent_String k =
     (if ke_Type k = TypeSynchronization then
        (case ke_Objects k of
           [] \<Rightarrow> Some ''Synchronization with 0 objects''
         | ob # _ \<Rightarrow> do {
             full \<leftarrow> ofr_Object ob;
             Some (''Synchronization with '' @ show_nat (length (ke_Objects k)) @
               '' objects of kind '' @ [CHR 0x27] @ obj_kind full @ [CHR 0x27])
           })
      else if ke_Type k = TypeEvent then
        (case ke_Objects k of
           [ob] \<Rightarrow>
             (case (ke_WatchEvents k, ofr_Object ob) of
                (we # _, Some full) \<Rightarrow>
                  Some (''Event '' @ [CHR 0x27] @ we @ [CHR 0x27] @ '' for '' @ obj_path full)
              | (we # _, None) \<Rightarrow>
                  Some (''Event '' @ [CHR 0x27] @ we @ [CHR 0x27] @ '' without object'')
              | ([], Some full) \<Rightarrow>
                  Some (''Event with no kubernetes event type for '' @ obj_path full)
              | ([], None) \<Rightarrow> Some ''Event with no kubernetes event type'')
         | _ \<Rightarrow>
             (case ke_WatchEvents k of
                we # _ \<Rightarrow> Some (''Event '' @ [CHR 0x27] @ we @ [CHR 0x27] @ '' without objects'')
              | [] \<Rightarrow> Some ''Event without objects and kubernetes event type''))
      else Some (''unknown type: '' @ [CHR 0x27] @ ke_Type k @ [CHR 0x27] @ '' from monitor '' @
             [CHR 0x27] @ ke_MonitorId k @ [CHR 0x27]))"

section \<open>Lemmas\<close>

lemma ofr_Map_object: "ofr_Map um ob ''object'' = (if ofr_RemoveObject ob then None else Some (FObject (ofr_Object ob)))"
  by (auto simp: ofr_Map_def Let_def split: option.splits json.splits)

text \<open>On objects that are kept in full the comparison is the order of (namespace, name).\<close>

definition full_key :: "ObjectAndFilterResult \<Rightarrow> string \<times> string" where
  "full_key ob = (case ofr_Object ob of Some b \<Rightarrow> (obj_namespace b, obj_name b) | None \<Rightarrow> ([], []))"

lemma ofr_Less_full:
  assumes "ofr_Object p \<noteq> None" and "ofr_Object q \<noteq> None"
  shows "ofr_Less p q \<longleftrightarrow> fst (full_key p) < fst (full_key q) \<or>
     fst (full_key p) = fst (full_key q) \<and> snd (full_key p) < snd (full_key q)"
  using assms by (auto simp: ofr_Less_def full_key_def)

end
