(* ===== verification/Go_Maps.thy ===== *)
theory Go_Maps
  imports Go_Prelude "HOL-Library.AList" "HOL-Library.Multiset"
begin

text \<open>
  Go maps that the code ranges over many times in one call. The map is an association list with
  distinct keys, changed by \<open>AList.update\<close> and \<open>AList.delete\<close>. Go starts every \<open>range\<close> over a map
  at a new random place, so the order of each one is open: it is given by a parameter
  \<open>perm\<close>, a permutation of the positions for every site of the execution (a list of numbers that
  no two \<open>range\<close> statements of one call share). \<open>map_iteration\<close> is all that is assumed of it.
\<close>

type_synonym iteration = "nat list \<Rightarrow> nat \<Rightarrow> nat list"

definition go_range :: "iteration \<Rightarrow> nat list \<Rightarrow> 'a list \<Rightarrow> 'a list" where
  "go_range perm site xs = map (nth xs) (perm site (length xs))"

definition map_get :: "'v \<Rightarrow> ('k \<times> 'v) list \<Rightarrow> 'k \<Rightarrow> 'v" where
  "map_get zero m k = (case map_of m k of Some v \<Rightarrow> v | None \<Rightarrow> zero)"

definition map_keys :: "('k \<times> 'v) list \<Rightarrow> 'k list" where
  "map_keys m = map fst m"

definition has_key :: "('k \<times> 'v) list \<Rightarrow> 'k \<Rightarrow> bool" where
  "has_key m k \<longleftrightarrow> map_of m k \<noteq> None"

lemma has_key_iff [simp]: "has_key m k \<longleftrightarrow> k \<in> set (map_keys m)"
  by (simp add: has_key_def map_keys_def map_of_eq_None_iff)

lemma map_keys_Nil [simp]: "map_keys [] = []"
  by (simp add: map_keys_def)

lemma map_keys_Cons [simp]: "map_keys (p # m) = fst p # map_keys m"
  by (simp add: map_keys_def)

lemma set_map_keys_update [simp]: "set (map_keys (AList.update k v m)) = insert k (set (map_keys m))"
  by (simp add: map_keys_def dom_update)

lemma distinct_map_keys_update [simp]: "distinct (map_keys m) \<Longrightarrow> distinct (map_keys (AList.update k v m))"
  by (simp add: map_keys_def distinct_update)

lemma map_get_update: "map_get z (AList.update k v m) k' = (if k' = k then v else map_get z m k')"
  by (simp add: map_get_def update_conv')

lemma set_update_cases: "p \<in> set (AList.update k v m) \<Longrightarrow> p = (k, v) \<or> p \<in> set m"
  by (induction m) (auto split: if_splits)

lemma set_delete: "set (AList.delete k m) = {p \<in> set m. fst p \<noteq> k}"
  by (induction m) auto

lemma distinct_map_keys_delete [simp]: "distinct (map_keys m) \<Longrightarrow> distinct (map_keys (AList.delete k m))"
  by (simp add: map_keys_def distinct_delete)

lemma set_map_keys_delete [simp]: "set (map_keys (AList.delete k m)) = set (map_keys m) - {k}"
  by (auto simp: map_keys_def set_delete)

lemma map_get_Nil [simp]: "map_get z [] k = z"
  by (simp add: map_get_def)

lemma map_get_not_key: "k \<notin> set (map_keys m) \<Longrightarrow> map_get z m k = z"
  by (simp add: map_get_def map_keys_def map_of_eq_None_iff [THEN iffD2])

lemma map_get_mem: "k \<in> set (map_keys m) \<Longrightarrow> (k, map_get z m k) \<in> set m"
  by (induction m) (auto simp: map_get_def map_keys_def)

lemma map_get_of_mem: "distinct (map_keys m) \<Longrightarrow> (k, v) \<in> set m \<Longrightarrow> map_get z m k = v"
  by (simp add: map_get_def map_keys_def)

locale map_iteration =
  fixes perm :: iteration
  assumes perm_positions: "mset (perm site n) = mset [0..<n]"
begin

lemma mset_go_range: "mset (go_range perm site xs) = mset xs"
proof -
  have "mset (go_range perm site xs) = image_mset (nth xs) (mset (perm site (length xs)))"
    by (simp add: go_range_def)
  also have "\<dots> = mset (map (nth xs) [0..<length xs])"
    by (simp only: perm_positions mset_map)
  finally show ?thesis by (simp add: map_nth)
qed

lemma set_go_range [simp]: "set (go_range perm site xs) = set xs"
  using mset_go_range by (metis set_mset_mset)

lemma distinct_go_range [simp]: "distinct (go_range perm site xs) = distinct xs"
  using mset_go_range by (metis mset_eq_imp_distinct_iff)

lemma map_of_go_range:
  assumes "distinct (map_keys m)" shows "map_of (go_range perm site m) = map_of m"
proof -
  have "mset (map fst (go_range perm site m)) = mset (map fst m)" by (simp add: mset_go_range)
  then have "distinct (map fst (go_range perm site m))"
    using assms mset_eq_imp_distinct_iff by (fastforce simp: map_keys_def)
  with assms show ?thesis by (simp add: map_keys_def map_of_inject_set)
qed

lemma length_go_range [simp]: "length (go_range perm site xs) = length xs"
  using mset_go_range by (metis mset_eq_length)

end

text \<open>Two runtimes: ranges that start at the oldest entry, and ranges that go backwards.\<close>

definition oldest_first :: iteration where
  "oldest_first site n = [0..<n]"

definition newest_first :: iteration where
  "newest_first site n = rev [0..<n]"

interpretation oldest: map_iteration oldest_first
  by unfold_locales (simp add: oldest_first_def)

interpretation newest: map_iteration newest_first
  by unfold_locales (simp add: newest_first_def)

end
