(* ===== verification/Monitor_Config.thy ===== *)
theory Monitor_Config
  imports Kube_Types Go_Maps
begin

text \<open>
  \<open>pkg/kube_events_manager/monitor_config.go\<close>, \<open>util.go\<close>, \<open>filter.go\<close> and the selector types of
  \<open>types/types.go\<close>: what a monitor watches and how an object is filtered.

  Not part of the repository, and so parameters: compiling a jq program (\<open>compile\<close>, \<open>None\<close> is its error;
  a compiled program maps an object to bytes or an error), JSON encoding and MD5 (\<open>filter_lib\<close>),
  printing of field selectors (\<open>fields_String\<close>). A nil pointer or slice is \<open>None\<close>.
\<close>

section \<open>Selectors and monitor configuration\<close>

record FieldSelectorRequirement =
  req_Field :: string
  req_Operator :: string
  req_Value :: string

type_synonym NameSelector = "string list" \<comment> \<open>\<open>MatchNames\<close>\<close>
type_synonym FieldSelector = "FieldSelectorRequirement list option" \<comment> \<open>\<open>MatchExpressions\<close>\<close>

record LabelSelector =
  MatchLabels :: "(string \<times> string) list"
  MatchExpressions :: "json list"

record NamespaceSelector =
  ns_NameSelector :: "NameSelector option"
  ns_LabelSelector :: "LabelSelector option"

type_synonym compiled_filter = "kube_object \<Rightarrow> string option"

record MonitorConfig =
  mc_MonitorId :: string
  EventTypes :: "WatchEventType list"
  mc_ApiVersion :: string
  mc_Kind :: string
  mc_NameSelector :: "NameSelector option"
  mc_NamespaceSelector :: "NamespaceSelector option"
  mc_LabelSelector :: "LabelSelector option"
  mc_FieldSelector :: "FieldSelector option"
  mc_JqFilter :: string
  CompiledJqFilter :: "compiled_filter option"
  mc_Mode :: string
  KeepFullObjectsInMemory :: bool
  FilterFunc :: "(kube_object \<Rightarrow> json option) option"

abbreviation ModeV0 :: string where "ModeV0 \<equiv> ''v0''"
abbreviation ModeIncremental :: string where "ModeIncremental \<equiv> ''Incremental''"

definition empty_mc :: MonitorConfig where
  "empty_mc = \<lparr>mc_MonitorId = [], EventTypes = [], mc_ApiVersion = [], mc_Kind = [], mc_NameSelector = None,
     mc_NamespaceSelector = None, mc_LabelSelector = None, mc_FieldSelector = None, mc_JqFilter = [],
     CompiledJqFilter = None, mc_Mode = [], KeepFullObjectsInMemory = False, FilterFunc = None\<rparr>"

text \<open>The error leaves the expression set and the compiled filter as it was.\<close>

definition WithJqFilter :: "(string \<Rightarrow> compiled_filter option) \<Rightarrow> string \<Rightarrow> MonitorConfig \<Rightarrow> MonitorConfig \<times> bool" where
  "WithJqFilter compile jqFilter c =
     (let c = c\<lparr>mc_JqFilter := jqFilter\<rparr> in
      if jqFilter = [] then (c\<lparr>CompiledJqFilter := None\<rparr>, True)
      else case compile jqFilter of
        None \<Rightarrow> (c, False)
      | Some f \<Rightarrow> (c\<lparr>CompiledJqFilter := Some f\<rparr>, True))"

definition WithEventTypes :: "WatchEventType list option \<Rightarrow> MonitorConfig \<Rightarrow> MonitorConfig" where
  "WithEventTypes types c =
     (case types of
        None \<Rightarrow> c\<lparr>EventTypes := [WatchEventAdded, WatchEventModified, WatchEventDeleted]\<rparr>
      | Some ts \<Rightarrow> c\<lparr>EventTypes := ts\<rparr>)"

definition WithNameSelector :: "NameSelector option \<Rightarrow> MonitorConfig \<Rightarrow> MonitorConfig" where
  "WithNameSelector nSel c = (case nSel of None \<Rightarrow> c | Some s \<Rightarrow> c\<lparr>mc_NameSelector := Some s\<rparr>)"

definition WithNamespaceSelector :: "NamespaceSelector option \<Rightarrow> MonitorConfig \<Rightarrow> MonitorConfig" where
  "WithNamespaceSelector nsSel c =
     (case nsSel of
        None \<Rightarrow> c
      | Some s \<Rightarrow> c\<lparr>mc_NamespaceSelector := Some \<lparr>ns_NameSelector = ns_NameSelector s, ns_LabelSelector = ns_LabelSelector s\<rparr>\<rparr>)"

definition WithFieldSelector :: "FieldSelector option \<Rightarrow> MonitorConfig \<Rightarrow> MonitorConfig" where
  "WithFieldSelector fieldSel c = (case fieldSel of None \<Rightarrow> c | Some s \<Rightarrow> c\<lparr>mc_FieldSelector := Some s\<rparr>)"

definition WithLabelSelector :: "LabelSelector option \<Rightarrow> MonitorConfig \<Rightarrow> MonitorConfig" where
  "WithLabelSelector labelSel c = (case labelSel of None \<Rightarrow> c | Some s \<Rightarrow> c\<lparr>mc_LabelSelector := Some s\<rparr>)"

definition mc_names :: "MonitorConfig \<Rightarrow> string list" where
  "mc_names c = (case mc_NameSelector c of None \<Rightarrow> [] | Some names \<Rightarrow> names)"

definition mc_namespaces :: "MonitorConfig \<Rightarrow> string list" where
  "mc_namespaces c =
     (case mc_NamespaceSelector c of
        None \<Rightarrow> [[]]
      | Some s \<Rightarrow>
          if ns_LabelSelector s \<noteq> None then []
          else case ns_NameSelector s of
            None \<Rightarrow> [[]]
          | Some names \<Rightarrow> if names = [] then [[]] else names)"

definition WithMode :: "string \<Rightarrow> MonitorConfig \<Rightarrow> MonitorConfig" where
  "WithMode mode c =
     (let c = (if mode = [] then c\<lparr>mc_Mode := ModeIncremental\<rparr> else c) in c\<lparr>mc_Mode := mode\<rparr>)"

section \<open>Helpers of the informers\<close>

definition resourceId :: "kube_object \<Rightarrow> string" where
  "resourceId ob = obj_namespace ob @ ''/'' @ obj_kind ob @ ''/'' @ obj_name ob"

datatype selector_term = OneTermEqual string string | OneTermNotEqual string string

fun selector_terms :: "FieldSelectorRequirement list \<Rightarrow> selector_term list option" where
  "selector_terms [] = Some []"
| "selector_terms (req # reqs) =
     (if req_Operator req = ''='' \<or> req_Operator req = ''=='' \<or> req_Operator req = ''Equals''
      then map_option ((#) (OneTermEqual (req_Field req) (req_Value req))) (selector_terms reqs)
      else if req_Operator req = ''!='' \<or> req_Operator req = ''NotEquals''
      then map_option ((#) (OneTermNotEqual (req_Field req) (req_Value req))) (selector_terms reqs)
      else None)"

text \<open>\<open>None\<close>: an operator is not recognized.\<close>

definition FormatFieldSelector :: "(selector_term list \<Rightarrow> string) \<Rightarrow> FieldSelector option \<Rightarrow> string option" where
  "FormatFieldSelector fields_String selector =
     (case selector of
        None \<Rightarrow> Some []
      | Some None \<Rightarrow> Some []
      | Some (Some reqs) \<Rightarrow> map_option fields_String (selector_terms reqs))"

definition adjustFieldSelector :: "FieldSelector option \<Rightarrow> string \<Rightarrow> FieldSelector option" where
  "adjustFieldSelector selector objName =
     (if objName = [] then selector
      else
        let objNameReq = \<lparr>req_Field = ''metadata.name'', req_Operator = ''='', req_Value = objName\<rparr> in
        case selector of
          None \<Rightarrow> Some (Some [objNameReq])
        | Some None \<Rightarrow> Some (Some [objNameReq])
        | Some (Some reqs) \<Rightarrow> Some (Some (reqs @ [objNameReq])))"

text \<open>Durations in nanoseconds; \<open>r1\<close> and \<open>r2\<close> are the random draws of \<open>rand.Int64N\<close>.\<close>

definition ResyncPeriodMedian :: duration where "ResyncPeriodMedian = 3 * 3600 * 10 ^ 9"
definition ResyncPeriodSpread :: duration where "ResyncPeriodSpread = 2 * 3600 * 10 ^ 9"
definition ResyncPeriodGranularity :: duration where "ResyncPeriodGranularity = 5 * 60 * 10 ^ 9"
definition ResyncPeriodJitterGranularity :: duration where "ResyncPeriodJitterGranularity = 15 * 10 ^ 9"

definition randomizedResyncPeriod :: "(int \<Rightarrow> int) \<Rightarrow> (int \<Rightarrow> int) \<Rightarrow> duration" where
  "randomizedResyncPeriod r1 r2 =
     (let spreadCount = ResyncPeriodSpread div ResyncPeriodGranularity;
          rndSpreadDelta = r1 spreadCount * ResyncPeriodGranularity;
          jitterCount = ResyncPeriodGranularity div ResyncPeriodJitterGranularity;
          rndJitterDelta = r2 jitterCount * ResyncPeriodJitterGranularity
      in ResyncPeriodMedian - ResyncPeriodSpread div 2 + rndSpreadDelta + rndJitterDelta)"

type_synonym uint64 = "64 word"

record CachedObjectsInfo =
  co_Count :: uint64
  co_Added :: uint64
  co_Deleted :: uint64
  co_Modified :: uint64
  co_Cleaned :: uint64

definition zero_info :: CachedObjectsInfo where
  "zero_info = \<lparr>co_Count = 0, co_Added = 0, co_Deleted = 0, co_Modified = 0, co_Cleaned = 0\<rparr>"

definition info_add :: "CachedObjectsInfo \<Rightarrow> CachedObjectsInfo \<Rightarrow> CachedObjectsInfo" where
  "info_add inc c = \<lparr>co_Count = co_Count c + co_Count inc, co_Added = co_Added c + co_Added inc,
     co_Deleted = co_Deleted c + co_Deleted inc, co_Modified = co_Modified c + co_Modified inc,
     co_Cleaned = co_Cleaned c + co_Cleaned inc\<rparr>"

section \<open>Filtering\<close>

record filter_lib =
  Marshal_object :: "kube_object \<Rightarrow> string option"
  Marshal_value :: "json \<Rightarrow> string option"
  CalculateChecksumOfBytes :: "string \<Rightarrow> string"

text \<open>\<open>None\<close>: the filter or the encoder fails.\<close>

definition applyFilter :: "filter_lib \<Rightarrow> compiled_filter option \<Rightarrow> string \<Rightarrow> (kube_object \<Rightarrow> json option) option
    \<Rightarrow> kube_object \<Rightarrow> ObjectAndFilterResult option" where
  "applyFilter lib compiledFilter jqFilterStr filterFn ob =
     (let res = \<lparr>ofr_JqFilter = jqFilterStr, ofr_Checksum = [], ofr_ResourceId = resourceId ob,
                 ofr_RemoveObject = False, ofr_Object = Some ob, ofr_FilterResult = None\<rparr> in
      case filterFn of
        Some f \<Rightarrow> do {
          filteredObj \<leftarrow> f ob;
          filteredBytes \<leftarrow> Marshal_value lib filteredObj;
          Some (res\<lparr>ofr_FilterResult := Some filteredObj,
                    ofr_Checksum := CalculateChecksumOfBytes lib filteredBytes\<rparr>)
        }
      | None \<Rightarrow>
          (case compiledFilter of
             None \<Rightarrow> do {
               data \<leftarrow> Marshal_object lib ob;
               Some (res\<lparr>ofr_Checksum := CalculateChecksumOfBytes lib data\<rparr>)
             }
           | Some apply_jq \<Rightarrow> do {
               filtered \<leftarrow> apply_jq ob;
               Some (res\<lparr>ofr_FilterResult := Some (JStr filtered),
                         ofr_Checksum := CalculateChecksumOfBytes lib filtered\<rparr>)
             }))"

lemma applyFilter_id: "applyFilter lib cf jq fn ob = Some res \<Longrightarrow> ofr_ResourceId res = resourceId ob"
  by (auto simp: applyFilter_def Let_def bind_eq_Some_conv split: option.splits)

section \<open>Properties\<close>

text \<open>
  The resync period lies between two and four hours, whatever the random draws, and is a whole
  number of the jitter granularity (15 seconds).
\<close>

lemma resync_period_bounds:
  assumes "\<And>n. 0 < n \<Longrightarrow> 0 \<le> r1 n \<and> r1 n < n" and "\<And>n. 0 < n \<Longrightarrow> 0 \<le> r2 n \<and> r2 n < n"
  shows "2 * 3600 * 10 ^ 9 \<le> randomizedResyncPeriod r1 r2 \<and> randomizedResyncPeriod r1 r2 < 4 * 3600 * 10 ^ 9 \<and>
     randomizedResyncPeriod r1 r2 mod ResyncPeriodJitterGranularity = 0"
proof -
  have eq: "randomizedResyncPeriod r1 r2 = 15 * 10 ^ 9 * (480 + 20 * r1 24 + r2 20)"
    by (simp add: randomizedResyncPeriod_def ResyncPeriodMedian_def ResyncPeriodSpread_def
        ResyncPeriodGranularity_def ResyncPeriodJitterGranularity_def Let_def)
  show ?thesis
    using assms(1) [of 24] assms(2) [of 20] unfolding eq ResyncPeriodJitterGranularity_def by simp
qed

text \<open>The default mode is assigned and then overwritten: an empty mode stays empty.\<close>

lemma WithMode_stores_empty: "mc_Mode (WithMode [] c) = []"
  by (simp add: WithMode_def)

end
