(* ===== verification/Resource_Informer.thy ===== *)
theory Resource_Informer
  imports Monitor_Config
begin

text \<open>
  \<open>pkg/kube_events_manager/resource_informer.go\<close>: the cache of filtered objects behind one watch, and the
  events it sends to the hooks.

  Metrics and logging are left out. The Kubernetes client (discovery, list calls, the shared informer
  that delivers watch events) is a parameter: its answers are arguments. \<open>ri_emitted\<close> is what the
  callback \<open>eventCb\<close> was given, in order. A handler first updates the cache, then reads the flag
  \<open>eventCbEnabled\<close> under the lock of the buffer, then takes that lock again (or calls the callback); the
  model has the three parts as functions, so that they can be composed (\<open>handleWatchEvent\<close>) and
  interleaved (\<open>ri_step\<close>).
\<close>

section \<open>State\<close>

record FactoryIndex =
  fi_GVR :: string
  fi_Namespace :: string
  fi_FieldSelector :: string
  fi_LabelSelector :: string

record informer =
  ri_Namespace :: string
  ri_Name :: string
  ri_FactoryIndex :: "FactoryIndex option"
  cachedObjects :: "(string \<times> ObjectAndFilterResult) list"
  cachedObjectsInfo :: CachedObjectsInfo
  cachedObjectsIncrement :: CachedObjectsInfo
  eventBuf :: "KubeEvent list"
  eventCbEnabled :: bool
  hasEventCb :: bool
  ri_stopped :: bool
  ri_emitted :: "KubeEvent list"

definition newResourceInformer :: "string \<Rightarrow> string \<Rightarrow> bool \<Rightarrow> informer" where
  "newResourceInformer ns name hasCb =
     \<lparr>ri_Namespace = ns, ri_Name = name, ri_FactoryIndex = None, cachedObjects = [],
      cachedObjectsInfo = zero_info, cachedObjectsIncrement = zero_info, eventBuf = [],
      eventCbEnabled = False, hasEventCb = hasCb, ri_stopped = False, ri_emitted = []\<rparr>"

definition putEvent :: "KubeEvent \<Rightarrow> informer \<Rightarrow> informer" where
  "putEvent ev ei = (if hasEventCb ei then ei\<lparr>ri_emitted := ri_emitted ei @ [ev]\<rparr> else ei)"

section \<open>Loading and reading the cache\<close>

text \<open>\<open>None\<close>: an error; the cache is then as it was. \<open>transform\<close> is the transform of the factory store.\<close>

fun filter_items :: "filter_lib \<Rightarrow> MonitorConfig \<Rightarrow> (kube_object \<Rightarrow> kube_object option) \<Rightarrow> kube_object list
    \<Rightarrow> (string \<times> ObjectAndFilterResult) list \<Rightarrow> (string \<times> ObjectAndFilterResult) list option" where
  "filter_items lib mc transform [] filtered = Some filtered"
| "filter_items lib mc transform (item # items) filtered = do {
     ob \<leftarrow> transform item;
     res \<leftarrow> applyFilter lib (CompiledJqFilter mc) (mc_JqFilter mc) (FilterFunc mc) ob;
     let res = (if KeepFullObjectsInMemory mc then res else RemoveFullObject res);
     filter_items lib mc transform items (AList.update (ofr_ResourceId res) res filtered)
   }"

definition loadExistedObjects :: "filter_lib \<Rightarrow> MonitorConfig \<Rightarrow> (kube_object \<Rightarrow> kube_object option) \<Rightarrow> kube_object list option
    \<Rightarrow> informer \<Rightarrow> informer option" where
  "loadExistedObjects lib mc transform objList ei = do {
     items \<leftarrow> objList;
     if items = [] then Some ei
     else do {
       filtered \<leftarrow> filter_items lib mc transform items [];
       let objs = fold (\<lambda>(k, v). AList.update k v) filtered (cachedObjects ei);
       Some (ei\<lparr>cachedObjects := objs,
               cachedObjectsInfo := (cachedObjectsInfo ei)\<lparr>co_Count := of_nat (length objs)\<rparr>\<rparr>)
     }
   }"

text \<open>What the API server and the selector libraries answer.\<close>

record cluster_api =
  GroupVersionResource :: "string \<Rightarrow> string \<Rightarrow> string option"
  FormatLabelSelector :: "LabelSelector option \<Rightarrow> string option"
  fields_String :: "selector_term list \<Rightarrow> string"
  List_objects :: "FactoryIndex \<Rightarrow> kube_object list option"

definition createSharedInformer :: "filter_lib \<Rightarrow> cluster_api \<Rightarrow> MonitorConfig \<Rightarrow> (kube_object \<Rightarrow> kube_object option)
    \<Rightarrow> informer \<Rightarrow> informer option" where
  "createSharedInformer lib api mc transform ei = do {
     gvr \<leftarrow> GroupVersionResource api (mc_ApiVersion mc) (mc_Kind mc);
     labelSel \<leftarrow> FormatLabelSelector api (mc_LabelSelector mc);
     fieldSel \<leftarrow> FormatFieldSelector (fields_String api) (adjustFieldSelector (mc_FieldSelector mc) (ri_Name ei));
     let fi = \<lparr>fi_GVR = gvr, fi_Namespace = ri_Namespace ei, fi_FieldSelector = fieldSel, fi_LabelSelector = labelSel\<rparr>;
     loadExistedObjects lib mc transform (List_objects api fi) (ei\<lparr>ri_FactoryIndex := Some fi\<rparr>)
   }"

text \<open>\<open>getCachedObjects\<close> has two critical sections: it copies the cache, then clears the buffer.\<close>

definition copy_cache :: "iteration \<Rightarrow> nat list \<Rightarrow> informer \<Rightarrow> ObjectAndFilterResult list" where
  "copy_cache perm site ei = map snd (go_range perm site (cachedObjects ei))"

definition reset_buf :: "informer \<Rightarrow> informer" where
  "reset_buf ei = (if \<not> eventCbEnabled ei then ei\<lparr>eventBuf := []\<rparr> else ei)"

definition getCachedObjects :: "iteration \<Rightarrow> nat list \<Rightarrow> informer \<Rightarrow> ObjectAndFilterResult list \<times> informer" where
  "getCachedObjects perm site ei = (copy_cache perm site ei, reset_buf ei)"

definition enableKubeEventCb :: "informer \<Rightarrow> informer" where
  "enableKubeEventCb ei =
     (if eventCbEnabled ei then ei
      else (fold putEvent (eventBuf ei) (ei\<lparr>eventCbEnabled := True\<rparr>))\<lparr>eventBuf := []\<rparr>)"

section \<open>Watch events\<close>

datatype watch_object = WObject kube_object | DeletedFinalStateUnknown "kube_object option"

definition shouldFireEvent :: "MonitorConfig \<Rightarrow> WatchEventType \<Rightarrow> bool" where
  "shouldFireEvent mc checkEvent = list_ex (\<lambda>event. event = checkEvent) (EventTypes mc)"

text \<open>The filter result of an event; \<open>None\<close>: the event is dropped.\<close>

definition filter_event :: "filter_lib \<Rightarrow> MonitorConfig \<Rightarrow> kube_object \<Rightarrow> WatchEventType \<Rightarrow> informer
    \<Rightarrow> ObjectAndFilterResult option" where
  "filter_event lib mc ob eventType ei =
     map_option (\<lambda>res. if KeepFullObjectsInMemory mc then res else RemoveFullObject res)
       (case applyFilter lib (CompiledJqFilter mc) (mc_JqFilter mc) (FilterFunc mc) ob of
          Some res \<Rightarrow> Some res
        | None \<Rightarrow>
            if eventType \<noteq> WatchEventDeleted then None
            else map_option (\<lambda>cached. cached\<lparr>ofr_Object := Some ob\<rparr>) (map_of (cachedObjects ei) (resourceId ob)))"

text \<open>The update of the cache under its lock; the flag says that the event is skipped.\<close>

definition update_cache :: "string \<Rightarrow> ObjectAndFilterResult \<Rightarrow> WatchEventType \<Rightarrow> informer \<Rightarrow> informer \<times> bool" where
  "update_cache rid res eventType ei =
     (if eventType = WatchEventAdded \<or> eventType = WatchEventModified then
        let skipEvent = (case map_of (cachedObjects ei) rid of
                           None \<Rightarrow> False | Some cached \<Rightarrow> ofr_Checksum cached = ofr_Checksum res);
            objs = AList.update rid res (cachedObjects ei);
            info = (cachedObjectsInfo ei)\<lparr>co_Count := of_nat (length objs)\<rparr>;
            incr = cachedObjectsIncrement ei
        in (if eventType = WatchEventAdded
            then ei\<lparr>cachedObjects := objs, cachedObjectsInfo := info\<lparr>co_Added := co_Added info + 1\<rparr>,
                    cachedObjectsIncrement := incr\<lparr>co_Added := co_Added incr + 1\<rparr>\<rparr>
            else ei\<lparr>cachedObjects := objs, cachedObjectsInfo := info\<lparr>co_Modified := co_Modified info + 1\<rparr>,
                    cachedObjectsIncrement := incr\<lparr>co_Modified := co_Modified incr + 1\<rparr>\<rparr>, skipEvent)
      else if eventType = WatchEventDeleted then
        let objs = AList.delete rid (cachedObjects ei);
            info = (cachedObjectsInfo ei)\<lparr>co_Count := of_nat (length objs)\<rparr>;
            incr = cachedObjectsIncrement ei;
            info' = (if co_Count info = 0 then info\<lparr>co_Cleaned := co_Cleaned info + 1\<rparr> else info);
            incr' = (if co_Count info = 0 then incr\<lparr>co_Cleaned := co_Cleaned incr + 1\<rparr> else incr)
        in (ei\<lparr>cachedObjects := objs, cachedObjectsInfo := info'\<lparr>co_Deleted := co_Deleted info' + 1\<rparr>,
               cachedObjectsIncrement := incr'\<lparr>co_Deleted := co_Deleted incr' + 1\<rparr>\<rparr>, False)
      else (ei, False))"

definition event_of :: "MonitorConfig \<Rightarrow> WatchEventType \<Rightarrow> ObjectAndFilterResult \<Rightarrow> KubeEvent" where
  "event_of mc eventType res =
     \<lparr>ke_MonitorId = mc_MonitorId mc, ke_Type = TypeEvent, ke_WatchEvents = [eventType], ke_Objects = [res]\<rparr>"

text \<open>Up to the decision to fire: the new state and the event to deliver, if any. \<open>None\<close> is a panic.\<close>

definition begin_event :: "filter_lib \<Rightarrow> MonitorConfig \<Rightarrow> watch_object \<Rightarrow> WatchEventType \<Rightarrow> informer
    \<Rightarrow> (informer \<times> KubeEvent option) option" where
  "begin_event lib mc object eventType ei =
     (if ri_stopped ei then Some (ei, None)
      else do {
        ob \<leftarrow> (case object of WObject ob \<Rightarrow> Some ob | DeletedFinalStateUnknown ob \<Rightarrow> ob);
        case filter_event lib mc ob eventType ei of
          None \<Rightarrow> Some (ei, None)
        | Some res \<Rightarrow>
            let (ei, skipEvent) = update_cache (resourceId ob) res eventType ei in
            Some (ei, if \<not> skipEvent \<and> shouldFireEvent mc eventType then Some (event_of mc eventType res) else None)
      })"

definition deliver_event :: "bool \<Rightarrow> KubeEvent \<Rightarrow> informer \<Rightarrow> informer" where
  "deliver_event enabled ev ei =
     (if enabled then putEvent ev ei else ei\<lparr>eventBuf := eventBuf ei @ [ev]\<rparr>)"

definition handleWatchEvent :: "filter_lib \<Rightarrow> MonitorConfig \<Rightarrow> watch_object \<Rightarrow> WatchEventType \<Rightarrow> informer \<Rightarrow> informer option" where
  "handleWatchEvent lib mc object eventType ei = do {
     (ei, ev) \<leftarrow> begin_event lib mc object eventType ei;
     Some (case ev of None \<Rightarrow> ei | Some ev \<Rightarrow> deliver_event (eventCbEnabled ei) ev ei)
   }"

definition getCachedObjectsInfoIncrement :: "informer \<Rightarrow> CachedObjectsInfo \<times> informer" where
  "getCachedObjectsInfoIncrement ei = (cachedObjectsIncrement ei, ei\<lparr>cachedObjectsIncrement := zero_info\<rparr>)"

section \<open>Handlers interleaved with the hook controllers\<close>

text \<open>
  Events of one informer are delivered one after another, each by the three parts of the handler. Between the
  parts other goroutines may take a snapshot or enable the callback.
\<close>

datatype handler_pc = Idle | Fire KubeEvent | Deliver bool KubeEvent

inductive ri_step :: "filter_lib \<Rightarrow> MonitorConfig \<Rightarrow> handler_pc \<times> informer \<Rightarrow> handler_pc \<times> informer \<Rightarrow> bool"
  for lib mc where
  watch: "begin_event lib mc object eventType ei = Some (ei', ev) \<Longrightarrow>
     ri_step lib mc (Idle, ei) (case ev of None \<Rightarrow> Idle | Some e \<Rightarrow> Fire e, ei')"
| read: "ri_step lib mc (Fire ev, ei) (Deliver (eventCbEnabled ei) ev, ei)"
| deliver: "ri_step lib mc (Deliver b ev, ei) (Idle, deliver_event b ev ei)"
| enable: "ri_step lib mc (pc, ei) (pc, enableKubeEventCb ei)"
| reset: "ri_step lib mc (pc, ei) (pc, reset_buf ei)"

inductive_cases ri_stepE: "ri_step lib mc (pc, ei) s'"

section \<open>Cache and events\<close>

text \<open>The checksums of the cached objects, and what an event does to them.\<close>

definition cache_view :: "informer \<Rightarrow> string \<rightharpoonup> string" where
  "cache_view ei = map_option ofr_Checksum \<circ> map_of (cachedObjects ei)"

definition apply_event :: "KubeEvent \<Rightarrow> (string \<rightharpoonup> string) \<Rightarrow> string \<rightharpoonup> string" where
  "apply_event ev m =
     (case ke_Objects ev of
        [res] \<Rightarrow> if ke_WatchEvents ev = [WatchEventDeleted] then m(ofr_ResourceId res := None)
                 else m(ofr_ResourceId res \<mapsto> ofr_Checksum res)
      | _ \<Rightarrow> m)"

definition ri_inv :: "informer \<Rightarrow> bool" where
  "ri_inv ei \<longleftrightarrow> distinct (map_keys (cachedObjects ei)) \<and>
     (\<forall>(k, res) \<in> set (cachedObjects ei). ofr_ResourceId res = k)"

lemma RemoveFullObject_sel [simp]:
  "ofr_ResourceId (RemoveFullObject res) = ofr_ResourceId res" "ofr_Checksum (RemoveFullObject res) = ofr_Checksum res"
  by (simp_all add: RemoveFullObject_def)

lemma filter_event_id:
  assumes "ri_inv ei" and "filter_event lib mc ob ty ei = Some res"
  shows "ofr_ResourceId res = resourceId ob"
proof (cases "applyFilter lib (CompiledJqFilter mc) (mc_JqFilter mc) (FilterFunc mc) ob")
  case None
  with assms(2) obtain cached where "map_of (cachedObjects ei) (resourceId ob) = Some cached"
      "ofr_ResourceId res = ofr_ResourceId cached"
    by (auto simp: filter_event_def split: if_splits)
  with assms(1) show ?thesis by (auto simp: ri_inv_def dest!: map_of_SomeD)
next
  case (Some r)
  with assms(2) applyFilter_id [OF Some] show ?thesis by (auto simp: filter_event_def split: if_splits)
qed

lemmas alist_conv = update_conv' AList.delete_conv'

lemma update_cache_sel:
  assumes "update_cache rid res ty ei = (ei', skip)"
  shows "eventBuf ei' = eventBuf ei" and "ri_emitted ei' = ri_emitted ei"
    and "eventCbEnabled ei' = eventCbEnabled ei" and "hasEventCb ei' = hasEventCb ei"
  using assms by (auto simp: update_cache_def Let_def split: if_splits)

lemma update_cache_ok:
  assumes inv: "ri_inv ei" and rid: "ofr_ResourceId res = rid"
    and ty: "ty = WatchEventAdded \<or> ty = WatchEventModified \<or> ty = WatchEventDeleted"
    and up: "update_cache rid res ty ei = (ei', skip)"
  shows "ri_inv ei'"
    and "cache_view ei' = (if skip then cache_view ei else apply_event (event_of mc ty res) (cache_view ei))"
proof -
  have del: "ri_inv ei'" "cache_view ei' = (cache_view ei)(rid := None)" "\<not> skip" if "ty = WatchEventDeleted"
  proof -
    have objs: "cachedObjects ei' = AList.delete rid (cachedObjects ei)" "\<not> skip"
      using up that by (auto simp: update_cache_def Let_def)
    then show "\<not> skip" "cache_view ei' = (cache_view ei)(rid := None)"
      by (auto simp: cache_view_def alist_conv fun_eq_iff)
    show "ri_inv ei'"
      using inv objs(1) by (auto simp: ri_inv_def set_delete)
  qed
  have upd: "ri_inv ei'" "cache_view ei' = (cache_view ei)(rid \<mapsto> ofr_Checksum res)"
      "skip \<longleftrightarrow> cache_view ei rid = Some (ofr_Checksum res)" if "ty \<noteq> WatchEventDeleted"
  proof -
    have objs: "cachedObjects ei' = AList.update rid res (cachedObjects ei)"
      "skip \<longleftrightarrow> (case map_of (cachedObjects ei) rid of None \<Rightarrow> False | Some c \<Rightarrow> ofr_Checksum c = ofr_Checksum res)"
      using up ty that by (auto simp: update_cache_def Let_def)
    then show "skip \<longleftrightarrow> cache_view ei rid = Some (ofr_Checksum res)" by (auto simp: cache_view_def split: option.splits)
    show "cache_view ei' = (cache_view ei)(rid \<mapsto> ofr_Checksum res)"
      using objs by (auto simp: cache_view_def alist_conv fun_eq_iff)
    show "ri_inv ei'" using inv objs(1) rid by (auto simp: ri_inv_def dest!: set_update_cases)
  qed
  show "ri_inv ei'" using del upd by blast
  show "cache_view ei' = (if skip then cache_view ei else apply_event (event_of mc ty res) (cache_view ei))"
  proof (cases "ty = WatchEventDeleted")
    case True
    with del rid show ?thesis by (simp add: apply_event_def event_of_def)
  next
    case False
    with upd rid show ?thesis by (auto simp: apply_event_def event_of_def fun_eq_iff)
  qed
qed

definition watch_type :: "WatchEventType \<Rightarrow> bool" where
  "watch_type ty \<longleftrightarrow> ty = WatchEventAdded \<or> ty = WatchEventModified \<or> ty = WatchEventDeleted"

lemma begin_event_cases:
  assumes "begin_event lib mc object ty ei = Some (ei', ev)"
  obtains (same) "ei' = ei" "ev = None"
  | (upd) ob res skip where "filter_event lib mc ob ty ei = Some res"
      "update_cache (resourceId ob) res ty ei = (ei', skip)"
      "ev = (if \<not> skip \<and> shouldFireEvent mc ty then Some (event_of mc ty res) else None)"
proof (cases "ri_stopped ei")
  case True
  with assms show ?thesis by (intro same) (simp_all add: begin_event_def)
next
  case False
  with assms obtain ob where ob: "(case object of WObject ob \<Rightarrow> Some ob | DeletedFinalStateUnknown ob \<Rightarrow> ob) = Some ob"
    by (auto simp: begin_event_def bind_eq_Some_conv)
  show ?thesis
  proof (cases "filter_event lib mc ob ty ei")
    case None
    with assms False ob show ?thesis by (intro same) (simp_all add: begin_event_def)
  next
    case (Some res)
    obtain ei1 skip where u: "update_cache (resourceId ob) res ty ei = (ei1, skip)" by fastforce
    with assms False ob Some have "ei1 = ei'"
        "ev = (if \<not> skip \<and> shouldFireEvent mc ty then Some (event_of mc ty res) else None)"
      by (simp_all add: begin_event_def)
    with upd Some u show ?thesis by blast
  qed
qed

text \<open>A handler that fires for every type: the fired events are what changed in the cache.\<close>

lemma begin_event_ok:
  assumes inv: "ri_inv ei" and ty: "watch_type ty" "shouldFireEvent mc ty"
    and run: "begin_event lib mc object ty ei = Some (ei', ev)"
  shows "ri_inv ei'" and "eventBuf ei' = eventBuf ei" and "ri_emitted ei' = ri_emitted ei"
    and "eventCbEnabled ei' = eventCbEnabled ei" and "hasEventCb ei' = hasEventCb ei"
    and "cache_view ei' = (case ev of None \<Rightarrow> cache_view ei | Some e \<Rightarrow> apply_event e (cache_view ei))"
proof -
  have "ri_inv ei' \<and> eventBuf ei' = eventBuf ei \<and> ri_emitted ei' = ri_emitted ei \<and>
      eventCbEnabled ei' = eventCbEnabled ei \<and> hasEventCb ei' = hasEventCb ei \<and>
      cache_view ei' = (case ev of None \<Rightarrow> cache_view ei | Some e \<Rightarrow> apply_event e (cache_view ei))"
    using run
  proof (cases rule: begin_event_cases)
    case same
    then show ?thesis using inv by simp
  next
    case (upd ob res skip)
    note ob = upd(1) and skip = upd(2,3)
    have t: "ty = WatchEventAdded \<or> ty = WatchEventModified \<or> ty = WatchEventDeleted"
      using ty(1) by (simp only: watch_type_def)
    have "cache_view ei' = (if skip then cache_view ei else apply_event (event_of mc ty res) (cache_view ei))"
      by (rule update_cache_ok(2) [OF inv filter_event_id [OF inv ob] t skip(1)])
    with update_cache_ok(1) [OF inv filter_event_id [OF inv ob] t skip(1)] update_cache_sel [OF skip(1)] skip(2) ty(2)
    show ?thesis by simp
  qed
  then show "ri_inv ei'" "eventBuf ei' = eventBuf ei" "ri_emitted ei' = ri_emitted ei"
    "eventCbEnabled ei' = eventCbEnabled ei" "hasEventCb ei' = hasEventCb ei"
    "cache_view ei' = (case ev of None \<Rightarrow> cache_view ei | Some e \<Rightarrow> apply_event e (cache_view ei))"
    by blast+
qed

text \<open>\<open>events_since ei ei'\<close>: what was handed to the callback, or put into the buffer, between the two.\<close>

definition tracks :: "(string \<rightharpoonup> string) \<Rightarrow> KubeEvent list \<Rightarrow> informer \<Rightarrow> informer \<Rightarrow> bool" where
  "tracks m evs ei ei' \<longleftrightarrow>
     ri_inv ei' \<and> eventCbEnabled ei' = eventCbEnabled ei \<and> hasEventCb ei' = hasEventCb ei \<and>
     cache_view ei' = fold apply_event evs m \<and>
     (if eventCbEnabled ei then eventBuf ei' = eventBuf ei \<and> ri_emitted ei' = ri_emitted ei @ evs
      else ri_emitted ei' = ri_emitted ei \<and> eventBuf ei' = eventBuf ei @ evs)"

lemma handle_tracks:
  assumes "ri_inv ei" "watch_type ty" "shouldFireEvent mc ty" "hasEventCb ei"
    and "handleWatchEvent lib mc object ty ei = Some ei'"
  shows "\<exists>evs. tracks (cache_view ei) evs ei ei'"
proof -
  from assms(5) obtain ei1 ev where b: "begin_event lib mc object ty ei = Some (ei1, ev)"
      "ei' = (case ev of None \<Rightarrow> ei1 | Some e \<Rightarrow> deliver_event (eventCbEnabled ei1) e ei1)"
    by (auto simp: handleWatchEvent_def bind_eq_Some_conv)
  note o = begin_event_ok [OF assms(1-3) b(1)]
  show ?thesis
  proof (cases ev)
    case None
    with b(2) o have "tracks (cache_view ei) [] ei ei'" by (simp add: tracks_def)
    then show ?thesis ..
  next
    case (Some e)
    with b(2) o assms(4) have "tracks (cache_view ei) [e] ei ei'"
      by (simp add: tracks_def deliver_event_def putEvent_def ri_inv_def cache_view_def)
    then show ?thesis ..
  qed
qed

fun watch_all :: "filter_lib \<Rightarrow> MonitorConfig \<Rightarrow> (watch_object \<times> WatchEventType) list \<Rightarrow> informer \<Rightarrow> informer option" where
  "watch_all lib mc [] ei = Some ei"
| "watch_all lib mc ((object, ty) # ws) ei =
     (case handleWatchEvent lib mc object ty ei of None \<Rightarrow> None | Some ei' \<Rightarrow> watch_all lib mc ws ei')"

lemma tracks_trans:
  "tracks m evs ei ei1 \<Longrightarrow> tracks (cache_view ei1) evs' ei1 ei2 \<Longrightarrow> tracks m (evs @ evs') ei ei2"
  by (auto simp: tracks_def split: if_splits)

lemma watch_all_tracks:
  assumes "ri_inv ei" "hasEventCb ei" "\<forall>(object, ty) \<in> set ws. watch_type ty \<and> shouldFireEvent mc ty"
    and "watch_all lib mc ws ei = Some ei'"
  shows "\<exists>evs. tracks (cache_view ei) evs ei ei'"
  using assms
proof (induction ws arbitrary: ei)
  case Nil
  then have "tracks (cache_view ei) [] ei ei'" by (simp add: tracks_def)
  then show ?case ..
next
  case (Cons w ws)
  obtain object ty where w: "w = (object, ty)" by (cases w)
  with Cons.prems(4) obtain ei1 where h: "handleWatchEvent lib mc object ty ei = Some ei1"
      "watch_all lib mc ws ei1 = Some ei'"
    by (auto split: option.splits)
  from Cons.prems(3) w obtain evs where t: "tracks (cache_view ei) evs ei ei1"
    using handle_tracks [OF Cons.prems(1) _ _ Cons.prems(2) h(1)] by auto
  then have "ri_inv ei1" "hasEventCb ei1" using Cons.prems(2) by (auto simp: tracks_def)
  with Cons.IH [OF _ _ _ h(2)] Cons.prems(3) obtain evs' where "tracks (cache_view ei1) evs' ei1 ei'" by auto
  with t show ?case using tracks_trans by blast
qed

lemma fold_putEvent:
  "hasEventCb ei \<Longrightarrow> fold putEvent evs ei = ei\<lparr>ri_emitted := ri_emitted ei @ evs\<rparr>"
  by (induction evs arbitrary: ei) (simp_all add: putEvent_def)

context map_iteration
begin

lemma snapshot_view:
  assumes "ri_inv ei"
  shows "map_of (map (\<lambda>res. (ofr_ResourceId res, ofr_Checksum res)) (copy_cache perm site ei)) = cache_view ei"
proof -
  let ?xs = "go_range perm site (cachedObjects ei)"
  have keys: "\<forall>p \<in> set ?xs. ofr_ResourceId (snd p) = fst p" using assms by (auto simp: ri_inv_def)
  have "map (\<lambda>res. (ofr_ResourceId res, ofr_Checksum res)) (map snd ?xs) =
      map (\<lambda>(k, res). (k, ofr_Checksum res)) ?xs"
    using keys by (auto simp: case_prod_beta)
  then have "map_of (map (\<lambda>res. (ofr_ResourceId res, ofr_Checksum res)) (copy_cache perm site ei)) =
      map_option ofr_Checksum \<circ> map_of ?xs"
    by (simp only: copy_cache_def map_of_map)
  moreover have "map_of ?xs = map_of (cachedObjects ei)"
    using assms by (simp add: map_of_go_range ri_inv_def)
  ultimately show ?thesis by (simp add: cache_view_def)
qed

end

section \<open>Properties\<close>

lemma ri_inv_new [simp]: "ri_inv (newResourceInformer ns name cb)"
  by (simp add: ri_inv_def newResourceInformer_def)

text \<open>
  C4. Synchronization loses nothing, when no handler is under way at the moments the snapshot is taken and
  the callback is enabled: for a monitor that asks for all types of events, the snapshot given to the hook
  and the events sent afterwards (the buffered ones first, then the new ones) rebuild the cache, as far
  as the checksums of the filtered objects show, for every outcome of the filter and every order in
  which the cache was read.
\<close>

theorem synchronization_consistent:
  assumes "map_iteration perm" and "ri_inv ei" and "hasEventCb ei" and "\<not> eventCbEnabled ei"
    and "\<forall>(object, ty) \<in> set (ws1 @ ws2). watch_type ty \<and> shouldFireEvent mc ty"
    and "getCachedObjects perm site ei = (objs, ei1)"
    and "watch_all lib mc ws1 ei1 = Some ei2" and "watch_all lib mc ws2 (enableKubeEventCb ei2) = Some ei3"
  shows "\<exists>evs. ri_emitted ei3 = ri_emitted ei @ evs \<and> eventBuf ei3 = [] \<and>
     cache_view ei3 = fold apply_event evs (map_of (map (\<lambda>res. (ofr_ResourceId res, ofr_Checksum res)) objs))"
proof -
  have objs: "objs = copy_cache perm site ei" and ei1: "ei1 = ei\<lparr>eventBuf := []\<rparr>"
    using assms(4,6) by (auto simp: getCachedObjects_def reset_buf_def)
  have view: "map_of (map (\<lambda>res. (ofr_ResourceId res, ofr_Checksum res)) objs) = cache_view ei1"
    using map_iteration.snapshot_view [OF assms(1,2)] by (simp add: objs ei1 cache_view_def)
  have "ri_inv ei1" "hasEventCb ei1" using assms(2,3) by (simp_all add: ei1 ri_inv_def)
  then obtain evs1 where t1: "tracks (cache_view ei1) evs1 ei1 ei2"
    using watch_all_tracks [OF _ _ _ assms(7)] assms(5) by auto
  have e2: "ri_inv ei2" "hasEventCb ei2" "\<not> eventCbEnabled ei2" "eventBuf ei2 = evs1"
      "ri_emitted ei2 = ri_emitted ei" "cache_view ei2 = fold apply_event evs1 (cache_view ei1)"
    using t1 assms(3,4) by (auto simp: tracks_def ei1)
  let ?e = "enableKubeEventCb ei2"
  have e: "ri_inv ?e" "hasEventCb ?e" "eventCbEnabled ?e" "eventBuf ?e = []"
      "ri_emitted ?e = ri_emitted ei @ evs1" "cache_view ?e = cache_view ei2"
    using e2 by (simp_all add: enableKubeEventCb_def fold_putEvent ri_inv_def cache_view_def)
  obtain evs2 where "tracks (cache_view ?e) evs2 ?e ei3"
    using watch_all_tracks [OF e(1,2) _ assms(8)] assms(5) by auto
  with e e2 view have "ri_emitted ei3 = ri_emitted ei @ evs1 @ evs2 \<and> eventBuf ei3 = [] \<and>
      cache_view ei3 = fold apply_event (evs1 @ evs2) (map_of (map (\<lambda>res. (ofr_ResourceId res, ofr_Checksum res)) objs))"
    by (simp add: tracks_def)
  then show ?thesis by blast
qed

text \<open>A cluster to run: objects of one kind, with their name as content and checksum.\<close>

definition plain_lib :: filter_lib where
  "plain_lib = \<lparr>Marshal_object = (\<lambda>ob. case obj_content ob of JStr s \<Rightarrow> Some s | _ \<Rightarrow> None),
     Marshal_value = (\<lambda>v. None), CalculateChecksumOfBytes = (\<lambda>b. b)\<rparr>"

definition demo_mc :: MonitorConfig where
  "demo_mc = (WithEventTypes None empty_mc)\<lparr>mc_MonitorId := ''m'', mc_ApiVersion := ''v1'', mc_Kind := ''Pod''\<rparr>"

definition demo_pod :: "string \<Rightarrow> string \<Rightarrow> kube_object" where
  "demo_pod name content = \<lparr>obj_apiVersion = ''v1'', obj_kind = ''Pod'', obj_namespace = ''d'',
     obj_name = name, obj_content = JStr content\<rparr>"

definition demo_informer :: informer where
  "demo_informer = newResourceInformer [] [] True"

theorem synchronization_consistent_witness:
  "\<exists>ei2 ei3. watch_all plain_lib demo_mc [(WObject (demo_pod ''a'' ''1''), WatchEventAdded)]
       (snd (getCachedObjects oldest_first [] demo_informer)) = Some ei2 \<and>
     watch_all plain_lib demo_mc [(WObject (demo_pod ''a'' ''2''), WatchEventModified)] (enableKubeEventCb ei2) = Some ei3 \<and>
     (\<exists>evs. ri_emitted ei3 = evs \<and> cache_view ei3 = fold apply_event evs Map.empty)"
proof -
  let ?ws1 = "[(WObject (demo_pod ''a'' ''1''), WatchEventAdded)]"
    and ?ws2 = "[(WObject (demo_pod ''a'' ''2''), WatchEventModified)]"
  let ?p = "getCachedObjects oldest_first [] demo_informer"
  have "watch_all plain_lib demo_mc ?ws1 (snd ?p) \<noteq> None" by code_simp
  then obtain ei2 where ei2: "watch_all plain_lib demo_mc ?ws1 (snd ?p) = Some ei2" by blast
  have "case watch_all plain_lib demo_mc ?ws1 (snd ?p) of None \<Rightarrow> False
      | Some ei2 \<Rightarrow> watch_all plain_lib demo_mc ?ws2 (enableKubeEventCb ei2) \<noteq> None" by code_simp
  with ei2 obtain ei3 where ei3: "watch_all plain_lib demo_mc ?ws2 (enableKubeEventCb ei2) = Some ei3" by auto
  have ty: "\<forall>(object, ty) \<in> set (?ws1 @ ?ws2). watch_type ty \<and> shouldFireEvent demo_mc ty"
    by (simp add: watch_type_def shouldFireEvent_def demo_mc_def WithEventTypes_def)
  have start: "ri_inv demo_informer" "hasEventCb demo_informer" "\<not> eventCbEnabled demo_informer" "ri_emitted demo_informer = []"
    unfolding demo_informer_def by (simp, simp_all add: newResourceInformer_def)
  have "fst ?p = []" by code_simp
  then have p: "?p = ([], snd ?p)" by (simp add: prod_eq_iff)
  from synchronization_consistent [OF oldest.map_iteration_axioms start(1-3) ty p ei2 ei3]
  have "\<exists>evs. ri_emitted ei3 = evs \<and> cache_view ei3 = fold apply_event evs Map.empty" unfolding start(4) by simp
  with ei2 ei3 show ?thesis by blast
qed

text \<open>Once the callback is enabled and no handler is about to use the buffer, the buffer does not change.\<close>

lemma enabled_buf_stays:
  assumes "(ri_step lib mc)\<^sup>*\<^sup>* s s'" and "eventCbEnabled (snd s)" and "\<forall>ev. fst s \<noteq> Deliver False ev"
  shows "eventCbEnabled (snd s') \<and> (\<forall>ev. fst s' \<noteq> Deliver False ev) \<and> eventBuf (snd s') = eventBuf (snd s)"
  using assms
proof (induction rule: rtranclp_induct)
  case (step s1 s2)
  then have ih: "eventCbEnabled (snd s1)" "\<forall>ev. fst s1 \<noteq> Deliver False ev" "eventBuf (snd s1) = eventBuf (snd s)" by auto
  from step.hyps(2) ih show ?case
  proof (cases rule: ri_step.cases)
    case (watch object ty ei ei' ev)
    from watch(3) have "eventCbEnabled ei' = eventCbEnabled ei \<and> eventBuf ei' = eventBuf ei"
      by (cases rule: begin_event_cases) (simp_all add: update_cache_sel)
    with watch ih show ?thesis by (auto split: option.splits)
  qed (auto simp: deliver_event_def putEvent_def enableKubeEventCb_def reset_buf_def)
qed simp

text \<open>
  C39. The window between the two critical sections of a handler loses events: there is a run in which a
  handler reads that the callback is disabled, the callback is enabled, and only then the event is put into
  the buffer. In no state that can follow does the event leave the buffer: it is never sent.
\<close>

theorem event_stuck_in_buffer:
  "\<exists>s ev. (ri_step plain_lib demo_mc)\<^sup>*\<^sup>* (Idle, demo_informer) s \<and> ev \<notin> set (ri_emitted (snd s)) \<and>
     {s'. (ri_step plain_lib demo_mc)\<^sup>*\<^sup>* s s'} \<subseteq> {s'. eventBuf (snd s') = [ev]}"
proof -
  let ?w = "WObject (demo_pod ''a'' ''1'')"
  have "case begin_event plain_lib demo_mc ?w WatchEventAdded demo_informer of
      Some (ei1, Some ev) \<Rightarrow> \<not> eventCbEnabled ei1 \<and> eventBuf ei1 = [] \<and> ri_emitted ei1 = [] | _ \<Rightarrow> False"
    by code_simp
  then obtain ei1 ev where b: "begin_event plain_lib demo_mc ?w WatchEventAdded demo_informer = Some (ei1, Some ev)"
    and ei1: "\<not> eventCbEnabled ei1" "eventBuf ei1 = []" "ri_emitted ei1 = []"
    by (auto split: option.splits)
  let ?s = "(Idle, deliver_event False ev (enableKubeEventCb ei1))"
  have s1: "ri_step plain_lib demo_mc (Idle, demo_informer) (Fire ev, ei1)"
    using ri_step.watch [OF b] by simp
  have s2: "ri_step plain_lib demo_mc (Fire ev, ei1) (Deliver False ev, ei1)"
    using ri_step.read [of plain_lib demo_mc ev ei1] ei1(1) by simp
  have s3: "ri_step plain_lib demo_mc (Deliver False ev, ei1) (Deliver False ev, enableKubeEventCb ei1)"
    by (rule ri_step.enable)
  have s4: "ri_step plain_lib demo_mc (Deliver False ev, enableKubeEventCb ei1) ?s"
    by (rule ri_step.deliver)
  have path: "(ri_step plain_lib demo_mc)\<^sup>*\<^sup>* (Idle, demo_informer) ?s"
    by (rule converse_rtranclp_into_rtranclp, rule s1, rule converse_rtranclp_into_rtranclp, rule s2,
        rule converse_rtranclp_into_rtranclp, rule s3, rule r_into_rtranclp, rule s4)
  have s: "eventCbEnabled (snd ?s)" "eventBuf (snd ?s) = [ev]" "ri_emitted (snd ?s) = []" "\<forall>e. fst ?s \<noteq> Deliver False e"
    using ei1 by (simp_all add: deliver_event_def enableKubeEventCb_def)
  have "\<forall>s'. (ri_step plain_lib demo_mc)\<^sup>*\<^sup>* ?s s' \<longrightarrow> eventBuf (snd s') = [ev]"
    using enabled_buf_stays [OF _ s(1,4)] s(2) by simp
  moreover have "ev \<notin> set (ri_emitted (snd ?s))" using s(3) by simp
  ultimately show ?thesis using path by blast
qed

end
