(* ===== verification/Factory_Store.thy ===== *)
theory Factory_Store
  imports Resource_Informer
begin

text \<open>
  \<open>pkg/kube_events_manager/factory.go\<close>: shared informers. Informers with the same index share one factory;
  the last one to stop cancels it.

  A factory is an object: the store maps an index to a reference, the heap a reference to the factory. The
  informer goroutine of client-go (\<open>informer.Run\<close>) returns once its context is cancelled: \<open>run_exit\<close>.
  Whether \<open>AddEventHandler\<close> succeeds is an argument. \<open>Stop\<close> releases the lock while it waits for the goroutine,
  so it is two parts, \<open>stop_begin\<close> and \<open>stop_end\<close>; \<open>fs_step\<close> interleaves them with other calls. Tweaking of
  list options and the wait for the initial sync are the client's and are left out.
\<close>

datatype run_state = NotStarted | Running | Exited \<comment> \<open>the channel \<open>done\<close>: nil, open, closed\<close>

record Factory =
  handlerRegistrations :: "string list"
  f_cancelled :: bool
  f_done :: run_state

record FactoryStore =
  fs_heap :: "nat \<rightharpoonup> Factory"
  fs_next :: nat
  fs_data :: "FactoryIndex \<rightharpoonup> nat"
  fs_stoppedCh :: "FactoryIndex \<rightharpoonup> unit"
  fs_transform :: "(kube_object \<Rightarrow> kube_object option) option"

definition NewFactoryStore :: FactoryStore where
  "NewFactoryStore = \<lparr>fs_heap = Map.empty, fs_next = 0, fs_data = Map.empty, fs_stoppedCh = Map.empty,
     fs_transform = None\<rparr>"

definition WithTransform :: "(kube_object \<Rightarrow> kube_object option) \<Rightarrow> FactoryStore \<Rightarrow> FactoryStore" where
  "WithTransform fn c = c\<lparr>fs_transform := Some fn\<rparr>"

definition transformObject :: "FactoryStore \<Rightarrow> kube_object \<Rightarrow> kube_object option" where
  "transformObject c ob = (case fs_transform c of None \<Rightarrow> Some ob | Some fn \<Rightarrow> fn ob)"

definition f_upd :: "nat \<Rightarrow> (Factory \<Rightarrow> Factory) \<Rightarrow> FactoryStore \<Rightarrow> FactoryStore" where
  "f_upd a g c = c\<lparr>fs_heap := (fs_heap c)(a := map_option g (fs_heap c a))\<rparr>"

definition fs_Reset :: "FactoryStore \<Rightarrow> FactoryStore" where
  "fs_Reset c = c\<lparr>fs_heap := (\<lambda>a. map_option (\<lambda>f. if a \<in> ran (fs_data c) then f\<lparr>f_cancelled := True\<rparr> else f) (fs_heap c a)),
     fs_data := Map.empty, fs_stoppedCh := Map.empty\<rparr>"

definition fs_add :: "FactoryIndex \<Rightarrow> FactoryStore \<Rightarrow> FactoryStore" where
  "fs_add index c = c\<lparr>fs_heap := (fs_heap c)(fs_next c \<mapsto>
       \<lparr>handlerRegistrations = [], f_cancelled = False, f_done = NotStarted\<rparr>),
     fs_data := (fs_data c)(index \<mapsto> fs_next c), fs_next := fs_next c + 1\<rparr>"

definition fs_get :: "FactoryIndex \<Rightarrow> FactoryStore \<Rightarrow> nat \<times> FactoryStore" where
  "fs_get index c =
     (case fs_data c index of
        Some a \<Rightarrow> (a, c)
      | None \<Rightarrow> (fs_next c, fs_add index c))"

text \<open>The part of \<open>Start\<close> under the lock; the flag is success.\<close>

definition fs_Start :: "bool \<Rightarrow> string \<Rightarrow> FactoryIndex \<Rightarrow> FactoryStore \<Rightarrow> bool \<times> FactoryStore" where
  "fs_Start addOk informerId index c =
     (let (a, c) = fs_get index c;
          (a, c) = (if map_option f_done (fs_heap c a) = Some Exited
                    then fs_get index ((f_upd a (\<lambda>f. f\<lparr>f_cancelled := True\<rparr>) c)\<lparr>fs_data := (fs_data c)(index := None)\<rparr>)
                    else (a, c))
      in if \<not> addOk then (False, c)
         else (True, f_upd a (\<lambda>f. f\<lparr>handlerRegistrations := List.insert informerId (handlerRegistrations f),
                 f_done := (if f_done f = NotStarted then Running else f_done f)\<rparr>) c))"

text \<open>The first part of \<open>Stop\<close>: the factory to wait for, when this was its last handler.\<close>

definition stop_begin :: "string \<Rightarrow> FactoryIndex \<Rightarrow> FactoryStore \<Rightarrow> nat option \<times> FactoryStore" where
  "stop_begin informerId index c =
     (case fs_data c index of
        None \<Rightarrow> (None, c)
      | Some a \<Rightarrow>
          (case fs_heap c a of
             None \<Rightarrow> (None, c)
           | Some f \<Rightarrow>
               if informerId \<in> set (handlerRegistrations f) then
                 let regs = removeAll informerId (handlerRegistrations f) in
                 if regs = []
                 then (Some a, f_upd a (\<lambda>f. f\<lparr>handlerRegistrations := regs, f_cancelled := True\<rparr>) c)
                 else (None, f_upd a (\<lambda>f. f\<lparr>handlerRegistrations := regs\<rparr>) c)
               else (None, c)))"

text \<open>The second part: it removes whatever factory the index has now.\<close>

definition stop_end :: "FactoryIndex \<Rightarrow> FactoryStore \<Rightarrow> FactoryStore" where
  "stop_end index c = c\<lparr>fs_data := (fs_data c)(index := None), fs_stoppedCh := (fs_stoppedCh c)(index := None)\<rparr>"

definition run_exit :: "nat \<Rightarrow> FactoryStore \<Rightarrow> FactoryStore" where
  "run_exit a c = f_upd a (\<lambda>f. if f_cancelled f \<and> f_done f = Running then f\<lparr>f_done := Exited\<rparr> else f) c"

text \<open>\<open>Stop\<close> when no other call comes between.\<close>

definition fs_Stop :: "string \<Rightarrow> FactoryIndex \<Rightarrow> FactoryStore \<Rightarrow> FactoryStore" where
  "fs_Stop informerId index c =
     (case stop_begin informerId index c of
        (None, c) \<Rightarrow> c
      | (Some a, c) \<Rightarrow> stop_end index (run_exit a c))"

text \<open>\<open>WaitStopped\<close> returns at once: \<open>stoppedCh\<close> is never filled. The flag says that it blocks.\<close>

definition WaitStopped :: "FactoryIndex \<Rightarrow> FactoryStore \<Rightarrow> bool" where
  "WaitStopped index c = (fs_data c index \<noteq> None \<and> fs_stoppedCh c index \<noteq> None)"

section \<open>Interleaving\<close>

text \<open>\<open>waits\<close>: the calls of \<open>Stop\<close> that wait for a factory.\<close>

inductive fs_step :: "(FactoryIndex \<times> nat) list \<times> FactoryStore \<Rightarrow> (FactoryIndex \<times> nat) list \<times> FactoryStore \<Rightarrow> bool" where
  start: "fs_step (waits, c) (waits, snd (fs_Start addOk informerId index c))"
| stop_none: "stop_begin informerId index c = (None, c') \<Longrightarrow> fs_step (waits, c) (waits, c')"
| stop_wait: "stop_begin informerId index c = (Some a, c') \<Longrightarrow> fs_step (waits, c) ((index, a) # waits, c')"
| exit: "fs_step (waits, c) (waits, run_exit a c)"
| stop_done: "(index, a) \<in> set waits \<Longrightarrow> map_option f_done (fs_heap c a) \<noteq> Some Running \<Longrightarrow>
     fs_step (waits, c) (remove1 (index, a) waits, stop_end index c)"

section \<open>Calls that do not overlap\<close>

text \<open>An informer is served when it is registered in a running factory that the store knows.\<close>

definition served :: "FactoryStore \<Rightarrow> FactoryIndex \<Rightarrow> string \<Rightarrow> bool" where
  "served c index informerId \<longleftrightarrow>
     (case fs_data c index of
        None \<Rightarrow> False
      | Some a \<Rightarrow> (case fs_heap c a of
          None \<Rightarrow> False
        | Some f \<Rightarrow> informerId \<in> set (handlerRegistrations f) \<and> \<not> f_cancelled f \<and> f_done f = Running))"

definition factory_ok :: "Factory \<Rightarrow> bool" where
  "factory_ok f \<longleftrightarrow> distinct (handlerRegistrations f) \<and> \<not> f_cancelled f \<and> f_done f \<noteq> Exited \<and>
     (f_done f = Running \<longleftrightarrow> handlerRegistrations f \<noteq> [])"

definition store_inv :: "FactoryStore \<Rightarrow> bool" where
  "store_inv c \<longleftrightarrow>
     (\<forall>a. fs_next c \<le> a \<longrightarrow> fs_heap c a = None) \<and>
     (\<forall>i j a. fs_data c i = Some a \<longrightarrow> fs_data c j = Some a \<longrightarrow> i = j) \<and>
     (\<forall>index a. fs_data c index = Some a \<longrightarrow> (\<exists>f. fs_heap c a = Some f \<and> factory_ok f))"

lemma store_invD:
  assumes "store_inv c"
  shows "fs_next c \<le> a \<Longrightarrow> fs_heap c a = None"
    and "fs_data c i = Some a \<Longrightarrow> fs_data c j = Some a \<Longrightarrow> i = j"
    and "fs_data c i = Some a \<Longrightarrow> \<exists>f. fs_heap c a = Some f \<and> factory_ok f"
  using assms unfolding store_inv_def by blast+

lemma store_invI:
  assumes "\<And>a. fs_next c \<le> a \<Longrightarrow> fs_heap c a = None"
    and "\<And>i j a. fs_data c i = Some a \<Longrightarrow> fs_data c j = Some a \<Longrightarrow> i = j"
    and "\<And>i a. fs_data c i = Some a \<Longrightarrow> \<exists>f. fs_heap c a = Some f \<and> factory_ok f"
  shows "store_inv c"
  unfolding store_inv_def using assms by blast

lemma NewFactoryStore_inv: "store_inv NewFactoryStore"
  by (simp add: store_inv_def NewFactoryStore_def)

text \<open>The factory \<open>get\<close> finds or makes is not an exited one.\<close>

lemma fs_get_inv:
  assumes inv: "store_inv c" and get: "fs_get index c = (a, c1)"
  obtains f where "store_inv c1" "fs_data c1 = (fs_data c)(index \<mapsto> a)" "fs_heap c1 a = Some f" "factory_ok f"
    "\<forall>b. b \<noteq> a \<longrightarrow> fs_heap c1 b = fs_heap c b"
    "fs_data c index = Some a \<and> fs_heap c a = Some f \<or> fs_data c index = None \<and> handlerRegistrations f = []"
proof (cases "fs_data c index")
  case None
  then have c1: "a = fs_next c" "c1 = fs_add index c" using get by (auto simp: fs_get_def)
  have fresh: "fs_data c i \<noteq> Some (fs_next c)" for i
    using store_invD(3) [OF inv, of i "fs_next c"] store_invD(1) [OF inv, of "fs_next c"] by auto
  have "store_inv c1"
  proof (rule store_invI, goal_cases)
    case (1 b)
    then show ?case using store_invD(1) [OF inv, of b] by (auto simp: c1 fs_add_def)
  next
    case (2 i j b)
    then show ?case using store_invD(2) [OF inv, of i b j] fresh by (auto simp: c1 fs_add_def split: if_splits)
  next
    case (3 i b)
    then show ?case using store_invD(3) [OF inv, of i b] fresh [of i]
      by (cases "i = index") (auto simp: c1 fs_add_def factory_ok_def)
  qed
  then show ?thesis using None by (intro that [of "\<lparr>handlerRegistrations = [], f_cancelled = False, f_done = NotStarted\<rparr>"])
      (simp_all add: c1 fs_add_def factory_ok_def)
next
  case (Some b)
  then have c1: "a = b" "c1 = c" using get by (auto simp: fs_get_def)
  from store_invD(3) [OF inv Some] obtain f where "fs_heap c b = Some f" "factory_ok f" by auto
  with Some inv show ?thesis by (intro that [of f]) (auto simp: c1)
qed

lemma f_upd_inv:
  assumes inv: "store_inv c" and a: "fs_heap c a = Some f" "factory_ok (g f)"
  shows "store_inv (f_upd a g c)"
proof (rule store_invI, goal_cases)
  case (1 b)
  then show ?case using store_invD(1) [OF inv, of b] a by (auto simp: f_upd_def)
next
  case (2 i j b)
  then show ?case using store_invD(2) [OF inv, of i b j] by (simp add: f_upd_def)
next
  case (3 i b)
  then show ?case using store_invD(3) [OF inv, of i b] a by (auto simp: f_upd_def)
qed

lemma Start_inv:
  assumes inv: "store_inv c"
  shows "store_inv (snd (fs_Start addOk informerId index c))"
    and "served (snd (fs_Start addOk informerId index c)) i k \<longleftrightarrow>
      served c i k \<or> addOk \<and> (i, k) = (index, informerId)"
proof -
  obtain a c1 where g: "fs_get index c = (a, c1)" by fastforce
  obtain f where f: "store_inv c1" "fs_data c1 = (fs_data c)(index \<mapsto> a)"
      "fs_heap c1 a = Some f" "factory_ok f" "\<forall>b. b \<noteq> a \<longrightarrow> fs_heap c1 b = fs_heap c b"
      "fs_data c index = Some a \<and> fs_heap c a = Some f \<or> fs_data c index = None \<and> handlerRegistrations f = []"
    by (rule fs_get_inv [OF inv g]) (rule that)
  let ?g = "\<lambda>f. f\<lparr>handlerRegistrations := List.insert informerId (handlerRegistrations f),
      f_done := (if f_done f = NotStarted then Running else f_done f)\<rparr>"
  have eq: "snd (fs_Start addOk informerId index c) = (if addOk then f_upd a ?g c1 else c1)"
    using f(3,4) by (simp add: fs_Start_def g factory_ok_def)
  have ok: "factory_ok (?g f)" "f_done (?g f) = Running" "\<not> f_cancelled (?g f)"
  proof -
    have ne: "List.insert informerId xs \<noteq> []" for xs by (cases xs) (auto simp: List.insert_def)
    have run: "(if f_done f = NotStarted then Running else f_done f) = Running"
      using f(4) unfolding factory_ok_def by (cases "f_done f") simp_all
    show "factory_ok (?g f)" "f_done (?g f) = Running" "\<not> f_cancelled (?g f)"
      using f(4) run by (simp_all add: factory_ok_def ne distinct_insert)
  qed
  show "store_inv (snd (fs_Start addOk informerId index c))"
    unfolding eq using f(1) f_upd_inv [where g = ?g, OF f(1,3) ok(1)] by simp
  show "served (snd (fs_Start addOk informerId index c)) i k \<longleftrightarrow>
      served c i k \<or> addOk \<and> (i, k) = (index, informerId)"
  proof (cases "i = index")
    case True
    have old: "served c index k \<longleftrightarrow> k \<in> set (handlerRegistrations f)"
      using f(4,6) by (auto simp: served_def factory_ok_def)
    show ?thesis
    proof (cases addOk)
      case True
      with ok(2,3) f(2,3) \<open>i = index\<close> old show ?thesis unfolding eq by (auto simp: served_def f_upd_def)
    next
      case False
      with f(2,3,4) \<open>i = index\<close> old show ?thesis unfolding eq by (auto simp: served_def factory_ok_def)
    qed
  next
    case False
    have "b \<noteq> a" if "fs_data c i = Some b" for b
      using store_invD(2) [OF f(1), of i b index] f(2) that False by auto
    with f(2,5) False show ?thesis unfolding eq by (auto simp: served_def f_upd_def split: option.splits)
  qed
qed

lemma Stop_inv:
  assumes inv: "store_inv c"
  shows "store_inv (fs_Stop informerId index c)"
    and "served (fs_Stop informerId index c) i k \<longleftrightarrow> served c i k \<and> (i, k) \<noteq> (index, informerId)"
proof -
  have "store_inv (fs_Stop informerId index c) \<and>
      (served (fs_Stop informerId index c) i k \<longleftrightarrow> served c i k \<and> (i, k) \<noteq> (index, informerId))"
  proof (cases "\<exists>a f. fs_data c index = Some a \<and> fs_heap c a = Some f \<and> informerId \<in> set (handlerRegistrations f)")
    case False
    then have "fs_Stop informerId index c = c" by (auto simp: fs_Stop_def stop_begin_def split: option.splits)
    moreover have "served c i k \<Longrightarrow> (i, k) \<noteq> (index, informerId)"
      using False by (auto simp: served_def split: option.splits)
    ultimately show ?thesis using inv by auto
  next
    case True
    then obtain a f where a: "fs_data c index = Some a" "fs_heap c a = Some f" "informerId \<in> set (handlerRegistrations f)"
      by blast
    have ok: "factory_ok f" using store_invD(3) [OF inv a(1)] a(2) by simp
    have other: "b \<noteq> a" if "fs_data c j = Some b" "j \<noteq> index" for j b
      using store_invD(2) [OF inv, of j b index] that a(1) by auto
    let ?regs = "removeAll informerId (handlerRegistrations f)"
    show ?thesis
    proof (cases "?regs = []")
      case last: True
      define c2 where "c2 = fs_Stop informerId index c"
      have c2: "fs_data c2 = (fs_data c)(index := None)" "fs_next c2 = fs_next c" "\<forall>b. b \<noteq> a \<longrightarrow> fs_heap c2 b = fs_heap c b"
          "fs_heap c2 a \<noteq> None"
        using a last unfolding c2_def
        by (auto simp: fs_Stop_def stop_begin_def stop_end_def run_exit_def f_upd_def)
      have "store_inv c2"
      proof (rule store_invI, goal_cases)
        case (1 b)
        then show ?case using c2 a store_invD(1) [OF inv, of b] by (cases "b = a") auto
      next
        case (2 i j b)
        then show ?case using c2 store_invD(2) [OF inv, of i b j] by (auto split: if_splits)
      next
        case (3 j b)
        then show ?case using c2 other [of j b] store_invD(3) [OF inv, of j b] by (auto split: if_splits)
      qed
      moreover have "served c2 i k \<longleftrightarrow> served c i k \<and> (i, k) \<noteq> (index, informerId)"
      proof (cases "i = index")
        case True
        have "set (handlerRegistrations f) \<subseteq> {informerId}" using last by (auto simp: removeAll_filter_not_eq filter_empty_conv)
        with True c2 a show ?thesis by (auto simp: served_def)
      next
        case False
        with c2 other show ?thesis by (auto simp: served_def split: option.splits)
      qed
      ultimately show ?thesis by (simp add: c2_def)
    next
      case more: False
      let ?g = "\<lambda>f. f\<lparr>handlerRegistrations := ?regs\<rparr>"
      have eq: "fs_Stop informerId index c = f_upd a ?g c"
        using a more by (simp add: fs_Stop_def stop_begin_def)
      have "factory_ok (?g f)" using ok more a(3) by (auto simp: factory_ok_def distinct_removeAll)
      from f_upd_inv [where g = ?g, OF inv a(2) this] have "store_inv (fs_Stop informerId index c)" by (simp add: eq)
      moreover have "served (f_upd a ?g c) i k \<longleftrightarrow> served c i k \<and> (i, k) \<noteq> (index, informerId)"
      proof (cases "i = index")
        case True
        with a show ?thesis by (auto simp: served_def f_upd_def)
      next
        case False
        with other show ?thesis by (auto simp: served_def f_upd_def split: option.splits)
      qed
      ultimately show ?thesis by (simp add: eq)
    qed
  qed
  then show "store_inv (fs_Stop informerId index c)"
    "served (fs_Stop informerId index c) i k \<longleftrightarrow> served c i k \<and> (i, k) \<noteq> (index, informerId)" by blast+
qed

section \<open>Properties\<close>

datatype fs_op = FStart bool string FactoryIndex | FStop string FactoryIndex

fun fs_do :: "fs_op \<Rightarrow> FactoryStore \<Rightarrow> FactoryStore" where
  "fs_do (FStart addOk informerId index) c = snd (fs_Start addOk informerId index c)"
| "fs_do (FStop informerId index) c = fs_Stop informerId index c"

fun want_do :: "fs_op \<Rightarrow> (FactoryIndex \<times> string) set \<Rightarrow> (FactoryIndex \<times> string) set" where
  "want_do (FStart addOk informerId index) W = (if addOk then insert (index, informerId) W else W)"
| "want_do (FStop informerId index) W = W - {(index, informerId)}"


definition demo_index :: FactoryIndex where
  "demo_index = \<lparr>fi_GVR = ''v1/pods'', fi_Namespace = [], fi_FieldSelector = [], fi_LabelSelector = []\<rparr>"

definition demo_stopping :: FactoryStore where
  "demo_stopping = snd (stop_begin ''a'' demo_index (snd (fs_Start True ''a'' demo_index NewFactoryStore)))"

definition started_while_stopping :: FactoryStore where
  "started_while_stopping =
     stop_end demo_index (run_exit 0 (snd (fs_Start True ''b'' demo_index demo_stopping)))"

definition started_after_exit :: FactoryStore where
  "started_after_exit =
     stop_end demo_index (snd (fs_Start True ''b'' demo_index (run_exit 0 demo_stopping)))"

lemma demo_stopping_run: "fs_step\<^sup>*\<^sup>* ([], NewFactoryStore) ([(demo_index, 0)], demo_stopping)"
proof -
  let ?c = "snd (fs_Start True ''a'' demo_index NewFactoryStore)"
  have "fst (stop_begin ''a'' demo_index ?c) = Some 0" by code_simp
  then have "stop_begin ''a'' demo_index ?c = (Some 0, demo_stopping)" by (simp add: demo_stopping_def prod_eq_iff)
  from fs_step.stop_wait [OF this, of "[]"] have "fs_step ([], ?c) ([(demo_index, 0)], demo_stopping)" .
  moreover have "fs_step ([], NewFactoryStore) ([], ?c)" by (rule fs_step.start)
  ultimately show ?thesis by (blast intro: converse_rtranclp_into_rtranclp)
qed

lemma stop_done_last:
  assumes "map_option f_done (fs_heap c 0) \<noteq> Some Running"
  shows "fs_step ([(demo_index, 0)], c) ([], stop_end demo_index c)"
  using fs_step.stop_done [of demo_index 0 "[(demo_index, 0)]" c] assms by simp

text \<open>
  Calls that overlap do not keep this. A \<open>Stop\<close> of the last handler cancels the factory and waits for it
  without the lock. A \<open>Start\<close> in that time succeeds on the cancelled factory (first part), and its informer
  gets no events once \<open>Stop\<close> is done; or, after the goroutine has exited, it makes a new factory, which the
  waiting \<open>Stop\<close> then drops from the store (second part): its goroutine runs on, and stopping
  the informer that uses it has no effect.
\<close>

lemma factory_stop_races:
  "(fs_step\<^sup>*\<^sup>* ([], NewFactoryStore) ([], started_while_stopping) \<and>
    fst (fs_Start True ''b'' demo_index demo_stopping) \<and> \<not> served started_while_stopping demo_index ''b'') \<and>
   (fs_step\<^sup>*\<^sup>* ([], NewFactoryStore) ([], started_after_exit) \<and>
    fs_heap started_after_exit 1 = Some \<lparr>handlerRegistrations = [''b''], f_cancelled = False, f_done = Running\<rparr> \<and>
    fs_Stop ''b'' demo_index started_after_exit = started_after_exit)"
proof (intro conjI)
  let ?c = "snd (fs_Start True ''b'' demo_index demo_stopping)"
  have "fs_step ([(demo_index, 0)], demo_stopping) ([(demo_index, 0)], ?c)" by (rule fs_step.start)
  moreover have "fs_step ([(demo_index, 0)], ?c) ([(demo_index, 0)], run_exit 0 ?c)" by (rule fs_step.exit)
  moreover have "map_option f_done (fs_heap (run_exit 0 ?c) 0) \<noteq> Some Running" by code_simp
  then have "fs_step ([(demo_index, 0)], run_exit 0 ?c) ([], started_while_stopping)"
    unfolding started_while_stopping_def by (rule stop_done_last)
  ultimately show "fs_step\<^sup>*\<^sup>* ([], NewFactoryStore) ([], started_while_stopping)"
    using demo_stopping_run by (blast intro: rtranclp.rtrancl_into_rtrancl)
  show "fst (fs_Start True ''b'' demo_index demo_stopping)" by code_simp
  show "\<not> served started_while_stopping demo_index ''b''" by code_simp
next
  let ?c = "snd (fs_Start True ''b'' demo_index (run_exit 0 demo_stopping))"
  have "fs_step ([(demo_index, 0)], demo_stopping) ([(demo_index, 0)], run_exit 0 demo_stopping)" by (rule fs_step.exit)
  moreover have "fs_step ([(demo_index, 0)], run_exit 0 demo_stopping) ([(demo_index, 0)], ?c)" by (rule fs_step.start)
  moreover have "map_option f_done (fs_heap ?c 0) \<noteq> Some Running" by code_simp
  then have "fs_step ([(demo_index, 0)], ?c) ([], started_after_exit)"
    unfolding started_after_exit_def by (rule stop_done_last)
  ultimately show "fs_step\<^sup>*\<^sup>* ([], NewFactoryStore) ([], started_after_exit)"
    using demo_stopping_run by (blast intro: rtranclp.rtrancl_into_rtrancl)
  show "fs_heap started_after_exit 1 = Some \<lparr>handlerRegistrations = [''b''], f_cancelled = False, f_done = Running\<rparr>"
    by code_simp
  show "fs_Stop ''b'' demo_index started_after_exit = started_after_exit"
    by (simp add: fs_Stop_def stop_begin_def started_after_exit_def stop_end_def)
qed

text \<open>No operation fills \<open>stoppedCh\<close>, so \<open>WaitStopped\<close> never waits.\<close>

lemma stoppedCh_empty: "fs_step s s' \<Longrightarrow> fs_stoppedCh (snd s) = Map.empty \<Longrightarrow> fs_stoppedCh (snd s') = Map.empty"
proof (induction rule: fs_step.induct)
  case (start waits c addOk informerId index)
  then show ?case by (auto simp: fs_Start_def fs_get_def fs_add_def f_upd_def Let_def split: option.splits)
qed (auto simp: stop_begin_def stop_end_def run_exit_def f_upd_def Let_def split: option.splits if_splits)

lemma WaitStopped_returns:
  assumes "fs_step\<^sup>*\<^sup>* ([], NewFactoryStore) s" shows "\<not> WaitStopped index (snd s)"
proof -
  have "fs_stoppedCh (snd s) = Map.empty"
    using assms by (induction rule: rtranclp_induct) (auto simp: NewFactoryStore_def dest: stoppedCh_empty)
  then show ?thesis by (simp add: WaitStopped_def)
qed

end
