(* ===== verification/Kube_Monitor.thy ===== *)
theory Kube_Monitor
  imports Factory_Store
begin

text \<open>
  \<open>pkg/kube_events_manager/monitor.go\<close>, \<open>kube_events_manager.go\<close> and the callbacks of
  \<open>namespace_informer.go\<close>: a monitor is a set of informers, some for fixed namespaces, some for the
  namespaces that match a label selector, which come and go.

  What the cluster answers is in \<open>cluster_env\<close>. Contexts are represented by what depends on them: the
  namespaces that have a cancel function, and whether the monitor is started and stopped. \<open>sort.Sort\<close> is not stable, so
  the order of equal objects is open: \<open>sorter\<close> is any function that sorts.
\<close>

record cluster_env =
  env_lib :: filter_lib
  env_api :: cluster_api
  env_transform :: "kube_object \<Rightarrow> kube_object option"
  env_namespaces :: "string list option" \<comment> \<open>namespaces that match the label selector; \<open>None\<close>: an error\<close>

record monitor =
  mon_Config :: MonitorConfig
  ResourceInformers :: "informer list"
  hasNamespaceInformer :: bool
  VaryingInformers :: "(string \<times> informer list) list"
  eventsEnabled :: bool
  staticNamespaces :: "string list"
  cancelForNs :: "string list"
  mon_started :: bool
  mon_cancelled :: bool

definition NewMonitor :: "MonitorConfig \<Rightarrow> monitor" where
  "NewMonitor config = \<lparr>mon_Config = config, ResourceInformers = [], hasNamespaceInformer = False,
     VaryingInformers = [], eventsEnabled = False, staticNamespaces = [], cancelForNs = [], mon_started = False,
     mon_cancelled = False\<rparr>"

fun create_each :: "cluster_env \<Rightarrow> MonitorConfig \<Rightarrow> string \<Rightarrow> string list \<Rightarrow> informer list option" where
  "create_each env mc namespace [] = Some []"
| "create_each env mc namespace (objName # names) = do {
     ei \<leftarrow> createSharedInformer (env_lib env) (env_api env) mc (env_transform env)
            (newResourceInformer namespace objName True);
     eis \<leftarrow> create_each env mc namespace names;
     Some (ei # eis)
   }"

definition CreateInformersForNamespace :: "cluster_env \<Rightarrow> MonitorConfig \<Rightarrow> string \<Rightarrow> informer list option" where
  "CreateInformersForNamespace env mc namespace =
     create_each env mc namespace (if mc_names mc \<noteq> [] then mc_names mc else [[]])"

text \<open>The callbacks given to the namespace informer. An error of the creation is logged, and no informers are stored.\<close>

definition created_for :: "cluster_env \<Rightarrow> monitor \<Rightarrow> string \<Rightarrow> informer list" where
  "created_for env m nsName =
     (case CreateInformersForNamespace env (mon_Config m) nsName of None \<Rightarrow> [] | Some eis \<Rightarrow> eis)"

definition ns_added :: "cluster_env \<Rightarrow> string \<Rightarrow> monitor \<Rightarrow> monitor" where
  "ns_added env nsName m =
     (if nsName \<in> set (staticNamespaces m) then m
      else if has_key (VaryingInformers m) nsName then m
      else
        let eis = created_for env m nsName;
            eis = (if eventsEnabled m then map enableKubeEventCb eis else eis)
        in m\<lparr>VaryingInformers := AList.update nsName eis (VaryingInformers m),
             cancelForNs := List.insert nsName (cancelForNs m)\<rparr>)"

definition ns_deleted :: "string \<Rightarrow> monitor \<Rightarrow> monitor" where
  "ns_deleted nsName m =
     (if nsName \<in> set (staticNamespaces m) then m
      else if nsName \<notin> set (cancelForNs m) then m
      else m\<lparr>VaryingInformers := AList.delete nsName (VaryingInformers m),
             cancelForNs := removeAll nsName (cancelForNs m)\<rparr>)"

fun create_static :: "cluster_env \<Rightarrow> string list \<Rightarrow> monitor \<Rightarrow> monitor option" where
  "create_static env [] m = Some m"
| "create_static env (nsName # rest) m =
     (let m = (if nsName \<noteq> [] then m\<lparr>staticNamespaces := List.insert nsName (staticNamespaces m)\<rparr> else m) in
      do {
        eis \<leftarrow> CreateInformersForNamespace env (mon_Config m) nsName;
        create_static env rest (m\<lparr>ResourceInformers := ResourceInformers m @ eis\<rparr>)
      })"

definition create_varying :: "cluster_env \<Rightarrow> string \<Rightarrow> monitor \<Rightarrow> monitor" where
  "create_varying env nsName m =
     (if nsName \<in> set (staticNamespaces m) then m
      else m\<lparr>VaryingInformers := AList.update nsName (created_for env m nsName) (VaryingInformers m)\<rparr>)"

definition CreateInformers :: "cluster_env \<Rightarrow> monitor \<Rightarrow> monitor option" where
  "CreateInformers env m =
     (if mc_Kind (mon_Config m) = [] \<and> mc_ApiVersion (mon_Config m) = [] then Some m
      else do {
        m \<leftarrow> create_static env (mc_namespaces (mon_Config m)) m;
        case Option.bind (mc_NamespaceSelector (mon_Config m)) ns_LabelSelector of
          None \<Rightarrow> Some m
        | Some sel \<Rightarrow> do {
            _ \<leftarrow> FormatLabelSelector (env_api env) (Some sel);
            existed \<leftarrow> env_namespaces env;
            Some (fold (create_varying env) existed (m\<lparr>hasNamespaceInformer := True\<rparr>))
          }
      })"

definition all_informers :: "monitor \<Rightarrow> informer list" where
  "all_informers m = ResourceInformers m @ concat (map snd (VaryingInformers m))"

definition map_informers :: "(informer \<Rightarrow> informer) \<Rightarrow> monitor \<Rightarrow> monitor" where
  "map_informers g m = m\<lparr>ResourceInformers := map g (ResourceInformers m),
     VaryingInformers := map (\<lambda>(ns, eis). (ns, map g eis)) (VaryingInformers m)\<rparr>"

text \<open>Each informer is read in turn; \<open>perm\<close> orders the ranges over the caches and over the namespaces.\<close>

definition mon_Snapshot :: "iteration \<Rightarrow> (ObjectAndFilterResult list \<Rightarrow> ObjectAndFilterResult list) \<Rightarrow> monitor
    \<Rightarrow> ObjectAndFilterResult list \<times> monitor" where
  "mon_Snapshot perm sorter m =
     (let eis = ResourceInformers m @ concat (map snd (go_range perm [0] (VaryingInformers m)));
          objects = concat (map (\<lambda>(i, ei). copy_cache perm [1, i] ei) (zip [0..<length eis] eis))
      in (sorter objects, map_informers reset_buf m))"

definition mon_EnableKubeEventCb :: "monitor \<Rightarrow> monitor" where
  "mon_EnableKubeEventCb m = (map_informers enableKubeEventCb m)\<lparr>eventsEnabled := True\<rparr>"

definition mon_Start :: "monitor \<Rightarrow> monitor" where
  "mon_Start m = m\<lparr>mon_started := True, mon_cancelled := False,
     cancelForNs := fold List.insert (map_keys (VaryingInformers m)) (cancelForNs m)\<rparr>"

definition mon_Stop :: "monitor \<Rightarrow> monitor" where
  "mon_Stop m = m\<lparr>mon_cancelled := True\<rparr>"

definition SnapshotOperations :: "monitor \<Rightarrow> CachedObjectsInfo \<times> CachedObjectsInfo \<times> monitor" where
  "SnapshotOperations m =
     (let total = fold (\<lambda>ei t. info_add (cachedObjectsInfo ei) t) (all_informers m) zero_info;
          lst = fold (\<lambda>ei t. info_add (cachedObjectsIncrement ei) t) (all_informers m) zero_info
      in (total, lst, map_informers (\<lambda>ei. snd (getCachedObjectsInfoIncrement ei)) m))"

section \<open>The manager\<close>

type_synonym kubeEventsManager = "string \<rightharpoonup> monitor"

definition AddMonitor :: "cluster_env \<Rightarrow> MonitorConfig \<Rightarrow> kubeEventsManager \<Rightarrow> kubeEventsManager option" where
  "AddMonitor env mc mgr = do {
     mon \<leftarrow> CreateInformers env (NewMonitor mc);
     Some (mgr(mc_MonitorId mc \<mapsto> mon))
   }"

definition HasMonitor :: "string \<Rightarrow> kubeEventsManager \<Rightarrow> bool" where
  "HasMonitor monitorID mgr = (mgr monitorID \<noteq> None)"

text \<open>\<open>None\<close>: there is no such monitor and its nil value is used.\<close>

definition StartMonitor :: "string \<Rightarrow> kubeEventsManager \<Rightarrow> kubeEventsManager option" where
  "StartMonitor monitorID mgr = do {
     mon \<leftarrow> mgr monitorID;
     Some (mgr(monitorID \<mapsto> mon_Start mon))
   }"

definition StopMonitor :: "string \<Rightarrow> kubeEventsManager \<Rightarrow> kubeEventsManager" where
  "StopMonitor monitorID mgr = (if mgr monitorID \<noteq> None then mgr(monitorID := None) else mgr)"

section \<open>What a monitor goes through\<close>

text \<open>
  Changes of the namespaces (only once the monitor is started), watch events at any informer, snapshots and enabling of
  the callback, each taken as a whole.
\<close>

definition upd_informer :: "nat \<Rightarrow> (informer \<Rightarrow> informer) \<Rightarrow> informer list \<Rightarrow> informer list" where
  "upd_informer i g eis = (if i < length eis then eis[i := g (eis ! i)] else eis)"

inductive mon_step :: "cluster_env \<Rightarrow> monitor \<Rightarrow> monitor \<Rightarrow> bool" for env where
  added: "mon_started m \<Longrightarrow> mon_step env m (ns_added env nsName m)"
| deleted: "mon_started m \<Longrightarrow> mon_step env m (ns_deleted nsName m)"
| watch_static: "i < length (ResourceInformers m) \<Longrightarrow>
     handleWatchEvent (env_lib env) (mon_Config m) object eventType (ResourceInformers m ! i) = Some ei \<Longrightarrow>
     mon_step env m (m\<lparr>ResourceInformers := (ResourceInformers m)[i := ei]\<rparr>)"
| watch_varying: "map_of (VaryingInformers m) ns = Some eis \<Longrightarrow> i < length eis \<Longrightarrow>
     handleWatchEvent (env_lib env) (mon_Config m) object eventType (eis ! i) = Some ei \<Longrightarrow>
     mon_step env m (m\<lparr>VaryingInformers := AList.update ns (eis[i := ei]) (VaryingInformers m)\<rparr>)"
| snapshot: "mon_step env m (snd (mon_Snapshot perm sorter m))"
| enable: "mon_step env m (mon_EnableKubeEventCb m)"
| start: "mon_step env m (mon_Start m)"
| stop: "mon_step env m (mon_Stop m)"

definition mon_inv :: "monitor \<Rightarrow> bool" where
  "mon_inv m \<longleftrightarrow>
     distinct (map_keys (VaryingInformers m)) \<and>
     set (map_keys (VaryingInformers m)) \<inter> set (staticNamespaces m) = {} \<and>
     (mon_started m \<longrightarrow> set (cancelForNs m) = set (map_keys (VaryingInformers m))) \<and>
     set (cancelForNs m) \<subseteq> set (map_keys (VaryingInformers m)) \<and>
     (eventsEnabled m \<longrightarrow> (\<forall>ei \<in> set (all_informers m). eventCbEnabled ei))"

lemma all_informers_map [simp]: "all_informers (map_informers g m) = map g (all_informers m)"
  by (simp add: all_informers_def map_informers_def map_concat comp_def case_prod_beta)

lemma map_informers_sel [simp]:
  "map_keys (VaryingInformers (map_informers g m)) = map_keys (VaryingInformers m)"
  "staticNamespaces (map_informers g m) = staticNamespaces m" "cancelForNs (map_informers g m) = cancelForNs m"
  "mon_started (map_informers g m) = mon_started m" "eventsEnabled (map_informers g m) = eventsEnabled m"
  by (simp_all add: map_informers_def map_keys_def case_prod_beta comp_def)

lemma enable_enabled [simp]: "eventCbEnabled (enableKubeEventCb ei)"
proof -
  have keep: "eventCbEnabled (fold putEvent evs e) = eventCbEnabled e" for evs e
    by (induction evs arbitrary: e) (simp_all add: putEvent_def)
  show ?thesis by (simp add: enableKubeEventCb_def keep)
qed

lemma reset_buf_enabled [simp]: "eventCbEnabled (reset_buf ei) = eventCbEnabled ei"
  by (simp add: reset_buf_def)

lemma handle_keeps_enabled:
  assumes "handleWatchEvent lib mc object ty ei = Some ei'" shows "eventCbEnabled ei' = eventCbEnabled ei"
proof -
  from assms obtain ei1 ev where b: "begin_event lib mc object ty ei = Some (ei1, ev)"
      "ei' = (case ev of None \<Rightarrow> ei1 | Some e \<Rightarrow> deliver_event (eventCbEnabled ei1) e ei1)"
    by (auto simp: handleWatchEvent_def bind_eq_Some_conv)
  from b(1) have "eventCbEnabled ei1 = eventCbEnabled ei"
    by (cases rule: begin_event_cases) (simp_all add: update_cache_sel)
  with b(2) show ?thesis by (auto simp: deliver_event_def putEvent_def split: option.splits)
qed

lemma set_fold_insert [simp]: "set (fold List.insert xs ys) = set xs \<union> set ys"
  by (induction xs arbitrary: ys) auto

lemma all_informers_update:
  "set (all_informers (m\<lparr>VaryingInformers := AList.update ns eis (VaryingInformers m), cancelForNs := cs\<rparr>)) \<subseteq>
     set eis \<union> set (all_informers m)"
  by (auto simp: all_informers_def dest!: set_update_cases)

lemma mon_invD:
  assumes "mon_inv m"
  shows "distinct (map_keys (VaryingInformers m))" and "set (map_keys (VaryingInformers m)) \<inter> set (staticNamespaces m) = {}"
    and "mon_started m \<Longrightarrow> set (cancelForNs m) = set (map_keys (VaryingInformers m))"
    and "set (cancelForNs m) \<subseteq> set (map_keys (VaryingInformers m))"
    and "eventsEnabled m \<Longrightarrow> ei \<in> set (all_informers m) \<Longrightarrow> eventCbEnabled ei"
  using assms unfolding mon_inv_def by blast+

lemma mon_invI:
  assumes "distinct (map_keys (VaryingInformers m))" and "set (map_keys (VaryingInformers m)) \<inter> set (staticNamespaces m) = {}"
    and "mon_started m \<Longrightarrow> set (cancelForNs m) = set (map_keys (VaryingInformers m))"
    and "set (cancelForNs m) \<subseteq> set (map_keys (VaryingInformers m))"
    and "\<And>ei. eventsEnabled m \<Longrightarrow> ei \<in> set (all_informers m) \<Longrightarrow> eventCbEnabled ei"
  shows "mon_inv m"
  using assms unfolding mon_inv_def by blast

lemma map_informers_inv:
  assumes "mon_inv m" and "\<And>ei. eventCbEnabled ei \<Longrightarrow> eventCbEnabled (g ei)" shows "mon_inv (map_informers g m)"
  by (rule mon_invI) (use mon_invD [OF assms(1)] assms(2) in auto)

lemma ns_added_inv:
  assumes "mon_inv m" shows "mon_inv (ns_added env nsName m)"
proof (cases "nsName \<in> set (staticNamespaces m) \<or> has_key (VaryingInformers m) nsName")
  case True
  then show ?thesis using assms by (auto simp: ns_added_def)
next
  case False
  define eis where "eis = (if eventsEnabled m then map enableKubeEventCb (created_for env m nsName) else created_for env m nsName)"
  have eq: "ns_added env nsName m = m\<lparr>VaryingInformers := AList.update nsName eis (VaryingInformers m),
      cancelForNs := List.insert nsName (cancelForNs m)\<rparr>"
    using False by (simp add: ns_added_def eis_def Let_def)
  have "eventCbEnabled ei" if "eventsEnabled m" "ei \<in> set eis" for ei using that by (auto simp: eis_def)
  with mon_invD [OF assms] False all_informers_update [where m = m and ns = nsName and eis = eis and cs = "List.insert nsName (cancelForNs m)"] show ?thesis
    unfolding eq by (intro mon_invI) auto
qed

lemma ns_deleted_inv:
  assumes "mon_inv m" shows "mon_inv (ns_deleted nsName m)"
proof -
  have "set (all_informers (m\<lparr>VaryingInformers := AList.delete nsName (VaryingInformers m),
      cancelForNs := removeAll nsName (cancelForNs m)\<rparr>)) \<subseteq> set (all_informers m)"
    by (auto simp: all_informers_def set_delete)
  with mon_invD [OF assms] assms show ?thesis
    unfolding ns_deleted_def by (auto intro!: mon_invI)
qed

lemma mon_step_inv: "mon_step env m m' \<Longrightarrow> mon_inv m \<Longrightarrow> mon_inv m'"
proof (induction rule: mon_step.induct)
  case (added m nsName)
  then show ?case by (simp add: ns_added_inv)
next
  case (deleted m nsName)
  then show ?case by (simp add: ns_deleted_inv)
next
  case (watch_static i m object eventType ei)
  note inv = mon_invD [OF watch_static(3)]
  have "eventCbEnabled ei" if "eventsEnabled m"
    using inv(5) [OF that, of "ResourceInformers m ! i"] handle_keeps_enabled [OF watch_static(2)] watch_static(1)
    by (simp add: all_informers_def)
  moreover have "set (all_informers (m\<lparr>ResourceInformers := (ResourceInformers m)[i := ei]\<rparr>)) \<subseteq> insert ei (set (all_informers m))"
    using set_update_subset_insert [of "ResourceInformers m" i ei] by (auto simp: all_informers_def)
  ultimately show ?case using inv by (intro mon_invI) auto
next
  case (watch_varying m ns eis i object eventType ei)
  note inv = mon_invD [OF watch_varying(4)]
  have mem: "(ns, eis) \<in> set (VaryingInformers m)" using watch_varying(1) by (rule map_of_SomeD)
  then have key: "ns \<in> set (map_keys (VaryingInformers m))" by (force simp: map_keys_def)
  have sub: "set eis \<subseteq> set (all_informers m)" using mem by (force simp: all_informers_def)
  have nth: "eis ! i \<in> set (all_informers m)" using sub watch_varying(2) nth_mem by blast
  have "eventCbEnabled e" if "eventsEnabled m" "e \<in> set (eis[i := ei])" for e
    using that nth inv(5) [OF that(1)] handle_keeps_enabled [OF watch_varying(3)] sub watch_varying(2)
      set_update_subset_insert [of eis i ei] by auto
  moreover have "set (all_informers (m\<lparr>VaryingInformers := AList.update ns (eis[i := ei]) (VaryingInformers m)\<rparr>)) \<subseteq>
      set (eis[i := ei]) \<union> set (all_informers m)"
    using all_informers_update [where m = m and ns = ns and eis = "eis[i := ei]" and cs = "cancelForNs m"] by simp
  ultimately show ?case using inv key by (intro mon_invI) (auto simp: insert_absorb)
next
  case (snapshot m perm sorter)
  then show ?case by (simp add: mon_Snapshot_def Let_def map_informers_inv)
next
  case (enable m)
  have "all_informers (mon_EnableKubeEventCb m) = map enableKubeEventCb (all_informers m)"
    using all_informers_map [of enableKubeEventCb m] by (simp add: mon_EnableKubeEventCb_def all_informers_def)
  with mon_invD [OF enable] show ?case
    by (intro mon_invI) (auto simp: mon_EnableKubeEventCb_def)
next
  case (start m)
  then show ?case using mon_invD [OF start] by (intro mon_invI) (auto simp: mon_Start_def all_informers_def)
next
  case (stop m)
  then show ?case using mon_invD [OF stop] by (intro mon_invI) (auto simp: mon_Stop_def all_informers_def)
qed

lemma create_static_sel:
  "create_static env nss m = Some m' \<Longrightarrow> VaryingInformers m' = VaryingInformers m \<and> cancelForNs m' = cancelForNs m \<and>
     eventsEnabled m' = eventsEnabled m \<and> mon_started m' = mon_started m"
  by (induction env nss m rule: create_static.induct) (auto simp: Let_def bind_eq_Some_conv split: if_splits)

lemma CreateInformers_inv:
  assumes "CreateInformers env (NewMonitor mc) = Some m" shows "mon_inv m"
proof -
  have vary: "mon_inv (fold (create_varying env) nss m1) \<and> \<not> mon_started (fold (create_varying env) nss m1)"
    if "mon_inv m1" "\<not> mon_started m1" "\<not> eventsEnabled m1" for nss m1
    using that
  proof (induction nss arbitrary: m1)
    case (Cons n nss)
    have "mon_inv (create_varying env n m1)"
      using Cons.prems mon_invD [OF Cons.prems(1)] by (auto simp: create_varying_def intro!: mon_invI)
    moreover have "\<not> mon_started (create_varying env n m1)" "\<not> eventsEnabled (create_varying env n m1)"
      using Cons.prems by (simp_all add: create_varying_def)
    ultimately show ?case using Cons.IH by simp
  qed simp
  have new: "mon_inv (NewMonitor mc)" by (simp add: mon_inv_def NewMonitor_def all_informers_def)
  show ?thesis
  proof (cases "mc_Kind mc = [] \<and> mc_ApiVersion mc = []")
    case True
    with assms new show ?thesis by (simp add: CreateInformers_def NewMonitor_def)
  next
    case False
    with assms obtain m1 where m1: "create_static env (mc_namespaces mc) (NewMonitor mc) = Some m1"
        "m = m1 \<or> (\<exists>nss. m = fold (create_varying env) nss (m1\<lparr>hasNamespaceInformer := True\<rparr>))"
      by (auto simp: CreateInformers_def NewMonitor_def bind_eq_Some_conv split: option.splits)
    from create_static_sel [OF m1(1)] have sel: "VaryingInformers m1 = []" "cancelForNs m1 = []" "\<not> eventsEnabled m1" "\<not> mon_started m1"
      by (simp_all add: NewMonitor_def)
    then have "mon_inv m1" "mon_inv (m1\<lparr>hasNamespaceInformer := True\<rparr>)" by (auto simp: mon_inv_def)
    with m1(2) vary sel show ?thesis by auto
  qed
qed

section \<open>Properties\<close>


definition demo_env :: cluster_env where
  "demo_env = \<lparr>env_lib = plain_lib,
     env_api = \<lparr>GroupVersionResource = (\<lambda>v k. Some (v @ ''/'' @ k)), FormatLabelSelector = (\<lambda>s. Some []),
       fields_String = (\<lambda>ts. []), List_objects = (\<lambda>fi. Some [demo_pod (fi_Namespace fi) ''x''])\<rparr>,
     env_transform = Some, env_namespaces = Some [''n1'']\<rparr>"

definition demo_ns_mc :: MonitorConfig where
  "demo_ns_mc = demo_mc\<lparr>mc_NamespaceSelector := Some \<lparr>ns_NameSelector = None,
     ns_LabelSelector = Some \<lparr>MatchLabels = [], MatchExpressions = []\<rparr>\<rparr>\<rparr>"


end
