(* ===== verification/Schedule_Manager.thy ===== *)
theory Schedule_Manager
  imports Go_Prelude
begin

text \<open>
  \<open>pkg/schedule_manager/schedule_manager.go\<close>: one cron job per crontab, shared by all schedule bindings
  (ids) that use it.

  The cron library is not part of the repository. It is a parameter: what \<open>AddFunc\<close> and \<open>Remove\<close> do to the
  state of the library (\<open>'c\<close>), and the jobs in that state. \<open>cron_library\<close> is what the manager relies on.
  The mutex is the atomicity of the operations.
\<close>

record ScheduleEntry =
  se_Crontab :: string
  se_Id :: string

record CronEntry =
  EntryID :: nat
  Ids :: "string set"

record 'c scheduleManager =
  sm_cron :: 'c
  Entries :: "string \<rightharpoonup> CronEntry"
  sm_cancelled :: bool
  sm_started :: bool \<comment> \<open>the channel \<open>stopped\<close> is made\<close>
  sm_closed :: bool \<comment> \<open>the channel \<open>stopped\<close> is closed\<close>
  sm_running :: bool \<comment> \<open>the cron is started\<close>
  ScheduleCh :: "string list"

record 'c cron_ops =
  AddFunc :: "string \<Rightarrow> 'c \<Rightarrow> (nat \<times> 'c) option" \<comment> \<open>\<open>None\<close>: the crontab is invalid\<close>
  cron_Remove :: "nat \<Rightarrow> 'c \<Rightarrow> 'c"
  cron_jobs :: "'c \<Rightarrow> nat \<rightharpoonup> string"

definition NewScheduleManager :: "'c \<Rightarrow> 'c scheduleManager" where
  "NewScheduleManager cron =
     \<lparr>sm_cron = cron, Entries = Map.empty, sm_cancelled = False, sm_started = False, sm_closed = False,
      sm_running = False, ScheduleCh = []\<rparr>"

definition sm_Add :: "'c cron_ops \<Rightarrow> ScheduleEntry \<Rightarrow> 'c scheduleManager \<Rightarrow> 'c scheduleManager" where
  "sm_Add lib newEntry sm =
     (if se_Crontab newEntry = [] then sm
      else
        case Entries sm (se_Crontab newEntry) of
          None \<Rightarrow>
            (case AddFunc lib (se_Crontab newEntry) (sm_cron sm) of
               None \<Rightarrow> sm
             | Some (entryId, cron) \<Rightarrow>
                 sm\<lparr>sm_cron := cron,
                    Entries := (Entries sm)(se_Crontab newEntry \<mapsto>
                      \<lparr>EntryID = entryId, Ids = {se_Id newEntry}\<rparr>)\<rparr>)
        | Some e \<Rightarrow>
            (if se_Id newEntry \<in> Ids e then sm
             else sm\<lparr>Entries := (Entries sm)(se_Crontab newEntry \<mapsto> e\<lparr>Ids := insert (se_Id newEntry) (Ids e)\<rparr>)\<rparr>))"

definition sm_Remove :: "'c cron_ops \<Rightarrow> ScheduleEntry \<Rightarrow> 'c scheduleManager \<Rightarrow> 'c scheduleManager" where
  "sm_Remove lib delEntry sm =
     (case Entries sm (se_Crontab delEntry) of
        None \<Rightarrow> sm
      | Some e \<Rightarrow>
          if se_Id delEntry \<notin> Ids e then sm
          else
            let e' = e\<lparr>Ids := Ids e - {se_Id delEntry}\<rparr> in
            if Ids e' = {}
            then sm\<lparr>sm_cron := cron_Remove lib (EntryID e) (sm_cron sm),
                    Entries := (Entries sm)(se_Crontab delEntry := None)\<rparr>
            else sm\<lparr>Entries := (Entries sm)(se_Crontab delEntry \<mapsto> e')\<rparr>)"

definition sm_Start :: "'c scheduleManager \<Rightarrow> 'c scheduleManager" where
  "sm_Start sm = (if sm_started sm then sm else sm\<lparr>sm_started := True, sm_running := True\<rparr>)"

text \<open>The goroutine that \<open>Start\<close> leaves behind, once the context is cancelled.\<close>

definition stop_cron :: "'c scheduleManager \<Rightarrow> 'c scheduleManager" where
  "stop_cron sm =
     (if sm_started sm \<and> sm_cancelled sm then sm\<lparr>sm_running := False, sm_closed := True\<rparr> else sm)"

text \<open>
  \<open>Stop\<close> cancels and, when the manager was started, waits: \<open>scheduled\<close> says whether the goroutine ran
  within the five seconds.
\<close>

definition sm_Stop :: "bool \<Rightarrow> 'c scheduleManager \<Rightarrow> 'c scheduleManager" where
  "sm_Stop scheduled sm =
     (let sm = sm\<lparr>sm_cancelled := True\<rparr> in
      if \<not> sm_started sm then sm
      else if scheduled then stop_cron sm else sm)"

text \<open>The cron runs the function of one of its jobs: the crontab is sent to the channel.\<close>

definition sm_fire :: "'c cron_ops \<Rightarrow> nat \<Rightarrow> 'c scheduleManager \<Rightarrow> 'c scheduleManager" where
  "sm_fire lib i sm =
     (case cron_jobs lib (sm_cron sm) i of
        Some crontab \<Rightarrow> if sm_running sm then sm\<lparr>ScheduleCh := ScheduleCh sm @ [crontab]\<rparr> else sm
      | None \<Rightarrow> sm)"

section \<open>What is registered\<close>

definition registered :: "'c scheduleManager \<Rightarrow> (string \<times> string) set" where
  "registered sm = {(crontab, i). \<exists>e. Entries sm crontab = Some e \<and> i \<in> Ids e}"

definition schedules :: "'c cron_ops \<Rightarrow> 'c scheduleManager \<Rightarrow> string set" where
  "schedules lib sm = ran (cron_jobs lib (sm_cron sm))"

text \<open>Every entry has an id and its own job, every job belongs to an entry.\<close>

definition sm_inv :: "'c cron_ops \<Rightarrow> 'c scheduleManager \<Rightarrow> bool" where
  "sm_inv lib sm \<longleftrightarrow>
     (\<forall>crontab e. Entries sm crontab = Some e \<longrightarrow>
        Ids e \<noteq> {} \<and> cron_jobs lib (sm_cron sm) (EntryID e) = Some crontab) \<and>
     (\<forall>i crontab. cron_jobs lib (sm_cron sm) i = Some crontab \<longrightarrow>
        (\<exists>e. Entries sm crontab = Some e \<and> EntryID e = i))"

lemma sm_invD:
  assumes "sm_inv lib sm"
  shows "Entries sm crontab = Some e \<Longrightarrow> cron_jobs lib (sm_cron sm) (EntryID e) = Some crontab"
    and "Entries sm crontab = Some e \<Longrightarrow> Ids e \<noteq> {}"
    and "cron_jobs lib (sm_cron sm) i = Some crontab \<Longrightarrow> \<exists>e. Entries sm crontab = Some e \<and> EntryID e = i"
  using assms by (auto simp: sm_inv_def)

lemma sm_inv_unique:
  "sm_inv lib sm \<Longrightarrow> Entries sm crontab = Some e \<Longrightarrow> cron_jobs lib (sm_cron sm) i = Some crontab \<Longrightarrow>
     EntryID e = i"
  by (auto dest: sm_invD(3))

lemma sm_invI:
  assumes "\<And>crontab e. Entries sm crontab = Some e \<Longrightarrow>
      Ids e \<noteq> {} \<and> cron_jobs lib (sm_cron sm) (EntryID e) = Some crontab"
    and "\<And>i crontab. cron_jobs lib (sm_cron sm) i = Some crontab \<Longrightarrow>
      \<exists>e. Entries sm crontab = Some e \<and> EntryID e = i"
  shows "sm_inv lib sm"
  using assms by (auto simp: sm_inv_def)

locale cron_library =
  fixes lib :: "'c cron_ops" and valid :: "string \<Rightarrow> bool"
  assumes add_valid: "valid s \<Longrightarrow> \<exists>i c'. AddFunc lib s c = Some (i, c')"
    and add_invalid: "\<not> valid s \<Longrightarrow> AddFunc lib s c = None"
    and add_jobs: "AddFunc lib s c = Some (i, c') \<Longrightarrow>
      cron_jobs lib c i = None \<and> cron_jobs lib c' = (cron_jobs lib c)(i \<mapsto> s)"
    and remove_jobs: "cron_jobs lib (cron_Remove lib i c) = (cron_jobs lib c)(i := None)"
begin

lemma Add_inv:
  assumes "sm_inv lib sm" shows "sm_inv lib (sm_Add lib newEntry sm)"
proof (cases "se_Crontab newEntry = []")
  case nonempty: False
  show ?thesis
  proof (cases "Entries sm (se_Crontab newEntry)")
    case None
    show ?thesis
    proof (cases "AddFunc lib (se_Crontab newEntry) (sm_cron sm)")
      case (Some p)
      obtain i c' where p: "p = (i, c')" by (cases p)
      with Some add_jobs have j: "cron_jobs lib (sm_cron sm) i = None"
          "cron_jobs lib c' = (cron_jobs lib (sm_cron sm))(i \<mapsto> se_Crontab newEntry)" by auto
      have fresh: "EntryID e \<noteq> i" if "Entries sm t = Some e" for t e
        using sm_invD(1) [OF assms that] j(1) by auto
      have new: "cron_jobs lib (sm_cron sm) k \<noteq> Some (se_Crontab newEntry)" for k
        using sm_invD(3) [OF assms, of k] None by fastforce
      have "sm_Add lib newEntry sm = sm\<lparr>sm_cron := c', Entries := (Entries sm)(se_Crontab newEntry \<mapsto>
          \<lparr>EntryID = i, Ids = {se_Id newEntry}\<rparr>)\<rparr>"
        using Some None p nonempty by (simp add: sm_Add_def)
      then show ?thesis using sm_invD [OF assms] fresh new
        by (auto intro!: sm_invI simp: j split: if_splits)
    qed (use None assms nonempty in \<open>simp add: sm_Add_def\<close>)
  next
    case (Some e)
    with sm_invD [OF assms] sm_inv_unique [OF assms Some] assms nonempty show ?thesis
      by (auto intro!: sm_invI simp: sm_Add_def split: if_splits)
  qed
qed (use assms in \<open>simp add: sm_Add_def\<close>)

lemma Add_registered:
  "registered (sm_Add lib newEntry sm) =
     (if se_Crontab newEntry \<noteq> [] \<and> (Entries sm (se_Crontab newEntry) \<noteq> None \<or> valid (se_Crontab newEntry))
      then insert (se_Crontab newEntry, se_Id newEntry) (registered sm)
      else registered sm)"
proof (cases "se_Crontab newEntry = [] \<or> Entries sm (se_Crontab newEntry) \<noteq> None")
  case True
  then show ?thesis by (auto simp: sm_Add_def registered_def split: option.splits if_splits)
next
  case False
  then have n: "se_Crontab newEntry \<noteq> []" "Entries sm (se_Crontab newEntry) = None" by auto
  show ?thesis
  proof (cases "valid (se_Crontab newEntry)")
    case True
    then obtain i c' where "AddFunc lib (se_Crontab newEntry) (sm_cron sm) = Some (i, c')"
      using add_valid by blast
    with n True show ?thesis by (auto simp: sm_Add_def registered_def split: if_splits)
  qed (use n add_invalid in \<open>simp add: sm_Add_def\<close>)
qed

lemma Remove_inv:
  assumes "sm_inv lib sm" shows "sm_inv lib (sm_Remove lib delEntry sm)"
proof (cases "Entries sm (se_Crontab delEntry)")
  case (Some e)
  with assms have e: "cron_jobs lib (sm_cron sm) (EntryID e) = Some (se_Crontab delEntry)"
    by (auto simp: sm_inv_def)
  have other: "EntryID e' \<noteq> EntryID e" if "Entries sm t = Some e'" "t \<noteq> se_Crontab delEntry" for t e'
    using that e sm_invD(1) [OF assms that(1)] by auto
  show ?thesis
  proof (cases "Ids e \<subseteq> {se_Id delEntry}")
    case True
    with sm_invD(2) [OF assms Some] have "Ids e = {se_Id delEntry}" by blast
    with Some other sm_invD [OF assms] sm_inv_unique [OF assms Some] show ?thesis
      by (auto intro!: sm_invI simp: sm_Remove_def remove_jobs Let_def split: if_splits)
  next
    case False
    show ?thesis
    proof (cases "se_Id delEntry \<in> Ids e")
      case True
      let ?e = "e\<lparr>Ids := Ids e - {se_Id delEntry}\<rparr>"
      have eq: "sm_Remove lib delEntry sm = sm\<lparr>Entries := (Entries sm)(se_Crontab delEntry \<mapsto> ?e)\<rparr>"
        using True False Some by (simp add: sm_Remove_def Let_def)
      have ne: "Ids ?e \<noteq> {}" using False by auto
      show ?thesis unfolding eq
      proof (rule sm_invI, goal_cases)
        case (1 t e')
        then show ?case using ne e sm_invD(1,2) [OF assms, of t e']
          by (cases "t = se_Crontab delEntry") (auto simp del: Diff_eq_empty_iff)
      next
        case (2 i t)
        then show ?case using sm_invD(3) [OF assms, of i t] Some
          by (cases "t = se_Crontab delEntry") auto
      qed
    qed (use Some assms in \<open>simp add: sm_Remove_def\<close>)
  qed
qed (use assms in \<open>simp add: sm_Remove_def\<close>)

lemma Remove_registered:
  "registered (sm_Remove lib delEntry sm) = registered sm - {(se_Crontab delEntry, se_Id delEntry)}"
  by (auto simp: sm_Remove_def registered_def Let_def split: option.splits if_splits)

lemma inv_schedules: "sm_inv lib sm \<Longrightarrow> schedules lib sm = fst ` registered sm"
  by (fastforce simp: schedules_def registered_def sm_inv_def ran_def image_iff)

end

text \<open>All operations, in any order.\<close>

datatype sm_op = OpAdd ScheduleEntry | OpRemove ScheduleEntry | OpStart | OpStop bool | OpStopped | OpFire nat

fun sm_do :: "'c cron_ops \<Rightarrow> sm_op \<Rightarrow> 'c scheduleManager \<Rightarrow> 'c scheduleManager" where
  "sm_do lib (OpAdd e) sm = sm_Add lib e sm"
| "sm_do lib (OpRemove e) sm = sm_Remove lib e sm"
| "sm_do lib OpStart sm = sm_Start sm"
| "sm_do lib (OpStop b) sm = sm_Stop b sm"
| "sm_do lib OpStopped sm = stop_cron sm"
| "sm_do lib (OpFire i) sm = sm_fire lib i sm"

definition sm_run :: "'c cron_ops \<Rightarrow> sm_op list \<Rightarrow> 'c \<Rightarrow> 'c scheduleManager" where
  "sm_run lib ops cron = fold (sm_do lib) ops (NewScheduleManager cron)"

text \<open>The abstract manager: a set of pairs of a valid crontab and an id.\<close>

fun reg_do :: "(string \<Rightarrow> bool) \<Rightarrow> sm_op \<Rightarrow> (string \<times> string) set \<Rightarrow> (string \<times> string) set" where
  "reg_do valid (OpAdd e) R =
     (if se_Crontab e \<noteq> [] \<and> valid (se_Crontab e) then insert (se_Crontab e, se_Id e) R else R)"
| "reg_do valid (OpRemove e) R = R - {(se_Crontab e, se_Id e)}"
| "reg_do valid _ R = R"

lemma sm_keeps_registered [simp]:
  "Entries (sm_Start sm) = Entries sm" "sm_cron (sm_Start sm) = sm_cron sm"
  "Entries (sm_Stop b sm) = Entries sm" "sm_cron (sm_Stop b sm) = sm_cron sm"
  "Entries (stop_cron sm) = Entries sm" "sm_cron (stop_cron sm) = sm_cron sm"
  "Entries (sm_fire lib i sm) = Entries sm" "sm_cron (sm_fire lib i sm) = sm_cron sm"
  by (simp_all add: sm_Start_def sm_Stop_def stop_cron_def sm_fire_def Let_def split: option.splits)

context cron_library
begin

lemma do_inv:
  assumes "sm_inv lib sm" shows "sm_inv lib (sm_do lib op sm)"
proof (cases "\<exists>e. op = OpAdd e \<or> op = OpRemove e")
  case True
  then show ?thesis using Add_inv [OF assms] Remove_inv [OF assms] by auto
next
  case False
  then have "Entries (sm_do lib op sm) = Entries sm" "sm_cron (sm_do lib op sm) = sm_cron sm"
    by (cases op; simp)+
  then show ?thesis using assms unfolding sm_inv_def by (simp only:)
qed

lemma do_registered:
  assumes "sm_inv lib sm" and "\<forall>(t, i) \<in> registered sm. t \<noteq> [] \<and> valid t"
  shows "registered (sm_do lib op sm) = reg_do valid op (registered sm)"
proof (cases op)
  case (OpAdd e)
  have "se_Crontab e \<noteq> [] \<and> valid (se_Crontab e)" if "Entries sm (se_Crontab e) \<noteq> None"
  proof -
    from that obtain c where c: "Entries sm (se_Crontab e) = Some c" by blast
    with sm_invD(2) [OF assms(1)] obtain i where "i \<in> Ids c" by blast
    with c assms(2) show ?thesis by (auto simp: registered_def)
  qed
  with OpAdd show ?thesis by (auto simp: Add_registered)
qed (simp_all add: Remove_registered, simp_all add: registered_def)

lemma run_registered:
  "sm_inv lib (fold (sm_do lib) ops sm) \<and>
   registered (fold (sm_do lib) ops sm) = fold (reg_do valid) ops (registered sm)"
  if "sm_inv lib sm" and "\<forall>(t, i) \<in> registered sm. t \<noteq> [] \<and> valid t"
  using that
proof (induction ops arbitrary: sm)
  case (Cons op ops)
  have "\<forall>(t, i) \<in> reg_do valid op R. t \<noteq> [] \<and> valid t" if "\<forall>(t, i) \<in> R. t \<noteq> [] \<and> valid t" for R
    using that by (cases op) auto
  then have "\<forall>(t, i) \<in> registered (sm_do lib op sm). t \<noteq> [] \<and> valid t"
    using Cons.prems(2) do_registered [OF Cons.prems] by simp
  from Cons.IH [OF do_inv [OF Cons.prems(1)] this] do_registered [OF Cons.prems] show ?case by simp
qed simp

lemma new_inv: "cron_jobs lib cron = Map.empty \<Longrightarrow> sm_inv lib (NewScheduleManager cron)"
  by (simp add: sm_inv_def NewScheduleManager_def)

lemma inv_one_job:
  assumes "sm_inv lib sm"
  shows "(\<exists>i. cron_jobs lib (sm_cron sm) i = Some crontab) \<longleftrightarrow> crontab \<in> fst ` registered sm"
    and "cron_jobs lib (sm_cron sm) i = Some crontab \<Longrightarrow> cron_jobs lib (sm_cron sm) j = Some crontab \<Longrightarrow> i = j"
proof -
  show "(\<exists>i. cron_jobs lib (sm_cron sm) i = Some crontab) \<longleftrightarrow> crontab \<in> fst ` registered sm"
    using inv_schedules [OF assms] by (auto simp: schedules_def ran_def)
  show "i = j" if i: "cron_jobs lib (sm_cron sm) i = Some crontab" and j: "cron_jobs lib (sm_cron sm) j = Some crontab"
    using sm_invD(3) [OF assms i] sm_invD(3) [OF assms j] by auto
qed

end

text \<open>A cron library that numbers its jobs.\<close>

definition numbered_cron :: "(string \<Rightarrow> bool) \<Rightarrow> string option list cron_ops" where
  "numbered_cron valid =
     \<lparr>AddFunc = (\<lambda>s c. if valid s then Some (length c, c @ [Some s]) else None),
      cron_Remove = (\<lambda>i c. c[i := None]),
      cron_jobs = (\<lambda>c i. if i < length c then c ! i else None)\<rparr>"

interpretation numbered: cron_library "numbered_cron valid" valid for valid
  by unfold_locales
    (auto simp: numbered_cron_def fun_eq_iff nth_append nth_list_update split: if_splits)

section \<open>Properties\<close>

text \<open>
  C12. Whatever cron library is used, and after any sequence of operations of the manager: the registered
  pairs of crontab and id are those added with a valid crontab and not removed since; a crontab has a job
  in the cron exactly while some id uses it, and never more than one job.
\<close>

theorem schedule_one_job_per_crontab:
  assumes "cron_library lib valid" and "cron_jobs lib cron = Map.empty"
  shows "registered (sm_run lib ops cron) = fold (reg_do valid) ops {} \<and>
     (\<forall>crontab. (\<exists>i. cron_jobs lib (sm_cron (sm_run lib ops cron)) i = Some crontab) \<longleftrightarrow>
        crontab \<in> fst ` fold (reg_do valid) ops {}) \<and>
     inj_on (cron_jobs lib (sm_cron (sm_run lib ops cron))) (dom (cron_jobs lib (sm_cron (sm_run lib ops cron))))"
proof -
  have start: "sm_inv lib (NewScheduleManager cron)" "registered (NewScheduleManager cron) = {}"
    using cron_library.new_inv [OF assms] by (auto simp: registered_def NewScheduleManager_def)
  then have run: "sm_inv lib (sm_run lib ops cron)"
      "registered (sm_run lib ops cron) = fold (reg_do valid) ops {}"
    using cron_library.run_registered [OF assms(1) start(1), of ops] by (simp_all add: sm_run_def)
  note j = cron_library.inv_one_job [OF assms(1) run(1)]
  have "inj_on (cron_jobs lib (sm_cron (sm_run lib ops cron))) (dom (cron_jobs lib (sm_cron (sm_run lib ops cron))))"
    by (rule inj_onI) (use j(2) in auto)
  with run(2) j(1) show ?thesis by simp
qed

theorem schedule_one_job_per_crontab_witness:
  "registered (sm_run (numbered_cron (\<lambda>s. s \<noteq> ''bad''))
       [OpAdd \<lparr>se_Crontab = ''bad'', se_Id = ''a''\<rparr>, OpAdd \<lparr>se_Crontab = ''* *'', se_Id = ''a''\<rparr>] []) =
     {(''* *'', ''a'')}"
  using schedule_one_job_per_crontab [OF numbered.cron_library_axioms [of "\<lambda>s. s \<noteq> ''bad''"], of "[]"
      "[OpAdd \<lparr>se_Crontab = ''bad'', se_Id = ''a''\<rparr>, OpAdd \<lparr>se_Crontab = ''* *'', se_Id = ''a''\<rparr>]"]
  by (simp add: numbered_cron_def)

end
