(* ===== verification/Binding_Context.thy ===== *)
theory Binding_Context
  imports Kube_Types
begin

text \<open>
  \<open>pkg/hook/binding_context/binding_context.go\<close> and the binding types of
  \<open>pkg/hook/types/bindings.go\<close>: what a hook is told about the event it runs for.

  Review requests (\<open>AdmissionReview\<close>, \<open>ConversionReview\<close>) are passed through as JSON. The JSON
  encoding of the field maps is the encoder's and is not modelled; the maps are.
\<close>

type_synonym BindingType = string

abbreviation bt_Schedule :: BindingType where "bt_Schedule \<equiv> ''schedule''"
abbreviation bt_OnStartup :: BindingType where "bt_OnStartup \<equiv> ''onStartup''"
abbreviation bt_OnKubernetesEvent :: BindingType where "bt_OnKubernetesEvent \<equiv> ''kubernetes''"
abbreviation bt_KubernetesConversion :: BindingType where
  "bt_KubernetesConversion \<equiv> ''kubernetesCustomResourceConversion''"
abbreviation bt_KubernetesValidating :: BindingType where "bt_KubernetesValidating \<equiv> ''kubernetesValidating''"
abbreviation bt_KubernetesMutating :: BindingType where "bt_KubernetesMutating \<equiv> ''kubernetesMutating''"

record BindingContext =
  bc_Version :: string
  bc_BindingType :: BindingType
  bc_JqFilter :: string
  bc_IncludeSnapshots :: "string list"
  bc_IncludeAllSnapshots :: bool
  bc_Group :: string
  bc_Binding :: string
  bc_Type :: KubeEventType
  bc_WatchEvent :: WatchEventType
  bc_Objects :: "ObjectAndFilterResult list"
  bc_Snapshots :: "(string \<times> ObjectAndFilterResult list) list"
  bc_AdmissionReview :: json
  bc_ConversionReview :: json
  bc_FromVersion :: string
  bc_ToVersion :: string

definition empty_bc :: BindingContext where
  "empty_bc = \<lparr>bc_Version = [], bc_BindingType = [], bc_JqFilter = [], bc_IncludeSnapshots = [],
     bc_IncludeAllSnapshots = False, bc_Group = [], bc_Binding = [], bc_Type = [], bc_WatchEvent = [],
     bc_Objects = [], bc_Snapshots = [], bc_AdmissionReview = JNull, bc_ConversionReview = JNull,
     bc_FromVersion = [], bc_ToVersion = []\<rparr>"

definition bc_IsSynchronization :: "BindingContext \<Rightarrow> bool" where
  "bc_IsSynchronization bc \<longleftrightarrow> bc_BindingType bc = bt_OnKubernetesEvent \<and> bc_Type bc = TypeSynchronization"

text \<open>The last part of \<open>MapV1\<close>: the fields of a plain \<open>kubernetes\<close> binding.\<close>

definition map_kubernetes :: "(string \<Rightarrow> json option) \<Rightarrow> BindingContext \<Rightarrow>
    (string \<rightharpoonup> field_value) \<Rightarrow> string \<rightharpoonup> field_value" where
  "map_kubernetes unmarshal bc res =
     (let res = res(''type'' \<mapsto> FStr (bc_Type bc));
          res = (if bc_WatchEvent bc \<noteq> [] then res(''watchEvent'' \<mapsto> FStr (bc_WatchEvent bc)) else res) in
      if bc_Type bc = TypeSynchronization then res(''objects'' \<mapsto> FObjects (bc_Objects bc))
      else if bc_Type bc = TypeEvent then
        (case bc_Objects bc of
           [] \<Rightarrow> (let res = res(''object'' \<mapsto> FNil) in
                  if bc_JqFilter bc \<noteq> [] then res(''filterResult'' \<mapsto> FStr []) else res)
         | ob # _ \<Rightarrow> res ++ ofr_Map unmarshal ob)
      else res)"

definition MapV1 :: "(string \<Rightarrow> json option) \<Rightarrow> BindingContext \<Rightarrow> string \<rightharpoonup> field_value" where
  "MapV1 unmarshal bc =
     (let res = [''binding'' \<mapsto> FStr (bc_Binding bc)] in
      if bc_BindingType bc = bt_OnStartup then res
      else
        (let res = (if bc_IncludeSnapshots bc \<noteq> [] \<or> bc_IncludeAllSnapshots bc
                    then res(''snapshots'' \<mapsto> FSnapshots (map_of (bc_Snapshots bc))) else res) in
         if bc_BindingType bc = bt_KubernetesValidating then
           res(''type'' \<mapsto> FStr ''Validating'', ''review'' \<mapsto> FReview (bc_AdmissionReview bc))
         else if bc_BindingType bc = bt_KubernetesMutating then
           res(''type'' \<mapsto> FStr ''Mutating'', ''review'' \<mapsto> FReview (bc_AdmissionReview bc))
         else if bc_BindingType bc = bt_KubernetesConversion then
           res(''type'' \<mapsto> FStr ''Conversion'', ''fromVersion'' \<mapsto> FStr (bc_FromVersion bc),
               ''toVersion'' \<mapsto> FStr (bc_ToVersion bc), ''review'' \<mapsto> FReview (bc_ConversionReview bc))
         else if bc_Group bc \<noteq> [] then
           res(''type'' \<mapsto> FStr ''Group'', ''groupName'' \<mapsto> FStr (bc_Group bc))
         else if bc_BindingType bc = bt_Schedule then res(''type'' \<mapsto> FStr ''Schedule'')
         else if bc_BindingType bc \<noteq> bt_OnKubernetesEvent \<or> bc_Type bc = [] then res
         else map_kubernetes unmarshal bc res))"

text \<open>\<open>None\<close>: the full object of the event was dropped and its namespace is read (nil dereference).\<close>

definition MapV0 :: "BindingContext \<Rightarrow> (string \<rightharpoonup> field_value) option" where
  "MapV0 bc =
     (let res = [''binding'' \<mapsto> FStr (bc_Binding bc)] in
      if bc_BindingType bc \<noteq> bt_OnKubernetesEvent then Some res
      else
        (let eventV0 =
               (if bc_WatchEvent bc = WatchEventAdded then ''add''
                else if bc_WatchEvent bc = WatchEventModified then ''update''
                else if bc_WatchEvent bc = WatchEventDeleted then ''delete''
                else []);
             res = res(''resourceEvent'' \<mapsto> FStr eventV0) in
         case bc_Objects bc of
           [] \<Rightarrow> Some res
         | ob # _ \<Rightarrow> do {
             full \<leftarrow> ofr_Object ob;
             Some (res(''resourceNamespace'' \<mapsto> FStr (obj_namespace full),
                       ''resourceKind'' \<mapsto> FStr (obj_kind full),
                       ''resourceName'' \<mapsto> FStr (obj_name full)))
           }))"

definition bc_Map :: "(string \<Rightarrow> json option) \<Rightarrow> BindingContext \<Rightarrow> (string \<rightharpoonup> field_value) option" where
  "bc_Map unmarshal bc =
     (if bc_Version bc = ''v0'' then MapV0 bc
      else if bc_Version bc = ''v1'' then Some (MapV1 unmarshal bc)
      else Some Map.empty)"

definition ConvertBindingContextList :: "(string \<Rightarrow> json option) \<Rightarrow> string \<Rightarrow> BindingContext list \<Rightarrow>
    (string \<rightharpoonup> field_value) list option" where
  "ConvertBindingContextList unmarshal version contexts =
     those (map (\<lambda>bc. bc_Map unmarshal (bc\<lparr>bc_Version := version\<rparr>)) contexts)"

section \<open>Properties\<close>

lemma those_length: "those xs = Some ys \<Longrightarrow> length ys = length xs"
  by (induction xs arbitrary: ys) (auto split: option.splits)

lemma those_map_total: "(\<And>x. x \<in> set xs \<Longrightarrow> f x = Some (g x)) \<Longrightarrow> those (map f xs) = Some (map g xs)"
  by (induction xs) simp_all

lemma MapV1_type:
  "MapV1 um bc ''type'' =
     (if bc_BindingType bc = bt_OnStartup then None
      else if bc_BindingType bc = bt_KubernetesValidating then Some (FStr ''Validating'')
      else if bc_BindingType bc = bt_KubernetesMutating then Some (FStr ''Mutating'')
      else if bc_BindingType bc = bt_KubernetesConversion then Some (FStr ''Conversion'')
      else if bc_Group bc \<noteq> [] then Some (FStr ''Group'')
      else if bc_BindingType bc = bt_Schedule then Some (FStr ''Schedule'')
      else if bc_BindingType bc \<noteq> bt_OnKubernetesEvent \<or> bc_Type bc = [] then None
      else Some (FStr (bc_Type bc)))"
proof -
  have "ofr_Map um ob ''type'' = None" for ob
    by (auto simp: ofr_Map_def Let_def split: option.splits json.splits)
  then have "map_kubernetes um bc res ''type'' = Some (FStr (bc_Type bc))" for res
    by (auto simp: map_kubernetes_def Let_def map_add_def split: list.splits)
  then show ?thesis by (simp add: MapV1_def Let_def)
qed

text \<open>
  A hook with config version v1 always gets its binding contexts (the conversion to field maps
  is total), one map per context in order, each with its binding name, and with the type that
  the binding type and the group dictate: a group hides everything but admission and conversion.
\<close>

lemma ConvertBindingContextList_v1:
  "\<exists>ms. ConvertBindingContextList um ''v1'' bcs = Some ms \<and> length ms = length bcs \<and>
     (\<forall>i < length bcs. (ms ! i) ''binding'' = Some (FStr (bc_Binding (bcs ! i))) \<and>
        (bc_Group (bcs ! i) \<noteq> [] \<and> bc_BindingType (bcs ! i) \<in> {bt_Schedule, bt_OnKubernetesEvent} \<longrightarrow>
          (ms ! i) ''type'' = Some (FStr ''Group'') \<and>
          (ms ! i) ''groupName'' = Some (FStr (bc_Group (bcs ! i))) \<and>
          (ms ! i) ''object'' = None \<and> (ms ! i) ''objects'' = None))"
proof -
  let ?f = "\<lambda>bc. MapV1 um (bc\<lparr>bc_Version := ''v1''\<rparr>)"
  have "ConvertBindingContextList um ''v1'' bcs = Some (map ?f bcs)"
    unfolding ConvertBindingContextList_def by (rule those_map_total) (simp add: bc_Map_def)
  moreover have "?f bc ''binding'' = Some (FStr (bc_Binding bc))" for bc
  proof -
    have "ofr_Map um ob ''binding'' = None" for ob
      by (auto simp: ofr_Map_def Let_def split: option.splits json.splits)
    then show ?thesis
      by (auto simp: MapV1_def map_kubernetes_def Let_def map_add_def split: list.splits)
  qed
  moreover have "?f bc ''type'' = Some (FStr ''Group'') \<and> ?f bc ''groupName'' = Some (FStr (bc_Group bc)) \<and>
      ?f bc ''object'' = None \<and> ?f bc ''objects'' = None"
    if "bc_Group bc \<noteq> []" "bc_BindingType bc \<in> {bt_Schedule, bt_OnKubernetesEvent}" for bc
    using that by (auto simp: MapV1_def Let_def)
  ultimately show ?thesis by (intro exI [of _ "map ?f bcs"]) simp
qed

lemma ConvertBindingContextList_v1_instance:
  "\<exists>ms. ConvertBindingContextList (\<lambda>_. None) ''v1'' [empty_bc\<lparr>bc_Group := ''g'', bc_BindingType := ''schedule''\<rparr>]
     = Some ms \<and> (ms ! 0) ''type'' = Some (FStr ''Group'')"
  using ConvertBindingContextList_v1
    [of "\<lambda>_. None" "[empty_bc\<lparr>bc_Group := ''g'', bc_BindingType := ''schedule''\<rparr>]"]
  by (auto simp: empty_bc_def)

text \<open>
  The v0 form reads the object itself: for an event of a \<open>kubernetes\<close> binding the conversion
  panics exactly when the first object of the event was stored without its full object.
\<close>

lemma MapV0_panics_iff:
  "MapV0 bc = None \<longleftrightarrow> bc_BindingType bc = bt_OnKubernetesEvent \<and>
     (\<exists>ob obs. bc_Objects bc = ob # obs \<and> ofr_Object ob = None)"
  by (auto simp: MapV0_def Let_def split: list.splits Option.bind_splits)

end
