(* ===== verification/Hook_Bindings.thy ===== *)
theory Hook_Bindings
  imports Kube_Monitor Schedule_Manager Binding_Context
begin

text \<open>
  \<open>pkg/hook/types/bindings.go\<close>, \<open>pkg/hook/controller/schedule_bindings_controller.go\<close> and
  \<open>kubernetes_bindings_controller.go\<close>, and \<open>UpdateSnapshots\<close> of \<open>hook_controller.go\<close>: how the schedule and
  kubernetes bindings of one hook are tied to crontabs and monitors, and how events and snapshots become
  binding contexts.

  Monitor configurations are shared by pointer between the bindings and their links, so they live in a
  heap (\<open>mcs\<close>); the rest of the configurations is copied by value, as in the code. A nil slice and an
  empty one are not told apart.
\<close>

section \<open>Configurations of bindings\<close>

record ScheduleConfig =
  sc_BindingName :: string
  sc_AllowFailure :: bool
  sc_ScheduleEntry :: ScheduleEntry
  sc_IncludeSnapshotsFrom :: "string list"
  sc_Queue :: string
  sc_Group :: string

record OnKubernetesEventConfig =
  ok_BindingName :: string
  ok_AllowFailure :: bool
  ok_Monitor :: nat \<comment> \<open>address of the monitor configuration\<close>
  ok_IncludeSnapshotsFrom :: "string list"
  ok_Queue :: string
  ok_Group :: string
  ok_ExecuteHookOnSynchronization :: bool
  ok_WaitForSynchronization :: bool
  ok_KeepFullObjectsInMemory :: bool

text \<open>\<open>bei_KubernetesBinding\<close> is \<open>None\<close> for the zero value of the configuration.\<close>

record BindingExecutionInfo =
  bei_BindingContext :: "BindingContext list"
  bei_IncludeSnapshots :: "string list"
  bei_IncludeAllSnapshots :: bool
  bei_AllowFailure :: bool
  bei_QueueName :: string
  bei_Binding :: string
  bei_Group :: string
  bei_KubernetesBinding :: "OnKubernetesEventConfig option"

definition empty_info :: BindingExecutionInfo where
  "empty_info = \<lparr>bei_BindingContext = [], bei_IncludeSnapshots = [], bei_IncludeAllSnapshots = False,
     bei_AllowFailure = False, bei_QueueName = [], bei_Binding = [], bei_Group = [], bei_KubernetesBinding = None\<rparr>"

section \<open>Schedule bindings\<close>

record ScheduleBindingToCrontabLink =
  sl_BindingName :: string
  sl_Crontab :: string
  sl_IncludeSnapshots :: "string list"
  sl_AllowFailure :: bool
  sl_QueueName :: string
  sl_Group :: string

record scheduleBindingsController =
  ScheduleLinks :: "(string \<times> ScheduleBindingToCrontabLink) list"
  ScheduleBindings :: "ScheduleConfig list"

definition NewScheduleBindingsController :: "ScheduleConfig list \<Rightarrow> scheduleBindingsController" where
  "NewScheduleBindingsController bindings = \<lparr>ScheduleLinks = [], ScheduleBindings = bindings\<rparr>"

definition sched_CanHandleEvent :: "scheduleBindingsController \<Rightarrow> string \<Rightarrow> bool" where
  "sched_CanHandleEvent c crontab \<longleftrightarrow> (\<exists>p \<in> set (ScheduleLinks c). sl_Crontab (snd p) = crontab)"

definition sched_info :: "ScheduleBindingToCrontabLink \<Rightarrow> BindingExecutionInfo" where
  "sched_info link =
     empty_info\<lparr>bei_BindingContext := [empty_bc\<lparr>bc_Binding := sl_BindingName link, bc_BindingType := bt_Schedule,
         bc_IncludeSnapshots := sl_IncludeSnapshots link, bc_Group := sl_Group link\<rparr>],
       bei_IncludeSnapshots := sl_IncludeSnapshots link, bei_AllowFailure := sl_AllowFailure link,
       bei_QueueName := sl_QueueName link, bei_Binding := sl_BindingName link, bei_Group := sl_Group link\<rparr>"

text \<open>\<open>perm\<close> is the order in which the map of links is ranged over.\<close>

definition sched_HandleEvent :: "iteration \<Rightarrow> scheduleBindingsController \<Rightarrow> string \<Rightarrow> BindingExecutionInfo list" where
  "sched_HandleEvent perm c crontab =
     map sched_info (filter (\<lambda>link. sl_Crontab link = crontab) (map snd (go_range perm [] (ScheduleLinks c))))"

definition sched_link :: "ScheduleConfig \<Rightarrow> ScheduleBindingToCrontabLink" where
  "sched_link config = \<lparr>sl_BindingName = sc_BindingName config, sl_Crontab = se_Crontab (sc_ScheduleEntry config),
     sl_IncludeSnapshots = sc_IncludeSnapshotsFrom config, sl_AllowFailure = sc_AllowFailure config,
     sl_QueueName = sc_Queue config, sl_Group = sc_Group config\<rparr>"

definition sched_enable_one :: "'c cron_ops \<Rightarrow> ScheduleConfig \<Rightarrow> scheduleBindingsController \<times> 'c scheduleManager \<Rightarrow>
    scheduleBindingsController \<times> 'c scheduleManager" where
  "sched_enable_one lib config = (\<lambda>(c, sm).
     (c\<lparr>ScheduleLinks := AList.update (se_Id (sc_ScheduleEntry config)) (sched_link config) (ScheduleLinks c)\<rparr>,
      sm_Add lib (sc_ScheduleEntry config) sm))"

definition EnableScheduleBindings :: "'c cron_ops \<Rightarrow> scheduleBindingsController \<Rightarrow> 'c scheduleManager \<Rightarrow>
    scheduleBindingsController \<times> 'c scheduleManager" where
  "EnableScheduleBindings lib c sm = fold (sched_enable_one lib) (ScheduleBindings c) (c, sm)"

definition sched_disable_one :: "'c cron_ops \<Rightarrow> ScheduleConfig \<Rightarrow> scheduleBindingsController \<times> 'c scheduleManager \<Rightarrow>
    scheduleBindingsController \<times> 'c scheduleManager" where
  "sched_disable_one lib config = (\<lambda>(c, sm).
     (c\<lparr>ScheduleLinks := AList.delete (se_Id (sc_ScheduleEntry config)) (ScheduleLinks c)\<rparr>,
      sm_Remove lib (sc_ScheduleEntry config) sm))"

definition DisableScheduleBindings :: "'c cron_ops \<Rightarrow> scheduleBindingsController \<Rightarrow> 'c scheduleManager \<Rightarrow>
    scheduleBindingsController \<times> 'c scheduleManager" where
  "DisableScheduleBindings lib c sm = fold (sched_disable_one lib) (ScheduleBindings c) (c, sm)"

section \<open>Kubernetes bindings\<close>

text \<open>
  \<open>BindingMonitorLinks\<close> maps a monitor id to the copied configuration of its binding. The world holds the heap of monitor
  configurations, the monitors by id and the events sent to the channel of the manager.
\<close>

record kubernetesBindingsController =
  KubernetesBindings :: "OnKubernetesEventConfig list"
  BindingMonitorLinks :: "(string \<times> OnKubernetesEventConfig) list"

record kube_world =
  mcs :: "nat \<Rightarrow> MonitorConfig"
  kem :: kubeEventsManager
  kube_Ch :: "KubeEvent list"

definition NewKubernetesBindingsController :: "OnKubernetesEventConfig list \<Rightarrow> kubernetesBindingsController" where
  "NewKubernetesBindingsController bindings = \<lparr>KubernetesBindings = bindings, BindingMonitorLinks = []\<rparr>"

abbreviation binding_monitor :: "kube_world \<Rightarrow> OnKubernetesEventConfig \<Rightarrow> string" where
  "binding_monitor w config \<equiv> mc_MonitorId (mcs w (ok_Monitor config))"

definition kube_bc :: "kube_world \<Rightarrow> KubeEvent \<Rightarrow> OnKubernetesEventConfig \<Rightarrow> BindingContext" where
  "kube_bc w kubeEvent config =
     empty_bc\<lparr>bc_Binding := ok_BindingName config, bc_Type := ke_Type kubeEvent, bc_Objects := ke_Objects kubeEvent,
       bc_JqFilter := mc_JqFilter (mcs w (ok_Monitor config)), bc_BindingType := bt_OnKubernetesEvent,
       bc_IncludeSnapshots := ok_IncludeSnapshotsFrom config, bc_Group := ok_Group config\<rparr>"

definition ConvertKubeEventToBindingContext :: "kube_world \<Rightarrow> KubeEvent \<Rightarrow> OnKubernetesEventConfig \<Rightarrow> BindingContext list" where
  "ConvertKubeEventToBindingContext w kubeEvent config =
     (if ke_Type kubeEvent = TypeSynchronization then [kube_bc w kubeEvent config]
      else if ke_Type kubeEvent = TypeEvent
      then map (\<lambda>kEvent. (kube_bc w kubeEvent config)\<lparr>bc_WatchEvent := kEvent\<rparr>) (ke_WatchEvents kubeEvent)
      else [])"

definition kube_CanHandleEvent :: "kubernetesBindingsController \<Rightarrow> KubeEvent \<Rightarrow> bool" where
  "kube_CanHandleEvent c kubeEvent = has_key (BindingMonitorLinks c) (ke_MonitorId kubeEvent)"

definition kube_HandleEvent :: "kube_world \<Rightarrow> kubernetesBindingsController \<Rightarrow> KubeEvent \<Rightarrow> BindingExecutionInfo" where
  "kube_HandleEvent w c kubeEvent =
     (case map_of (BindingMonitorLinks c) (ke_MonitorId kubeEvent) of
        None \<Rightarrow> empty_info
      | Some config \<Rightarrow>
          \<lparr>bei_BindingContext = ConvertKubeEventToBindingContext w kubeEvent config,
           bei_IncludeSnapshots = ok_IncludeSnapshotsFrom config, bei_IncludeAllSnapshots = False,
           bei_AllowFailure = ok_AllowFailure config, bei_QueueName = ok_Queue config,
           bei_Binding = ok_BindingName config, bei_Group = ok_Group config, bei_KubernetesBinding = Some config\<rparr>)"

text \<open>
  The loop of \<open>EnableKubernetesBindings\<close>. Outer \<open>None\<close>: panic (a nil monitor is started); inner \<open>None\<close>: the
  error of \<open>AddMonitor\<close>, after which the links and monitors made so far stay.
\<close>

definition add_and_start :: "cluster_env \<Rightarrow> OnKubernetesEventConfig \<Rightarrow> kubernetesBindingsController \<Rightarrow> kube_world \<Rightarrow>
    ((kubernetesBindingsController \<times> kube_world) option) option" where
  "add_and_start env config c w =
     (let monitorID = binding_monitor w config in
      if has_key (BindingMonitorLinks c) monitorID \<and> HasMonitor monitorID (kem w) then Some (Some (c, w))
      else case AddMonitor env (mcs w (ok_Monitor config)) (kem w) of
        None \<Rightarrow> Some None
      | Some mgr \<Rightarrow> map_option
          (\<lambda>mgr. Some (c\<lparr>BindingMonitorLinks := AList.update monitorID config (BindingMonitorLinks c)\<rparr>, w\<lparr>kem := mgr\<rparr>))
          (StartMonitor monitorID mgr))"

fun enable_each :: "cluster_env \<Rightarrow> OnKubernetesEventConfig list \<Rightarrow> BindingExecutionInfo list \<Rightarrow> kubernetesBindingsController \<Rightarrow>
    kube_world \<Rightarrow> (BindingExecutionInfo list option \<times> kubernetesBindingsController \<times> kube_world) option" where
  "enable_each env [] res c w = Some (Some res, c, w)"
| "enable_each env (config # configs) res c w =
     (case add_and_start env config c w of
        None \<Rightarrow> None
      | Some None \<Rightarrow> Some (None, c, w)
      | Some (Some (c, w)) \<Rightarrow>
          enable_each env configs
            (res @ [kube_HandleEvent w c \<lparr>ke_MonitorId = binding_monitor w config, ke_Type = TypeSynchronization,
                                         ke_WatchEvents = [], ke_Objects = []\<rparr>]) c w)"

definition kube_EnableKubernetesBindings :: "cluster_env \<Rightarrow> kubernetesBindingsController \<Rightarrow> kube_world \<Rightarrow>
    (BindingExecutionInfo list option \<times> kubernetesBindingsController \<times> kube_world) option" where
  "kube_EnableKubernetesBindings env c w = enable_each env (KubernetesBindings c) [] c w"

definition UnlockEventsFor :: "string \<Rightarrow> kube_world \<Rightarrow> kube_world" where
  "UnlockEventsFor monitorID w =
     (case kem w monitorID of
        None \<Rightarrow> w
      | Some m \<Rightarrow> w\<lparr>kem := (kem w)(monitorID \<mapsto> mon_EnableKubeEventCb m)\<rparr>)"

text \<open>\<open>None\<close>: a monitor of a link is missing and its nil value is used.\<close>

fun unlock_each :: "string list \<Rightarrow> kube_world \<Rightarrow> kube_world option" where
  "unlock_each [] w = Some w"
| "unlock_each (monitorID # ids) w =
     (case kem w monitorID of None \<Rightarrow> None | Some m \<Rightarrow> unlock_each ids (UnlockEventsFor monitorID w))"

definition UnlockEvents :: "iteration \<Rightarrow> kubernetesBindingsController \<Rightarrow> kube_world \<Rightarrow> kube_world option" where
  "UnlockEvents perm c w = unlock_each (map fst (go_range perm [] (BindingMonitorLinks c))) w"

text \<open>\<open>UpdateMonitor\<close>: the first component says that it returned nil.\<close>

definition UpdateMonitor :: "cluster_env \<Rightarrow> string \<Rightarrow> string \<Rightarrow> string \<Rightarrow> kubernetesBindingsController \<Rightarrow> kube_world \<Rightarrow>
    (bool \<times> kube_world) option" where
  "UpdateMonitor env monitorId kind apiVersion c w =
     (case map_of (BindingMonitorLinks c) monitorId of
        None \<Rightarrow> Some (True, w)
      | Some config \<Rightarrow>
          let w = w\<lparr>kem := StopMonitor monitorId (kem w)\<rparr>;
              p = ok_Monitor config;
              w = w\<lparr>mcs := (mcs w)(p := (mcs w p)\<lparr>mc_Kind := kind, mc_ApiVersion := apiVersion\<rparr>)\<rparr>
          in case AddMonitor env (mcs w p) (kem w) of
               None \<Rightarrow> Some (False, w)
             | Some mgr \<Rightarrow>
                 map_option (\<lambda>mgr. (True, UnlockEventsFor monitorId
                     (w\<lparr>kem := mgr, kube_Ch := kube_Ch w @ [\<lparr>ke_MonitorId = monitorId, ke_Type = TypeEvent,
                        ke_WatchEvents = [WatchEventAdded], ke_Objects = []\<rparr>]\<rparr>)))
                   (StartMonitor monitorId mgr))"

definition DisableKubernetesBindings :: "kubernetesBindingsController \<Rightarrow> kube_world \<Rightarrow>
    kubernetesBindingsController \<times> kube_world" where
  "DisableKubernetesBindings c w =
     (c\<lparr>BindingMonitorLinks := []\<rparr>, w\<lparr>kem := fold StopMonitor (map_keys (BindingMonitorLinks c)) (kem w)\<rparr>)"

definition BindingNames :: "kubernetesBindingsController \<Rightarrow> string list" where
  "BindingNames c = map ok_BindingName (KubernetesBindings c)"

section \<open>Snapshots\<close>

text \<open>
  A snapshot reads the monitor of the first binding of that name and resets the event buffers of its informers.
  \<open>perm\<close> orders the reads, \<open>sorter\<close> is the sort of the objects.
\<close>

definition SnapshotsFor :: "iteration \<Rightarrow> (ObjectAndFilterResult list \<Rightarrow> ObjectAndFilterResult list) \<Rightarrow> kubernetesBindingsController \<Rightarrow>
    string \<Rightarrow> kube_world \<Rightarrow> ObjectAndFilterResult list \<times> kube_world" where
  "SnapshotsFor perm sorter c bindingName w =
     (case find (\<lambda>binding. bindingName = ok_BindingName binding) (KubernetesBindings c) of
        None \<Rightarrow> ([], w)
      | Some binding \<Rightarrow>
          (case kem w (binding_monitor w binding) of
             None \<Rightarrow> ([], w)
           | Some m \<Rightarrow> let (objs, m) = mon_Snapshot perm sorter m in (objs, w\<lparr>kem := (kem w)(binding_monitor w binding \<mapsto> m)\<rparr>)))"

fun SnapshotsFrom :: "iteration \<Rightarrow> (ObjectAndFilterResult list \<Rightarrow> ObjectAndFilterResult list) \<Rightarrow> kubernetesBindingsController \<Rightarrow>
    string list \<Rightarrow> (string \<times> ObjectAndFilterResult list) list \<Rightarrow> kube_world \<Rightarrow>
    (string \<times> ObjectAndFilterResult list) list \<times> kube_world" where
  "SnapshotsFrom perm sorter c [] res w = (res, w)"
| "SnapshotsFrom perm sorter c (bindingName # names) res w =
     (let (snapshot, w) = SnapshotsFor perm sorter c bindingName w
      in SnapshotsFrom perm sorter c names (AList.update bindingName snapshot res) w)"

definition Snapshots :: "iteration \<Rightarrow> (ObjectAndFilterResult list \<Rightarrow> ObjectAndFilterResult list) \<Rightarrow> kubernetesBindingsController \<Rightarrow>
    kube_world \<Rightarrow> (string \<times> ObjectAndFilterResult list) list \<times> kube_world" where
  "Snapshots perm sorter c w = SnapshotsFrom perm sorter c (BindingNames c) [] w"

text \<open>
  \<open>UpdateSnapshots\<close>. The monitors change while it runs: \<open>other\<close> is what happens between two reads, the state
  counts the reads. The cache lives for one call.
\<close>

record snap_env =
  sn_perm :: iteration
  sn_sorter :: "ObjectAndFilterResult list \<Rightarrow> ObjectAndFilterResult list"
  sn_other :: "nat \<Rightarrow> kube_world \<Rightarrow> kube_world"

type_synonym snap_state = "(string \<times> ObjectAndFilterResult list) list \<times> nat \<times> kube_world"

definition cached_snapshot :: "snap_env \<Rightarrow> kubernetesBindingsController \<Rightarrow> string \<Rightarrow> snap_state \<Rightarrow> snap_state" where
  "cached_snapshot e c bindingName = (\<lambda>(cache, n, w).
     if has_key cache bindingName then (cache, n, w)
     else let (objs, w) = SnapshotsFor (sn_perm e) (sn_sorter e) c bindingName (sn_other e n w)
          in (AList.update bindingName objs cache, n + 1, w))"

fun include_snapshots :: "snap_env \<Rightarrow> kubernetesBindingsController \<Rightarrow> string list \<Rightarrow>
    (string \<times> ObjectAndFilterResult list) list \<Rightarrow> snap_state \<Rightarrow> (string \<times> ObjectAndFilterResult list) list \<times> snap_state" where
  "include_snapshots e c [] snaps s = (snaps, s)"
| "include_snapshots e c (bindingName # names) snaps s =
     (let s = cached_snapshot e c bindingName s
      in include_snapshots e c names (AList.update bindingName (map_get [] (fst s) bindingName) snaps) s)"

text \<open>\<open>includes\<close> is \<open>getIncludeSnapshotsFrom\<close> of the hook.\<close>

definition update_context :: "snap_env \<Rightarrow> kubernetesBindingsController \<Rightarrow> (BindingType \<Rightarrow> string \<Rightarrow> string list) \<Rightarrow>
    BindingContext \<Rightarrow> snap_state \<Rightarrow> BindingContext \<times> snap_state" where
  "update_context e c includes bc s =
     (let (snaps, s) = include_snapshots e c (includes (bc_BindingType bc) (bc_Binding bc)) [] s;
          newBc = bc\<lparr>bc_Snapshots := snaps\<rparr>
      in if bc_BindingType newBc = bt_OnKubernetesEvent \<and> bc_Type newBc = TypeSynchronization
         then let s = cached_snapshot e c (bc_Binding bc) s
              in (newBc\<lparr>bc_Objects := map_get [] (fst s) (bc_Binding bc)\<rparr>, s)
         else (newBc, s))"

fun update_contexts :: "snap_env \<Rightarrow> kubernetesBindingsController \<Rightarrow> (BindingType \<Rightarrow> string \<Rightarrow> string list) \<Rightarrow>
    BindingContext list \<Rightarrow> snap_state \<Rightarrow> BindingContext list \<times> snap_state" where
  "update_contexts e c includes [] s = ([], s)"
| "update_contexts e c includes (bc # bcs) s =
     (let (newBc, s) = update_context e c includes bc s;
          (newContext, s) = update_contexts e c includes bcs s
      in (newBc # newContext, s))"

definition UpdateSnapshots :: "snap_env \<Rightarrow> kubernetesBindingsController option \<Rightarrow> (BindingType \<Rightarrow> string \<Rightarrow> string list) \<Rightarrow>
    BindingContext list \<Rightarrow> kube_world \<Rightarrow> BindingContext list \<times> kube_world" where
  "UpdateSnapshots e c includes context w =
     (case c of
        None \<Rightarrow> (context, w)
      | Some c \<Rightarrow> let (newContext, cache, n, w) = update_contexts e c includes context ([], 0, w) in (newContext, w))"

section \<open>Lemmas\<close>

subsection \<open>Enabling kubernetes bindings\<close>

text \<open>The links are made by earlier calls: each belongs to a binding of the hook and stands under its monitor id.\<close>

definition links_ok :: "kube_world \<Rightarrow> kubernetesBindingsController \<Rightarrow> bool" where
  "links_ok w c \<longleftrightarrow> inj_on (binding_monitor w) (set (KubernetesBindings c)) \<and>
     (\<forall>(i, config) \<in> set (BindingMonitorLinks c). config \<in> set (KubernetesBindings c) \<and> binding_monitor w config = i)"

definition creatable :: "cluster_env \<Rightarrow> kube_world \<Rightarrow> OnKubernetesEventConfig \<Rightarrow> bool" where
  "creatable env w config \<longleftrightarrow> CreateInformers env (NewMonitor (mcs w (ok_Monitor config))) \<noteq> None"

definition sync_info :: "kube_world \<Rightarrow> OnKubernetesEventConfig \<Rightarrow> BindingExecutionInfo" where
  "sync_info w config =
     \<lparr>bei_BindingContext = [empty_bc\<lparr>bc_Binding := ok_BindingName config, bc_Type := TypeSynchronization,
        bc_JqFilter := mc_JqFilter (mcs w (ok_Monitor config)), bc_BindingType := bt_OnKubernetesEvent,
        bc_IncludeSnapshots := ok_IncludeSnapshotsFrom config, bc_Group := ok_Group config\<rparr>],
      bei_IncludeSnapshots = ok_IncludeSnapshotsFrom config, bei_IncludeAllSnapshots = False,
      bei_AllowFailure = ok_AllowFailure config, bei_QueueName = ok_Queue config,
      bei_Binding = ok_BindingName config, bei_Group = ok_Group config, bei_KubernetesBinding = Some config\<rparr>"

lemma empty_bc_objects [simp]: "empty_bc\<lparr>bc_Objects := []\<rparr> = empty_bc"
  by (simp add: empty_bc_def)

lemma links_ok_lookup:
  assumes "links_ok w c" "config \<in> set (KubernetesBindings c)" "has_key (BindingMonitorLinks c) (binding_monitor w config)"
  shows "map_of (BindingMonitorLinks c) (binding_monitor w config) = Some config"
proof -
  from assms(3) obtain config' where l: "map_of (BindingMonitorLinks c) (binding_monitor w config) = Some config'"
    by (auto simp: has_key_def simp del: has_key_iff)
  then have "config' \<in> set (KubernetesBindings c)" "binding_monitor w config' = binding_monitor w config"
    using assms(1) by (auto simp: links_ok_def dest!: map_of_SomeD)
  with assms(1,2) have "config' = config" by (auto simp: links_ok_def dest: inj_onD)
  with l show ?thesis by simp
qed

lemma links_ok_update:
  assumes "links_ok w c" "config \<in> set (KubernetesBindings c)"
  shows "links_ok w (c\<lparr>BindingMonitorLinks := AList.update (binding_monitor w config) config (BindingMonitorLinks c)\<rparr>)"
  using assms by (auto simp: links_ok_def dest!: set_update_cases)

text \<open>What a successful call leaves behind, step by step: nothing that was there is lost or changed, new monitors are started.\<close>

definition enabled_more :: "kubernetesBindingsController \<Rightarrow> kube_world \<Rightarrow> kubernetesBindingsController \<Rightarrow> kube_world \<Rightarrow> bool" where
  "enabled_more c w c' w' \<longleftrightarrow> mcs w' = mcs w \<and> kube_Ch w' = kube_Ch w \<and> KubernetesBindings c' = KubernetesBindings c \<and> links_ok w' c' \<and>
     set (map_keys (BindingMonitorLinks c)) \<subseteq> set (map_keys (BindingMonitorLinks c')) \<and> dom (kem w) \<subseteq> dom (kem w') \<and>
     (\<forall>i. has_key (BindingMonitorLinks c) i \<and> HasMonitor i (kem w) \<longrightarrow> kem w' i = kem w i) \<and>
     (\<forall>i m. kem w' i = Some m \<and> kem w i \<noteq> Some m \<longrightarrow> mon_started m)"

lemma enabled_more_refl: "links_ok w c \<Longrightarrow> enabled_more c w c w"
  by (simp add: enabled_more_def)

lemma enabled_more_trans:
  assumes "enabled_more c w c1 w1" "enabled_more c1 w1 c2 w2" shows "enabled_more c w c2 w2"
proof -
  have "kem w2 i = kem w i" if "has_key (BindingMonitorLinks c) i" "HasMonitor i (kem w)" for i
    using that assms unfolding enabled_more_def HasMonitor_def by (metis (no_types, lifting) domIff has_key_iff subsetD)
  moreover have "mon_started m" if "kem w2 i = Some m" "kem w i \<noteq> Some m" for i m
    using that assms unfolding enabled_more_def by metis
  moreover have "dom (kem w) \<subseteq> dom (kem w2)" using assms unfolding enabled_more_def by blast
  ultimately show ?thesis using assms unfolding enabled_more_def by auto
qed

lemma add_and_start_more:
  assumes "links_ok w c" "config \<in> set (KubernetesBindings c)" "creatable env w config"
  obtains c' w' where "add_and_start env config c w = Some (Some (c', w'))" "enabled_more c w c' w'"
    "map_of (BindingMonitorLinks c') (binding_monitor w config) = Some config" "HasMonitor (binding_monitor w config) (kem w')"
proof (cases "has_key (BindingMonitorLinks c) (binding_monitor w config) \<and> HasMonitor (binding_monitor w config) (kem w)")
  case True
  then show ?thesis
    using that [of c w] links_ok_lookup [OF assms(1,2)] enabled_more_refl [OF assms(1)] by (simp add: add_and_start_def)
next
  case False
  let ?i = "binding_monitor w config"
  from assms(3) obtain m where m: "CreateInformers env (NewMonitor (mcs w (ok_Monitor config))) = Some m"
    by (auto simp: creatable_def)
  let ?c = "c\<lparr>BindingMonitorLinks := AList.update ?i config (BindingMonitorLinks c)\<rparr>" and ?w = "w\<lparr>kem := (kem w)(?i \<mapsto> mon_Start m)\<rparr>"
  have step: "add_and_start env config c w = Some (Some (?c, ?w))"
    using False m by (auto simp: add_and_start_def AddMonitor_def StartMonitor_def Let_def)
  have "links_ok ?w ?c" using links_ok_update [OF assms(1,2)] by (simp add: links_ok_def)
  then have "enabled_more c w ?c ?w"
    using False by (auto simp: enabled_more_def mon_Start_def HasMonitor_def)
  with step show ?thesis by (intro that [of ?c ?w]) (simp_all add: update_conv' HasMonitor_def)
qed

lemma enable_each_result:
  assumes "links_ok w c" "set configs \<subseteq> set (KubernetesBindings c)" "\<forall>config \<in> set configs. creatable env w config"
  shows "\<exists>c' w'. enable_each env configs res c w = Some (Some (res @ map (sync_info w) configs), c', w') \<and>
     enabled_more c w c' w' \<and>
     (\<forall>config \<in> set configs. map_of (BindingMonitorLinks c') (binding_monitor w config) = Some config \<and>
        HasMonitor (binding_monitor w config) (kem w'))"
  using assms
proof (induction configs arbitrary: res c w)
  case Nil
  then show ?case by (simp add: enabled_more_refl)
next
  case (Cons config configs)
  obtain c1 w1 where 1: "add_and_start env config c w = Some (Some (c1, w1))" "enabled_more c w c1 w1"
      "map_of (BindingMonitorLinks c1) (binding_monitor w config) = Some config" "HasMonitor (binding_monitor w config) (kem w1)"
    using add_and_start_more [of w c config env] Cons.prems by auto
  have same: "mcs w1 = mcs w" "KubernetesBindings c1 = KubernetesBindings c" "links_ok w1 c1"
    using 1(2) by (simp_all add: enabled_more_def)
  have sync: "kube_HandleEvent w1 c1 \<lparr>ke_MonitorId = binding_monitor w1 config, ke_Type = TypeSynchronization,
      ke_WatchEvents = [], ke_Objects = []\<rparr> = sync_info w config"
    using 1(3) same(1) by (simp add: kube_HandleEvent_def ConvertKubeEventToBindingContext_def kube_bc_def sync_info_def empty_bc_def)
  have "sync_info w1 = sync_info w" using same(1) by (simp add: sync_info_def fun_eq_iff)
  moreover from Cons.IH [OF same(3), of "res @ [sync_info w config]"] Cons.prems same
  obtain c2 w2 where 2: "enable_each env configs (res @ [sync_info w config]) c1 w1 =
        Some (Some ((res @ [sync_info w config]) @ map (sync_info w1) configs), c2, w2)" "enabled_more c1 w1 c2 w2"
      "\<forall>config \<in> set configs. map_of (BindingMonitorLinks c2) (binding_monitor w1 config) = Some config \<and>
        HasMonitor (binding_monitor w1 config) (kem w2)"
    by (auto simp: creatable_def)
  moreover have "map_of (BindingMonitorLinks c2) (binding_monitor w config) = Some config \<and> HasMonitor (binding_monitor w config) (kem w2)"
  proof -
    have "has_key (BindingMonitorLinks c1) (binding_monitor w config)" using 1(3) unfolding has_key_def by simp
    then have "has_key (BindingMonitorLinks c2) (binding_monitor w2 config)" "links_ok w2 c2" "mcs w2 = mcs w"
        "KubernetesBindings c2 = KubernetesBindings c" "kem w2 (binding_monitor w config) \<noteq> None"
      using 2(2) 1(4) same by (auto simp: enabled_more_def HasMonitor_def)
    with links_ok_lookup [of w2 c2 config] Cons.prems(2) show ?thesis by (simp add: HasMonitor_def)
  qed
  ultimately show ?case
    using 1(1) sync same(1) enabled_more_trans [OF 1(2) 2(2)] by auto
qed

lemma unlock_keeps_dom: "kem (UnlockEventsFor k w) i = None \<longleftrightarrow> kem w i = None"
  by (auto simp: UnlockEventsFor_def split: option.splits)

lemma unlock_each_None: "unlock_each ids w = None \<longleftrightarrow> (\<exists>i \<in> set ids. kem w i = None)"
  by (induction ids w rule: unlock_each.induct) (auto simp: unlock_keeps_dom split: option.split)

subsection \<open>Enabling schedule bindings\<close>

lemma sched_enable_links:
  "fst (fold (sched_enable_one lib) configs (c, sm)) =
     c\<lparr>ScheduleLinks := fold (\<lambda>config. AList.update (se_Id (sc_ScheduleEntry config)) (sched_link config)) configs (ScheduleLinks c)\<rparr>"
  by (induction configs arbitrary: c sm) (simp_all add: sched_enable_one_def)

lemma sched_enable_manager:
  "snd (fold (sched_enable_one lib) configs (c, sm)) = fold (sm_do lib) (map (OpAdd \<circ> sc_ScheduleEntry) configs) sm"
  by (induction configs arbitrary: c sm) (simp_all add: sched_enable_one_def)

lemma fold_update_fresh:
  assumes "distinct (map key xs)" "set (map key xs) \<inter> set (map_keys m) = {}"
  shows "fold (\<lambda>x. AList.update (key x) (val x)) xs m = m @ map (\<lambda>x. (key x, val x)) xs"
proof -
  have new: "k \<notin> set (map_keys m) \<Longrightarrow> AList.update k v m = m @ [(k, v)]" for k v m
    by (induction m) auto
  show ?thesis using assms
  proof (induction xs arbitrary: m)
    case (Cons x xs)
    then show ?case by (auto simp: new map_keys_def)
  qed simp
qed

lemma sched_enabled_links:
  assumes "distinct (map (se_Id \<circ> sc_ScheduleEntry) bindings)"
  shows "ScheduleLinks (fst (EnableScheduleBindings lib (NewScheduleBindingsController bindings) sm)) =
     map (\<lambda>config. (se_Id (sc_ScheduleEntry config), sched_link config)) bindings"
  using fold_update_fresh [of "se_Id \<circ> sc_ScheduleEntry" bindings "[]" sched_link] assms
  by (simp add: EnableScheduleBindings_def NewScheduleBindingsController_def sched_enable_links)

subsection \<open>Snapshots of one call\<close>

definition agrees :: "(string \<Rightarrow> ObjectAndFilterResult list) \<Rightarrow> snap_state \<Rightarrow> bool" where
  "agrees f s \<longleftrightarrow> (\<forall>k \<in> set (map_keys (fst s)). f k = map_get [] (fst s) k)"

definition real_snapshots :: "snap_env \<Rightarrow> kubernetesBindingsController \<Rightarrow> snap_state \<Rightarrow> bool" where
  "real_snapshots e c s \<longleftrightarrow> (\<forall>(k, objs) \<in> set (fst s). \<exists>w. objs = fst (SnapshotsFor (sn_perm e) (sn_sorter e) c k w))"

lemma cached_snapshot_agrees:
  assumes "agrees f (cached_snapshot e c k s)"
  shows "agrees f s" "map_get [] (fst (cached_snapshot e c k s)) k = f k"
  using assms by (auto simp: agrees_def cached_snapshot_def Let_def map_get_update case_prod_beta split: if_splits)

lemma cached_snapshot_real: "real_snapshots e c s \<Longrightarrow> real_snapshots e c (cached_snapshot e c k s)"
  by (auto simp: real_snapshots_def cached_snapshot_def Let_def case_prod_beta dest!: set_update_cases)

lemma include_snapshots_agrees:
  assumes "include_snapshots e c names snaps s = (snaps', s')" "agrees f s'"
  shows "agrees f s \<and> map_of snaps' = (\<lambda>k. if k \<in> set names then Some (f k) else map_of snaps k)"
  using assms
proof (induction e c names snaps s rule: include_snapshots.induct)
  case (2 e c k names snaps s)
  note step = "2.IH" [OF refl]
  from step "2.prems" have "agrees f (cached_snapshot e c k s)" by (simp add: Let_def)
  from cached_snapshot_agrees [OF this] step "2.prems" show ?case
    by (auto simp: Let_def update_conv' fun_eq_iff)
qed auto

lemma include_snapshots_real: "real_snapshots e c s \<Longrightarrow> real_snapshots e c (snd (include_snapshots e c names snaps s))"
  by (induction e c names snaps s rule: include_snapshots.induct) (simp_all add: Let_def cached_snapshot_real)

text \<open>What a context becomes, given the snapshots \<open>f\<close> of the call.\<close>

definition refreshed :: "(string \<Rightarrow> ObjectAndFilterResult list) \<Rightarrow> (BindingType \<Rightarrow> string \<Rightarrow> string list) \<Rightarrow> BindingContext \<Rightarrow> BindingContext \<Rightarrow> bool" where
  "refreshed f includes bc newBc \<longleftrightarrow>
     (\<forall>k. map_of (bc_Snapshots newBc) k = (if k \<in> set (includes (bc_BindingType bc) (bc_Binding bc)) then Some (f k) else None)) \<and>
     newBc\<lparr>bc_Snapshots := bc_Snapshots bc\<rparr> =
       (if bc_BindingType bc = bt_OnKubernetesEvent \<and> bc_Type bc = TypeSynchronization then bc\<lparr>bc_Objects := f (bc_Binding bc)\<rparr> else bc)"

lemma update_context_agrees:
  assumes "update_context e c includes bc s = (newBc, s')" "agrees f s'"
  shows "agrees f s \<and> refreshed f includes bc newBc"
proof -
  obtain snaps s1 where 1: "include_snapshots e c (includes (bc_BindingType bc) (bc_Binding bc)) [] s = (snaps, s1)"
    by (cases "include_snapshots e c (includes (bc_BindingType bc) (bc_Binding bc)) [] s") auto
  have "agrees f s1"
    using assms cached_snapshot_agrees(1) [of f e c "bc_Binding bc" s1] by (auto simp: update_context_def 1 Let_def split: if_splits)
  from include_snapshots_agrees [OF 1 this] show ?thesis
    using assms cached_snapshot_agrees(2) [of f e c "bc_Binding bc" s1]
    by (auto simp: update_context_def refreshed_def 1 Let_def split: if_splits)
qed

lemma update_context_real: "real_snapshots e c s \<Longrightarrow> real_snapshots e c (snd (update_context e c includes bc s))"
  using include_snapshots_real [of e c s "includes (bc_BindingType bc) (bc_Binding bc)" "[]"]
  by (auto simp: update_context_def Let_def cached_snapshot_real case_prod_beta)

lemma update_contexts_agrees:
  assumes "update_contexts e c includes bcs s = (bcs', s')" "agrees f s'"
  shows "agrees f s \<and> list_all2 (refreshed f includes) bcs bcs'"
  using assms
proof (induction bcs arbitrary: s bcs')
  case (Cons bc bcs)
  obtain newBc s1 where 1: "update_context e c includes bc s = (newBc, s1)" by (cases "update_context e c includes bc s") auto
  obtain bcs1 s2 where 2: "update_contexts e c includes bcs s1 = (bcs1, s2)" by (cases "update_contexts e c includes bcs s1") auto
  from Cons.prems(1) have eq: "bcs' = newBc # bcs1" "s2 = s'" by (simp_all add: 1 2)
  from Cons.IH [OF 2 [unfolded eq(2)] Cons.prems(2)] update_context_agrees [OF 1] eq(1) show ?case by auto
qed simp

lemma update_contexts_real: "real_snapshots e c s \<Longrightarrow> real_snapshots e c (snd (update_contexts e c includes bcs s))"
proof (induction bcs arbitrary: s)
  case (Cons bc bcs)
  from Cons.IH [OF update_context_real [OF Cons.prems, of "includes" bc]] show ?case by (simp add: case_prod_beta)
qed simp

section \<open>Properties\<close>

text \<open>
  C26. \<open>EnableKubernetesBindings\<close> heals: from any state its own calls and a lost or stopped monitor can leave, if the
  informers can be created, the call returns one Synchronization per binding, in the order of the bindings; every
  binding then has its link and a monitor; monitors that were linked and present are left alone, those made are
  started. A second call changes nothing and returns the same.
\<close>

theorem EnableKubernetesBindings_heals:
  assumes "links_ok w c" and "\<forall>config \<in> set (KubernetesBindings c). creatable env w config"
  shows "\<exists>c' w'. kube_EnableKubernetesBindings env c w = Some (Some (map (sync_info w) (KubernetesBindings c)), c', w') \<and>
     (\<forall>config \<in> set (KubernetesBindings c). map_of (BindingMonitorLinks c') (binding_monitor w config) = Some config \<and>
        HasMonitor (binding_monitor w config) (kem w')) \<and>
     (\<forall>i. has_key (BindingMonitorLinks c) i \<and> HasMonitor i (kem w) \<longrightarrow> kem w' i = kem w i) \<and>
     (\<forall>i m. kem w' i = Some m \<and> kem w i \<noteq> Some m \<longrightarrow> mon_started m) \<and>
     kube_EnableKubernetesBindings env c' w' = Some (Some (map (sync_info w) (KubernetesBindings c)), c', w')"
proof -
  from enable_each_result [OF assms(1) subset_refl assms(2), of "[]"]
  obtain c' w' where 1: "enable_each env (KubernetesBindings c) [] c w = Some (Some (map (sync_info w) (KubernetesBindings c)), c', w')"
      "enabled_more c w c' w'"
      "\<forall>config \<in> set (KubernetesBindings c). map_of (BindingMonitorLinks c') (binding_monitor w config) = Some config \<and>
        HasMonitor (binding_monitor w config) (kem w')"
    by auto
  have same: "mcs w' = mcs w" "KubernetesBindings c' = KubernetesBindings c" using 1(2) by (simp_all add: enabled_more_def)
  have again: "enable_each env configs res c' w' = Some (Some (res @ map (sync_info w) configs), c', w')"
    if "set configs \<subseteq> set (KubernetesBindings c)" for configs res
    using that
  proof (induction configs arbitrary: res)
    case (Cons config configs)
    then have here: "map_of (BindingMonitorLinks c') (binding_monitor w config) = Some config"
        "HasMonitor (binding_monitor w config) (kem w')" using 1(3) by simp_all
    have "has_key (BindingMonitorLinks c') (binding_monitor w config)" unfolding has_key_def using here(1) by simp
    then have "add_and_start env config c' w' = Some (Some (c', w'))"
      using here(2) same(1) by (simp add: add_and_start_def)
    moreover have "kube_HandleEvent w' c' \<lparr>ke_MonitorId = binding_monitor w' config, ke_Type = TypeSynchronization,
        ke_WatchEvents = [], ke_Objects = []\<rparr> = sync_info w config"
      using here(1) same(1) by (simp add: kube_HandleEvent_def ConvertKubeEventToBindingContext_def kube_bc_def sync_info_def empty_bc_def)
    ultimately show ?case using Cons by simp
  qed simp
  from again [of "KubernetesBindings c" "[]"] 1(1,3) 1(2) same show ?thesis
    by (auto simp: kube_EnableKubernetesBindings_def enabled_more_def)
qed

definition demo_kube_config :: OnKubernetesEventConfig where
  "demo_kube_config = \<lparr>ok_BindingName = ''pods'', ok_AllowFailure = False, ok_Monitor = 0, ok_IncludeSnapshotsFrom = [],
     ok_Queue = ''main'', ok_Group = [], ok_ExecuteHookOnSynchronization = True, ok_WaitForSynchronization = True,
     ok_KeepFullObjectsInMemory = True\<rparr>"

definition demo_kube_world :: kube_world where
  "demo_kube_world = \<lparr>mcs = (\<lambda>_. demo_mc), kem = Map.empty, kube_Ch = []\<rparr>"

text \<open>A controller whose link outlived its monitor.\<close>

definition demo_kube_ctl :: kubernetesBindingsController where
  "demo_kube_ctl = \<lparr>KubernetesBindings = [demo_kube_config], BindingMonitorLinks = [(mc_MonitorId demo_mc, demo_kube_config)]\<rparr>"

theorem EnableKubernetesBindings_heals_witness:
  "\<exists>c' w'. kube_EnableKubernetesBindings demo_env demo_kube_ctl demo_kube_world =
       Some (Some [sync_info demo_kube_world demo_kube_config], c', w') \<and> HasMonitor (mc_MonitorId demo_mc) (kem w')"
proof -
  have ok: "links_ok demo_kube_world demo_kube_ctl"
    by (simp add: links_ok_def demo_kube_world_def demo_kube_ctl_def)
  have "creatable demo_env demo_kube_world demo_kube_config" by code_simp
  then have "\<forall>config \<in> set (KubernetesBindings demo_kube_ctl). creatable demo_env demo_kube_world config"
    by (simp add: demo_kube_ctl_def)
  from EnableKubernetesBindings_heals [OF ok this] show ?thesis
    by (auto simp: demo_kube_ctl_def demo_kube_world_def)
qed

text \<open>
  C32. A failed \<open>UpdateMonitor\<close> leaves a trap: the old monitor is stopped and removed, the link stays. The next
  \<open>UnlockEvents\<close> of the hook uses the nil monitor and panics, whatever the order of the links.
\<close>

theorem UnlockEvents_panics_after_failed_update:
  assumes "map_iteration perm" and "UpdateMonitor env monitorId kind apiVersion c w = Some (False, w')"
  shows "UnlockEvents perm c w' = None"
proof -
  have "set (go_range perm [] (BindingMonitorLinks c)) = set (BindingMonitorLinks c)"
    by (rule mset_eq_setD [OF map_iteration.mset_go_range [OF assms(1)]])
  moreover have "monitorId \<in> fst ` set (BindingMonitorLinks c)" "kem w' monitorId = None"
    using assms(2) by (auto simp: UpdateMonitor_def Let_def StopMonitor_def split: option.splits if_splits dest!: map_of_SomeD intro: rev_image_eqI)
  ultimately show ?thesis by (auto simp: UnlockEvents_def unlock_each_None)
qed

definition demo_strict_env :: cluster_env where
  "demo_strict_env = demo_env\<lparr>env_api := (env_api demo_env)\<lparr>GroupVersionResource := (\<lambda>v k. None)\<rparr>\<rparr>"

theorem UnlockEvents_panics_after_failed_update_witness:
  "\<exists>w'. UpdateMonitor demo_strict_env (mc_MonitorId demo_mc) ''Nope'' ''v1'' demo_kube_ctl demo_kube_world = Some (False, w') \<and>
     UnlockEvents oldest_first demo_kube_ctl w' = None"
proof -
  have "map_option fst (UpdateMonitor demo_strict_env (mc_MonitorId demo_mc) ''Nope'' ''v1'' demo_kube_ctl demo_kube_world) = Some False"
    by code_simp
  then obtain w' where "UpdateMonitor demo_strict_env (mc_MonitorId demo_mc) ''Nope'' ''v1'' demo_kube_ctl demo_kube_world = Some (False, w')"
    by auto
  with UnlockEvents_panics_after_failed_update [OF oldest.map_iteration_axioms this] show ?thesis by blast
qed

text \<open>
  C27. Snapshots are consistent within one call: whatever happens to the monitors between the reads, all contexts of
  one \<open>UpdateSnapshots\<close> see the same objects \<open>f k\<close> for a binding \<open>k\<close>, in the included snapshots as well as in the objects of a
  Synchronization; these are what a snapshot of the binding returned; nothing else of a context changes.
\<close>

theorem UpdateSnapshots_consistent:
  "\<exists>f. list_all2 (refreshed f included) context (fst (UpdateSnapshots e (Some c) included context w)) \<and>
     (\<forall>k. \<exists>w'. f k = fst (SnapshotsFor (sn_perm e) (sn_sorter e) c k w'))"
proof -
  obtain bcs s where s: "update_contexts e c included context ([], 0, w) = (bcs, s)"
    by (cases "update_contexts e c included context ([], 0, w)") auto
  define f where "f k = (if k \<in> set (map_keys (fst s)) then map_get [] (fst s) k else fst (SnapshotsFor (sn_perm e) (sn_sorter e) c k w))" for k
  have "agrees f s" by (simp add: agrees_def f_def)
  from update_contexts_agrees [OF s this] have "list_all2 (refreshed f included) context bcs" by blast
  moreover have "real_snapshots e c s"
    using update_contexts_real [of e c "([], 0, w)" included "context"] by (simp add: s real_snapshots_def)
  then have "\<exists>w'. f k = fst (SnapshotsFor (sn_perm e) (sn_sorter e) c k w')" for k
    using map_get_mem [of k "fst s" "[]"] by (auto simp: f_def real_snapshots_def)
  moreover have "fst (UpdateSnapshots e (Some c) included context w) = bcs"
    by (simp add: UpdateSnapshots_def s case_prod_beta)
  ultimately show ?thesis by auto
qed

text \<open>
  A crontab that fires starts exactly the bindings it should: after the schedule bindings of a hook with distinct
  schedule ids are enabled, the controller answers the crontab with one execution per binding with that crontab, whatever the
  order of its map, and refuses every other crontab; the ids of all bindings with a valid crontab are registered with
  the schedule manager.
\<close>

lemma schedule_bindings_fire:
  assumes "cron_library lib valid" and "cron_jobs lib cron = Map.empty" and "map_iteration perm"
    and "distinct (map (se_Id \<circ> sc_ScheduleEntry) bindings)"
    and "EnableScheduleBindings lib (NewScheduleBindingsController bindings) (sm_run lib ops cron) = (c, sm')"
  shows "mset (sched_HandleEvent perm c crontab) =
       mset (map (sched_info \<circ> sched_link) (filter (\<lambda>config. se_Crontab (sc_ScheduleEntry config) = crontab) bindings)) \<and>
     (sched_CanHandleEvent c crontab \<longleftrightarrow> (\<exists>config \<in> set bindings. se_Crontab (sc_ScheduleEntry config) = crontab)) \<and>
     registered sm' = fold (reg_do valid) (map (OpAdd \<circ> sc_ScheduleEntry) bindings) (registered (sm_run lib ops cron))"
proof -
  let ?sm = "sm_run lib ops cron" and ?adds = "map (OpAdd \<circ> sc_ScheduleEntry) bindings"
  have links: "ScheduleLinks c = map (\<lambda>config. (se_Id (sc_ScheduleEntry config), sched_link config)) bindings"
    using sched_enabled_links [OF assms(4), of lib ?sm] by (simp add: assms(5))
  have "mset (sched_HandleEvent perm c crontab) =
      image_mset sched_info (filter_mset (\<lambda>link. sl_Crontab link = crontab) (image_mset snd (mset (go_range perm [] (ScheduleLinks c)))))"
    by (simp add: sched_HandleEvent_def)
  also have "\<dots> = mset (map sched_info (filter (\<lambda>link. sl_Crontab link = crontab) (map snd (ScheduleLinks c))))"
    by (simp add: map_iteration.mset_go_range [OF assms(3)])
  finally have "mset (sched_HandleEvent perm c crontab) =
      mset (map (sched_info \<circ> sched_link) (filter (\<lambda>config. se_Crontab (sc_ScheduleEntry config) = crontab) bindings))"
    by (simp add: links filter_map comp_def sched_link_def)
  moreover have "sched_CanHandleEvent c crontab \<longleftrightarrow> (\<exists>config \<in> set bindings. se_Crontab (sc_ScheduleEntry config) = crontab)"
    by (simp add: sched_CanHandleEvent_def links sched_link_def)
  moreover
  have "sm' = snd (EnableScheduleBindings lib (NewScheduleBindingsController bindings) ?sm)" by (simp add: assms(5))
  then have sm': "sm' = sm_run lib (ops @ ?adds) cron"
    by (simp add: EnableScheduleBindings_def NewScheduleBindingsController_def sched_enable_manager sm_run_def)
  have "registered (NewScheduleManager cron) = {}" by (auto simp: registered_def NewScheduleManager_def)
  then have run: "registered (sm_run lib os cron) = fold (reg_do valid) os {}" for os
    using cron_library.run_registered [OF assms(1) cron_library.new_inv [OF assms(1,2)], of os] by (simp add: sm_run_def)
  then have "registered sm' = fold (reg_do valid) ?adds (registered ?sm)"
    by (simp only: sm' run fold_append comp_apply)
  ultimately show ?thesis by blast
qed

definition demo_schedule :: "string \<Rightarrow> string \<Rightarrow> ScheduleConfig" where
  "demo_schedule name crontab = \<lparr>sc_BindingName = name, sc_AllowFailure = False,
     sc_ScheduleEntry = \<lparr>se_Crontab = crontab, se_Id = name\<rparr>, sc_IncludeSnapshotsFrom = [], sc_Queue = ''main'', sc_Group = []\<rparr>"

lemma schedule_bindings_fire_instance:
  "\<exists>c sm'. EnableScheduleBindings (numbered_cron (\<lambda>s. True)) (NewScheduleBindingsController
       [demo_schedule ''a'' ''* *'', demo_schedule ''b'' ''0 *'', demo_schedule ''c'' ''* *'']) (sm_run (numbered_cron (\<lambda>s. True)) [] []) = (c, sm') \<and>
     size (mset (sched_HandleEvent newest_first c ''* *'')) = 2"
proof -
  let ?lib = "numbered_cron (\<lambda>s. True)" and ?bs = "[demo_schedule ''a'' ''* *'', demo_schedule ''b'' ''0 *'', demo_schedule ''c'' ''* *'']"
  obtain c sm' where e: "EnableScheduleBindings ?lib (NewScheduleBindingsController ?bs) (sm_run ?lib [] []) = (c, sm')"
    by (cases "EnableScheduleBindings ?lib (NewScheduleBindingsController ?bs) (sm_run ?lib [] [])")
  have jobs: "cron_jobs ?lib [] = Map.empty" by (simp add: numbered_cron_def)
  have d: "distinct (map (se_Id \<circ> sc_ScheduleEntry) ?bs)" by code_simp
  have "length (filter (\<lambda>config. se_Crontab (sc_ScheduleEntry config) = ''* *'') ?bs) = 2" by code_simp
  with schedule_bindings_fire [OF numbered.cron_library_axioms jobs newest.map_iteration_axioms d e, of "''* *''"] e
  show ?thesis by (metis length_map size_mset)
qed

end
