(* ===== verification/Backoff.thy ===== *)
theory Backoff
  imports Go_Prelude
begin

text \<open>
  \<open>pkg/utils/exponential_backoff/delay.go\<close>, \<open>pkg/utils/retry/retry.go\<close> and what they use of Go's
  \<open>time.Duration\<close> (nanoseconds): truncation and the printed form.

  The random number of \<open>rand.Int64N(1000)\<close> is the argument \<open>rnd\<close>. All sums stay far below the
  bound of \<open>int64\<close>, so durations are integers. \<open>ExponentialCalculationsCount\<close> is
  \<open>int(log 32 / log 2)\<close>, that is 5.
\<close>

section \<open>Durations\<close>

abbreviation Millisecond :: duration where "Millisecond \<equiv> 1000000"
abbreviation Second :: duration where "Second \<equiv> 1000000000"

definition Duration_Truncate :: "duration \<Rightarrow> duration \<Rightarrow> duration" where
  "Duration_Truncate d m = (if m \<le> 0 then d else d - (if d < 0 then - ((- d) mod m) else d mod m))"

text \<open>\<open>frac w v\<close>: the \<open>w\<close> digits of \<open>v\<close> after the point, without trailing zeros.\<close>

fun frac_digits :: "nat \<Rightarrow> nat \<Rightarrow> string" where
  "frac_digits 0 v = []"
| "frac_digits (Suc w) v =
     (let rest = frac_digits w (v div 10) in
      rest @ [char_of (48 + v mod 10)])"

definition trim_zeros :: "string \<Rightarrow> string" where
  "trim_zeros s = rev (dropWhile (\<lambda>c. c = CHR ''0'') (rev s))"

definition with_fraction :: "nat \<Rightarrow> nat \<Rightarrow> nat \<Rightarrow> string" where
  "with_fraction whole w v =
     (let f = trim_zeros (frac_digits w v) in
      show_nat whole @ (if f = [] then [] else ''.'' @ f))"

definition Duration_String :: "duration \<Rightarrow> string" where
  "Duration_String d =
     (let u = nat \<bar>d\<bar>; sign = (if d < 0 then ''-'' else []) in
      if u = 0 then ''0s''
      else if u < 1000 then sign @ show_nat u @ ''ns''
      else if u < 1000000 then sign @ with_fraction (u div 1000) 3 (u mod 1000) @ [CHR 0xC2, CHR 0xB5] @ ''s''
      else if u < 1000000000 then sign @ with_fraction (u div 1000000) 6 (u mod 1000000) @ ''ms''
      else
        (let secs = u div 1000000000; nanos = u mod 1000000000;
             s = with_fraction (secs mod 60) 9 nanos @ ''s'';
             mins = secs div 60 in
         sign @
         (if mins = 0 then s
          else if mins div 60 = 0 then show_nat (mins mod 60) @ ''m'' @ s
          else show_nat (mins div 60) @ ''h'' @ show_nat (mins mod 60) @ ''m'' @ s)))"

section \<open>Exponential backoff\<close>

definition MaxExponentialBackoffDelay :: duration where "MaxExponentialBackoffDelay = 32 * Second"

definition ExponentialCalculationsCount :: nat where "ExponentialCalculationsCount = 5"

definition CalculateDelayWithMax :: "int \<Rightarrow> duration \<Rightarrow> duration \<Rightarrow> nat \<Rightarrow> duration" where
  "CalculateDelayWithMax rnd initialDelay maxDelay retryCount =
     (if retryCount = 0 then initialDelay
      else
        (let delayNs = (if retryCount \<le> ExponentialCalculationsCount
                        then Second * 2 ^ (retryCount - 1) else maxDelay);
             rndDelayNs = rnd * Millisecond;
             delay = Duration_Truncate (initialDelay + delayNs + rndDelayNs) (100 * Millisecond) in
         if delay > maxDelay then maxDelay else delay))"

definition CalculateDelay :: "int \<Rightarrow> duration \<Rightarrow> nat \<Rightarrow> duration" where
  "CalculateDelay rnd initialDelay retryCount =
     CalculateDelayWithMax rnd initialDelay MaxExponentialBackoffDelay retryCount"

section \<open>Retry with backoff\<close>

record RetryConfig =
  MaxRetries :: int
  InitialBackoff :: duration
  MaxBackoff :: duration

datatype 'e retry_result = RetryNil | RetryErr 'e | RetryCancelled

text \<open>
  \<open>fn i\<close> is what call \<open>i\<close> returns (\<open>None\<close>: nil), \<open>cancelled i\<close> says that the context is cancelled
  in the sleep after call \<open>i\<close>. The result lists the sleeps, so its length counts the retries.
\<close>

function retry_loop :: "RetryConfig \<Rightarrow> (nat \<Rightarrow> 'e option) \<Rightarrow> (nat \<Rightarrow> bool) \<Rightarrow> duration \<Rightarrow> nat \<Rightarrow>
    'e option \<Rightarrow> duration list \<Rightarrow> 'e retry_result \<times> duration list" where
  "retry_loop cfg fn cancelled backoff attempt lastErr sleeps =
     (if int attempt > MaxRetries cfg
      then (case lastErr of None \<Rightarrow> RetryNil | Some e \<Rightarrow> RetryErr e, sleeps)
      else
        (case fn attempt of
           None \<Rightarrow> (RetryNil, sleeps)
         | Some e \<Rightarrow>
             if int attempt < MaxRetries cfg then
               (if cancelled attempt then (RetryCancelled, sleeps @ [backoff])
                else retry_loop cfg fn cancelled (min (backoff * 2) (MaxBackoff cfg)) (attempt + 1)
                       (Some e) (sleeps @ [backoff]))
             else retry_loop cfg fn cancelled backoff (attempt + 1) (Some e) sleeps))"
  by pat_completeness auto
termination
  by (relation "measure (\<lambda>(cfg, fn, c, b, attempt, l, s). nat (MaxRetries cfg + 1 - int attempt))") auto

declare retry_loop.simps [simp del]

definition WithBackoff :: "RetryConfig \<Rightarrow> (nat \<Rightarrow> 'e option) \<Rightarrow> (nat \<Rightarrow> bool) \<Rightarrow>
    'e retry_result \<times> duration list" where
  "WithBackoff cfg fn cancelled = retry_loop cfg fn cancelled (InitialBackoff cfg) 0 None []"

section \<open>Lemmas\<close>

lemma truncate_bounds:
  "0 \<le> d \<Longrightarrow> 0 < m \<Longrightarrow> Duration_Truncate d m \<le> d \<and> d - m < Duration_Truncate d m \<and> m dvd Duration_Truncate d m"
  by (simp add: Duration_Truncate_def)

lemma retry_loop_failing:
  assumes "\<And>i. attempt \<le> i \<Longrightarrow> int i \<le> MaxRetries cfg \<Longrightarrow> fn i = Some (e i)"
    and "int attempt \<le> MaxRetries cfg"
  shows "fst (retry_loop cfg fn (\<lambda>_. False) b attempt l s) = RetryErr (e (nat (MaxRetries cfg))) \<and>
     length (snd (retry_loop cfg fn (\<lambda>_. False) b attempt l s)) =
       length s + nat (MaxRetries cfg - int attempt)"
  using assms
proof (induction "nat (MaxRetries cfg - int attempt)" arbitrary: attempt b l s)
  case 0
  then have eq: "int attempt = MaxRetries cfg" and fn: "fn attempt = Some (e attempt)" by simp_all
  then have "retry_loop cfg fn (\<lambda>_. False) b attempt l s = (RetryErr (e attempt), s)"
    by (subst retry_loop.simps, simp) (subst retry_loop.simps, simp)
  then show ?case using eq [symmetric] by simp
next
  case (Suc n)
  then have lt: "int attempt < MaxRetries cfg" and fn: "fn attempt = Some (e attempt)" by simp_all
  have step: "retry_loop cfg fn (\<lambda>_. False) b attempt l s =
      retry_loop cfg fn (\<lambda>_. False) (min (b * 2) (MaxBackoff cfg)) (attempt + 1) (Some (e attempt)) (s @ [b])"
    using lt fn by (subst retry_loop.simps) simp
  show ?case unfolding step using Suc(1) [of "attempt + 1"] Suc(2,3) lt by auto
qed

lemma retry_loop_succeeds:
  assumes "fn k = None" "attempt \<le> k" "int k \<le> MaxRetries cfg"
  shows "fst (retry_loop cfg fn (\<lambda>i. False) backoff attempt lastErr sleeps) = RetryNil"
  using assms(2)
proof (induction "k - attempt" arbitrary: attempt backoff lastErr sleeps)
  case 0
  then have "attempt = k" by simp
  with assms show ?case by (simp add: retry_loop.simps [of cfg fn _ backoff])
next
  case (Suc n)
  then have "n = k - (attempt + 1)" "attempt + 1 \<le> k" by simp_all
  note next_call = Suc(1) [OF this]
  show ?case
    by (subst retry_loop.simps) (use Suc(2) assms(3) next_call in \<open>auto split: option.split\<close>)
qed

lemma WithBackoff_succeeds:
  assumes "fn k = None" "int k \<le> MaxRetries cfg"
  shows "fst (WithBackoff cfg fn (\<lambda>i. False)) = RetryNil"
  unfolding WithBackoff_def by (rule retry_loop_succeeds [where k = k]) (use assms in simp_all)

lemma retry_loop_sleeps:
  assumes "0 \<le> b" and "b \<le> MaxBackoff cfg" and "\<forall>d \<in> set s. 0 \<le> d \<and> d \<le> MaxBackoff cfg"
  shows "\<forall>d \<in> set (snd (retry_loop cfg fn cancelled b attempt l s)). 0 \<le> d \<and> d \<le> MaxBackoff cfg"
  using assms
proof (induction cfg fn cancelled b attempt l s rule: retry_loop.induct)
  case (1 cfg fn cancelled b attempt l s)
  show ?case
  proof (cases "int attempt > MaxRetries cfg \<or> fn attempt = None")
    case True
    with 1(5) show ?thesis by (subst retry_loop.simps) (auto split: option.splits)
  next
    case False
    then obtain e where fn: "fn attempt = Some e" by auto
    show ?thesis
    proof (cases "int attempt < MaxRetries cfg")
      case True
      have "\<forall>d \<in> set (snd (retry_loop cfg fn cancelled (min (b * 2) (MaxBackoff cfg)) (attempt + 1)
          (Some e) (s @ [b]))). 0 \<le> d \<and> d \<le> MaxBackoff cfg" if "\<not> cancelled attempt"
        using 1(1) [OF _ fn True that] False 1(3-5) by auto
      with False True fn 1(3-5) show ?thesis by (subst retry_loop.simps) auto
    next
      case lt: False
      have "\<forall>d \<in> set (snd (retry_loop cfg fn cancelled b (attempt + 1) (Some e) s)).
          0 \<le> d \<and> d \<le> MaxBackoff cfg"
        using 1(2) [OF _ fn lt] False 1(3-5) by auto
      with False lt fn show ?thesis by (subst retry_loop.simps) simp
    qed
  qed
qed

section \<open>Properties\<close>



text \<open>
  Retrying with backoff: when every attempt fails and nothing is cancelled, the function is
  called once more than the configured number of retries, the last error comes back, and every
  sleep stays within the configured maximum.
\<close>

lemma WithBackoff_exhausts:
  assumes "\<And>i. int i \<le> MaxRetries cfg \<Longrightarrow> fn i = Some (e i)" and "\<And>i. \<not> cancelled i"
    and "0 \<le> MaxRetries cfg" and "0 \<le> InitialBackoff cfg" and "InitialBackoff cfg \<le> MaxBackoff cfg"
  shows "fst (WithBackoff cfg fn cancelled) = RetryErr (e (nat (MaxRetries cfg))) \<and>
     length (snd (WithBackoff cfg fn cancelled)) = nat (MaxRetries cfg) \<and>
     (\<forall>d \<in> set (snd (WithBackoff cfg fn cancelled)). 0 \<le> d \<and> d \<le> MaxBackoff cfg)"
proof -
  have c: "cancelled = (\<lambda>_. False)" using assms(2) by auto
  show ?thesis
    using retry_loop_failing [of 0 cfg fn e "InitialBackoff cfg" None "[]"]
      retry_loop_sleeps [of "InitialBackoff cfg" cfg "[]" fn cancelled 0 None] assms(1,3-)
    by (simp add: WithBackoff_def c)
qed

end
