(* ===== verification/Admission_Webhook.thy ===== *)
theory Admission_Webhook
  imports Go_Maps Backoff
begin

text \<open>
  \<open>pkg/webhook/admission\<close> (\<open>config.go\<close>, \<open>resource.go\<close>, \<open>manager.go\<close>, \<open>handler.go\<close>, \<open>response.go\<close>) and
  \<open>SafeURLString\<close> of \<open>pkg/utils/string_helper\<close>: admission webhooks, the paths they are registered under, and the
  answers to the API server.

  Webhook specifications are library types; the model keeps the fields the code writes. The HTTP server, its router and
  the JSON codec are not modelled: \<open>serveReviewRequest\<close> takes the decoded review. Strings are byte lists; the
  regular expressions of \<open>SafeURLString\<close> and \<open>strings.ToLower\<close> are modelled for strings without the two
  non-ASCII letters whose lower case is an ASCII letter (U+0130, U+212A).
\<close>

section \<open>Ids that are safe in a URL\<close>

definition is_upper :: "char \<Rightarrow> bool" where
  "is_upper c \<longleftrightarrow> 65 \<le> (of_char c :: nat) \<and> (of_char c :: nat) \<le> 90"

definition to_lower :: "char \<Rightarrow> char" where
  "to_lower c = (if is_upper c then char_of ((of_char c :: nat) + 32) else c)"

definition url_char :: "char \<Rightarrow> bool" where
  "url_char c \<longleftrightarrow> 97 \<le> (of_char c :: nat) \<and> (of_char c :: nat) \<le> 122 \<or>
     48 \<le> (of_char c :: nat) \<and> (of_char c :: nat) \<le> 57 \<or> c = CHR ''-'' \<or> c = CHR ''/''"

fun squeeze_dashes :: "string \<Rightarrow> string" where
  "squeeze_dashes (c # d # s) =
     (if c = CHR ''-'' \<and> d = CHR ''-'' then squeeze_dashes (d # s) else c # squeeze_dashes (d # s))"
| "squeeze_dashes s = s"

definition SafeURLString :: "string \<Rightarrow> string" where
  "SafeURLString s =
     (let s = concat (map (\<lambda>c. if is_upper c then [CHR ''-'', c] else [c]) s);
          s = map to_lower s;
          s = map (\<lambda>c. if url_char c then c else CHR ''-'') s
      in squeeze_dashes s)"

lemma squeeze_set: "set (squeeze_dashes s) \<subseteq> set s"
  by (induction s rule: squeeze_dashes.induct) auto

lemma squeeze_idem: "squeeze_dashes (squeeze_dashes s) = squeeze_dashes s"
proof (induction s rule: squeeze_dashes.induct)
  case (1 c d s)
  show ?case
  proof (cases "c = CHR ''-'' \<and> d = CHR ''-''")
    case True
    with 1(1) show ?thesis by simp
  next
    case False
    have hd: "\<exists>t. squeeze_dashes (d # u) = d # t" for u by (induction u) (auto split: if_splits)
    from hd [of s] obtain t where t: "squeeze_dashes (d # s) = d # t" by blast
    with False 1(2) [OF False] show ?thesis by auto
  qed
qed auto

lemma url_char_lower: "url_char c \<Longrightarrow> \<not> is_upper c \<and> to_lower c = c"
proof -
  have "of_char CHR ''-'' = (45 :: nat)" "of_char CHR ''/'' = (47 :: nat)" by simp_all
  then show "url_char c \<Longrightarrow> \<not> is_upper c \<and> to_lower c = c"
    by (auto simp: url_char_def is_upper_def to_lower_def)
qed

lemma SafeURLString_chars: "c \<in> set (SafeURLString s) \<Longrightarrow> url_char c"
  using squeeze_set by (fastforce simp: SafeURLString_def Let_def url_char_def split: if_splits)

lemma SafeURLString_id:
  assumes "\<forall>c \<in> set s. url_char c" shows "SafeURLString s = squeeze_dashes s"
proof -
  have 1: "concat (map (\<lambda>c. if is_upper c then [CHR ''-'', c] else [c]) s) = s"
    using assms url_char_lower by (induction s) auto
  have 2: "map to_lower s = s" using assms url_char_lower by (induction s) auto
  have 3: "map (\<lambda>c. if url_char c then c else CHR ''-'') s = s" using assms by (induction s) auto
  show ?thesis unfolding SafeURLString_def Let_def 1 2 3 ..
qed

section \<open>Webhooks and their registration\<close>

abbreviation DefaultConfigurationId :: string where "DefaultConfigurationId \<equiv> ''hooks''"

record webhook_meta =
  wm_Name :: string
  WebhookId :: string
  ConfigurationId :: string

record client_config =
  cc_Namespace :: string
  cc_Name :: string
  cc_Path :: string
  cc_CABundle :: string

record 'spec webhook_config =
  wc_spec :: 'spec
  wc_Metadata :: webhook_meta
  wc_MatchPolicy :: string
  AdmissionReviewVersions :: "string list"
  wc_ClientConfig :: "client_config option"

definition SetClientConfig :: "client_config \<Rightarrow> 'spec webhook_config \<Rightarrow> 'spec webhook_config" where
  "SetClientConfig cc c = c\<lparr>wc_MatchPolicy := ''Equivalent'', wc_ClientConfig := Some cc\<rparr>"

definition UpdateIds :: "string \<Rightarrow> string \<Rightarrow> 'spec webhook_config \<Rightarrow> 'spec webhook_config" where
  "UpdateIds confID webhookID c =
     c\<lparr>wc_Metadata := (wc_Metadata c)\<lparr>
         ConfigurationId := (if confID = [] then DefaultConfigurationId else confID),
         WebhookId := SafeURLString webhookID\<rparr>\<rparr>"

definition createWebhookPath :: "webhook_meta \<Rightarrow> string" where
  "createWebhookPath m =
     ''/'' @ (if ConfigurationId m = [] then DefaultConfigurationId else ConfigurationId m) @ ''/'' @ WebhookId m"

record 'spec webhook_resource =
  wr_hooks :: "(string \<times> 'spec webhook_config) list"
  ConfigurationName :: string
  wr_Namespace :: string
  wr_ServiceName :: string
  wr_CABundle :: string

definition wr_Set :: "'spec webhook_config \<Rightarrow> 'spec webhook_resource \<Rightarrow> 'spec webhook_resource" where
  "wr_Set whc w = w\<lparr>wr_hooks := AList.update (WebhookId (wc_Metadata whc)) whc (wr_hooks w)\<rparr>"

definition wr_Get :: "string \<Rightarrow> 'spec webhook_resource \<Rightarrow> 'spec webhook_config option" where
  "wr_Get i w = map_of (wr_hooks w) i"

text \<open>The webhooks that \<open>Register\<close> submits, in the order in which the map is ranged over.\<close>

definition register_webhooks :: "iteration \<Rightarrow> 'spec webhook_resource \<Rightarrow> 'spec webhook_config list" where
  "register_webhooks perm w =
     map (\<lambda>(i, webhook). webhook\<lparr>wc_MatchPolicy := ''Equivalent'', AdmissionReviewVersions := [''v1'', ''v1beta1''],
            wc_ClientConfig := Some \<lparr>cc_Namespace = wr_Namespace w, cc_Name = wr_ServiceName w,
              cc_Path = createWebhookPath (wc_Metadata webhook), cc_CABundle = wr_CABundle w\<rparr>\<rparr>)
       (go_range perm [] (wr_hooks w))"

record webhook_settings =
  ws_ConfigurationName :: string
  ws_ServiceName :: string
  ws_Namespace :: string
  ws_DefaultConfigurationId :: string
  ws_CABundle :: string

type_synonym 'spec resources = "(string \<times> 'spec webhook_resource) list"

text \<open>\<open>AddValidatingWebhook\<close> and \<open>AddMutatingWebhook\<close> differ only in the type of the webhooks.\<close>

definition AddWebhook :: "webhook_settings \<Rightarrow> 'spec webhook_config \<Rightarrow> 'spec resources \<Rightarrow> 'spec resources" where
  "AddWebhook ws config rs =
     (let confId = (if ConfigurationId (wc_Metadata config) = [] then ws_DefaultConfigurationId ws
                    else ConfigurationId (wc_Metadata config));
          r = (case map_of rs confId of
                 Some r \<Rightarrow> r
               | None \<Rightarrow> \<lparr>wr_hooks = [], ConfigurationName = ws_ConfigurationName ws @ ''-'' @ confId,
                           wr_Namespace = ws_Namespace ws, wr_ServiceName = ws_ServiceName ws,
                           wr_CABundle = ws_CABundle ws\<rparr>)
      in AList.update confId (wr_Set config r) rs)"

text \<open>
  \<open>submit\<close>: one attempt lists the configurations of that name and creates one or replaces the webhooks of the one it
  found; attempts are repeated with backoff. The cluster holds configurations by name. The API answers of an attempt
  are given as errors or \<open>None\<close>; a call that answers with an error has not changed the cluster.
\<close>

record api_answers =
  api_List :: "string option"
  api_Create :: "string option"
  api_Update :: "string option"

type_synonym 'spec configurations = "(string \<times> 'spec webhook_config list) list"

definition submitRetryConfig :: RetryConfig where
  "submitRetryConfig = \<lparr>MaxRetries = 5, InitialBackoff = 2 * Second, MaxBackoff = 15 * Second\<rparr>"

definition submit_attempt :: "string \<Rightarrow> api_answers \<Rightarrow> string \<Rightarrow> 'spec configurations \<Rightarrow> string option" where
  "submit_attempt kind api conf cluster =
     (case api_List api of
        Some err \<Rightarrow> Some (''list '' @ kind @ '': '' @ err)
      | None \<Rightarrow>
          (case map_of cluster conf of
             None \<Rightarrow> map_option (\<lambda>err. ''create '' @ kind @ '': '' @ err) (api_Create api)
           | Some _ \<Rightarrow> map_option (\<lambda>err. ''update '' @ kind @ '': '' @ err) (api_Update api)))"

definition submit :: "string \<Rightarrow> (nat \<Rightarrow> api_answers) \<Rightarrow> (nat \<Rightarrow> bool) \<Rightarrow> string \<Rightarrow> 'spec webhook_config list \<Rightarrow>
    'spec configurations \<Rightarrow> string retry_result \<times> 'spec configurations" where
  "submit kind apis cancelled conf webhooks cluster =
     (let res = fst (WithBackoff submitRetryConfig (\<lambda>i. submit_attempt kind (apis i) conf cluster) cancelled)
      in (res, if res = RetryNil then AList.update conf webhooks cluster else cluster))"

definition wr_Register :: "string \<Rightarrow> iteration \<Rightarrow> (nat \<Rightarrow> api_answers) \<Rightarrow> (nat \<Rightarrow> bool) \<Rightarrow> 'spec webhook_resource \<Rightarrow>
    'spec configurations \<Rightarrow> string retry_result \<times> 'spec configurations" where
  "wr_Register kind perm apis cancelled w cluster =
     submit kind apis cancelled (ConfigurationName w) (register_webhooks perm w) cluster"

text \<open>The loops of \<open>WebhookManager.Start\<close>: the first resource that cannot be registered ends them.\<close>

fun register_all :: "string \<Rightarrow> iteration \<Rightarrow> (string \<Rightarrow> nat \<Rightarrow> api_answers) \<Rightarrow> (nat \<Rightarrow> bool) \<Rightarrow> 'spec webhook_resource list \<Rightarrow>
    'spec configurations \<Rightarrow> string retry_result \<times> 'spec configurations" where
  "register_all kind perm apis cancelled [] cluster = (RetryNil, cluster)"
| "register_all kind perm apis cancelled (r # rs) cluster =
     (let (res, cluster) = wr_Register kind perm (apis (ConfigurationName r)) cancelled r cluster
      in if res = RetryNil then register_all kind perm apis cancelled rs cluster else (res, cluster))"

section \<open>Requests\<close>

fun strings_split :: "char \<Rightarrow> string \<Rightarrow> string list" where
  "strings_split c [] = [[]]"
| "strings_split c (x # s) =
     (case strings_split c s of
        [] \<Rightarrow> []
      | p # ps \<Rightarrow> if x = c then [] # p # ps else (x # p) # ps)"

text \<open>The loop of \<open>detectConfigurationAndWebhook\<close> over the parts of the path.\<close>

fun detect_parts :: "string list \<Rightarrow> string \<Rightarrow> string list \<Rightarrow> string \<times> string list" where
  "detect_parts [] configurationID webhookParts = (configurationID, webhookParts)"
| "detect_parts (p # ps) configurationID webhookParts =
     (if p = [] then detect_parts ps configurationID webhookParts
      else if configurationID = [] then detect_parts ps p webhookParts
      else detect_parts ps configurationID (webhookParts @ [p]))"

definition detectConfigurationAndWebhook :: "string \<Rightarrow> string \<times> string" where
  "detectConfigurationAndWebhook path =
     (let (configurationID, webhookParts) = detect_parts (strings_split CHR ''/'' path) [] []
      in (configurationID, strings_join ''/'' webhookParts))"

record Response =
  Allowed :: bool
  resp_Message :: string
  Warnings :: "string list"
  Patch :: string

record AdmissionResponse =
  ar_UID :: string
  ar_Allowed :: bool
  ar_Warnings :: "string list"
  ar_Patch :: string
  ar_PatchType :: "string option"
  ar_Result :: "(nat \<times> string) option"

record Event =
  ev_WebhookId :: string
  ev_ConfigurationId :: string
  ev_Request :: string \<comment> \<open>its UID; the rest is passed on\<close>

text \<open>A handler returns an error (\<open>Inl\<close>) or a pointer to a response, which may be nil.\<close>

type_synonym admission_handler = "Event \<Rightarrow> string + Response option"

definition ar_errored :: "string \<Rightarrow> AdmissionResponse" where
  "ar_errored err = \<lparr>ar_UID = [], ar_Allowed = False, ar_Warnings = [], ar_Patch = [], ar_PatchType = None,
     ar_Result = Some (500, err)\<rparr>"

text \<open>\<open>None\<close>: the handler returned a nil response without an error, and its fields are read.\<close>

definition handleReviewRequest :: "admission_handler option \<Rightarrow> string \<Rightarrow> string \<Rightarrow> (string + AdmissionResponse) option" where
  "handleReviewRequest handler path uid =
     (let (configurationID, webhookID) = detectConfigurationAndWebhook path in
      case handler of
        None \<Rightarrow> Some (Inl ''AdmissionReview handler is not defined'')
      | Some h \<Rightarrow>
          (case h \<lparr>ev_WebhookId = webhookID, ev_ConfigurationId = configurationID, ev_Request = uid\<rparr> of
             Inl err \<Rightarrow> Some (Inl (''handle AdmissionReview: '' @ err))
           | Inr None \<Rightarrow> None
           | Inr (Some r) \<Rightarrow>
               Some (Inr \<lparr>ar_UID = uid, ar_Allowed = Allowed r, ar_Warnings = Warnings r, ar_Patch = Patch r,
                 ar_PatchType = (if Patch r \<noteq> [] then Some ''JSONPatch'' else None),
                 ar_Result = (if \<not> Allowed r then Some (403, resp_Message r) else None)\<rparr>)))"

datatype http_answer = HttpError nat string | HttpReview AdmissionResponse

text \<open>The body decodes to no review, a review without a request, or one with a request of the given UID.\<close>

datatype decoded_review = NotDecoded | NoRequest | Request string

fun serveReviewRequest :: "admission_handler option \<Rightarrow> string \<Rightarrow> decoded_review \<Rightarrow> http_answer option" where
  "serveReviewRequest h path NotDecoded = Some (HttpError 400 ''Invalid JSON payload'')"
| "serveReviewRequest h path NoRequest = Some (HttpError 400 ''Missing parameters: request'')"
| "serveReviewRequest h path (Request uid) =
     map_option (\<lambda>res. HttpReview ((case res of Inl err \<Rightarrow> ar_errored err | Inr ar \<Rightarrow> ar)\<lparr>ar_UID := uid\<rparr>))
       (handleReviewRequest h path uid)"

fun warn_dump :: "string list \<Rightarrow> string" where
  "warn_dump [] = []"
| "warn_dump (w # ws) = '',warn='' @ w @ warn_dump ws"

definition Response_Dump :: "Response \<Rightarrow> string" where
  "Response_Dump r =
     ''AdmissionResponse(allowed='' @ (if Allowed r then ''true'' else ''false'') @
     (if Patch r \<noteq> [] then '',patch='' @ Patch r else []) @
     (if resp_Message r \<noteq> [] then '',msg='' @ resp_Message r else []) @
     warn_dump (Warnings r) @ '')''"

section \<open>Paths\<close>

lemma strings_split_ne [simp]: "strings_split c s \<noteq> []"
  by (induction s) (auto split: list.splits)

lemma strings_split_plain: "c \<notin> set s \<Longrightarrow> strings_split c s = [s]"
  by (induction s) auto

lemma strings_split_append: "c \<notin> set s \<Longrightarrow> strings_split c (s @ c # t) = s # strings_split c t"
proof (induction s)
  case Nil
  then show ?case by (cases "strings_split c t") auto
next
  case (Cons x s)
  then show ?case by auto
qed

lemma join_split: "strings_join [c] (strings_split c s) = s"
proof (induction s)
  case (Cons x s)
  obtain p ps where "strings_split c s = p # ps" by (cases "strings_split c s") auto
  with Cons show ?case by (cases ps) auto
qed simp

lemma detect_rest:
  "conf \<noteq> [] \<Longrightarrow> detect_parts ps conf acc = (conf, acc @ filter (\<lambda>p. p \<noteq> []) ps)"
  by (induction ps arbitrary: acc) auto

lemma detect_path:
  assumes "conf \<noteq> []" "CHR ''/'' \<notin> set conf"
  shows "detectConfigurationAndWebhook (''/'' @ conf @ ''/'' @ i) =
     (conf, strings_join ''/'' (filter (\<lambda>p. p \<noteq> []) (strings_split CHR ''/'' i)))"
proof -
  have "strings_split CHR ''/'' (CHR ''/'' # (conf @ CHR ''/'' # i)) = [] # conf # strings_split CHR ''/'' i"
    using strings_split_append [of "CHR ''/''" "[]" "conf @ CHR ''/'' # i"] strings_split_append [OF assms(2)] by simp
  then show ?thesis using assms(1) by (simp add: detectConfigurationAndWebhook_def detect_rest)
qed

section \<open>Properties\<close>

text \<open>
  C33. Round trip between registration and requests: the path a webhook is registered under leads a request back to its
  configuration and webhook id, provided the configuration id has no slash and the webhook id has no empty part; and
  the id that \<open>UpdateIds\<close> stores consists of characters that need no escaping in a URL and is not changed
  by making it safe again.
\<close>

theorem webhook_path_roundtrip:
  assumes "CHR ''/'' \<notin> set confID" and "[] \<notin> set (strings_split CHR ''/'' (SafeURLString webhookID))"
  shows "detectConfigurationAndWebhook (createWebhookPath (wc_Metadata (UpdateIds confID webhookID c))) =
       (if confID = [] then DefaultConfigurationId else confID, SafeURLString webhookID) \<and>
     (\<forall>ch \<in> set (SafeURLString webhookID). url_char ch) \<and>
     SafeURLString (SafeURLString webhookID) = SafeURLString webhookID"
proof -
  let ?conf = "if confID = [] then DefaultConfigurationId else confID"
  have chars: "\<forall>ch \<in> set (SafeURLString webhookID). url_char ch" by (simp add: SafeURLString_chars)
  have "SafeURLString (SafeURLString webhookID) = squeeze_dashes (SafeURLString webhookID)"
    by (rule SafeURLString_id [OF chars])
  also have "\<dots> = SafeURLString webhookID" by (simp add: SafeURLString_def Let_def squeeze_idem)
  finally have idem: "SafeURLString (SafeURLString webhookID) = SafeURLString webhookID" .
  have conf: "?conf \<noteq> []" "CHR ''/'' \<notin> set ?conf" using assms(1) by simp_all
  have path: "createWebhookPath (wc_Metadata (UpdateIds confID webhookID c)) = ''/'' @ ?conf @ ''/'' @ SafeURLString webhookID"
    using conf(1) by (simp add: createWebhookPath_def UpdateIds_def)
  have "filter (\<lambda>p. p \<noteq> []) (strings_split CHR ''/'' (SafeURLString webhookID)) = strings_split CHR ''/'' (SafeURLString webhookID)"
    using assms(2) by (auto intro!: filter_True)
  then have "detectConfigurationAndWebhook (''/'' @ ?conf @ ''/'' @ SafeURLString webhookID) = (?conf, SafeURLString webhookID)"
    unfolding detect_path [OF conf] by (simp only: join_split)
  then show ?thesis unfolding path using chars idem by blast
qed

definition demo_webhook :: "unit webhook_config" where
  "demo_webhook = \<lparr>wc_spec = (), wc_Metadata = \<lparr>wm_Name = [], WebhookId = [], ConfigurationId = []\<rparr>,
     wc_MatchPolicy = [], AdmissionReviewVersions = [], wc_ClientConfig = None\<rparr>"

theorem webhook_path_roundtrip_witness:
  "detectConfigurationAndWebhook (createWebhookPath (wc_Metadata (UpdateIds [] ''Pod Policy.example'' demo_webhook))) =
     (''hooks'', ''-pod-policy-example'')"
proof -
  have s: "SafeURLString ''Pod Policy.example'' = ''-pod-policy-example''" by code_simp
  have "[] \<notin> set (strings_split CHR ''/'' (SafeURLString ''Pod Policy.example''))" by code_simp
  from webhook_path_roundtrip [OF _ this, of "[]" demo_webhook] show ?thesis unfolding s by simp
qed

text \<open>
  C34. Registration survives a flapping API server: if the API answers without error in one of the six attempts and the
  context is not cancelled, the configuration of the resource holds afterwards every webhook that was added to it, each
  under the path made from its ids, and no other configuration has changed.
\<close>

theorem register_eventually:
  assumes "map_iteration perm" "k \<le> 5" "api_List (apis k) = None" "api_Create (apis k) = None" "api_Update (apis k) = None"
  shows "\<exists>cluster' hooks. wr_Register kind perm apis (\<lambda>i. False) w cluster = (RetryNil, cluster') \<and>
     (\<forall>name. map_of cluster' name = (if name = ConfigurationName w then Some hooks else map_of cluster name)) \<and>
     mset (map (\<lambda>h. (wc_spec h, map_option cc_Path (wc_ClientConfig h))) hooks) =
     mset (map (\<lambda>(i, h). (wc_spec h, Some (createWebhookPath (wc_Metadata h)))) (wr_hooks w))"
proof -
  have ok: "submit_attempt kind (apis k) (ConfigurationName w) cluster = None"
    using assms(3-5) by (simp add: submit_attempt_def split: option.splits)
  have "fst (WithBackoff submitRetryConfig (\<lambda>i. submit_attempt kind (apis i) (ConfigurationName w) cluster) (\<lambda>i. False)) = RetryNil"
    by (rule WithBackoff_succeeds [where k = k]) (use assms(2) ok in \<open>simp_all add: submitRetryConfig_def\<close>)
  then have reg: "wr_Register kind perm apis (\<lambda>i. False) w cluster =
      (RetryNil, AList.update (ConfigurationName w) (register_webhooks perm w) cluster)"
    by (simp add: wr_Register_def submit_def)
  have "mset (map (\<lambda>h. (wc_spec h, map_option cc_Path (wc_ClientConfig h))) (register_webhooks perm w)) =
        mset (map (\<lambda>(i, h). (wc_spec h, Some (createWebhookPath (wc_Metadata h)))) (wr_hooks w))"
    by (simp add: register_webhooks_def case_prod_beta' map_iteration.mset_go_range [OF assms(1)] o_def)
  then show ?thesis unfolding reg by (auto simp: update_conv')
qed

definition demo_resource :: "unit webhook_resource" where
  "demo_resource = wr_Set (UpdateIds [] ''a'' demo_webhook)
     \<lparr>wr_hooks = [], ConfigurationName = ''cfg'', wr_Namespace = ''ns'', wr_ServiceName = ''svc'', wr_CABundle = []\<rparr>"

theorem register_eventually_witness:
  "\<exists>cluster' hooks. wr_Register ''ValidatingWebhookConfiguration'' (\<lambda>s n. [0..<n])
       (\<lambda>i. if i < 2 then \<lparr>api_List = Some ''timeout'', api_Create = None, api_Update = None\<rparr>
             else \<lparr>api_List = None, api_Create = None, api_Update = None\<rparr>)
       (\<lambda>i. False) demo_resource [] = (RetryNil, cluster') \<and> map_of cluster' ''cfg'' = Some hooks \<and>
     mset (map (\<lambda>h. (wc_spec h, map_option cc_Path (wc_ClientConfig h))) hooks) = {#((), Some ''/hooks/a'')#}"
proof -
  let ?apis = "\<lambda>i :: nat. if i < 2 then \<lparr>api_List = Some ''timeout'', api_Create = None, api_Update = None\<rparr>
             else \<lparr>api_List = None, api_Create = None, api_Update = None\<rparr>"
  have m: "map_iteration (\<lambda>s n. [0..<n])" by unfold_locales simp
  have name: "ConfigurationName demo_resource = ''cfg''" by (simp add: demo_resource_def wr_Set_def)
  have "map (\<lambda>(i, h). (wc_spec h, Some (createWebhookPath (wc_Metadata h)))) (wr_hooks demo_resource) = [((), Some ''/hooks/a'')]"
    by code_simp
  then show ?thesis
    using register_eventually [OF m, of 2 ?apis "''ValidatingWebhookConfiguration''" demo_resource "[]"] name
    by auto
qed


end
