(* ===== verification/Conversion_Chain.thy ===== *)
theory Conversion_Chain
  imports Go_Maps
begin

text \<open>
  \<open>pkg/webhook/conversion/chain.go\<close>, with \<open>Rule\<close> of \<open>config.go\<close> and \<open>TrimGroup\<close> of
  \<open>pkg/utils/string_helper\<close>: which conversion hooks to run, and in which order, to bring an object
  from one version to another.

  A cached path is a Go slice, and \<open>FindConversionChain\<close> extends cached slices by \<open>append\<close>: two
  extensions of one path may share cells. So the paths are slice headers over the arrays of the
  chain. \<open>grow\<close> is the growth rule of the runtime, \<open>perm\<close> its order of map iteration.
\<close>

section \<open>Versions and rules\<close>

record Rule =
  FromVersion :: string
  ToVersion :: string

definition mk_rule :: "string \<Rightarrow> string \<Rightarrow> Rule" where
  "mk_rule f t = \<lparr>FromVersion = f, ToVersion = t\<rparr>"

definition TrimGroup :: "string \<Rightarrow> string" where
  "TrimGroup apiVersion =
     (case index_rune CHR ''/'' apiVersion of
        Some idx \<Rightarrow> drop (idx + 1) apiVersion
      | None \<Rightarrow> apiVersion)"

definition Rule_String :: "Rule \<Rightarrow> string" where
  "Rule_String r = FromVersion r @ ''->'' @ ToVersion r"

definition ShortFromVersion :: "Rule \<Rightarrow> string" where
  "ShortFromVersion r = TrimGroup (FromVersion r)"

definition ShortToVersion :: "Rule \<Rightarrow> string" where
  "ShortToVersion r = TrimGroup (ToVersion r)"

definition VersionsMatched :: "string \<Rightarrow> string \<Rightarrow> bool" where
  "VersionsMatched v0 v1 =
     (if v0 = v1 then True
      else case (index_rune CHR ''/'' v0, index_rune CHR ''/'' v1) of
        (None, Some idx1) \<Rightarrow> v0 = drop (idx1 + 1) v1
      | (Some idx0, None) \<Rightarrow> drop (idx0 + 1) v0 = v1
      | _ \<Rightarrow> False)"

section \<open>Chains\<close>

record Chain =
  PathsCache :: "(Rule \<times> slice) list"
  BaseFromToIndex :: "(string \<times> string list) list"
  arrays :: "Rule store" \<comment> \<open>the arrays behind the cached slices\<close>

type_synonym ChainStorage = "(string \<times> Chain) list"

definition NewChainStorage :: ChainStorage where
  "NewChainStorage = []"

definition empty_chain :: Chain where
  "empty_chain = \<lparr>PathsCache = [], BaseFromToIndex = [], arrays = []\<rparr>"

definition chain_Get :: "string \<Rightarrow> ChainStorage \<Rightarrow> Chain \<times> ChainStorage" where
  "chain_Get crdName cs =
     (let cs = (if has_key cs crdName then cs else AList.update crdName empty_chain cs)
      in (map_get empty_chain cs crdName, cs))"

definition chain_Put :: "Rule \<Rightarrow> Chain \<Rightarrow> Chain" where
  "chain_Put rule c =
     (let (s, st) = slice_of_list (arrays c) [rule];
          ix = BaseFromToIndex c;
          ix = (if has_key ix (FromVersion rule) then ix else AList.update (FromVersion rule) [] ix);
          tos = map_get [] ix (FromVersion rule)
      in c\<lparr>PathsCache := AList.update rule s (PathsCache c),
           BaseFromToIndex := AList.update (FromVersion rule) (List.insert (ToVersion rule) tos) ix,
           arrays := st\<rparr>)"

definition cached_path :: "Chain \<Rightarrow> Rule \<Rightarrow> slice" where
  "cached_path c k = map_get nil_slice (PathsCache c) k"

text \<open>The first loop of \<open>SearchPathForRule\<close>: an exact key, or all similar ones.\<close>

fun similar_keys :: "Rule \<Rightarrow> Rule list \<Rightarrow> Rule list \<Rightarrow> Rule + Rule list" where
  "similar_keys rule [] pathKeys = Inr pathKeys"
| "similar_keys rule (cachedPath # ks) pathKeys =
     (if ToVersion rule = ToVersion cachedPath \<and> FromVersion rule = FromVersion cachedPath
      then Inl cachedPath
      else if VersionsMatched (ToVersion rule) (ToVersion cachedPath) \<and>
              VersionsMatched (FromVersion rule) (FromVersion cachedPath)
      then similar_keys rule ks (pathKeys @ [cachedPath])
      else similar_keys rule ks pathKeys)"

text \<open>The second loop: a key that is full and equal on both sides, else those equal on one side.\<close>

fun strict_keys :: "Rule \<Rightarrow> Rule list \<Rightarrow> Rule list \<Rightarrow> Rule list \<Rightarrow> Rule + Rule list \<times> Rule list" where
  "strict_keys rule [] fromMatches toMatches = Inr (fromMatches, toMatches)"
| "strict_keys rule (pathKey # ks) fromMatches toMatches =
     (let f = index_rune CHR ''/'' (FromVersion rule) \<noteq> None \<and> FromVersion pathKey = FromVersion rule;
          t = index_rune CHR ''/'' (ToVersion rule) \<noteq> None \<and> ToVersion pathKey = ToVersion rule
      in if f \<and> t then Inl pathKey
         else strict_keys rule ks (if f then fromMatches @ [pathKey] else fromMatches)
                (if t then toMatches @ [pathKey] else toMatches))"

definition strictest :: "Rule \<Rightarrow> Rule list \<Rightarrow> Rule" where
  "strictest rule pathKeys =
     (case strict_keys rule pathKeys [] [] of
        Inl k \<Rightarrow> k
      | Inr (fromMatches, toMatches) \<Rightarrow>
          if toMatches \<noteq> [] then hd toMatches
          else if fromMatches \<noteq> [] then hd fromMatches
          else hd pathKeys)"

definition SearchPathForRule :: "iteration \<Rightarrow> nat list \<Rightarrow> Chain \<Rightarrow> Rule \<Rightarrow> slice" where
  "SearchPathForRule perm site c rule =
     (case similar_keys rule (go_range perm site (map_keys (PathsCache c))) [] of
        Inl k \<Rightarrow> cached_path c k
      | Inr [] \<Rightarrow> nil_slice
      | Inr [k] \<Rightarrow> cached_path c k
      | Inr ks \<Rightarrow> cached_path c (strictest rule ks))"

definition RulesWithSimilarFromVersion :: "iteration \<Rightarrow> nat list \<Rightarrow> Chain \<Rightarrow> Rule \<Rightarrow> Rule list" where
  "RulesWithSimilarFromVersion perm site c rule =
     filter (\<lambda>cachedPath. VersionsMatched (FromVersion cachedPath) (FromVersion rule))
       (go_range perm site (map_keys (PathsCache c)))"

fun next_from :: "iteration \<Rightarrow> nat list \<Rightarrow> Chain \<Rightarrow> string \<Rightarrow> nat \<Rightarrow> string list \<Rightarrow> Rule list" where
  "next_from perm site c fromVer i [] = []"
| "next_from perm site c fromVer i (k # ks) =
     (if k = fromVer \<or> strings_index k (TrimGroup fromVer) \<noteq> None
      then map (mk_rule k) (go_range perm (i # site) (map_get [] (BaseFromToIndex c) k))
      else []) @ next_from perm site c fromVer (i + 1) ks"

definition NextRules :: "iteration \<Rightarrow> nat list \<Rightarrow> Chain \<Rightarrow> string \<Rightarrow> Rule list" where
  "NextRules perm site c fromVer =
     next_from perm site c fromVer 0 (go_range perm site (map_keys (BaseFromToIndex c)))"

definition HasTargetVersion :: "Chain \<Rightarrow> string \<Rightarrow> bool" where
  "HasTargetVersion c target =
     list_ex (\<lambda>(fromVer, tos). list_ex (VersionsMatched target) tos) (BaseFromToIndex c)"

section \<open>The search\<close>

type_synonym new_paths = "(Rule \<times> slice) list"

text \<open>The inner loop over \<open>NextRules\<close>; \<open>k\<close> numbers its turns.\<close>

fun try_next :: "(nat \<Rightarrow> nat \<Rightarrow> nat) \<Rightarrow> iteration \<Rightarrow> nat list \<Rightarrow> Chain \<Rightarrow> Rule \<Rightarrow> Rule \<Rightarrow> nat \<Rightarrow> Rule list
    \<Rightarrow> new_paths \<times> Rule store \<Rightarrow> new_paths \<times> Rule store" where
  "try_next grow perm site c rule ruleToCheck k [] (newPaths, st) = (newPaths, st)"
| "try_next grow perm site c rule ruleToCheck k (nextRule # rest) (newPaths, st) =
     (let newRule = mk_rule (FromVersion rule) (ToVersion nextRule) in
      if ShortToVersion newRule = ShortFromVersion rule
      then try_next grow perm site c rule ruleToCheck (k + 1) rest (newPaths, st)
      else
        let (newPath, st) = slice_append grow st (cached_path c ruleToCheck) [nextRule];
            p = SearchPathForRule perm (k # site) c newRule
        in try_next grow perm site c rule ruleToCheck (k + 1) rest
             (if s_len p \<noteq> 0 then newPaths else AList.update newRule newPath newPaths, st))"

text \<open>The loop over the rules that start from a similar version; \<open>i\<close> numbers its turns.\<close>

fun try_rules :: "(nat \<Rightarrow> nat \<Rightarrow> nat) \<Rightarrow> iteration \<Rightarrow> nat list \<Rightarrow> Chain \<Rightarrow> Rule \<Rightarrow> nat \<Rightarrow> Rule list
    \<Rightarrow> new_paths \<times> Rule store \<Rightarrow> new_paths \<times> Rule store" where
  "try_rules grow perm site c rule i [] acc = acc"
| "try_rules grow perm site c rule i (ruleToCheck # rest) acc =
     (if ShortToVersion ruleToCheck = ShortFromVersion rule
      then try_rules grow perm site c rule (i + 1) rest acc
      else try_rules grow perm site c rule (i + 1) rest
             (try_next grow perm (0 # i # site) c rule ruleToCheck 0
               (NextRules perm (1 # i # site) c (ToVersion ruleToCheck)) acc))"

definition search_round :: "(nat \<Rightarrow> nat \<Rightarrow> nat) \<Rightarrow> iteration \<Rightarrow> nat \<Rightarrow> Chain \<Rightarrow> Rule \<Rightarrow> new_paths \<times> Rule store" where
  "search_round grow perm r c rule =
     try_rules grow perm [r, 2] c rule 0 (RulesWithSimilarFromVersion perm [r, 1] c rule) ([], arrays c)"

definition put_paths :: "new_paths \<Rightarrow> Chain \<Rightarrow> Chain" where
  "put_paths newPaths c = fold (\<lambda>(k, p) c. c\<lparr>PathsCache := AList.update k p (PathsCache c)\<rparr>) newPaths c"

text \<open>The outer loop; \<open>r\<close> counts its rounds. A loop that never ends has the value \<open>None\<close>.\<close>

partial_function (option) find_loop :: "(nat \<Rightarrow> nat \<Rightarrow> nat) \<Rightarrow> iteration \<Rightarrow> Rule \<Rightarrow> nat \<Rightarrow> Chain
    \<Rightarrow> (Rule list \<times> Chain) option" where
  "find_loop grow perm rule r c =
     (let p = SearchPathForRule perm [r, 0] c rule in
      if s_len p > 0 then Some (slice_vals (arrays c) p, c)
      else
        let (newPaths, st) = search_round grow perm r c rule;
            c = c\<lparr>arrays := st\<rparr>
        in if newPaths = [] then Some ([], c)
           else find_loop grow perm rule (r + 1) (put_paths (go_range perm [r, 3] newPaths) c))"

declare find_loop.simps [code]

definition FindConversionChain :: "(nat \<Rightarrow> nat \<Rightarrow> nat) \<Rightarrow> iteration \<Rightarrow> string \<Rightarrow> Rule \<Rightarrow> ChainStorage
    \<Rightarrow> (Rule list \<times> ChainStorage) option" where
  "FindConversionChain grow perm crdName rule cs =
     (if \<not> has_key cs crdName then Some ([], cs)
      else
        let chain = map_get empty_chain cs crdName in
        if \<not> HasTargetVersion chain (ToVersion rule) then Some ([], cs)
        else map_option (\<lambda>(path, c). (path, AList.update crdName c cs)) (find_loop grow perm rule 0 chain))"

end
