(* ===== verification/Webhook_Bindings.thy ===== *)
theory Webhook_Bindings
  imports Hook_Bindings Admission_Webhook Conversion_Chain
begin

text \<open>
  \<open>pkg/hook/controller/admission_bindings_controller.go\<close>, \<open>conversion_bindings_controller.go\<close> and \<open>hook_controller.go\<close>, and
  \<open>manager.go\<close> and \<open>crd_client_config.go\<close> of \<open>pkg/webhook/conversion\<close>: the webhook bindings of one hook, the
  registration of conversion webhooks, and the controller that joins the bindings of a hook.

  Reviews enter binding contexts as JSON; their encoding is an argument.
\<close>

section \<open>Admission bindings\<close>

record 'spec admission_binding =
  ab_BindingName :: string
  ab_AllowFailure :: bool
  ab_IncludeSnapshotsFrom :: "string list"
  ab_Group :: string
  ab_Webhook :: "'spec webhook_config"

record AdmissionBindingToWebhookLink =
  al_BindingType :: BindingType
  al_BindingName :: string
  al_ConfigurationId :: string
  al_WebhookId :: string
  al_IncludeSnapshots :: "string list"
  al_Group :: string

record ('v, 'm) AdmissionBindingsController =
  ac_ConfigurationId :: string
  AdmissionLinks :: "(string \<times> AdmissionBindingToWebhookLink) list"
  ValidatingBindings :: "'v admission_binding list"
  MutatingBindings :: "'m admission_binding list"

record ('v, 'm) admission_manager =
  am_settings :: webhook_settings
  ValidatingResources :: "'v resources"
  MutatingResources :: "'m resources"

definition NewAdmissionBindingsController :: "'v admission_binding list \<Rightarrow> 'm admission_binding list \<Rightarrow>
    ('v, 'm) AdmissionBindingsController" where
  "NewAdmissionBindingsController vs ms =
     \<lparr>ac_ConfigurationId = [], AdmissionLinks = [], ValidatingBindings = vs, MutatingBindings = ms\<rparr>"

text \<open>The loop that finds the configuration id of the hook: the first id that is not empty.\<close>

fun find_confId :: "'spec admission_binding list \<Rightarrow> string \<Rightarrow> string" where
  "find_confId [] confId = confId"
| "find_confId (config # configs) confId =
     (if ConfigurationId (wc_Metadata (ab_Webhook config)) \<noteq> [] \<and> confId = []
      then find_confId configs (ConfigurationId (wc_Metadata (ab_Webhook config)))
      else find_confId configs confId)"

definition admission_link :: "BindingType \<Rightarrow> string \<Rightarrow> 'spec admission_binding \<Rightarrow> AdmissionBindingToWebhookLink" where
  "admission_link ty confId config = \<lparr>al_BindingType = ty, al_BindingName = ab_BindingName config,
     al_ConfigurationId = confId, al_WebhookId = WebhookId (wc_Metadata (ab_Webhook config)),
     al_IncludeSnapshots = ab_IncludeSnapshotsFrom config, al_Group = ab_Group config\<rparr>"

definition EnableValidatingBindings :: "('v, 'm) AdmissionBindingsController \<Rightarrow> ('v, 'm) admission_manager \<Rightarrow>
    ('v, 'm) AdmissionBindingsController \<times> ('v, 'm) admission_manager" where
  "EnableValidatingBindings c mgr =
     (if ValidatingBindings c = [] then (c, mgr)
      else
        let confId = find_confId (ValidatingBindings c) []
        in fold (\<lambda>config (c, mgr).
             (c\<lparr>AdmissionLinks := AList.update (WebhookId (wc_Metadata (ab_Webhook config)))
                 (admission_link bt_KubernetesValidating confId config) (AdmissionLinks c)\<rparr>,
              mgr\<lparr>ValidatingResources := AddWebhook (am_settings mgr) (ab_Webhook config) (ValidatingResources mgr)\<rparr>))
           (ValidatingBindings c) (c\<lparr>ac_ConfigurationId := confId\<rparr>, mgr))"

definition EnableMutatingBindings :: "('v, 'm) AdmissionBindingsController \<Rightarrow> ('v, 'm) admission_manager \<Rightarrow>
    ('v, 'm) AdmissionBindingsController \<times> ('v, 'm) admission_manager" where
  "EnableMutatingBindings c mgr =
     (if MutatingBindings c = [] then (c, mgr)
      else
        let confId = find_confId (MutatingBindings c) []
        in fold (\<lambda>config (c, mgr).
             (c\<lparr>AdmissionLinks := AList.update (WebhookId (wc_Metadata (ab_Webhook config)))
                 (admission_link bt_KubernetesMutating confId config) (AdmissionLinks c)\<rparr>,
              mgr\<lparr>MutatingResources := AddWebhook (am_settings mgr) (ab_Webhook config) (MutatingResources mgr)\<rparr>))
           (MutatingBindings c) (c\<lparr>ac_ConfigurationId := confId\<rparr>, mgr))"

definition adm_CanHandleEvent :: "('v, 'm) AdmissionBindingsController \<Rightarrow> Event \<Rightarrow> bool" where
  "adm_CanHandleEvent c event \<longleftrightarrow>
     ac_ConfigurationId c = ev_ConfigurationId event \<and> has_key (AdmissionLinks c) (ev_WebhookId event)"

definition adm_HandleEvent :: "(Event \<Rightarrow> json) \<Rightarrow> ('v, 'm) AdmissionBindingsController \<Rightarrow> Event \<Rightarrow> BindingExecutionInfo" where
  "adm_HandleEvent review c event =
     (if ac_ConfigurationId c \<noteq> ev_ConfigurationId event then empty_info
      else case map_of (AdmissionLinks c) (ev_WebhookId event) of
        None \<Rightarrow> empty_info
      | Some link \<Rightarrow>
          empty_info\<lparr>bei_BindingContext := [empty_bc\<lparr>bc_Binding := al_BindingName link, bc_AdmissionReview := review event,
              bc_BindingType := al_BindingType link, bc_IncludeSnapshots := al_IncludeSnapshots link, bc_Group := al_Group link\<rparr>],
            bei_Binding := al_BindingName link, bei_IncludeSnapshots := al_IncludeSnapshots link, bei_Group := al_Group link\<rparr>)"

section \<open>Conversion bindings\<close>

record conversion_webhook =
  Rules :: "Rule list"
  CrdName :: string

record conversion_binding =
  cb_BindingName :: string
  cb_AllowFailure :: bool
  cb_IncludeSnapshotsFrom :: "string list"
  cb_Group :: string
  cb_Webhook :: conversion_webhook

record ConversionBindingToWebhookLink =
  cl_BindingName :: string
  cl_FromVersion :: string
  cl_ToVersion :: string
  cl_IncludeSnapshots :: "string list"
  cl_Group :: string

record ConversionBindingsController =
  Links :: "(string \<times> (Rule \<times> ConversionBindingToWebhookLink) list) list"
  cc_Bindings :: "conversion_binding list"

record CrdClientConfig =
  ccc_CrdName :: string
  ccc_Namespace :: string
  ccc_ServiceName :: string
  ccc_Path :: string
  ccc_CABundle :: string

record conversion_manager =
  cm_Namespace :: string
  cm_ServiceName :: string
  cm_CABundle :: string
  ClientConfigs :: "(string \<times> CrdClientConfig) list"

definition conv_AddWebhook :: "conversion_webhook \<Rightarrow> conversion_manager \<Rightarrow> conversion_manager" where
  "conv_AddWebhook webhook m =
     (if has_key (ClientConfigs m) (CrdName webhook) then m
      else m\<lparr>ClientConfigs := AList.update (CrdName webhook)
             \<lparr>ccc_CrdName = CrdName webhook, ccc_Namespace = cm_Namespace m, ccc_ServiceName = cm_ServiceName m,
              ccc_Path = ''/'' @ CrdName webhook, ccc_CABundle = cm_CABundle m\<rparr> (ClientConfigs m)\<rparr>)"

text \<open>
  \<open>PatchConversion\<close>: \<open>patch i\<close> is the error of attempt \<open>i\<close>, \<open>cancelled i\<close> says that the context is done in the wait after it. The
  result counts the attempts.
\<close>

fun patch_loop :: "(nat \<Rightarrow> string option) \<Rightarrow> (nat \<Rightarrow> bool) \<Rightarrow> nat \<Rightarrow> nat \<Rightarrow> string retry_result \<times> nat" where
  "patch_loop patch cancelled i 0 =
     (case patch i of None \<Rightarrow> (RetryNil, i + 1) | Some err \<Rightarrow> (RetryErr (''patch CRD conversion: '' @ err), i + 1))"
| "patch_loop patch cancelled i (Suc retryBudget) =
     (case patch i of
        None \<Rightarrow> (RetryNil, i + 1)
      | Some err \<Rightarrow> if cancelled i then (RetryCancelled, i + 1) else patch_loop patch cancelled (i + 1) retryBudget)"

definition PatchConversion :: "(nat \<Rightarrow> string option) \<Rightarrow> (nat \<Rightarrow> bool) \<Rightarrow> string retry_result \<times> nat" where
  "PatchConversion patch cancelled = patch_loop patch cancelled 0 60"

definition NewConversionBindingsController :: "conversion_binding list \<Rightarrow> ConversionBindingsController" where
  "NewConversionBindingsController bindings = \<lparr>Links = [], cc_Bindings = bindings\<rparr>"

definition conversion_link :: "conversion_binding \<Rightarrow> Rule \<Rightarrow> ConversionBindingToWebhookLink" where
  "conversion_link config conv = \<lparr>cl_BindingName = cb_BindingName config, cl_FromVersion = FromVersion conv,
     cl_ToVersion = ToVersion conv, cl_IncludeSnapshots = cb_IncludeSnapshotsFrom config, cl_Group = cb_Group config\<rparr>"

definition link_rules :: "conversion_binding \<Rightarrow> ConversionBindingsController \<Rightarrow> ConversionBindingsController" where
  "link_rules config c =
     (let crd = CrdName (cb_Webhook config)
      in c\<lparr>Links := AList.update crd
             (fold (\<lambda>conv. AList.update conv (conversion_link config conv)) (Rules (cb_Webhook config)) (map_get [] (Links c) crd))
             (Links c)\<rparr>)"

definition EnableConversionBindings :: "ConversionBindingsController \<Rightarrow> conversion_manager \<Rightarrow>
    ConversionBindingsController \<times> conversion_manager" where
  "EnableConversionBindings c m =
     fold (\<lambda>config (c, m). (link_rules config c, conv_AddWebhook (cb_Webhook config) m)) (cc_Bindings c) (c, m)"

definition find_link :: "ConversionBindingsController \<Rightarrow> string \<Rightarrow> Rule \<Rightarrow> ConversionBindingToWebhookLink option" where
  "find_link c crdName rule = Option.bind (map_of (Links c) crdName) (\<lambda>rules. map_of rules rule)"

definition conv_CanHandleEvent :: "ConversionBindingsController \<Rightarrow> string \<Rightarrow> Rule \<Rightarrow> bool" where
  "conv_CanHandleEvent c crdName rule = (find_link c crdName rule \<noteq> None)"

definition conv_HandleEvent :: "ConversionBindingsController \<Rightarrow> string \<Rightarrow> json \<Rightarrow> Rule \<Rightarrow> BindingExecutionInfo" where
  "conv_HandleEvent c crdName review rule =
     (case find_link c crdName rule of
        None \<Rightarrow> empty_info
      | Some link \<Rightarrow>
          empty_info\<lparr>bei_BindingContext := [empty_bc\<lparr>bc_Binding := cl_BindingName link, bc_ConversionReview := review,
              bc_FromVersion := cl_FromVersion link, bc_ToVersion := cl_ToVersion link,
              bc_BindingType := bt_KubernetesConversion, bc_IncludeSnapshots := cl_IncludeSnapshots link, bc_Group := cl_Group link\<rparr>],
            bei_Binding := cl_BindingName link, bei_IncludeSnapshots := cl_IncludeSnapshots link, bei_Group := cl_Group link\<rparr>)"

section \<open>The controller of a hook\<close>

record ('v, 'm) HookController =
  KubernetesController :: "kubernetesBindingsController option"
  ScheduleController :: "scheduleBindingsController option"
  AdmissionController :: "('v, 'm) AdmissionBindingsController option"
  ConversionController :: "ConversionBindingsController option"
  hc_kubernetesBindings :: "OnKubernetesEventConfig list"
  hc_scheduleBindings :: "ScheduleConfig list"
  hc_validatingBindings :: "'v admission_binding list"
  hc_mutatingBindings :: "'m admission_binding list"
  hc_conversionBindings :: "conversion_binding list"

definition NewHookController :: "('v, 'm) HookController" where
  "NewHookController = \<lparr>KubernetesController = None, ScheduleController = None, AdmissionController = None,
     ConversionController = None, hc_kubernetesBindings = [], hc_scheduleBindings = [], hc_validatingBindings = [],
     hc_mutatingBindings = [], hc_conversionBindings = []\<rparr>"

definition InitKubernetesBindings :: "OnKubernetesEventConfig list \<Rightarrow> ('v, 'm) HookController \<Rightarrow> ('v, 'm) HookController" where
  "InitKubernetesBindings bindings hc =
     (if bindings = [] then hc
      else hc\<lparr>KubernetesController := Some (NewKubernetesBindingsController bindings), hc_kubernetesBindings := bindings\<rparr>)"

definition InitScheduleBindings :: "ScheduleConfig list \<Rightarrow> ('v, 'm) HookController \<Rightarrow> ('v, 'm) HookController" where
  "InitScheduleBindings bindings hc =
     (if bindings = [] then hc
      else hc\<lparr>ScheduleController := Some (NewScheduleBindingsController bindings), hc_scheduleBindings := bindings\<rparr>)"

definition InitAdmissionBindings :: "'v admission_binding list \<Rightarrow> 'm admission_binding list \<Rightarrow> ('v, 'm) HookController \<Rightarrow>
    ('v, 'm) HookController" where
  "InitAdmissionBindings vs ms hc =
     hc\<lparr>AdmissionController := Some (NewAdmissionBindingsController vs ms),
        hc_validatingBindings := (if vs = [] then hc_validatingBindings hc else vs),
        hc_mutatingBindings := (if ms = [] then hc_mutatingBindings hc else ms)\<rparr>"

definition InitConversionBindings :: "conversion_binding list \<Rightarrow> ('v, 'm) HookController \<Rightarrow> ('v, 'm) HookController" where
  "InitConversionBindings bindings hc =
     (if bindings = [] then hc
      else hc\<lparr>ConversionController := Some (NewConversionBindingsController bindings), hc_conversionBindings := bindings\<rparr>)"

definition CanHandleKubeEvent :: "('v, 'm) HookController \<Rightarrow> KubeEvent \<Rightarrow> bool" where
  "CanHandleKubeEvent hc ev = (case KubernetesController hc of None \<Rightarrow> False | Some c \<Rightarrow> kube_CanHandleEvent c ev)"

definition CanHandleScheduleEvent :: "('v, 'm) HookController \<Rightarrow> string \<Rightarrow> bool" where
  "CanHandleScheduleEvent hc crontab = (case ScheduleController hc of None \<Rightarrow> False | Some c \<Rightarrow> sched_CanHandleEvent c crontab)"

definition CanHandleAdmissionEvent :: "('v, 'm) HookController \<Rightarrow> Event \<Rightarrow> bool" where
  "CanHandleAdmissionEvent hc event = (case AdmissionController hc of None \<Rightarrow> False | Some c \<Rightarrow> adm_CanHandleEvent c event)"

definition CanHandleConversionEvent :: "('v, 'm) HookController \<Rightarrow> string \<Rightarrow> Rule \<Rightarrow> bool" where
  "CanHandleConversionEvent hc crdName rule =
     (case ConversionController hc of None \<Rightarrow> False | Some c \<Rightarrow> conv_CanHandleEvent c crdName rule)"

text \<open>The handlers that call back with execution infos return the infos they would call back with.\<close>

definition HandleKubeEvent :: "kube_world \<Rightarrow> ('v, 'm) HookController \<Rightarrow> KubeEvent \<Rightarrow> BindingExecutionInfo list" where
  "HandleKubeEvent w hc ev = (case KubernetesController hc of None \<Rightarrow> [] | Some c \<Rightarrow> [kube_HandleEvent w c ev])"

definition HandleScheduleEvent :: "iteration \<Rightarrow> ('v, 'm) HookController \<Rightarrow> string \<Rightarrow> BindingExecutionInfo list" where
  "HandleScheduleEvent perm hc crontab = (case ScheduleController hc of None \<Rightarrow> [] | Some c \<Rightarrow> sched_HandleEvent perm c crontab)"

definition hc_HandleAdmissionEvent :: "(Event \<Rightarrow> json) \<Rightarrow> ('v, 'm) HookController \<Rightarrow> Event \<Rightarrow> BindingExecutionInfo list" where
  "hc_HandleAdmissionEvent review hc event =
     (case AdmissionController hc of None \<Rightarrow> [] | Some c \<Rightarrow> [adm_HandleEvent review c event])"

definition hc_HandleConversionEvent :: "('v, 'm) HookController \<Rightarrow> string \<Rightarrow> json \<Rightarrow> Rule \<Rightarrow> BindingExecutionInfo list" where
  "hc_HandleConversionEvent hc crdName review rule =
     (case ConversionController hc of None \<Rightarrow> [] | Some c \<Rightarrow> [conv_HandleEvent c crdName review rule])"

definition EnableAdmissionBindings :: "('v, 'm) HookController \<Rightarrow> ('v, 'm) admission_manager \<Rightarrow>
    ('v, 'm) HookController \<times> ('v, 'm) admission_manager" where
  "EnableAdmissionBindings hc mgr =
     (case AdmissionController hc of
        None \<Rightarrow> (hc, mgr)
      | Some c \<Rightarrow>
          let (c, mgr) = EnableValidatingBindings c mgr; (c, mgr) = EnableMutatingBindings c mgr
          in (hc\<lparr>AdmissionController := Some c\<rparr>, mgr))"

definition hc_EnableConversionBindings :: "('v, 'm) HookController \<Rightarrow> conversion_manager \<Rightarrow>
    ('v, 'm) HookController \<times> conversion_manager" where
  "hc_EnableConversionBindings hc m =
     (case ConversionController hc of
        None \<Rightarrow> (hc, m)
      | Some c \<Rightarrow> let (c, m) = EnableConversionBindings c m in (hc\<lparr>ConversionController := Some c\<rparr>, m))"

definition first_includes :: "('b \<Rightarrow> string) \<Rightarrow> ('b \<Rightarrow> string list) \<Rightarrow> string \<Rightarrow> 'b list \<Rightarrow> string list" where
  "first_includes name_of incl bindingName bindings =
     (case find (\<lambda>b. bindingName = name_of b) bindings of None \<Rightarrow> [] | Some b \<Rightarrow> incl b)"

definition getIncludeSnapshotsFrom :: "('v, 'm) HookController \<Rightarrow> BindingType \<Rightarrow> string \<Rightarrow> string list" where
  "getIncludeSnapshotsFrom hc ty bindingName =
     (if ty = bt_OnKubernetesEvent then first_includes ok_BindingName ok_IncludeSnapshotsFrom bindingName (hc_kubernetesBindings hc)
      else if ty = bt_Schedule then first_includes sc_BindingName sc_IncludeSnapshotsFrom bindingName (hc_scheduleBindings hc)
      else if ty = bt_KubernetesValidating then first_includes ab_BindingName ab_IncludeSnapshotsFrom bindingName (hc_validatingBindings hc)
      else if ty = bt_KubernetesMutating then first_includes ab_BindingName ab_IncludeSnapshotsFrom bindingName (hc_mutatingBindings hc)
      else if ty = bt_KubernetesConversion then first_includes cb_BindingName cb_IncludeSnapshotsFrom bindingName (hc_conversionBindings hc)
      else [])"

definition hc_UpdateSnapshots :: "snap_env \<Rightarrow> ('v, 'm) HookController \<Rightarrow> BindingContext list \<Rightarrow> kube_world \<Rightarrow>
    BindingContext list \<times> kube_world" where
  "hc_UpdateSnapshots e hc bcs w = UpdateSnapshots e (KubernetesController hc) (getIncludeSnapshotsFrom hc) bcs w"

end
