(* ===== verification/Webhook_Rules.thy ===== *)
theory Webhook_Rules
  imports Monitor_Config
begin

text \<open>
  \<open>pkg/webhook/validating/validation/rule.go\<close> and \<open>validation.go\<close>: the checks of the validating webhooks of a hook.

  Errors are the values of the \<open>field\<close> package without their texts: a kind and a path. The checks of names, label
  selectors and object metadata belong to the Kubernetes libraries and are arguments (\<open>library_checks\<close>). Of
  \<open>multierror\<close> the model uses that it collects the errors of all arguments and that a nil pointer of its
  type holds none.
\<close>

section \<open>Errors\<close>

datatype path_step = Child string | Index nat

type_synonym field_path = "path_step list"

datatype field_error = Required field_path | Invalid field_path | NotSupported field_path | Duplicate field_path

record library_checks =
  IsFullyQualifiedName :: "field_path \<Rightarrow> string \<Rightarrow> field_error list"
  ValidateLabelSelector :: "field_path \<Rightarrow> LabelSelector \<Rightarrow> field_error list"
  ValidateObjectMeta :: "field_path \<Rightarrow> string \<Rightarrow> field_error list"

section \<open>Rules\<close>

record admission_rule =
  Operations :: "string list"
  APIGroups :: "string list"
  APIVersions :: "string list"
  Resources :: "string list"
  Scope :: "string option"

definition hasWildcard :: "string list \<Rightarrow> bool" where
  "hasWildcard xs = list_ex (\<lambda>s. s = ''*'') xs"

text \<open>\<open>strings.SplitN\<close> at the first slash: \<open>None\<close> when there is one part.\<close>

definition split_resource :: "string \<Rightarrow> (string \<times> string) option" where
  "split_resource s = (case index_rune CHR ''/'' s of None \<Rightarrow> None | Some i \<Rightarrow> Some (take i s, drop (Suc i) s))"

text \<open>The loop over the resources, with the variables it changes.\<close>

record resources_state =
  resourcesWithWildcardSubresoures :: "string list"
  subResourcesWithWildcardResource :: "string list"
  hasDoubleWildcard :: bool
  hasSingleWildcard :: bool
  hasResourceWithoutSubresource :: bool

definition resources_init :: resources_state where
  "resources_init = \<lparr>resourcesWithWildcardSubresoures = [], subResourcesWithWildcardResource = [],
     hasDoubleWildcard = False, hasSingleWildcard = False, hasResourceWithoutSubresource = False\<rparr>"

definition resource_step :: "field_path \<Rightarrow> nat \<Rightarrow> string \<Rightarrow> resources_state \<Rightarrow> field_error list \<times> resources_state" where
  "resource_step fldPath i resSub s =
     (if resSub = [] then ([Required (fldPath @ [Index i])], s)
      else
        let s = (if resSub = ''*/*'' then s\<lparr>hasDoubleWildcard := True\<rparr> else s);
            s = (if resSub = ''*'' then s\<lparr>hasSingleWildcard := True\<rparr> else s)
        in case split_resource resSub of
             None \<Rightarrow> ([], s\<lparr>hasResourceWithoutSubresource := resSub \<noteq> ''*''\<rparr>)
           | Some (res, sub) \<Rightarrow>
               let errs = (if res \<in> set (resourcesWithWildcardSubresoures s) then [Invalid (fldPath @ [Index i])] else []) @
                          (if sub \<in> set (subResourcesWithWildcardResource s) then [Invalid (fldPath @ [Index i])] else []);
                   s = (if sub = ''*'' then s\<lparr>resourcesWithWildcardSubresoures := res # resourcesWithWildcardSubresoures s\<rparr> else s);
                   s = (if res = ''*'' then s\<lparr>subResourcesWithWildcardResource := sub # subResourcesWithWildcardResource s\<rparr> else s)
               in (errs, s))"

fun resources_loop :: "field_path \<Rightarrow> nat \<Rightarrow> string list \<Rightarrow> resources_state \<Rightarrow> field_error list \<times> resources_state" where
  "resources_loop fldPath i [] s = ([], s)"
| "resources_loop fldPath i (r # rs) s =
     (let (errs, s) = resource_step fldPath i r s; (errs', s) = resources_loop fldPath (i + 1) rs s in (errs @ errs', s))"

definition validateResources :: "string list \<Rightarrow> field_path \<Rightarrow> field_error list" where
  "validateResources resources fldPath =
     (let (errs, s) = resources_loop fldPath 0 resources resources_init
      in (if resources = [] then [Required fldPath] else []) @ errs @
         (if length resources > 1 \<and> hasDoubleWildcard s then [Invalid fldPath] else []) @
         (if hasSingleWildcard s \<and> hasResourceWithoutSubresource s then [Invalid fldPath] else []))"

definition validateResourcesNoSubResources :: "string list \<Rightarrow> field_path \<Rightarrow> field_error list" where
  "validateResourcesNoSubResources resources fldPath =
     (if resources = [] then [Required fldPath] else []) @
     concat (map (\<lambda>(i, r). (if r = [] then [Required (fldPath @ [Index i])] else []) @
                           (if CHR ''/'' \<in> set r then [Invalid (fldPath @ [Index i])] else []))
       (enumerate 0 resources)) @
     (if length resources > 1 \<and> hasWildcard resources then [Invalid fldPath] else [])"

definition validScopes :: "string list" where
  "validScopes = [''Cluster'', ''Namespaced'', ''*'']"

definition validateRule :: "admission_rule \<Rightarrow> field_path \<Rightarrow> bool \<Rightarrow> field_error list" where
  "validateRule r fldPath allowSubResource =
     (if APIGroups r = [] then [Required (fldPath @ [Child ''apiGroups''])] else []) @
     (if length (APIGroups r) > 1 \<and> hasWildcard (APIGroups r) then [Invalid (fldPath @ [Child ''apiGroups''])] else []) @
     (if APIVersions r = [] then [Required (fldPath @ [Child ''apiVersions''])] else []) @
     (if length (APIVersions r) > 1 \<and> hasWildcard (APIVersions r) then [Invalid (fldPath @ [Child ''apiVersions''])] else []) @
     concat (map (\<lambda>(i, v). if v = [] then [Required (fldPath @ [Child ''apiVersions'', Index i])] else [])
       (enumerate 0 (APIVersions r))) @
     (if allowSubResource then validateResources (Resources r) (fldPath @ [Child ''resources''])
      else validateResourcesNoSubResources (Resources r) (fldPath @ [Child ''resources''])) @
     (case Scope r of None \<Rightarrow> [] | Some sc \<Rightarrow> if sc \<notin> set validScopes then [NotSupported (fldPath @ [Child ''scope''])] else [])"

definition supportedOperations :: "string list" where
  "supportedOperations = [''*'', ''CREATE'', ''UPDATE'', ''DELETE'', ''CONNECT'']"

definition hasWildcardOperation :: "string list \<Rightarrow> bool" where
  "hasWildcardOperation operations = list_ex (\<lambda>o1. o1 = ''*'') operations"

definition ValidateRuleWithOperations :: "admission_rule \<Rightarrow> field_path \<Rightarrow> field_error list" where
  "ValidateRuleWithOperations r fldPath =
     (if Operations r = [] then [Required (fldPath @ [Child ''operations''])] else []) @
     (if length (Operations r) > 1 \<and> hasWildcardOperation (Operations r) then [Invalid (fldPath @ [Child ''operations''])] else []) @
     concat (map (\<lambda>(i, o1). if o1 \<notin> set supportedOperations then [NotSupported (fldPath @ [Child ''operations'', Index i])] else [])
       (enumerate 0 (Operations r))) @
     validateRule r fldPath True"

section \<open>Webhooks\<close>

record webhook_spec =
  wh_Name :: string
  wh_Rules :: "admission_rule list"
  wh_NamespaceSelector :: "LabelSelector option"
  wh_ObjectSelector :: "LabelSelector option"
  wh_FailurePolicy :: string
  wh_SideEffects :: string
  wh_TimeoutSeconds :: "int option"
  wh_MatchConditions :: "json list"

definition AppendFieldList :: "field_error list \<Rightarrow> field_error list \<Rightarrow> field_error list" where
  "AppendFieldList err list = err @ list"

definition ValidateValidatingWebhook :: "library_checks \<Rightarrow> webhook_spec \<Rightarrow> field_path \<Rightarrow> field_error list" where
  "ValidateValidatingWebhook lib hook fldPath =
     (let allErrors = AppendFieldList [] (IsFullyQualifiedName lib (fldPath @ [Child ''name'']) (wh_Name hook));
          allErrors = fold (\<lambda>(i, r) errs. AppendFieldList errs (ValidateRuleWithOperations r (fldPath @ [Child ''rules'', Index i])))
                        (enumerate 0 (wh_Rules hook)) allErrors;
          allErrors = (case wh_TimeoutSeconds hook of
                         None \<Rightarrow> allErrors
                       | Some t \<Rightarrow> if t > 30 \<or> t < 1 then allErrors @ [Invalid (fldPath @ [Child ''timeoutSeconds''])] else allErrors);
          allErrors = (case wh_NamespaceSelector hook of
                         None \<Rightarrow> allErrors
                       | Some sel \<Rightarrow> AppendFieldList allErrors (ValidateLabelSelector lib (fldPath @ [Child ''namespaceSelector'']) sel));
          allErrors = (case wh_ObjectSelector hook of
                         None \<Rightarrow> allErrors
                       | Some sel \<Rightarrow> AppendFieldList allErrors (ValidateLabelSelector lib (fldPath @ [Child ''objectSelector'']) sel))
      in allErrors)"

fun validate_webhooks :: "library_checks \<Rightarrow> nat \<Rightarrow> webhook_spec list \<Rightarrow> string set \<Rightarrow> field_error list" where
  "validate_webhooks lib i [] hookNames = []"
| "validate_webhooks lib i (hook # hooks) hookNames =
     ValidateValidatingWebhook lib hook [Child ''webhooks'', Index i] @
     (if wh_Name hook \<noteq> []
      then (if wh_Name hook \<in> hookNames then [Duplicate [Child ''webhooks'', Index i, Child ''name'']] else []) @
           validate_webhooks lib (i + 1) hooks (insert (wh_Name hook) hookNames)
      else validate_webhooks lib (i + 1) hooks hookNames)"

definition ValidateValidatingWebhooks :: "library_checks \<Rightarrow> webhook_spec list \<Rightarrow> field_error list" where
  "ValidateValidatingWebhooks lib webhooks = validate_webhooks lib 0 webhooks {}"

definition ValidateValidatingWebhookConfiguration :: "library_checks \<Rightarrow> string \<Rightarrow> webhook_spec list \<Rightarrow> field_error list" where
  "ValidateValidatingWebhookConfiguration lib name webhooks =
     AppendFieldList [] (ValidateObjectMeta lib [Child ''metadata''] name) @ ValidateValidatingWebhooks lib webhooks"

section \<open>Lemmas\<close>

text \<open>What the rules say of a list of resources.\<close>

definition overlaps :: "string \<Rightarrow> string \<Rightarrow> bool" where
  "overlaps earlier later \<longleftrightarrow>
     (case (split_resource earlier, split_resource later) of
        (Some (res, sub), Some (res', sub')) \<Rightarrow> sub = ''*'' \<and> res = res' \<or> res = ''*'' \<and> sub = sub'
      | _ \<Rightarrow> False)"

definition last_plain :: "string list \<Rightarrow> bool \<Rightarrow> bool" where
  "last_plain rs b = fold (\<lambda>r b. if r \<noteq> [] \<and> split_resource r = None then r \<noteq> ''*'' else b) rs b"

definition covered :: "resources_state \<Rightarrow> string \<Rightarrow> bool" where
  "covered s r \<longleftrightarrow>
     (case split_resource r of
        None \<Rightarrow> False
      | Some (res, sub) \<Rightarrow> res \<in> set (resourcesWithWildcardSubresoures s) \<or> sub \<in> set (subResourcesWithWildcardResource s))"

lemma split_resource_Nil [simp]: "split_resource [] = None"
  by (simp add: split_resource_def)

lemma resource_step_errors: "fst (resource_step p i r s) = [] \<longleftrightarrow> r \<noteq> [] \<and> \<not> covered s r"
  by (auto simp: resource_step_def covered_def Let_def split: option.splits)

lemma resource_step_covered: "r \<noteq> [] \<Longrightarrow> covered (snd (resource_step p i r s)) t \<longleftrightarrow> covered s t \<or> overlaps r t"
  by (auto simp: resource_step_def covered_def overlaps_def Let_def split: option.splits)

lemma resource_step_flags:
  assumes "r \<noteq> []"
  shows "hasDoubleWildcard (snd (resource_step p i r s)) \<longleftrightarrow> hasDoubleWildcard s \<or> r = ''*/*''"
    and "hasSingleWildcard (snd (resource_step p i r s)) \<longleftrightarrow> hasSingleWildcard s \<or> r = ''*''"
    and "hasResourceWithoutSubresource (snd (resource_step p i r s)) =
           (if split_resource r = None then r \<noteq> ''*'' else hasResourceWithoutSubresource s)"
  using assms by (auto simp: resource_step_def Let_def split: option.splits)

lemma resources_loop_spec:
  "fst (resources_loop p i rs s) = [] \<longleftrightarrow>
     [] \<notin> set rs \<and> (\<forall>r \<in> set rs. \<not> covered s r) \<and> sorted_wrt (\<lambda>a b. \<not> overlaps a b) rs"
  "[] \<notin> set rs \<Longrightarrow>
     (hasDoubleWildcard (snd (resources_loop p i rs s)) \<longleftrightarrow> hasDoubleWildcard s \<or> ''*/*'' \<in> set rs) \<and>
     (hasSingleWildcard (snd (resources_loop p i rs s)) \<longleftrightarrow> hasSingleWildcard s \<or> ''*'' \<in> set rs) \<and>
     hasResourceWithoutSubresource (snd (resources_loop p i rs s)) = last_plain rs (hasResourceWithoutSubresource s)"
proof (induction rs arbitrary: i s)
  case (Cons r rs)
  case 1
  let ?s = "snd (resource_step p i r s)"
  have "fst (resources_loop p i (r # rs) s) = fst (resource_step p i r s) @ fst (resources_loop p (i + 1) rs ?s)"
    by (simp add: Let_def split: prod.splits)
  then show ?case
    using Cons.IH(1) [of "i + 1" ?s] resource_step_errors [of p i r s] resource_step_covered [of r p i s] by auto
next
  case (Cons r rs)
  case 2
  let ?s = "snd (resource_step p i r s)"
  have "snd (resources_loop p i (r # rs) s) = snd (resources_loop p (i + 1) rs ?s)"
    by (simp add: Let_def split: prod.splits)
  then show ?case using Cons.IH(2) [of "i + 1" ?s] 2 resource_step_flags [of r p i s]
    by (auto simp: last_plain_def)
qed (simp_all add: last_plain_def)

lemma covered_init [simp]: "\<not> covered resources_init r"
  by (simp add: covered_def resources_init_def split: option.splits)

text \<open>A list of names in which the wildcard stands alone.\<close>

definition lone_wildcard :: "string list \<Rightarrow> bool" where
  "lone_wildcard xs \<longleftrightarrow> xs \<noteq> [] \<and> (length xs > 1 \<longrightarrow> ''*'' \<notin> set xs)"

definition resources_ok :: "string list \<Rightarrow> bool" where
  "resources_ok rs \<longleftrightarrow> rs \<noteq> [] \<and> [] \<notin> set rs \<and> sorted_wrt (\<lambda>a b. \<not> overlaps a b) rs \<and>
     (length rs > 1 \<longrightarrow> ''*/*'' \<notin> set rs) \<and> \<not> (''*'' \<in> set rs \<and> last_plain rs False)"

definition rule_ok :: "admission_rule \<Rightarrow> bool" where
  "rule_ok r \<longleftrightarrow> lone_wildcard (Operations r) \<and> set (Operations r) \<subseteq> set supportedOperations \<and>
     lone_wildcard (APIGroups r) \<and> lone_wildcard (APIVersions r) \<and> [] \<notin> set (APIVersions r) \<and>
     resources_ok (Resources r) \<and> (case Scope r of None \<Rightarrow> True | Some sc \<Rightarrow> sc \<in> set validScopes)"

definition webhook_ok :: "library_checks \<Rightarrow> nat \<Rightarrow> webhook_spec \<Rightarrow> bool" where
  "webhook_ok lib i hook \<longleftrightarrow>
     IsFullyQualifiedName lib [Child ''webhooks'', Index i, Child ''name''] (wh_Name hook) = [] \<and>
     list_all rule_ok (wh_Rules hook) \<and>
     (case wh_TimeoutSeconds hook of None \<Rightarrow> True | Some t \<Rightarrow> 1 \<le> t \<and> t \<le> 30) \<and>
     (case wh_NamespaceSelector hook of None \<Rightarrow> True
      | Some sel \<Rightarrow> ValidateLabelSelector lib [Child ''webhooks'', Index i, Child ''namespaceSelector''] sel = []) \<and>
     (case wh_ObjectSelector hook of None \<Rightarrow> True
      | Some sel \<Rightarrow> ValidateLabelSelector lib [Child ''webhooks'', Index i, Child ''objectSelector''] sel = [])"

lemma validateResources_ok: "validateResources rs p = [] \<longleftrightarrow> resources_ok rs"
proof -
  obtain errs s where l: "resources_loop p 0 rs resources_init = (errs, s)" by (cases "resources_loop p 0 rs resources_init")
  have e: "errs = [] \<longleftrightarrow> [] \<notin> set rs \<and> sorted_wrt (\<lambda>a b. \<not> overlaps a b) rs"
    using resources_loop_spec(1) [of p 0 rs resources_init] l by simp
  have f: "[] \<notin> set rs \<Longrightarrow> (hasDoubleWildcard s \<longleftrightarrow> ''*/*'' \<in> set rs) \<and> (hasSingleWildcard s \<longleftrightarrow> ''*'' \<in> set rs) \<and>
      hasResourceWithoutSubresource s = last_plain rs False"
    using resources_loop_spec(2) [of rs p 0 resources_init] l by (simp add: resources_init_def)
  show ?thesis
  proof (cases "[] \<in> set rs")
    case True
    then show ?thesis using e by (simp add: validateResources_def l resources_ok_def)
  next
    case False
    then show ?thesis using e f by (simp add: validateResources_def l resources_ok_def)
  qed
qed

lemma hasWildcard_iff [simp]: "hasWildcard xs \<longleftrightarrow> ''*'' \<in> set xs" "hasWildcardOperation xs \<longleftrightarrow> ''*'' \<in> set xs"
  by (auto simp: hasWildcard_def hasWildcardOperation_def list_ex_iff)

lemma concat_enumerate_Nil:
  "concat (map (\<lambda>(i, x). if P x then [f i] else []) (enumerate n xs)) = [] \<longleftrightarrow> (\<forall>x \<in> set xs. \<not> P x)"
  by (induction xs arbitrary: n) auto

lemma validateRule_ok: "ValidateRuleWithOperations r p = [] \<longleftrightarrow> rule_ok r"
  by (cases "Scope r")
    (auto simp: ValidateRuleWithOperations_def validateRule_def rule_ok_def lone_wildcard_def validateResources_ok
      concat_enumerate_Nil simp del: concat_eq_Nil_conv)

lemma AppendFieldList_Nil [simp]: "AppendFieldList err list = [] \<longleftrightarrow> err = [] \<and> list = []"
  by (simp add: AppendFieldList_def)

lemma fold_append_Nil:
  "fold (\<lambda>(i, x) errs. AppendFieldList errs (g i x)) (enumerate n xs) acc = [] \<longleftrightarrow>
     acc = [] \<and> list_all (\<lambda>(i, x). g i x = []) (enumerate n xs)"
  by (induction xs arbitrary: n acc) auto

lemma list_all_enumerate: "list_all (\<lambda>(i, x). P x) (enumerate n xs) \<longleftrightarrow> list_all P xs"
  by (induction xs arbitrary: n) auto

lemma ValidateValidatingWebhook_ok:
  "ValidateValidatingWebhook lib hook [Child ''webhooks'', Index i] = [] \<longleftrightarrow> webhook_ok lib i hook"
  by (simp add: ValidateValidatingWebhook_def webhook_ok_def Let_def fold_append_Nil validateRule_ok list_all_enumerate
      split: option.splits)

lemma validate_webhooks_ok:
  "validate_webhooks lib i whs names = [] \<longleftrightarrow>
     list_all (\<lambda>(i, hook). webhook_ok lib i hook) (enumerate i whs) \<and>
     distinct (filter (\<lambda>n. n \<noteq> []) (map wh_Name whs)) \<and> names \<inter> set (filter (\<lambda>n. n \<noteq> []) (map wh_Name whs)) = {}"
  by (induction whs arbitrary: i names) (auto simp: ValidateValidatingWebhook_ok)

section \<open>Properties\<close>

text \<open>
  C29. The validating webhooks of a hook are accepted exactly when every one of them is in order (a qualified name, a timeout
  of 1 to 30 seconds, valid selectors, and rules in which operations, API groups and versions are given and a
  wildcard stands alone, no resource is covered by a wildcard before it, and \<open>*/*\<close> is the only one) and no
  two have the same name. Of the plain resources besides \<open>*\<close> only the last one is looked at: \<open>pods, *\<close>
  is accepted although \<open>*, pods\<close> is not.
\<close>

theorem ValidateValidatingWebhooks_accepts:
  "(ValidateValidatingWebhooks lib webhooks = [] \<longleftrightarrow>
      list_all (\<lambda>(i, hook). webhook_ok lib i hook) (enumerate 0 webhooks) \<and>
      distinct (filter (\<lambda>n. n \<noteq> []) (map wh_Name webhooks))) \<and>
   validateResources [''pods'', ''*''] p = [] \<and> validateResources [''*'', ''pods''] p \<noteq> []"
proof -
  have "resources_ok [''pods'', ''*'']" "\<not> resources_ok [''*'', ''pods'']" by code_simp+
  then show ?thesis by (simp add: ValidateValidatingWebhooks_def validate_webhooks_ok validateResources_ok)
qed

end
