(* ===== verification/Hook_Config.thy ===== *)
theory Hook_Config
  imports Complex_Main Webhook_Bindings Webhook_Rules
begin

text \<open>
  \<open>config.go\<close>, \<open>config_v0.go\<close>, \<open>config_v1.go\<close>, \<open>util.go\<close> and \<open>versioned_untyped.go\<close> of \<open>pkg/hook/config\<close>: from the
  answer of a hook to \<open>--config\<close> to the effective configuration of its bindings.

  Arguments (\<open>config_lib\<close>): YAML decoding into a map and into the versioned structures, the OpenAPI check, the cron
  parser, jq, API versions, label selectors, the checks of the Kubernetes libraries, \<open>time.ParseDuration\<close> (it
  computes with floats) and the random ids. Monitor configurations are allocated on the heap of \<open>Hook_Bindings\<close>.
  Errors are values of a datatype in place of their texts. A nil slice is \<open>None\<close> where the code tells it from an empty
  one. Log and metric labels, debug names and the raw versioned values are left out.
\<close>

section \<open>The effective configuration\<close>

record OnStartupConfig =
  os_BindingName :: string
  os_AllowFailure :: bool
  Order :: rat

record Settings =
  ExecutionMinInterval :: duration
  ExecutionBurst :: int

record ('v, 'm) HookConfig =
  Version :: string
  OnStartup :: "OnStartupConfig option"
  Schedules :: "ScheduleConfig list"
  OnKubernetesEvents :: "OnKubernetesEventConfig list"
  KubernetesValidating :: "'v admission_binding list"
  KubernetesMutating :: "'m admission_binding list"
  KubernetesConversion :: "conversion_binding list"
  cfg_Settings :: "Settings option"

definition empty_config :: "string \<Rightarrow> ('v, 'm) HookConfig" where
  "empty_config version = \<lparr>Version = version, OnStartup = None, Schedules = [], OnKubernetesEvents = [],
     KubernetesValidating = [], KubernetesMutating = [], KubernetesConversion = [], cfg_Settings = None\<rparr>"

definition HasBinding :: "('v, 'm) HookConfig \<Rightarrow> BindingType \<Rightarrow> bool" where
  "HasBinding c binding \<longleftrightarrow>
     (if binding = bt_OnStartup then OnStartup c \<noteq> None
      else if binding = bt_Schedule then Schedules c \<noteq> []
      else if binding = bt_OnKubernetesEvent then OnKubernetesEvents c \<noteq> []
      else if binding = bt_KubernetesValidating then KubernetesValidating c \<noteq> []
      else if binding = bt_KubernetesMutating then KubernetesMutating c \<noteq> []
      else if binding = bt_KubernetesConversion then KubernetesConversion c \<noteq> []
      else False)"

definition validBindingTypes :: "BindingType list" where
  "validBindingTypes = [bt_OnStartup, bt_Schedule, bt_OnKubernetesEvent, bt_KubernetesValidating, bt_KubernetesMutating,
     bt_KubernetesConversion]"

definition Bindings :: "('v, 'm) HookConfig \<Rightarrow> BindingType list" where
  "Bindings c = filter (HasBinding c) validBindingTypes"

section \<open>Errors\<close>

datatype include_error = BindingNotFound string | BindingRepeated nat string

datatype check_error =
    CrontabInvalid | IncludesInvalid include_error | ApiVersionInvalid | LabelSelectorInvalid | NamespaceSelectorInvalid
  | FieldSelectorInvalid | NamesExclusive

datatype config_error =
    ErrUnmarshal | ErrVersionValue | ErrVersionUnsupported string | ErrSchema
  | ErrIntervalInvalid | ErrBurstInvalid | ErrIntervalAndBurst | ErrOnStartup
  | ErrKubernetes nat "check_error list" | ErrJqFilter nat | ErrIncludes nat include_error | ErrEventName string
  | ErrSchedule nat "check_error list" | ErrValidating nat "check_error list" | ErrWebhooks "field_error list"
  | ErrMutating nat "check_error list" | ErrConversion nat "check_error list"

section \<open>Raw configurations\<close>

datatype raw_value = RawNil | RawFloat rat | RawOther

record ScheduleConfigV0 =
  s0_Name :: string
  s0_Crontab :: string
  s0_AllowFailure :: bool

record KubeNamespaceSelectorV0 =
  n0_MatchNames :: "string list"
  n0_Any :: bool

record OnKubernetesEventConfigV0 =
  k0_Name :: string
  k0_EventTypes :: "string list"
  k0_Kind :: string
  k0_Selector :: "LabelSelector option"
  k0_ObjectName :: string
  k0_NamespaceSelector :: "KubeNamespaceSelectorV0 option"
  k0_JqFilter :: string
  k0_AllowFailure :: bool

record HookConfigV0 =
  c0_OnStartup :: raw_value
  c0_Schedule :: "ScheduleConfigV0 list"
  c0_OnKubernetesEvent :: "OnKubernetesEventConfigV0 list"

record ScheduleConfigV1 =
  s1_Name :: string
  s1_Crontab :: string
  s1_AllowFailure :: bool
  s1_IncludeSnapshotsFrom :: "string list"
  s1_Queue :: string
  s1_Group :: string

record OnKubernetesEventConfigV1 =
  k1_Name :: string
  k1_WatchEventTypes :: "WatchEventType list option"
  k1_ExecuteHookOnEvents :: "WatchEventType list option"
  k1_ExecuteHookOnSynchronization :: string
  k1_WaitForSynchronization :: string
  k1_KeepFullObjectsInMemory :: string
  k1_Mode :: string
  k1_ApiVersion :: string
  k1_Kind :: string
  k1_NameSelector :: "NameSelector option"
  k1_LabelSelector :: "LabelSelector option"
  k1_FieldSelector :: "FieldSelector option"
  k1_Namespace :: "NamespaceSelector option"
  k1_JqFilter :: string
  k1_AllowFailure :: bool
  k1_IncludeSnapshotsFrom :: "string list"
  k1_Queue :: string
  k1_Group :: string

record KubernetesAdmissionConfigV1 =
  a1_Name :: string
  a1_IncludeSnapshotsFrom :: "string list"
  a1_Group :: string
  a1_Rules :: "admission_rule list"
  a1_FailurePolicy :: "string option"
  a1_LabelSelector :: "LabelSelector option"
  a1_Namespace :: "NamespaceSelector option"
  a1_SideEffects :: "string option"
  a1_TimeoutSeconds :: "int option"
  a1_MatchConditions :: "json list"

record KubernetesConversionConfigV1 =
  v1_Name :: string
  v1_IncludeSnapshotsFrom :: "string list"
  v1_Group :: string
  v1_CrdName :: string
  v1_Conversions :: "Rule list"

record SettingsV1 =
  st_ExecutionMinInterval :: string
  st_ExecutionBurst :: string

record HookConfigV1 =
  c1_OnStartup :: raw_value
  c1_Schedule :: "ScheduleConfigV1 list"
  c1_OnKubernetesEvent :: "OnKubernetesEventConfigV1 list"
  c1_KubernetesValidating :: "KubernetesAdmissionConfigV1 list"
  c1_KubernetesMutating :: "KubernetesAdmissionConfigV1 list"
  c1_KubernetesConversion :: "KubernetesConversionConfigV1 list"
  c1_Settings :: "SettingsV1 option"

record config_lib =
  yaml_map :: "string \<Rightarrow> (string \<times> json) list option"
  yaml_v0 :: "string \<Rightarrow> HookConfigV0 option"
  yaml_v1 :: "string \<Rightarrow> HookConfigV1 option"
  ValidateConfig :: "string \<Rightarrow> (string \<times> json) list \<Rightarrow> bool"
  cron_Parse :: "string \<Rightarrow> bool"
  jq_Compile :: "string \<Rightarrow> compiled_filter option"
  ParseGroupVersion :: "string \<Rightarrow> bool"
  LabelSelectorAsSelector :: "LabelSelector \<Rightarrow> bool"
  cfg_checks :: library_checks
  ParseDuration :: "string \<Rightarrow> duration option"
  cfg_uuid :: "nat \<Rightarrow> string"

text \<open>The heap of monitor configurations, its next free address, and the number of random ids taken.\<close>

record config_world =
  cw_mcs :: "nat \<Rightarrow> MonitorConfig"
  cw_next :: nat
  cw_uuids :: nat

section \<open>Helpers\<close>

text \<open>\<open>if err != nil { return err }\<close>, and the loops that convert a list and stop at the first error.\<close>

definition and_then :: "'e + 'a \<Rightarrow> ('a \<Rightarrow> 'e + 'b) \<Rightarrow> 'e + 'b" where
  "and_then m f = (case m of Inl err \<Rightarrow> Inl err | Inr x \<Rightarrow> f x)"

fun convert_each :: "(nat \<Rightarrow> 'a \<Rightarrow> 's \<Rightarrow> 'e + 'b \<times> 's) \<Rightarrow> nat \<Rightarrow> 'a list \<Rightarrow> 's \<Rightarrow> 'e + 'b list \<times> 's" where
  "convert_each f i [] s = Inr ([], s)"
| "convert_each f i (x # xs) s =
     and_then (f i x s) (\<lambda>(y, s). and_then (convert_each f (i + 1) xs s) (\<lambda>(ys, s). Inr (y # ys, s)))"

definition ConvertFloatForBinding :: "raw_value \<Rightarrow> config_error + rat option" where
  "ConvertFloatForBinding v = (case v of RawNil \<Rightarrow> Inr None | RawFloat x \<Rightarrow> Inr (Some x) | RawOther \<Rightarrow> Inl ErrOnStartup)"

definition ConvertOnStartup :: "raw_value \<Rightarrow> config_error + OnStartupConfig option" where
  "ConvertOnStartup v =
     (case ConvertFloatForBinding v of
        Inl err \<Rightarrow> Inl err
      | Inr None \<Rightarrow> Inr None
      | Inr (Some x) \<Rightarrow> Inr (Some \<lparr>os_BindingName = bt_OnStartup, os_AllowFailure = False, Order = x\<rparr>))"

fun merge_rest :: "string list \<Rightarrow> (string \<Rightarrow> bool) \<Rightarrow> string list" where
  "merge_rest [] un = []"
| "merge_rest (a # as) un = (if un a then a # merge_rest as (un(a := False)) else merge_rest as un)"

definition MergeArrays :: "string list \<Rightarrow> string list \<Rightarrow> string list" where
  "MergeArrays a1 a2 =
     (let un = fold (\<lambda>a u. u(a := True)) a2 (\<lambda>_. False);
          un = fold (\<lambda>a u. u(a := False)) a1 un
      in a1 @ merge_rest a2 un)"

fun CheckIncludeSnapshots :: "OnKubernetesEventConfig list \<Rightarrow> string list \<Rightarrow> include_error option" where
  "CheckIncludeSnapshots kubeConfigs [] = None"
| "CheckIncludeSnapshots kubeConfigs (incl # includes) =
     (let bindings = length (filter (\<lambda>kubeCfg. ok_BindingName kubeCfg = incl) kubeConfigs)
      in if bindings = 0 then Some (BindingNotFound incl)
         else if bindings > 1 then Some (BindingRepeated bindings incl)
         else CheckIncludeSnapshots kubeConfigs includes)"

text \<open>\<open>strconv.ParseInt\<close> in base 10 with 32 bits.\<close>

definition is_digit :: "char \<Rightarrow> bool" where
  "is_digit c \<longleftrightarrow> 48 \<le> (of_char c :: nat) \<and> (of_char c :: nat) \<le> 57"

definition digits_value :: "string \<Rightarrow> int" where
  "digits_value ds = foldl (\<lambda>n c. 10 * n + (of_char c - 48)) 0 ds"

definition ParseInt32 :: "string \<Rightarrow> int option" where
  "ParseInt32 s =
     (let (neg, ds) = (case s of [] \<Rightarrow> (False, [])
                       | c # r \<Rightarrow> if c = CHR ''-'' then (True, r) else if c = CHR ''+'' then (False, r) else (False, s))
      in if ds = [] \<or> \<not> list_all is_digit ds then None
         else let n = (if neg then - digits_value ds else digits_value ds)
              in if n < - (2 ^ 31) \<or> n \<ge> 2 ^ 31 then None else Some n)"

section \<open>Version 0\<close>

definition v0_event :: "string \<Rightarrow> WatchEventType option" where
  "v0_event eventName =
     (if eventName = ''add'' then Some WatchEventAdded else if eventName = ''update'' then Some WatchEventModified
      else if eventName = ''delete'' then Some WatchEventDeleted else None)"

definition v0_events :: "string list \<Rightarrow> config_error + WatchEventType list" where
  "v0_events names =
     and_then (convert_each (\<lambda>i n s. case v0_event n of None \<Rightarrow> Inl (ErrEventName n) | Some e \<Rightarrow> Inr (e, s)) 0 names ())
       (\<lambda>(es, _). Inr es)"

definition v0_CheckSchedule :: "config_lib \<Rightarrow> ScheduleConfigV0 \<Rightarrow> check_error list" where
  "v0_CheckSchedule lib sch = (if cron_Parse lib (s0_Crontab sch) then [] else [CrontabInvalid])"

definition v0_ConvertSchedule :: "config_lib \<Rightarrow> ScheduleConfigV0 \<Rightarrow> config_world \<Rightarrow> ScheduleConfig \<times> config_world" where
  "v0_ConvertSchedule lib sch w =
     (\<lparr>sc_BindingName = (if s0_Name sch \<noteq> [] then s0_Name sch else bt_Schedule), sc_AllowFailure = s0_AllowFailure sch,
       sc_ScheduleEntry = \<lparr>se_Crontab = s0_Crontab sch, se_Id = cfg_uuid lib (cw_uuids w)\<rparr>,
       sc_IncludeSnapshotsFrom = [], sc_Queue = ''main'', sc_Group = []\<rparr>,
      w\<lparr>cw_uuids := cw_uuids w + 1\<rparr>)"

definition v0_schedule :: "config_lib \<Rightarrow> nat \<Rightarrow> ScheduleConfigV0 \<Rightarrow> config_world \<Rightarrow> config_error + ScheduleConfig \<times> config_world" where
  "v0_schedule lib i sch w =
     (if v0_CheckSchedule lib sch \<noteq> [] then Inl (ErrSchedule i (v0_CheckSchedule lib sch))
      else Inr (v0_ConvertSchedule lib sch w))"

text \<open>The monitor configuration is filled in after its id was taken, and is at a new address.\<close>

definition v0_selectors :: "OnKubernetesEventConfigV0 \<Rightarrow> MonitorConfig \<Rightarrow> MonitorConfig" where
  "v0_selectors kubeCfg m =
     (let m = (if k0_ObjectName kubeCfg \<noteq> [] then WithNameSelector (Some [k0_ObjectName kubeCfg]) m else m);
          m = (case k0_NamespaceSelector kubeCfg of
                 None \<Rightarrow> m
               | Some ns \<Rightarrow> if \<not> n0_Any ns
                   then WithNamespaceSelector (Some \<lparr>ns_NameSelector = Some (n0_MatchNames ns), ns_LabelSelector = None\<rparr>) m else m)
      in WithLabelSelector (k0_Selector kubeCfg) m)"

definition v0_monitor :: "config_lib \<Rightarrow> nat \<Rightarrow> OnKubernetesEventConfigV0 \<Rightarrow> string \<Rightarrow> config_error + MonitorConfig" where
  "v0_monitor lib i kubeCfg monitorID =
     and_then (v0_events (k0_EventTypes kubeCfg)) (\<lambda>eventTypes.
       let m = (WithEventTypes (Some eventTypes) (WithMode ModeV0 (empty_mc\<lparr>mc_MonitorId := monitorID\<rparr>)))\<lparr>mc_Kind := k0_Kind kubeCfg\<rparr>;
           (m, compiled) = WithJqFilter (jq_Compile lib) (k0_JqFilter kubeCfg) (v0_selectors kubeCfg m)
       in if compiled then Inr m else Inl (ErrJqFilter i))"

definition v0_binding :: "OnKubernetesEventConfigV0 \<Rightarrow> nat \<Rightarrow> OnKubernetesEventConfig" where
  "v0_binding kubeCfg p =
     \<lparr>ok_BindingName = (if k0_Name kubeCfg = [] then ''onKubernetesEvent'' else k0_Name kubeCfg),
      ok_AllowFailure = k0_AllowFailure kubeCfg, ok_Monitor = p, ok_IncludeSnapshotsFrom = [], ok_Queue = ''main'',
      ok_Group = [], ok_ExecuteHookOnSynchronization = False, ok_WaitForSynchronization = False,
      ok_KeepFullObjectsInMemory = False\<rparr>"

definition alloc_monitor :: "MonitorConfig \<Rightarrow> config_world \<Rightarrow> nat \<times> config_world" where
  "alloc_monitor m w = (cw_next w, w\<lparr>cw_mcs := (cw_mcs w)(cw_next w := m), cw_next := cw_next w + 1, cw_uuids := cw_uuids w + 1\<rparr>)"

definition v0_kubernetes :: "config_lib \<Rightarrow> nat \<Rightarrow> OnKubernetesEventConfigV0 \<Rightarrow> config_world \<Rightarrow>
    config_error + OnKubernetesEventConfig \<times> config_world" where
  "v0_kubernetes lib i kubeCfg w =
     and_then (v0_monitor lib i kubeCfg (cfg_uuid lib (cw_uuids w))) (\<lambda>m.
       let (p, w) = alloc_monitor m w in Inr (v0_binding kubeCfg p, w))"

definition v0_ConvertAndCheck :: "config_lib \<Rightarrow> HookConfigV0 \<Rightarrow> config_world \<Rightarrow>
    config_error + (webhook_spec, webhook_spec) HookConfig \<times> config_world" where
  "v0_ConvertAndCheck lib cv0 w =
     and_then (ConvertOnStartup (c0_OnStartup cv0)) (\<lambda>startup.
     and_then (convert_each (v0_schedule lib) 0 (c0_Schedule cv0) w) (\<lambda>(scheds, w).
     and_then (convert_each (v0_kubernetes lib) 0 (c0_OnKubernetesEvent cv0) w) (\<lambda>(kube, w).
       Inr ((empty_config ''v0'')\<lparr>OnStartup := startup, Schedules := scheds, OnKubernetesEvents := kube\<rparr>, w))))"

section \<open>Version 1\<close>

definition CheckOnKubernetesEvent :: "config_lib \<Rightarrow> OnKubernetesEventConfigV1 \<Rightarrow> check_error list" where
  "CheckOnKubernetesEvent lib kubeCfg =
     (if k1_ApiVersion kubeCfg \<noteq> [] \<and> \<not> ParseGroupVersion lib (k1_ApiVersion kubeCfg) then [ApiVersionInvalid] else []) @
     (case k1_LabelSelector kubeCfg of None \<Rightarrow> [] | Some sel \<Rightarrow> if LabelSelectorAsSelector lib sel then [] else [LabelSelectorInvalid]) @
     (case k1_FieldSelector kubeCfg of
        None \<Rightarrow> []
      | Some sel \<Rightarrow> if FormatFieldSelector (\<lambda>_. []) (Some sel) = None then [FieldSelectorInvalid] else []) @
     (case (k1_NameSelector kubeCfg, k1_FieldSelector kubeCfg) of
        (Some names, Some (Some exprs)) \<Rightarrow>
          if names \<noteq> [] then map (\<lambda>_. NamesExclusive) (filter (\<lambda>expr. req_Field expr = ''metadata.name'') exprs) else []
      | _ \<Rightarrow> [])"

definition v1_monitor :: "config_lib \<Rightarrow> nat \<Rightarrow> OnKubernetesEventConfigV1 \<Rightarrow> string \<Rightarrow> config_error + MonitorConfig" where
  "v1_monitor lib i kubeCfg monitorID =
     (let m = (WithMode (k1_Mode kubeCfg) (empty_mc\<lparr>mc_MonitorId := monitorID\<rparr>))\<lparr>
                mc_ApiVersion := k1_ApiVersion kubeCfg, mc_Kind := k1_Kind kubeCfg\<rparr>;
          m = WithLabelSelector (k1_LabelSelector kubeCfg) (WithNamespaceSelector (k1_Namespace kubeCfg)
                (WithFieldSelector (k1_FieldSelector kubeCfg) (WithNameSelector (k1_NameSelector kubeCfg) m)));
          (m, compiled) = WithJqFilter (jq_Compile lib) (k1_JqFilter kubeCfg) m
      in if \<not> compiled then Inl (ErrJqFilter i)
         else Inr ((WithEventTypes (if k1_ExecuteHookOnEvents kubeCfg \<noteq> None then k1_ExecuteHookOnEvents kubeCfg
                                    else k1_WatchEventTypes kubeCfg) m)\<lparr>
                KeepFullObjectsInMemory := k1_KeepFullObjectsInMemory kubeCfg \<noteq> ''false''\<rparr>))"

definition v1_binding :: "OnKubernetesEventConfigV1 \<Rightarrow> nat \<Rightarrow> OnKubernetesEventConfig" where
  "v1_binding kubeCfg p =
     \<lparr>ok_BindingName = (if k1_Name kubeCfg = [] then bt_OnKubernetesEvent else k1_Name kubeCfg),
      ok_AllowFailure = k1_AllowFailure kubeCfg, ok_Monitor = p,
      ok_IncludeSnapshotsFrom = k1_IncludeSnapshotsFrom kubeCfg,
      ok_Queue = (if k1_Queue kubeCfg = [] then ''main'' else k1_Queue kubeCfg), ok_Group = k1_Group kubeCfg,
      ok_ExecuteHookOnSynchronization = (k1_ExecuteHookOnSynchronization kubeCfg \<noteq> ''false''),
      ok_WaitForSynchronization = (\<not> (k1_WaitForSynchronization kubeCfg = ''false'' \<and> k1_Queue kubeCfg \<noteq> [])),
      ok_KeepFullObjectsInMemory = (k1_KeepFullObjectsInMemory kubeCfg \<noteq> ''false'')\<rparr>"

definition v1_kubernetes :: "config_lib \<Rightarrow> nat \<Rightarrow> OnKubernetesEventConfigV1 \<Rightarrow> config_world \<Rightarrow>
    config_error + OnKubernetesEventConfig \<times> config_world" where
  "v1_kubernetes lib i kubeCfg w =
     (if CheckOnKubernetesEvent lib kubeCfg \<noteq> [] then Inl (ErrKubernetes i (CheckOnKubernetesEvent lib kubeCfg))
      else and_then (v1_monitor lib i kubeCfg (cfg_uuid lib (cw_uuids w))) (\<lambda>m.
             let (p, w) = alloc_monitor m w in Inr (v1_binding kubeCfg p, w)))"

definition v1_check_includes :: "OnKubernetesEventConfig list \<Rightarrow> config_error + unit" where
  "v1_check_includes kube =
     and_then (convert_each (\<lambda>i kubeCfg s.
         if ok_IncludeSnapshotsFrom kubeCfg = [] then Inr ((), s)
         else case CheckIncludeSnapshots kube (ok_IncludeSnapshotsFrom kubeCfg) of
                None \<Rightarrow> Inr ((), s)
              | Some err \<Rightarrow> Inl (ErrIncludes i err)) 0 kube ()) (\<lambda>_. Inr ())"

definition includes_errors :: "OnKubernetesEventConfig list \<Rightarrow> string list \<Rightarrow> check_error list" where
  "includes_errors kube includes =
     (if includes = [] then []
      else case CheckIncludeSnapshots kube includes of None \<Rightarrow> [] | Some err \<Rightarrow> [IncludesInvalid err])"

definition v1_CheckSchedule :: "config_lib \<Rightarrow> OnKubernetesEventConfig list \<Rightarrow> ScheduleConfigV1 \<Rightarrow> check_error list" where
  "v1_CheckSchedule lib kube sch =
     (if cron_Parse lib (s1_Crontab sch) then [] else [CrontabInvalid]) @ includes_errors kube (s1_IncludeSnapshotsFrom sch)"

definition v1_ConvertSchedule :: "config_lib \<Rightarrow> ScheduleConfigV1 \<Rightarrow> config_world \<Rightarrow> ScheduleConfig \<times> config_world" where
  "v1_ConvertSchedule lib sch w =
     (\<lparr>sc_BindingName = (if s1_Name sch \<noteq> [] then s1_Name sch else bt_Schedule), sc_AllowFailure = s1_AllowFailure sch,
       sc_ScheduleEntry = \<lparr>se_Crontab = s1_Crontab sch, se_Id = cfg_uuid lib (cw_uuids w)\<rparr>,
       sc_IncludeSnapshotsFrom = s1_IncludeSnapshotsFrom sch,
       sc_Queue = (if s1_Queue sch = [] then ''main'' else s1_Queue sch), sc_Group = s1_Group sch\<rparr>,
      w\<lparr>cw_uuids := cw_uuids w + 1\<rparr>)"

definition v1_schedule :: "config_lib \<Rightarrow> OnKubernetesEventConfig list \<Rightarrow> nat \<Rightarrow> ScheduleConfigV1 \<Rightarrow> config_world \<Rightarrow>
    config_error + ScheduleConfig \<times> config_world" where
  "v1_schedule lib kube i sch w =
     (if v1_CheckSchedule lib kube sch \<noteq> [] then Inl (ErrSchedule i (v1_CheckSchedule lib kube sch))
      else Inr (v1_ConvertSchedule lib sch w))"

definition CheckAdmission :: "config_lib \<Rightarrow> OnKubernetesEventConfig list \<Rightarrow> KubernetesAdmissionConfigV1 \<Rightarrow> check_error list" where
  "CheckAdmission lib kube cfg =
     includes_errors kube (a1_IncludeSnapshotsFrom cfg) @
     (case a1_LabelSelector cfg of None \<Rightarrow> [] | Some sel \<Rightarrow> if LabelSelectorAsSelector lib sel then [] else [LabelSelectorInvalid]) @
     (case Option.bind (a1_Namespace cfg) ns_LabelSelector of
        None \<Rightarrow> []
      | Some sel \<Rightarrow> if LabelSelectorAsSelector lib sel then [] else [NamespaceSelectorInvalid])"

definition convertValidating :: "KubernetesAdmissionConfigV1 \<Rightarrow> webhook_spec admission_binding" where
  "convertValidating cfg =
     \<lparr>ab_BindingName = a1_Name cfg, ab_AllowFailure = False, ab_IncludeSnapshotsFrom = a1_IncludeSnapshotsFrom cfg,
      ab_Group = a1_Group cfg,
      ab_Webhook = \<lparr>
        wc_spec = \<lparr>wh_Name = a1_Name cfg, wh_Rules = a1_Rules cfg,
          wh_NamespaceSelector = Option.bind (a1_Namespace cfg) ns_LabelSelector, wh_ObjectSelector = a1_LabelSelector cfg,
          wh_FailurePolicy = (case a1_FailurePolicy cfg of Some p \<Rightarrow> p | None \<Rightarrow> ''Fail''),
          wh_SideEffects = (case a1_SideEffects cfg of Some e \<Rightarrow> e | None \<Rightarrow> ''None''),
          wh_TimeoutSeconds = (case a1_TimeoutSeconds cfg of Some t \<Rightarrow> Some t | None \<Rightarrow> Some 10),
          wh_MatchConditions = a1_MatchConditions cfg\<rparr>,
        wc_Metadata = \<lparr>wm_Name = [], WebhookId = [], ConfigurationId = []\<rparr>,
        wc_MatchPolicy = [], AdmissionReviewVersions = [], wc_ClientConfig = None\<rparr>\<rparr>"

text \<open>\<open>convertMutating\<close> is the same code for the type of mutating webhooks.\<close>

definition convertMutating :: "KubernetesAdmissionConfigV1 \<Rightarrow> webhook_spec admission_binding" where
  "convertMutating = convertValidating"

definition v1_admission :: "config_lib \<Rightarrow> OnKubernetesEventConfig list \<Rightarrow>
    (KubernetesAdmissionConfigV1 \<Rightarrow> webhook_spec admission_binding) \<Rightarrow> (nat \<Rightarrow> check_error list \<Rightarrow> config_error) \<Rightarrow> nat \<Rightarrow>
    KubernetesAdmissionConfigV1 \<Rightarrow> unit \<Rightarrow> config_error + webhook_spec admission_binding \<times> unit" where
  "v1_admission lib kube convert err i cfg s =
     (if CheckAdmission lib kube cfg \<noteq> [] then Inl (err i (CheckAdmission lib kube cfg)) else Inr (convert cfg, s))"

definition ConvertConversion :: "KubernetesConversionConfigV1 \<Rightarrow> conversion_binding" where
  "ConvertConversion cfg =
     \<lparr>cb_BindingName = v1_Name cfg, cb_AllowFailure = False, cb_IncludeSnapshotsFrom = v1_IncludeSnapshotsFrom cfg,
      cb_Group = v1_Group cfg, cb_Webhook = \<lparr>Rules = v1_Conversions cfg, CrdName = v1_CrdName cfg\<rparr>\<rparr>"

definition v1_conversion :: "OnKubernetesEventConfig list \<Rightarrow> nat \<Rightarrow> KubernetesConversionConfigV1 \<Rightarrow> unit \<Rightarrow>
    config_error + conversion_binding \<times> unit" where
  "v1_conversion kube i cfg s =
     (if includes_errors kube (v1_IncludeSnapshotsFrom cfg) \<noteq> []
      then Inl (ErrConversion i (includes_errors kube (v1_IncludeSnapshotsFrom cfg))) else Inr (ConvertConversion cfg, s))"

definition CheckAndConvertSettings :: "config_lib \<Rightarrow> SettingsV1 option \<Rightarrow> config_error + Settings option" where
  "CheckAndConvertSettings lib settings =
     (case settings of
        None \<Rightarrow> Inr None
      | Some st \<Rightarrow>
          (case (ParseDuration lib (st_ExecutionMinInterval st), ParseInt32 (st_ExecutionBurst st)) of
             (Some interval, Some burst) \<Rightarrow> Inr (Some \<lparr>ExecutionMinInterval = interval, ExecutionBurst = burst\<rparr>)
           | (None, Some _) \<Rightarrow> Inl ErrIntervalInvalid
           | (Some _, None) \<Rightarrow> Inl ErrBurstInvalid
           | (None, None) \<Rightarrow> Inl ErrIntervalAndBurst))"

text \<open>The snapshots of a group: the names of its kubernetes bindings.\<close>

definition group_snapshots :: "OnKubernetesEventConfig list \<Rightarrow> string \<rightharpoonup> string list" where
  "group_snapshots kube =
     fold (\<lambda>kubeCfg m. if ok_Group kubeCfg = [] then m
             else m(ok_Group kubeCfg \<mapsto> (case m (ok_Group kubeCfg) of None \<Rightarrow> [] | Some ns \<Rightarrow> ns) @ [ok_BindingName kubeCfg]))
       kube Map.empty"

definition merged_includes :: "(string \<rightharpoonup> string list) \<Rightarrow> string \<Rightarrow> string list \<Rightarrow> string list" where
  "merged_includes gs g includes = (case gs g of None \<Rightarrow> includes | Some snapshots \<Rightarrow> MergeArrays includes snapshots)"

definition merge_groups :: "('v, 'm) HookConfig \<Rightarrow> ('v, 'm) HookConfig" where
  "merge_groups c =
     (let gs = group_snapshots (OnKubernetesEvents c)
      in c\<lparr>OnKubernetesEvents := map (\<lambda>cfg. cfg\<lparr>ok_IncludeSnapshotsFrom := merged_includes gs (ok_Group cfg) (ok_IncludeSnapshotsFrom cfg)\<rparr>)
             (OnKubernetesEvents c),
           Schedules := map (\<lambda>cfg. cfg\<lparr>sc_IncludeSnapshotsFrom := merged_includes gs (sc_Group cfg) (sc_IncludeSnapshotsFrom cfg)\<rparr>)
             (Schedules c),
           KubernetesValidating := map (\<lambda>cfg. cfg\<lparr>ab_IncludeSnapshotsFrom := merged_includes gs (ab_Group cfg) (ab_IncludeSnapshotsFrom cfg)\<rparr>)
             (KubernetesValidating c),
           KubernetesMutating := map (\<lambda>cfg. cfg\<lparr>ab_IncludeSnapshotsFrom := merged_includes gs (ab_Group cfg) (ab_IncludeSnapshotsFrom cfg)\<rparr>)
             (KubernetesMutating c),
           KubernetesConversion := map (\<lambda>cfg. cfg\<lparr>cb_IncludeSnapshotsFrom := merged_includes gs (cb_Group cfg) (cb_IncludeSnapshotsFrom cfg)\<rparr>)
             (KubernetesConversion c)\<rparr>)"

definition v1_ConvertAndCheck :: "config_lib \<Rightarrow> HookConfigV1 \<Rightarrow> config_world \<Rightarrow>
    config_error + (webhook_spec, webhook_spec) HookConfig \<times> config_world" where
  "v1_ConvertAndCheck lib cv1 w =
     and_then (CheckAndConvertSettings lib (c1_Settings cv1)) (\<lambda>settings.
     and_then (ConvertOnStartup (c1_OnStartup cv1)) (\<lambda>startup.
     and_then (convert_each (v1_kubernetes lib) 0 (c1_OnKubernetesEvent cv1) w) (\<lambda>(kube, w).
     and_then (v1_check_includes kube) (\<lambda>_.
     and_then (convert_each (v1_schedule lib kube) 0 (c1_Schedule cv1) w) (\<lambda>(scheds, w).
     and_then (convert_each (v1_admission lib kube convertValidating ErrValidating) 0 (c1_KubernetesValidating cv1) ()) (\<lambda>(validating, _).
     and_then (let errs = ValidateValidatingWebhooks (cfg_checks lib) (map (\<lambda>cfg. wc_spec (ab_Webhook cfg)) validating)
               in if errs = [] then Inr () else Inl (ErrWebhooks errs)) (\<lambda>_.
     and_then (convert_each (v1_admission lib kube convertMutating ErrMutating) 0 (c1_KubernetesMutating cv1) ()) (\<lambda>(mutating, _).
     and_then (convert_each (v1_conversion kube) 0 (c1_KubernetesConversion cv1) ()) (\<lambda>(conversion, _).
       Inr (merge_groups \<lparr>Version = ''v1'', OnStartup = startup, Schedules = scheds, OnKubernetesEvents = kube,
              KubernetesValidating = validating, KubernetesMutating = mutating, KubernetesConversion = conversion,
              cfg_Settings = settings\<rparr>, w))))))))))"

section \<open>Loading\<close>

definition GetString :: "(string \<times> json) list \<Rightarrow> string \<Rightarrow> config_error + string option" where
  "GetString ob key =
     (case map_of ob key of
        None \<Rightarrow> Inr None
      | Some (JStr s) \<Rightarrow> Inr (Some s)
      | Some _ \<Rightarrow> Inl ErrVersionValue)"

text \<open>The version validator of the default object: the versions with a schema are v0 and v1.\<close>

definition LoadConfigVersion :: "(string \<times> json) list \<Rightarrow> config_error + string" where
  "LoadConfigVersion ob =
     and_then (GetString ob ''configVersion'') (\<lambda>origVer.
       let newVer = (case origVer of None \<Rightarrow> ''v0'' | Some v \<Rightarrow> v)
       in if newVer \<in> {''v0'', ''v1''} then Inr newVer else Inl (ErrVersionUnsupported newVer))"

definition cfg_ConvertAndCheck :: "config_lib \<Rightarrow> string \<Rightarrow> string \<Rightarrow> config_world \<Rightarrow>
    config_error + (webhook_spec, webhook_spec) HookConfig \<times> config_world" where
  "cfg_ConvertAndCheck lib version data w =
     (if version = ''v0'' then (case yaml_v0 lib data of None \<Rightarrow> Inl ErrUnmarshal | Some cv0 \<Rightarrow> v0_ConvertAndCheck lib cv0 w)
      else if version = ''v1'' then (case yaml_v1 lib data of None \<Rightarrow> Inl ErrUnmarshal | Some cv1 \<Rightarrow> v1_ConvertAndCheck lib cv1 w)
      else Inl (ErrVersionUnsupported version))"

definition LoadAndValidate :: "config_lib \<Rightarrow> string \<Rightarrow> config_world \<Rightarrow>
    config_error + (webhook_spec, webhook_spec) HookConfig \<times> config_world" where
  "LoadAndValidate lib data w =
     (case yaml_map lib data of
        None \<Rightarrow> Inl ErrUnmarshal
      | Some ob \<Rightarrow>
          and_then (LoadConfigVersion ob) (\<lambda>version.
            if \<not> ValidateConfig lib version ob then Inl ErrSchema else cfg_ConvertAndCheck lib version data w))"

section \<open>Lemmas\<close>

lemma and_then_Inr: "and_then m f = Inr y \<longleftrightarrow> (\<exists>x. m = Inr x \<and> f x = Inr y)"
  by (simp add: and_then_def split: sum.splits)

text \<open>A list made step by step: \<open>R s y t\<close> relates the state before and after the element \<open>y\<close> was made.\<close>

fun chained :: "('s \<Rightarrow> 'b \<Rightarrow> 's \<Rightarrow> bool) \<Rightarrow> 's \<Rightarrow> 'b list \<Rightarrow> 's \<Rightarrow> bool" where
  "chained R s [] s' \<longleftrightarrow> s' = s"
| "chained R s (y # ys) s' \<longleftrightarrow> (\<exists>t. R s y t \<and> chained R t ys s')"

lemma convert_each_chained:
  assumes "convert_each f i xs s = Inr (ys, s')" and "\<And>i x s y s'. f i x s = Inr (y, s') \<Longrightarrow> R s y s'"
  shows "chained R s ys s'"
  using assms(1)
proof (induction xs arbitrary: i s ys)
  case (Cons x xs)
  then obtain y t ys' where "f i x s = Inr (y, t)" "convert_each f (i + 1) xs t = Inr (ys', s')" "ys = y # ys'"
    by (auto simp: and_then_Inr)
  with Cons.IH [of "i + 1" t ys'] show ?case using assms(2) [of i x s y t] by auto
qed simp

lemma convert_each_all:
  assumes "convert_each f i xs s = Inr (ys, s')" and "\<And>i x s y s'. f i x s = Inr (y, s') \<Longrightarrow> P y"
  shows "list_all P ys"
  using assms(1) by (induction xs arbitrary: i s ys) (auto simp: and_then_Inr dest: assms(2))

subsection \<open>Bindings\<close>

definition monitor_ok :: "MonitorConfig \<Rightarrow> OnKubernetesEventConfig \<Rightarrow> bool" where
  "monitor_ok m b \<longleftrightarrow> KeepFullObjectsInMemory m = ok_KeepFullObjectsInMemory b \<and>
     (mc_JqFilter m = [] \<longleftrightarrow> CompiledJqFilter m = None)"

definition kube_step :: "config_lib \<Rightarrow> config_world \<Rightarrow> OnKubernetesEventConfig \<Rightarrow> config_world \<Rightarrow> bool" where
  "kube_step lib s b s' \<longleftrightarrow> (\<exists>m. alloc_monitor m s = (ok_Monitor b, s') \<and> mc_MonitorId m = cfg_uuid lib (cw_uuids s) \<and>
     monitor_ok m b \<and> ok_BindingName b \<noteq> [] \<and> ok_Queue b \<noteq> [])"

lemma WithJqFilter_ok:
  assumes "WithJqFilter compile f m = (m', True)" and "CompiledJqFilter m = None"
  shows "(mc_JqFilter m' = [] \<longleftrightarrow> CompiledJqFilter m' = None) \<and> mc_MonitorId m' = mc_MonitorId m \<and>
    KeepFullObjectsInMemory m' = KeepFullObjectsInMemory m"
  using assms by (auto simp: WithJqFilter_def Let_def split: if_splits option.splits)

lemma With_simps [simp]:
  "CompiledJqFilter (WithMode x m) = CompiledJqFilter m" "mc_MonitorId (WithMode x m) = mc_MonitorId m"
  "KeepFullObjectsInMemory (WithMode x m) = KeepFullObjectsInMemory m"
  "CompiledJqFilter (WithEventTypes ts m) = CompiledJqFilter m" "mc_MonitorId (WithEventTypes ts m) = mc_MonitorId m"
  "mc_JqFilter (WithEventTypes ts m) = mc_JqFilter m"
  "KeepFullObjectsInMemory (WithEventTypes ts m) = KeepFullObjectsInMemory m"
  "CompiledJqFilter (WithNameSelector n m) = CompiledJqFilter m" "mc_MonitorId (WithNameSelector n m) = mc_MonitorId m"
  "KeepFullObjectsInMemory (WithNameSelector n m) = KeepFullObjectsInMemory m"
  "CompiledJqFilter (WithNamespaceSelector ns m) = CompiledJqFilter m"
  "mc_MonitorId (WithNamespaceSelector ns m) = mc_MonitorId m"
  "KeepFullObjectsInMemory (WithNamespaceSelector ns m) = KeepFullObjectsInMemory m"
  "CompiledJqFilter (WithFieldSelector fs m) = CompiledJqFilter m" "mc_MonitorId (WithFieldSelector fs m) = mc_MonitorId m"
  "KeepFullObjectsInMemory (WithFieldSelector fs m) = KeepFullObjectsInMemory m"
  "CompiledJqFilter (WithLabelSelector ls m) = CompiledJqFilter m" "mc_MonitorId (WithLabelSelector ls m) = mc_MonitorId m"
  "KeepFullObjectsInMemory (WithLabelSelector ls m) = KeepFullObjectsInMemory m"
  "CompiledJqFilter (v0_selectors k m) = CompiledJqFilter m" "mc_MonitorId (v0_selectors k m) = mc_MonitorId m"
  "KeepFullObjectsInMemory (v0_selectors k m) = KeepFullObjectsInMemory m"
  by (simp_all add: v0_selectors_def WithMode_def WithEventTypes_def WithNameSelector_def WithNamespaceSelector_def WithFieldSelector_def
      WithLabelSelector_def Let_def split: option.splits)

lemma empty_mc_simps [simp]:
  "CompiledJqFilter empty_mc = None" "KeepFullObjectsInMemory empty_mc = False"
  by (simp_all add: empty_mc_def)

lemma v0_monitor_ok:
  assumes "v0_monitor lib i cfg mid = Inr m"
  shows "mc_MonitorId m = mid \<and> \<not> KeepFullObjectsInMemory m \<and> (mc_JqFilter m = [] \<longleftrightarrow> CompiledJqFilter m = None)"
proof -
  from assms obtain es where "WithJqFilter (jq_Compile lib) (k0_JqFilter cfg) (v0_selectors cfg
      ((WithEventTypes (Some es) (WithMode ModeV0 (empty_mc\<lparr>mc_MonitorId := mid\<rparr>)))\<lparr>mc_Kind := k0_Kind cfg\<rparr>)) = (m, True)"
    by (auto simp: v0_monitor_def and_then_def Let_def split: sum.split_asm prod.split_asm if_split_asm)
  from WithJqFilter_ok [OF this] show ?thesis by simp
qed

lemma v1_monitor_ok:
  assumes "v1_monitor lib i cfg mid = Inr m"
  shows "mc_MonitorId m = mid \<and> KeepFullObjectsInMemory m = (k1_KeepFullObjectsInMemory cfg \<noteq> ''false'') \<and>
    (mc_JqFilter m = [] \<longleftrightarrow> CompiledJqFilter m = None)"
  using assms by (auto simp: v1_monitor_def Let_def split: prod.splits if_splits dest!: WithJqFilter_ok)

lemma kube_stepI:
  assumes "mc_MonitorId m = cfg_uuid lib (cw_uuids s)" and "s' = snd (alloc_monitor m s)" and "ok_Monitor b = cw_next s"
    and "monitor_ok m b" and "ok_BindingName b \<noteq> []" and "ok_Queue b \<noteq> []"
  shows "kube_step lib s b s'"
  unfolding kube_step_def using assms by (intro exI [of _ m]) (simp add: alloc_monitor_def)

lemma v0_kubernetes_step:
  assumes "v0_kubernetes lib i cfg s = Inr (b, s')"
  shows "kube_step lib s b s' \<and> ok_IncludeSnapshotsFrom b = [] \<and> ok_Group b = []"
proof -
  from assms obtain m where m: "v0_monitor lib i cfg (cfg_uuid lib (cw_uuids s)) = Inr m"
    and b: "b = v0_binding cfg (cw_next s)" "s' = snd (alloc_monitor m s)"
    by (auto simp: v0_kubernetes_def and_then_Inr alloc_monitor_def)
  from v0_monitor_ok [OF m] b show ?thesis
    by (intro conjI kube_stepI [of m]) (simp_all add: monitor_ok_def v0_binding_def)
qed

lemma v1_kubernetes_step:
  assumes "v1_kubernetes lib i cfg s = Inr (b, s')" shows "kube_step lib s b s'"
proof -
  from assms obtain m where m: "v1_monitor lib i cfg (cfg_uuid lib (cw_uuids s)) = Inr m"
    and b: "b = v1_binding cfg (cw_next s)" "s' = snd (alloc_monitor m s)"
    by (auto simp: v1_kubernetes_def and_then_Inr alloc_monitor_def split: if_splits)
  from v1_monitor_ok [OF m] b show ?thesis by (intro kube_stepI [of m]) (simp_all add: monitor_ok_def v1_binding_def)
qed

lemma kube_chain:
  assumes "chained (kube_step lib) s bs s'"
  shows "cw_next s' = cw_next s + length bs \<and> cw_uuids s' = cw_uuids s + length bs \<and>
     map ok_Monitor bs = [cw_next s..<cw_next s'] \<and>
     map (\<lambda>b. mc_MonitorId (cw_mcs s' (ok_Monitor b))) bs = map (cfg_uuid lib) [cw_uuids s..<cw_uuids s'] \<and>
     (\<forall>p < cw_next s. cw_mcs s' p = cw_mcs s p) \<and>
     list_all (\<lambda>b. monitor_ok (cw_mcs s' (ok_Monitor b)) b \<and> ok_BindingName b \<noteq> [] \<and> ok_Queue b \<noteq> []) bs"
  using assms
proof (induction bs arbitrary: s)
  case (Cons b bs)
  then obtain t where step: "kube_step lib s b t" and ch: "chained (kube_step lib) t bs s'" by auto
  then obtain m where m: "ok_Monitor b = cw_next s" "t = s\<lparr>cw_mcs := (cw_mcs s)(cw_next s := m), cw_next := cw_next s + 1, cw_uuids := cw_uuids s + 1\<rparr>"
    "mc_MonitorId m = cfg_uuid lib (cw_uuids s)" "monitor_ok m b" "ok_BindingName b \<noteq> []" "ok_Queue b \<noteq> []"
    by (auto simp: kube_step_def alloc_monitor_def)
  from Cons.IH [OF ch] m have "cw_mcs s' (cw_next s) = m" by auto
  with Cons.IH [OF ch] m show ?case by (auto simp: upt_conv_Cons simp del: upt_Suc)
qed simp

definition sched_step :: "config_lib \<Rightarrow> config_world \<Rightarrow> ScheduleConfig \<Rightarrow> config_world \<Rightarrow> bool" where
  "sched_step lib s b s' \<longleftrightarrow> s' = s\<lparr>cw_uuids := cw_uuids s + 1\<rparr> \<and> se_Id (sc_ScheduleEntry b) = cfg_uuid lib (cw_uuids s)"

lemma sched_chain:
  assumes "chained (sched_step lib) s bs s'"
  shows "cw_next s' = cw_next s \<and> cw_mcs s' = cw_mcs s \<and> cw_uuids s' = cw_uuids s + length bs \<and>
     map (\<lambda>b. se_Id (sc_ScheduleEntry b)) bs = map (cfg_uuid lib) [cw_uuids s..<cw_uuids s']"
  using assms
proof (induction bs arbitrary: s)
  case (Cons b bs)
  then have "chained (sched_step lib) (s\<lparr>cw_uuids := cw_uuids s + 1\<rparr>) bs s'"
    and "se_Id (sc_ScheduleEntry b) = cfg_uuid lib (cw_uuids s)" by (auto simp: sched_step_def [of lib s b])
  with Cons.IH [of "s\<lparr>cw_uuids := cw_uuids s + 1\<rparr>"] show ?case by (simp add: upt_conv_Cons del: upt_Suc)
qed simp

subsection \<open>Snapshots\<close>

lemma one_binding: "length xs = Suc 0 \<longleftrightarrow> xs \<noteq> [] \<and> \<not> Suc 0 < length xs"
  by (cases xs) auto

lemma CheckIncludeSnapshots_None:
  "CheckIncludeSnapshots kube includes = None \<longleftrightarrow>
     (\<forall>n \<in> set includes. length (filter (\<lambda>b. ok_BindingName b = n) kube) = 1)"
  by (induction "includes") (auto simp: Let_def one_binding)

lemma CheckIncludeSnapshots_names:
  assumes "CheckIncludeSnapshots kube includes = None" shows "set includes \<subseteq> ok_BindingName ` set kube"
proof
  fix n assume "n \<in> set includes"
  with assms have "filter (\<lambda>b. ok_BindingName b = n) kube \<noteq> []" by (auto simp: CheckIncludeSnapshots_None)
  then show "n \<in> ok_BindingName ` set kube" by (auto simp: filter_empty_conv)
qed

lemma includes_errors_Nil: "includes_errors kube includes = [] \<Longrightarrow> set includes \<subseteq> ok_BindingName ` set kube"
  using CheckIncludeSnapshots_names by (auto simp: includes_errors_def split: if_splits option.splits)

lemma convert_each_checks:
  "convert_each f i xs () = Inr (ys, ()) \<Longrightarrow> x \<in> set xs \<Longrightarrow> \<exists>i y. f i x () = Inr (y, ())"
  by (induction xs arbitrary: i ys) (auto simp: and_then_Inr)

lemma v1_check_includes_names:
  assumes "v1_check_includes kube = Inr ()" and "b \<in> set kube"
  shows "set (ok_IncludeSnapshotsFrom b) \<subseteq> ok_BindingName ` set kube"
proof -
  from assms(1) obtain ys where "convert_each (\<lambda>i kubeCfg s. if ok_IncludeSnapshotsFrom kubeCfg = [] then Inr ((), s)
      else case CheckIncludeSnapshots kube (ok_IncludeSnapshotsFrom kubeCfg) of None \<Rightarrow> Inr ((), s) | Some err \<Rightarrow> Inl (ErrIncludes i err))
      0 kube () = Inr (ys, ())" by (auto simp: v1_check_includes_def and_then_Inr)
  from convert_each_checks [OF this assms(2)]
  show ?thesis using CheckIncludeSnapshots_names [of kube "ok_IncludeSnapshotsFrom b"]
    by (auto split: if_splits option.splits)
qed

lemma merge_rest_set: "set (merge_rest as un) = {a \<in> set as. un a}"
  by (induction as arbitrary: un) (auto split: if_splits)

lemma fold_mark: "fold (\<lambda>a u. u(a := v)) as un x = (if x \<in> set as then v else un x)"
  by (induction as arbitrary: un) auto

lemma MergeArrays_set: "set (MergeArrays a1 a2) = set a1 \<union> set a2"
  by (auto simp: MergeArrays_def merge_rest_set fold_mark)

lemma group_snapshots_iff:
  "group_snapshots kube g = (if g \<noteq> [] \<and> (\<exists>b \<in> set kube. ok_Group b = g)
     then Some (map ok_BindingName (filter (\<lambda>b. ok_Group b = g) kube)) else None)"
  unfolding group_snapshots_def by (induction kube rule: rev_induct) (auto simp: filter_empty_conv)

lemma merged_includes_set:
  "set (merged_includes (group_snapshots kube) g includes) =
     set includes \<union> (if g = [] then {} else ok_BindingName ` {b \<in> set kube. ok_Group b = g})"
  by (auto simp: merged_includes_def group_snapshots_iff MergeArrays_set split: option.splits)

subsection \<open>Well-formed configurations\<close>

definition includes_ok :: "('v, 'm) HookConfig \<Rightarrow> string \<Rightarrow> string list \<Rightarrow> bool" where
  "includes_ok c g includes \<longleftrightarrow> set includes \<subseteq> ok_BindingName ` set (OnKubernetesEvents c) \<and>
     (g \<noteq> [] \<longrightarrow> ok_BindingName ` {b \<in> set (OnKubernetesEvents c). ok_Group b = g} \<subseteq> set includes)"

definition well_formed :: "config_lib \<Rightarrow> config_world \<Rightarrow> (webhook_spec, webhook_spec) HookConfig \<Rightarrow> bool" where
  "well_formed lib w c \<longleftrightarrow>
     Version c \<in> {''v0'', ''v1''} \<and>
     list_all (\<lambda>b. ok_BindingName b \<noteq> [] \<and> ok_Queue b \<noteq> [] \<and> includes_ok c (ok_Group b) (ok_IncludeSnapshotsFrom b) \<and>
       monitor_ok (cw_mcs w (ok_Monitor b)) b) (OnKubernetesEvents c) \<and>
     list_all (\<lambda>b. sc_BindingName b \<noteq> [] \<and> sc_Queue b \<noteq> [] \<and> includes_ok c (sc_Group b) (sc_IncludeSnapshotsFrom b) \<and>
       cron_Parse lib (se_Crontab (sc_ScheduleEntry b))) (Schedules c) \<and>
     list_all (\<lambda>b. includes_ok c (ab_Group b) (ab_IncludeSnapshotsFrom b)) (KubernetesValidating c) \<and>
     list_all (\<lambda>b. includes_ok c (ab_Group b) (ab_IncludeSnapshotsFrom b)) (KubernetesMutating c) \<and>
     list_all (\<lambda>b. includes_ok c (cb_Group b) (cb_IncludeSnapshotsFrom b)) (KubernetesConversion c) \<and>
     ValidateValidatingWebhooks (cfg_checks lib) (map (\<lambda>b. wc_spec (ab_Webhook b)) (KubernetesValidating c)) = [] \<and>
     distinct (map ok_Monitor (OnKubernetesEvents c)) \<and>
     distinct (map (\<lambda>b. mc_MonitorId (cw_mcs w (ok_Monitor b))) (OnKubernetesEvents c) @
               map (\<lambda>b. se_Id (sc_ScheduleEntry b)) (Schedules c))"

lemma merged_ok:
  assumes "set includes \<subseteq> ok_BindingName ` set (OnKubernetesEvents c)"
  shows "includes_ok (merge_groups c) g (merged_includes (group_snapshots (OnKubernetesEvents c)) g includes)"
proof -
  have "ok_BindingName ` set (OnKubernetesEvents (merge_groups c)) = ok_BindingName ` set (OnKubernetesEvents c)"
    by (simp add: merge_groups_def Let_def image_image)
  moreover have "ok_BindingName ` {b \<in> set (OnKubernetesEvents (merge_groups c)). ok_Group b = g} =
      ok_BindingName ` {b \<in> set (OnKubernetesEvents c). ok_Group b = g}"
    by (force simp: merge_groups_def Let_def image_iff)
  ultimately show ?thesis using assms by (auto simp: includes_ok_def merged_includes_set)
qed

lemma distinct_ids:
  assumes "inj u" and "distinct xs" and "distinct ys" and "set xs \<inter> set ys = {}"
  shows "distinct (map u xs @ map u ys)"
  using assms by (simp add: distinct_map inj_on_subset [OF assms(1)] image_Int [OF assms(1), symmetric])

lemma v1_schedule_step:
  "v1_schedule lib kube i sch s = Inr (b, s') \<Longrightarrow> sched_step lib s b s' \<and> sc_BindingName b \<noteq> [] \<and> sc_Queue b \<noteq> [] \<and>
     cron_Parse lib (se_Crontab (sc_ScheduleEntry b)) \<and> set (sc_IncludeSnapshotsFrom b) \<subseteq> ok_BindingName ` set kube"
  by (auto simp: v1_schedule_def v1_CheckSchedule_def v1_ConvertSchedule_def sched_step_def split: if_splits
      dest!: includes_errors_Nil)

lemma v0_schedule_step:
  "v0_schedule lib i sch s = Inr (b, s') \<Longrightarrow> sched_step lib s b s' \<and> sc_BindingName b \<noteq> [] \<and> sc_Queue b \<noteq> [] \<and>
     cron_Parse lib (se_Crontab (sc_ScheduleEntry b)) \<and> sc_IncludeSnapshotsFrom b = [] \<and> sc_Group b = []"
  by (auto simp: v0_schedule_def v0_CheckSchedule_def v0_ConvertSchedule_def sched_step_def split: if_splits)

lemma v1_admission_step:
  "v1_admission lib kube convertValidating err i cfg s = Inr (b, s') \<Longrightarrow> set (ab_IncludeSnapshotsFrom b) \<subseteq> ok_BindingName ` set kube"
  by (auto simp: v1_admission_def CheckAdmission_def convertValidating_def split: if_splits dest!: includes_errors_Nil)

lemma v1_conversion_step:
  "v1_conversion kube i cfg s = Inr (b, s') \<Longrightarrow> set (cb_IncludeSnapshotsFrom b) \<subseteq> ok_BindingName ` set kube"
  by (auto simp: v1_conversion_def ConvertConversion_def split: if_splits dest!: includes_errors_Nil)

lemma list_all_map: "list_all P (map f xs) \<longleftrightarrow> list_all (\<lambda>x. P (f x)) xs"
  by (simp add: list_all_iff)

lemma v0_well_formed:
  assumes "inj (cfg_uuid lib)" and "v0_ConvertAndCheck lib cv0 w = Inr (c, w')"
  shows "well_formed lib w' c \<and> cw_next w \<le> cw_next w' \<and> (\<forall>p < cw_next w. cw_mcs w' p = cw_mcs w p)"
proof -
  from assms(2) obtain startup scheds t kube where
    s: "convert_each (v0_schedule lib) 0 (c0_Schedule cv0) w = Inr (scheds, t)" and
    k: "convert_each (v0_kubernetes lib) 0 (c0_OnKubernetesEvent cv0) t = Inr (kube, w')" and
    c: "c = (empty_config ''v0'')\<lparr>OnStartup := startup, Schedules := scheds, OnKubernetesEvents := kube\<rparr>"
    by (auto simp: v0_ConvertAndCheck_def and_then_Inr)
  have sched: "cw_next t = cw_next w" "cw_mcs t = cw_mcs w" "cw_uuids t = cw_uuids w + length scheds"
    "map (\<lambda>b. se_Id (sc_ScheduleEntry b)) scheds = map (cfg_uuid lib) [cw_uuids w..<cw_uuids t]"
    using sched_chain [OF convert_each_chained [OF s, of "sched_step lib"]] v0_schedule_step by auto
  have kube: "cw_next w' = cw_next t + length kube" "cw_uuids w' = cw_uuids t + length kube"
    "map ok_Monitor kube = [cw_next t..<cw_next w']"
    "map (\<lambda>b. mc_MonitorId (cw_mcs w' (ok_Monitor b))) kube = map (cfg_uuid lib) [cw_uuids t..<cw_uuids w']"
    "\<forall>p < cw_next t. cw_mcs w' p = cw_mcs t p"
    "list_all (\<lambda>b. monitor_ok (cw_mcs w' (ok_Monitor b)) b \<and> ok_BindingName b \<noteq> [] \<and> ok_Queue b \<noteq> []) kube"
    using kube_chain [OF convert_each_chained [OF k, of "kube_step lib"]] v0_kubernetes_step by auto
  have "distinct (map (cfg_uuid lib) [cw_uuids t..<cw_uuids w'] @ map (cfg_uuid lib) [cw_uuids w..<cw_uuids t])"
    by (rule distinct_ids [OF assms(1)]) auto
  moreover have "list_all (\<lambda>b. ok_IncludeSnapshotsFrom b = [] \<and> ok_Group b = []) kube"
    by (rule convert_each_all [OF k]) (use v0_kubernetes_step in blast)
  moreover have "list_all (\<lambda>b. sc_BindingName b \<noteq> [] \<and> sc_Queue b \<noteq> [] \<and> cron_Parse lib (se_Crontab (sc_ScheduleEntry b)) \<and>
      sc_IncludeSnapshotsFrom b = [] \<and> sc_Group b = []) scheds"
    by (rule convert_each_all [OF s]) (use v0_schedule_step in blast)
  ultimately show ?thesis using sched kube
    by (simp add: well_formed_def c empty_config_def includes_ok_def list_all_iff ValidateValidatingWebhooks_def)
qed

lemma v1_well_formed:
  assumes "inj (cfg_uuid lib)" and "v1_ConvertAndCheck lib cv1 w = Inr (c, w')"
  shows "well_formed lib w' c \<and> cw_next w \<le> cw_next w' \<and> (\<forall>p < cw_next w. cw_mcs w' p = cw_mcs w p)"
proof -
  from assms(2) obtain settings startup kube t scheds validating mutating conversion where
    k: "convert_each (v1_kubernetes lib) 0 (c1_OnKubernetesEvent cv1) w = Inr (kube, t)" and
    i: "v1_check_includes kube = Inr ()" and
    s: "convert_each (v1_schedule lib kube) 0 (c1_Schedule cv1) t = Inr (scheds, w')" and
    v: "convert_each (v1_admission lib kube convertValidating ErrValidating) 0 (c1_KubernetesValidating cv1) () = Inr (validating, ())" and
    vv: "ValidateValidatingWebhooks (cfg_checks lib) (map (\<lambda>cfg. wc_spec (ab_Webhook cfg)) validating) = []" and
    m: "convert_each (v1_admission lib kube convertMutating ErrMutating) 0 (c1_KubernetesMutating cv1) () = Inr (mutating, ())" and
    cv: "convert_each (v1_conversion kube) 0 (c1_KubernetesConversion cv1) () = Inr (conversion, ())" and
    c: "c = merge_groups \<lparr>Version = ''v1'', OnStartup = startup, Schedules = scheds, OnKubernetesEvents = kube,
              KubernetesValidating = validating, KubernetesMutating = mutating, KubernetesConversion = conversion,
              cfg_Settings = settings\<rparr>"
    by (auto simp: v1_ConvertAndCheck_def and_then_Inr Let_def split: if_split_asm)
  have kube: "cw_next t = cw_next w + length kube" "cw_uuids t = cw_uuids w + length kube"
    "map ok_Monitor kube = [cw_next w..<cw_next t]"
    "map (\<lambda>b. mc_MonitorId (cw_mcs t (ok_Monitor b))) kube = map (cfg_uuid lib) [cw_uuids w..<cw_uuids t]"
    "\<forall>p < cw_next w. cw_mcs t p = cw_mcs w p"
    "list_all (\<lambda>b. monitor_ok (cw_mcs t (ok_Monitor b)) b \<and> ok_BindingName b \<noteq> [] \<and> ok_Queue b \<noteq> []) kube"
    using kube_chain [OF convert_each_chained [OF k, of "kube_step lib"]] v1_kubernetes_step by auto
  have sched: "cw_next w' = cw_next t" "cw_mcs w' = cw_mcs t" "cw_uuids w' = cw_uuids t + length scheds"
    "map (\<lambda>b. se_Id (sc_ScheduleEntry b)) scheds = map (cfg_uuid lib) [cw_uuids t..<cw_uuids w']"
    using sched_chain [OF convert_each_chained [OF s, of "sched_step lib"]] v1_schedule_step by auto
  have ids: "distinct (map (cfg_uuid lib) [cw_uuids w..<cw_uuids t] @ map (cfg_uuid lib) [cw_uuids t..<cw_uuids w'])"
    by (rule distinct_ids [OF assms(1)]) auto
  have incl: "includes_ok c g (merged_includes (group_snapshots kube) g includes)"
    if "set includes \<subseteq> ok_BindingName ` set kube" for g "includes"
    using merged_ok [of "includes" "\<lparr>Version = ''v1'', OnStartup = startup, Schedules = scheds, OnKubernetesEvents = kube,
              KubernetesValidating = validating, KubernetesMutating = mutating, KubernetesConversion = conversion,
              cfg_Settings = settings\<rparr>" g] that by (simp add: c)
  have "list_all (\<lambda>b. includes_ok c (ok_Group b) (merged_includes (group_snapshots kube) (ok_Group b) (ok_IncludeSnapshotsFrom b))) kube"
    using v1_check_includes_names [OF i] incl by (simp add: list_all_iff)
  moreover have "list_all (\<lambda>b. sc_BindingName b \<noteq> [] \<and> sc_Queue b \<noteq> [] \<and>
      includes_ok c (sc_Group b) (merged_includes (group_snapshots kube) (sc_Group b) (sc_IncludeSnapshotsFrom b)) \<and>
      cron_Parse lib (se_Crontab (sc_ScheduleEntry b))) scheds"
    by (rule convert_each_all [OF s]) (use v1_schedule_step incl in blast)
  moreover have "list_all (\<lambda>b. includes_ok c (ab_Group b) (merged_includes (group_snapshots kube) (ab_Group b) (ab_IncludeSnapshotsFrom b))) validating"
    by (rule convert_each_all [OF v]) (rule incl, erule v1_admission_step)
  moreover have "list_all (\<lambda>b. includes_ok c (ab_Group b) (merged_includes (group_snapshots kube) (ab_Group b) (ab_IncludeSnapshotsFrom b))) mutating"
    by (rule convert_each_all [OF m]) (rule incl, erule v1_admission_step [folded convertMutating_def])
  moreover have "list_all (\<lambda>b. includes_ok c (cb_Group b) (merged_includes (group_snapshots kube) (cb_Group b) (cb_IncludeSnapshotsFrom b))) conversion"
    by (rule convert_each_all [OF cv]) (rule incl, erule v1_conversion_step)
  moreover have fields:
    "OnKubernetesEvents c = map (\<lambda>b. b\<lparr>ok_IncludeSnapshotsFrom := merged_includes (group_snapshots kube) (ok_Group b) (ok_IncludeSnapshotsFrom b)\<rparr>) kube"
    "Schedules c = map (\<lambda>b. b\<lparr>sc_IncludeSnapshotsFrom := merged_includes (group_snapshots kube) (sc_Group b) (sc_IncludeSnapshotsFrom b)\<rparr>) scheds"
    "KubernetesValidating c = map (\<lambda>b. b\<lparr>ab_IncludeSnapshotsFrom := merged_includes (group_snapshots kube) (ab_Group b) (ab_IncludeSnapshotsFrom b)\<rparr>) validating"
    "KubernetesMutating c = map (\<lambda>b. b\<lparr>ab_IncludeSnapshotsFrom := merged_includes (group_snapshots kube) (ab_Group b) (ab_IncludeSnapshotsFrom b)\<rparr>) mutating"
    "KubernetesConversion c = map (\<lambda>b. b\<lparr>cb_IncludeSnapshotsFrom := merged_includes (group_snapshots kube) (cb_Group b) (cb_IncludeSnapshotsFrom b)\<rparr>) conversion"
    "Version c = ''v1''"
    by (simp_all add: c merge_groups_def Let_def)
  ultimately have "well_formed lib w' c" using kube sched vv ids
    by (simp add: well_formed_def fields comp_def list_all_iff monitor_ok_def)
  then show ?thesis using kube sched by simp
qed

section \<open>Properties\<close>

text \<open>
  C28. Every configuration a hook is loaded with is well formed: bindings have names and queues; crontabs parse; the monitor of a
  binding is new, keeps full objects exactly when its binding does, and has a compiled filter exactly when it has an
  expression; every name in \<open>includeSnapshotsFrom\<close> is the name of a kubernetes binding of the hook; a binding with a
  group includes the snapshots of all kubernetes bindings of the group; the validating webhooks pass the validation;
  and the ids of monitors and schedules are distinct. Monitors of other hooks are not changed.
\<close>

theorem LoadAndValidate_well_formed:
  assumes "inj (cfg_uuid lib)" and "LoadAndValidate lib data w = Inr (c, w')"
  shows "well_formed lib w' c \<and> cw_next w \<le> cw_next w' \<and> (\<forall>p < cw_next w. cw_mcs w' p = cw_mcs w p)"
  using assms(2) v0_well_formed [OF assms(1)] v1_well_formed [OF assms(1)]
  by (auto simp: LoadAndValidate_def cfg_ConvertAndCheck_def and_then_def split: option.split_asm sum.split_asm if_split_asm)

definition demo_kube_v1 :: "string \<Rightarrow> string \<Rightarrow> OnKubernetesEventConfigV1" where
  "demo_kube_v1 name incl = \<lparr>k1_Name = name, k1_WatchEventTypes = None, k1_ExecuteHookOnEvents = None,
     k1_ExecuteHookOnSynchronization = [], k1_WaitForSynchronization = [], k1_KeepFullObjectsInMemory = ''false'', k1_Mode = [],
     k1_ApiVersion = ''v1'', k1_Kind = ''Pod'', k1_NameSelector = None, k1_LabelSelector = None, k1_FieldSelector = None,
     k1_Namespace = None, k1_JqFilter = [], k1_AllowFailure = False, k1_IncludeSnapshotsFrom = (if incl = [] then [] else [incl]),
     k1_Queue = [], k1_Group = ''g''\<rparr>"

definition demo_config_lib :: config_lib where
  "demo_config_lib = \<lparr>yaml_map = (\<lambda>_. Some [(''configVersion'', JStr ''v1'')]), yaml_v0 = (\<lambda>_. None),
     yaml_v1 = (\<lambda>_. Some \<lparr>c1_OnStartup = RawFloat 10,
        c1_Schedule = [\<lparr>s1_Name = [], s1_Crontab = ''* * * * *'', s1_AllowFailure = False, s1_IncludeSnapshotsFrom = [''b''],
          s1_Queue = [], s1_Group = ''g''\<rparr>],
        c1_OnKubernetesEvent = [demo_kube_v1 ''a'' ''b'', demo_kube_v1 ''b'' []], c1_KubernetesValidating = [],
        c1_KubernetesMutating = [], c1_KubernetesConversion = [],
        c1_Settings = Some \<lparr>st_ExecutionMinInterval = ''3s'', st_ExecutionBurst = ''-5''\<rparr>\<rparr>),
     ValidateConfig = (\<lambda>_ _. True), cron_Parse = (\<lambda>_. True), jq_Compile = (\<lambda>_. None), ParseGroupVersion = (\<lambda>_. True),
     LabelSelectorAsSelector = (\<lambda>_. True),
     cfg_checks = \<lparr>IsFullyQualifiedName = (\<lambda>_ _. []), ValidateLabelSelector = (\<lambda>_ _. []), ValidateObjectMeta = (\<lambda>_ _. [])\<rparr>,
     ParseDuration = (\<lambda>_. Some 3000000000), cfg_uuid = (\<lambda>n. replicate n CHR ''x'')\<rparr>"

definition demo_config_world :: config_world where
  "demo_config_world = \<lparr>cw_mcs = (\<lambda>_. empty_mc), cw_next = 0, cw_uuids = 0\<rparr>"

theorem LoadAndValidate_well_formed_witness:
  "\<exists>c w. LoadAndValidate demo_config_lib [] demo_config_world = Inr (c, w) \<and> well_formed demo_config_lib w c \<and>
     map sc_IncludeSnapshotsFrom (Schedules c) = [[''b'', ''a'']] \<and> map_option ExecutionBurst (cfg_Settings c) = Some (- 5)"
proof -
  have inj: "inj (cfg_uuid demo_config_lib)"
    by (rule injI) (simp add: demo_config_lib_def)
  have "(case LoadAndValidate demo_config_lib [] demo_config_world of Inl _ \<Rightarrow> False
      | Inr (c, w) \<Rightarrow> map sc_IncludeSnapshotsFrom (Schedules c) = [[''b'', ''a'']] \<and>
          map_option ExecutionBurst (cfg_Settings c) = Some (- 5))" by code_simp
  then obtain c w where l: "LoadAndValidate demo_config_lib [] demo_config_world = Inr (c, w)"
    and "map sc_IncludeSnapshotsFrom (Schedules c) = [[''b'', ''a'']]" "map_option ExecutionBurst (cfg_Settings c) = Some (- 5)"
    by (auto split: sum.splits)
  with LoadAndValidate_well_formed [OF inj l] show ?thesis by (intro exI [of _ c] exI [of _ w] conjI) simp_all
qed

end
