(* ===== verification/Conversion_Search.thy ===== *)
theory Conversion_Search
  imports Conversion_Chain
begin

text \<open>
  What \<open>FindConversionChain\<close> finds. \<open>chain_inv\<close> is the invariant of a chain built by
  \<open>Get\<close>, \<open>Put\<close> and searches; \<open>chain_runtime\<close> is all that is assumed of the Go runtime.
\<close>

section \<open>Versions\<close>

lemma TrimGroup_suffix: "\<exists>g. v = g @ TrimGroup v"
proof (cases "index_rune CHR ''/'' v")
  case None
  then have "v = [] @ TrimGroup v" by (simp add: TrimGroup_def del: index_rune_None)
  then show ?thesis ..
next
  case (Some idx)
  then have "v = take (idx + 1) v @ TrimGroup v" by (simp add: TrimGroup_def)
  then show ?thesis ..
qed

lemma VersionsMatched_refl [simp]: "VersionsMatched v v"
  by (simp add: VersionsMatched_def)

lemma VersionsMatched_sym: "VersionsMatched v w = VersionsMatched w v"
  by (auto simp: VersionsMatched_def simp del: index_rune_None split: option.splits)

lemma VersionsMatched_Trim: "VersionsMatched v w \<Longrightarrow> TrimGroup v = TrimGroup w"
  by (auto simp: VersionsMatched_def TrimGroup_def simp del: index_rune_None
      split: if_splits option.splits)

definition key_matches :: "Rule \<Rightarrow> Rule \<Rightarrow> bool" where
  "key_matches rule k \<longleftrightarrow>
     VersionsMatched (ToVersion rule) (ToVersion k) \<and> VersionsMatched (FromVersion rule) (FromVersion k)"

lemma mk_rule_sel [simp]: "FromVersion (mk_rule f t) = f" "ToVersion (mk_rule f t) = t"
  by (simp_all add: mk_rule_def)

lemma mk_rule_eta [simp]: "mk_rule (FromVersion r) (ToVersion r) = (r :: Rule)"
  by (simp add: mk_rule_def)

lemma mk_rule_inject [simp]: "mk_rule f t = mk_rule f' t' \<longleftrightarrow> f = f' \<and> t = t'"
  by (simp add: mk_rule_def)

section \<open>Searching the cache\<close>

lemma similar_keys_Inl:
  "similar_keys rule ks acc = Inl k \<Longrightarrow> k \<in> set ks \<and> key_matches rule k"
  by (induction rule ks acc rule: similar_keys.induct) (auto simp: key_matches_def split: if_splits)

lemma similar_keys_Inr:
  "similar_keys rule ks acc = Inr ps \<Longrightarrow> set ps = set acc \<union> {k \<in> set ks. key_matches rule k}"
  by (induction rule ks acc rule: similar_keys.induct) (auto simp: key_matches_def split: if_splits)

lemma strict_keys_Inl: "strict_keys rule ks fs ts = Inl k \<Longrightarrow> k \<in> set ks"
proof (induction ks arbitrary: fs ts)
  case (Cons x ks)
  then show ?case unfolding strict_keys.simps Let_def by (auto split: if_split_asm)
qed simp

lemma strict_keys_Inr:
  "strict_keys rule ks fs ts = Inr (fs', ts') \<Longrightarrow>
     set fs' \<subseteq> set fs \<union> set ks \<and> set ts' \<subseteq> set ts \<union> set ks"
proof (induction ks arbitrary: fs ts)
  case (Cons x ks)
  from Cons.prems
  have "strict_keys rule ks (if index_rune CHR ''/'' (FromVersion rule) \<noteq> None \<and>
            FromVersion x = FromVersion rule then fs @ [x] else fs)
          (if index_rune CHR ''/'' (ToVersion rule) \<noteq> None \<and>
            ToVersion x = ToVersion rule then ts @ [x] else ts) = Inr (fs', ts')"
    unfolding strict_keys.simps Let_def by (simp only: sum.distinct split: if_split_asm)
  from Cons.IH [OF this] show ?case by (auto split: if_splits)
qed simp

lemma strictest_mem:
  assumes "ks \<noteq> []" shows "strictest rule ks \<in> set ks"
proof (cases "strict_keys rule ks [] []")
  case (Inl k)
  with strict_keys_Inl [OF Inl] show ?thesis by (simp add: strictest_def)
next
  case (Inr p)
  obtain fs ts where p: "p = (fs, ts)" by (cases p)
  with strict_keys_Inr [of rule ks "[]" "[]" fs ts] Inr have sub: "set fs \<subseteq> set ks" "set ts \<subseteq> set ks" by auto
  have "strictest rule ks = (if ts \<noteq> [] then hd ts else if fs \<noteq> [] then hd fs else hd ks)"
    unfolding strictest_def Inr p by simp
  then show ?thesis using sub assms by (auto intro: hd_in_set)
qed

context map_iteration
begin

lemma SearchPath_cases:
  "(\<exists>k \<in> set (map_keys (PathsCache c)). key_matches rule k \<and>
      SearchPathForRule perm site c rule = cached_path c k) \<or>
   (\<forall>k \<in> set (map_keys (PathsCache c)). \<not> key_matches rule k) \<and>
      SearchPathForRule perm site c rule = nil_slice"
proof (cases "similar_keys rule (go_range perm site (map_keys (PathsCache c))) []")
  case (Inl k)
  with similar_keys_Inl [OF Inl] show ?thesis by (auto simp: SearchPathForRule_def)
next
  case (Inr ps)
  from similar_keys_Inr [OF Inr]
  have ps: "set ps = {k \<in> set (map_keys (PathsCache c)). key_matches rule k}" by simp
  show ?thesis
  proof (cases "length ps" rule: nat.exhaust)
    case zero
    with Inr ps show ?thesis by (auto simp: SearchPathForRule_def)
  next
    case (Suc n)
    then obtain k ks where eq: "ps = k # ks" by (cases ps) auto
    then have "strictest rule ps \<in> set ps" by (intro strictest_mem) simp
    moreover have "SearchPathForRule perm site c rule = cached_path c (if ks = [] then k else strictest rule ps)"
      using Inr eq by (auto simp: SearchPathForRule_def split: list.splits)
    ultimately show ?thesis using ps eq by (cases "ks = []") auto
  qed
qed

end

section \<open>The invariant of a chain\<close>

definition base_rules :: "Chain \<Rightarrow> Rule set" where
  "base_rules c = {r. ToVersion r \<in> set (map_get [] (BaseFromToIndex c) (FromVersion r))}"

definition path_ok :: "Rule set \<Rightarrow> Rule store \<Rightarrow> Rule \<Rightarrow> slice \<Rightarrow> bool" where
  "path_ok B st k s \<longleftrightarrow>
     slice_ok st s \<and> 0 < s_len s \<and> set (st ! s_arr s) \<subseteq> B \<and>
     ShortFromVersion (st ! s_arr s ! 0) = ShortFromVersion k"

definition paths_ok :: "Rule set \<Rightarrow> Rule store \<Rightarrow> (Rule \<times> slice) list \<Rightarrow> bool" where
  "paths_ok B st m \<longleftrightarrow> (\<forall>(k, s) \<in> set m. path_ok B st k s)"

definition chain_inv :: "Chain \<Rightarrow> bool" where
  "chain_inv c \<longleftrightarrow>
     distinct (map_keys (PathsCache c)) \<and> distinct (map_keys (BaseFromToIndex c)) \<and>
     base_rules c \<subseteq> set (map_keys (PathsCache c)) \<and>
     paths_ok (base_rules c) (arrays c) (PathsCache c)"

lemma chain_invD:
  assumes "chain_inv c"
  shows "distinct (map_keys (PathsCache c))" and "distinct (map_keys (BaseFromToIndex c))"
    and "base_rules c \<subseteq> set (map_keys (PathsCache c))"
    and "paths_ok (base_rules c) (arrays c) (PathsCache c)"
  using assms by (auto simp: chain_inv_def)

lemma path_okD:
  assumes "path_ok B st k s"
  shows "slice_ok st s" "0 < s_len s" "s_arr s < length st" "s_len s \<le> length (st ! s_arr s)"
    "set (st ! s_arr s) \<subseteq> B" "ShortFromVersion (st ! s_arr s ! 0) = ShortFromVersion k"
  using assms by (auto simp: path_ok_def slice_ok_def)

lemma cached_path_ok:
  assumes "paths_ok B st (PathsCache c)" and "k \<in> set (map_keys (PathsCache c))"
  shows "path_ok B st k (cached_path c k)"
  using assms map_get_mem [of k "PathsCache c" nil_slice]
  by (auto simp: paths_ok_def cached_path_def)

lemma path_vals:
  assumes "path_ok B st k s"
  shows "slice_vals st s \<noteq> []" "set (slice_vals st s) \<subseteq> B"
    "ShortFromVersion (hd (slice_vals st s)) = ShortFromVersion k"
proof -
  note s = path_okD [OF assms]
  from s(2) have v: "slice_vals st s = take (s_len s) (st ! s_arr s)" by (simp add: slice_vals_def)
  from s(2,4) show ne: "slice_vals st s \<noteq> []" unfolding v by auto
  show "set (slice_vals st s) \<subseteq> B" unfolding v using s(5) set_take_subset by fast
  from ne have "hd (slice_vals st s) = slice_vals st s ! 0" by (rule hd_conv_nth)
  with s(2,6) show "ShortFromVersion (hd (slice_vals st s)) = ShortFromVersion k" by (simp add: v)
qed

lemma nth_write_cells_0: "0 < n \<Longrightarrow> n \<le> length a \<Longrightarrow> write_cells n xs a ! 0 = a ! 0"
  by (cases a) (auto simp: write_cells_def nth_append)

lemma set_write_cells: "set (write_cells n xs a) \<subseteq> set a \<union> set xs"
  by (auto simp: write_cells_def dest: in_set_takeD in_set_dropD)

text \<open>Appending one base rule to a cached path keeps every path in order, and gives one.\<close>

context growslice
begin

lemma append_path_other:
  assumes s: "path_ok B st k s" and t: "path_ok B st k' t" and r: "r \<in> B"
    and app: "slice_append grow st s [r] = (s', st')"
  shows "path_ok B st' k' t"
proof -
  note s' = path_okD [OF s] and t' = path_okD [OF t]
  have "slice_ok st' t" using append_ok_other [OF s'(1) t'(1) app] .
  moreover have "set (st' ! s_arr t) \<subseteq> B \<and> st' ! s_arr t ! 0 = st ! s_arr t ! 0"
  proof (cases "s_len s + 1 \<le> s_cap s")
    case True
    then have st': "st' = st[s_arr s := write_cells (s_len s) [r] (st ! s_arr s)]"
      using app by (auto simp: slice_append_def)
    show ?thesis
    proof (cases "s_arr t = s_arr s")
      case True
      have "set (write_cells (s_len s) [r] (st ! s_arr s)) \<subseteq> B"
        using set_write_cells [of "s_len s" "[r]" "st ! s_arr s"] s'(5) r by auto
      with True show ?thesis using s' t' by (simp add: st' nth_write_cells_0)
    next
      case False
      with t' show ?thesis by (simp add: st')
    qed
  next
    case False
    then have "st' = st @ [slice_vals st s @ [r]]" using app by (auto simp: slice_append_def Let_def)
    with t' show ?thesis by (simp add: nth_append)
  qed
  ultimately show ?thesis using t' by (simp add: path_ok_def)
qed

lemma append_path_new:
  assumes s: "path_ok B st k s" and r: "r \<in> B"
    and app: "slice_append grow st s [r] = (s', st')"
    and k': "ShortFromVersion k' = ShortFromVersion k"
  shows "path_ok B st' k' s'"
proof -
  note s1 = path_okD [OF s]
  have ok: "slice_ok st' s'" using append_ok [OF s1(1) app] .
  have "0 < s_len s' \<and> set (st' ! s_arr s') \<subseteq> B \<and> st' ! s_arr s' ! 0 = st ! s_arr s ! 0"
  proof (cases "s_len s + 1 \<le> s_cap s")
    case True
    then have eq: "s' = s\<lparr>s_len := s_len s + 1\<rparr>" using app by (auto simp: slice_append_def)
    from append_path_other [OF s s r app] have "path_ok B st' k s" .
    from path_okD(5) [OF this] path_okD(6) [OF this] show ?thesis
      using True app s1 by (auto simp: eq slice_append_def nth_write_cells_0 split: if_splits)
  next
    case False
    then have eq: "s_arr s' = length st" "s_len s' = s_len s + 1"
        "st' = st @ [slice_vals st s @ [r]]"
      using app by (auto simp: slice_append_def Let_def)
    with path_vals [OF s] r s1 show ?thesis
      by (auto simp: nth_append slice_vals_def split: if_splits)
  qed
  with ok k' s1(6) show ?thesis by (simp add: path_ok_def)
qed

end

section \<open>One round of the search\<close>

lemma set_next_from:
  assumes "map_iteration perm"
  shows "set (next_from perm site c fromVer i ks) =
     {r. FromVersion r \<in> set ks \<and> (FromVersion r = fromVer \<or> sublist (TrimGroup fromVer) (FromVersion r)) \<and>
         ToVersion r \<in> set (map_get [] (BaseFromToIndex c) (FromVersion r))}"
proof -
  have mk: "mk_rule k ` T = {r. FromVersion r = k \<and> ToVersion r \<in> T}" for k T
    by (force simp: image_iff intro: mk_rule_eta [symmetric])
  show ?thesis
    by (induction ks arbitrary: i)
      (auto simp: map_iteration.set_go_range [OF assms] strings_index_None mk simp del: not_None_eq)
qed

lemma sublist_TrimGroup: "sublist (TrimGroup v) v"
proof -
  obtain g where "v = g @ TrimGroup v" using TrimGroup_suffix by blast
  then show ?thesis by (metis sublist_append_leftI sublist_order.order_refl)
qed

context map_iteration
begin

lemma set_NextRules:
  "set (NextRules perm site c fromVer) =
     {r \<in> base_rules c. sublist (TrimGroup fromVer) (FromVersion r)}"
proof -
  have key: "FromVersion r \<in> set (map_keys (BaseFromToIndex c))" if "r \<in> base_rules c" for r
    using that map_get_not_key [of "FromVersion r" "BaseFromToIndex c" "[]"]
    by (cases "FromVersion r \<in> set (map_keys (BaseFromToIndex c))") (auto simp: base_rules_def)
  show ?thesis
    using key sublist_TrimGroup
    by (auto simp: NextRules_def set_next_from [OF map_iteration_axioms] base_rules_def)
qed

lemma set_RulesWithSimilar:
  "set (RulesWithSimilarFromVersion perm site c rule) =
     {k \<in> set (map_keys (PathsCache c)). VersionsMatched (FromVersion k) (FromVersion rule)}"
  by (simp add: RulesWithSimilarFromVersion_def)

lemma SearchPath_found:
  assumes "paths_ok B st (PathsCache c)"
  shows "0 < s_len (SearchPathForRule perm site c rule) \<longleftrightarrow>
     (\<exists>k \<in> set (map_keys (PathsCache c)). key_matches rule k)"
  using SearchPath_cases [of c rule site] cached_path_ok [OF assms]
  by (auto simp: path_ok_def nil_slice_def)

end

locale chain_runtime = growslice grow + map_iteration perm
  for grow :: "nat \<Rightarrow> nat \<Rightarrow> nat" and perm :: iteration

text \<open>
  \<open>extends c rule k r\<close>: in a search for \<open>rule\<close> the path with key \<open>k\<close> is extended by the base rule \<open>r\<close>.
\<close>

definition extends :: "Chain \<Rightarrow> Rule \<Rightarrow> Rule \<Rightarrow> Rule \<Rightarrow> bool" where
  "extends c rule k r \<longleftrightarrow>
     r \<in> base_rules c \<and> sublist (ShortToVersion k) (FromVersion r) \<and>
     TrimGroup (ToVersion r) \<noteq> ShortFromVersion rule"

definition found :: "Chain \<Rightarrow> string \<Rightarrow> string \<Rightarrow> bool" where
  "found c f t \<longleftrightarrow> (\<exists>k \<in> set (map_keys (PathsCache c)). key_matches (mk_rule f t) k)"

text \<open>
  What the two inner loops do to the new paths, as a set of pairs: every extension of the given
  paths whose target has no path yet gets one, and nothing else does.
\<close>

context chain_runtime
begin

lemma try_next_keys:
  assumes "paths_ok B st0 (PathsCache c)"
    and "try_next grow perm site c rule k i rs (newPaths, st) = (newPaths', st')"
  shows "set (map_keys newPaths') = set (map_keys newPaths) \<union>
     {mk_rule (FromVersion rule) (ToVersion r) | r. r \<in> set rs \<and>
        TrimGroup (ToVersion r) \<noteq> ShortFromVersion rule \<and> \<not> found c (FromVersion rule) (ToVersion r)}"
  using assms(2)
proof (induction rs arbitrary: i newPaths st)
  case (Cons r rs)
  obtain s2 st2 where app: "slice_append grow st (cached_path c k) [r] = (s2, st2)" by fastforce
  note fnd = SearchPath_found [OF assms(1)]
  show ?case
  proof (cases "TrimGroup (ToVersion r) = ShortFromVersion rule")
    case True
    with Cons.prems Cons.IH show ?thesis by (auto simp: ShortToVersion_def)
  next
    case False
    then have "try_next grow perm site c rule k (i + 1) rs
        (if found c (FromVersion rule) (ToVersion r) then newPaths
         else AList.update (mk_rule (FromVersion rule) (ToVersion r)) s2 newPaths, st2) = (newPaths', st')"
      using Cons.prems fnd [of "i # site" "mk_rule (FromVersion rule) (ToVersion r)"]
      by (simp add: ShortToVersion_def app Let_def found_def split: if_splits)
    from Cons.IH [OF this] False show ?thesis
      by (cases "found c (FromVersion rule) (ToVersion r)") auto
  qed
qed simp

lemma try_next_ok:
  assumes "paths_ok B st (PathsCache c)" and "paths_ok B st newPaths"
    and "k \<in> set (map_keys (PathsCache c))" and "ShortFromVersion k = ShortFromVersion rule"
    and "set rs \<subseteq> B"
    and "try_next grow perm site c rule k i rs (newPaths, st) = (newPaths', st')"
  shows "paths_ok B st' (PathsCache c) \<and> paths_ok B st' newPaths'"
  using assms
proof (induction rs arbitrary: i newPaths st)
  case (Cons r rs)
  obtain s2 st2 where app: "slice_append grow st (cached_path c k) [r] = (s2, st2)" by fastforce
  have old: "path_ok B st k (cached_path c k)" and r: "r \<in> B"
    using Cons.prems cached_path_ok by auto
  have keep: "paths_ok B st2 m" if "paths_ok B st m" for m
    using that append_path_other [OF old _ r app] by (auto simp: paths_ok_def)
  have new: "path_ok B st2 (mk_rule (FromVersion rule) t) s2" for t
    using append_path_new [OF old r app] Cons.prems(4) by (simp add: ShortFromVersion_def)
  have upd: "paths_ok B st2 (AList.update (mk_rule (FromVersion rule) t) s2 newPaths)" for t
    using keep [OF Cons.prems(2)] new
    by (auto simp: paths_ok_def dest!: set_update_cases)
  show ?case
  proof (cases "TrimGroup (ToVersion r) = ShortFromVersion rule")
    case True
    with Cons.prems Cons.IH show ?thesis by (auto simp: ShortToVersion_def)
  next
    case False
    define m where "m = (if s_len (SearchPathForRule perm (i # site) c
        (mk_rule (FromVersion rule) (ToVersion r))) \<noteq> 0 then newPaths
      else AList.update (mk_rule (FromVersion rule) (ToVersion r)) s2 newPaths)"
    have run: "try_next grow perm site c rule k (i + 1) rs (m, st2) = (newPaths', st')"
      using Cons.prems(6) False by (simp add: ShortToVersion_def app Let_def m_def)
    have "paths_ok B st2 m" using keep [OF Cons.prems(2)] upd by (simp add: m_def)
    from Cons.IH [OF keep [OF Cons.prems(1)] this Cons.prems(3,4) _ run] Cons.prems(5)
    show ?thesis by simp
  qed
qed simp

lemma try_rules_ok:
  assumes "paths_ok (base_rules c) st (PathsCache c)" and "paths_ok (base_rules c) st newPaths"
    and "set ks \<subseteq> {k \<in> set (map_keys (PathsCache c)). VersionsMatched (FromVersion k) (FromVersion rule)}"
    and "try_rules grow perm site c rule i ks (newPaths, st) = (newPaths', st')"
  shows "paths_ok (base_rules c) st' (PathsCache c) \<and> paths_ok (base_rules c) st' newPaths' \<and>
     set (map_keys newPaths') = set (map_keys newPaths) \<union>
       {mk_rule (FromVersion rule) (ToVersion r) | r k. k \<in> set ks \<and> ShortToVersion k \<noteq> ShortFromVersion rule \<and>
          extends c rule k r \<and> \<not> found c (FromVersion rule) (ToVersion r)}"
  using assms
proof (induction ks arbitrary: i newPaths st)
  case (Cons k ks)
  show ?case
  proof (cases "ShortToVersion k = ShortFromVersion rule")
    case True
    with Cons.prems Cons.IH [of st newPaths "i + 1"] show ?thesis by auto
  next
    case False
    let ?nx = "NextRules perm (1 # i # site) c (ToVersion k)"
    obtain m st2 where run: "try_next grow perm (0 # i # site) c rule k 0 ?nx (newPaths, st) = (m, st2)"
      by fastforce
    have k: "k \<in> set (map_keys (PathsCache c))" "ShortFromVersion k = ShortFromVersion rule"
      using Cons.prems(3) by (auto simp: ShortFromVersion_def dest: VersionsMatched_Trim)
    have "paths_ok (base_rules c) st2 (PathsCache c) \<and> paths_ok (base_rules c) st2 m"
      by (rule try_next_ok [OF Cons.prems(1,2) k _ run]) (auto simp: set_NextRules)
    moreover have "try_rules grow perm site c rule (i + 1) ks (m, st2) = (newPaths', st')"
      using Cons.prems(4) False run by simp
    ultimately show ?thesis
      using Cons.IH [of st2 m "i + 1"] Cons.prems(3) try_next_keys [OF Cons.prems(1) run] False
      by (auto simp: set_NextRules extends_def ShortToVersion_def)
  qed
qed simp

lemma search_round_ok:
  assumes "chain_inv c" and "search_round grow perm r c rule = (newPaths, st)"
  shows "paths_ok (base_rules c) st (PathsCache c)" and "paths_ok (base_rules c) st newPaths"
    and "set (map_keys newPaths) =
       {mk_rule (FromVersion rule) (ToVersion r) | r k. k \<in> set (map_keys (PathsCache c)) \<and>
          VersionsMatched (FromVersion k) (FromVersion rule) \<and> ShortToVersion k \<noteq> ShortFromVersion rule \<and>
          extends c rule k r \<and> \<not> found c (FromVersion rule) (ToVersion r)}"
  using try_rules_ok [OF chain_invD(4) [OF assms(1)] _ _ assms(2) [unfolded search_round_def]]
  by (auto simp: paths_ok_def set_RulesWithSimilar)

end

lemma put_paths_sel [simp]:
  "BaseFromToIndex (put_paths m c) = BaseFromToIndex c" "arrays (put_paths m c) = arrays c"
  "set (map_keys (PathsCache (put_paths m c))) = set (map_keys m) \<union> set (map_keys (PathsCache c))"
  by (induction m arbitrary: c) (auto simp: put_paths_def)

lemma put_paths_distinct:
  "distinct (map_keys (PathsCache c)) \<Longrightarrow> distinct (map_keys (PathsCache (put_paths m c)))"
  by (induction m arbitrary: c) (auto simp: put_paths_def)

lemma put_paths_mem: "p \<in> set (PathsCache (put_paths m c)) \<Longrightarrow> p \<in> set m \<or> p \<in> set (PathsCache c)"
proof (induction m arbitrary: c)
  case (Cons q m)
  obtain k s where q: "q = (k, s)" by (cases q)
  have "put_paths (q # m) c = put_paths m (c\<lparr>PathsCache := AList.update k s (PathsCache c)\<rparr>)"
    by (simp add: put_paths_def q)
  with Cons show ?case by (fastforce simp: q dest: set_update_cases)
qed (simp add: put_paths_def)

lemma base_rules_index: "BaseFromToIndex c = BaseFromToIndex c' \<Longrightarrow> base_rules c = base_rules c'"
  by (simp add: base_rules_def)

lemma put_paths_inv:
  assumes "chain_inv c" and "paths_ok (base_rules c) st (PathsCache c)"
    and "paths_ok (base_rules c) st m"
  shows "chain_inv (put_paths m (c\<lparr>arrays := st\<rparr>))"
proof -
  have b: "base_rules (put_paths m (c\<lparr>arrays := st\<rparr>)) = base_rules c"
    by (rule base_rules_index) simp
  show ?thesis
    using assms put_paths_distinct [of "c\<lparr>arrays := st\<rparr>" m]
    unfolding chain_inv_def b paths_ok_def by (auto dest!: put_paths_mem)
qed

section \<open>The whole search\<close>

definition target_versions :: "Chain \<Rightarrow> string set" where
  "target_versions c = ToVersion ` base_rules c"

lemma finite_base_rules: "finite (base_rules c)"
proof (rule finite_subset)
  let ?S = "(\<lambda>(k, t). mk_rule k t) ` (\<Union>(k, tos) \<in> set (BaseFromToIndex c). {k} \<times> set tos)"
  show "base_rules c \<subseteq> ?S"
  proof
    fix r assume r: "r \<in> base_rules c"
    then have "FromVersion r \<in> set (map_keys (BaseFromToIndex c))"
      using map_get_not_key [of "FromVersion r" "BaseFromToIndex c" "[]"]
      by (cases "FromVersion r \<in> set (map_keys (BaseFromToIndex c))") (auto simp: base_rules_def)
    from map_get_mem [OF this, of "[]"] r show "r \<in> ?S"
      by (intro image_eqI [of _ _ "(FromVersion r, ToVersion r)"]) (auto simp: base_rules_def)
  qed
  show "finite ?S" by (intro finite_imageI finite_UN_I) (auto split: prod.splits)
qed

definition unfound :: "Chain \<Rightarrow> Rule \<Rightarrow> string set" where
  "unfound c rule = {t \<in> target_versions c. \<not> found c (FromVersion rule) t}"

text \<open>A search that gave up has looked at everything.\<close>

definition exhausted :: "Chain \<Rightarrow> Rule \<Rightarrow> bool" where
  "exhausted c rule \<longleftrightarrow>
     (\<forall>k \<in> set (map_keys (PathsCache c)). \<not> key_matches rule k) \<and>
     (\<forall>k \<in> set (map_keys (PathsCache c)). \<forall>r. VersionsMatched (FromVersion k) (FromVersion rule) \<longrightarrow>
        ShortToVersion k \<noteq> ShortFromVersion rule \<longrightarrow> extends c rule k r \<longrightarrow>
        found c (FromVersion rule) (ToVersion r))"

text \<open>
  The outer loop ends: each round that goes on finds a path to a version that had none. \<open>J\<close> is any
  further property of the chain that a round keeps.
\<close>

context chain_runtime
begin

definition round_keeps :: "(Chain \<Rightarrow> bool) \<Rightarrow> Rule \<Rightarrow> bool" where
  "round_keeps J rule \<longleftrightarrow> (\<forall>c r m st. chain_inv c \<longrightarrow> J c \<longrightarrow> search_round grow perm r c rule = (m, st) \<longrightarrow>
     J (c\<lparr>arrays := st\<rparr>) \<and> J (put_paths (go_range perm [r, 3] m) (c\<lparr>arrays := st\<rparr>)))"

lemma round_keepsD:
  assumes "round_keeps J rule" "chain_inv c" "J c" "search_round grow perm r c rule = (m, st)"
  shows "J (c\<lparr>arrays := st\<rparr>)" "J (put_paths (go_range perm [r, 3] m) (c\<lparr>arrays := st\<rparr>))"
  using assms unfolding round_keeps_def by blast+

lemma round_progress:
  assumes inv: "chain_inv c" and rnd: "search_round grow perm r c rule = (m, st)" and "m \<noteq> []"
  defines "c1 \<equiv> put_paths (go_range perm [r, 3] m) (c\<lparr>arrays := st\<rparr>)"
  shows "chain_inv c1" "BaseFromToIndex c1 = BaseFromToIndex c"
    "card (unfound c1 rule) < card (unfound c rule)"
proof -
  note rd = search_round_ok [OF inv rnd]
  show "chain_inv c1"
    unfolding c1_def using put_paths_inv [OF inv rd(1)] rd(2) by (simp add: paths_ok_def)
  show index: "BaseFromToIndex c1 = BaseFromToIndex c" by (simp add: c1_def)
  note base = base_rules_index [OF index]
  have keys: "set (map_keys (PathsCache c1)) = set (map_keys m) \<union> set (map_keys (PathsCache c))"
    by (simp add: c1_def) (simp add: map_keys_def)
  obtain k0 where "k0 \<in> set (map_keys m)" using \<open>m \<noteq> []\<close> by (cases m) auto
  then obtain r0 where r0: "r0 \<in> base_rules c" "\<not> found c (FromVersion rule) (ToVersion r0)"
      "mk_rule (FromVersion rule) (ToVersion r0) \<in> set (map_keys m)"
    unfolding rd(3) by (auto simp: extends_def)
  have "found c1 (FromVersion rule) (ToVersion r0)"
    unfolding found_def keys using r0(3)
    by (intro bexI [of _ "mk_rule (FromVersion rule) (ToVersion r0)"]) (auto simp: key_matches_def)
  moreover have "ToVersion r0 \<in> target_versions c" using r0(1) by (simp add: target_versions_def)
  moreover have "unfound c1 rule \<subseteq> unfound c rule"
    by (auto simp: unfound_def target_versions_def base found_def keys)
  ultimately have "unfound c1 rule \<subset> unfound c rule" using r0(2) by (auto simp: unfound_def)
  then show "card (unfound c1 rule) < card (unfound c rule)"
    by (rule psubset_card_mono [rotated]) (simp add: unfound_def target_versions_def finite_base_rules)
qed

definition found_path :: "Chain \<Rightarrow> Rule \<Rightarrow> Rule list \<Rightarrow> bool" where
  "found_path c rule path \<longleftrightarrow>
     (if path = [] then exhausted c rule
      else \<exists>k \<in> set (map_keys (PathsCache c)). key_matches rule k \<and>
             path = slice_vals (arrays c) (cached_path c k))"

lemma find_loop_result:
  assumes "chain_inv c" and "J c" and J: "round_keeps J rule"
  shows "\<exists>path c'. find_loop grow perm rule r c = Some (path, c') \<and> chain_inv c' \<and> J c' \<and>
     BaseFromToIndex c' = BaseFromToIndex c \<and> found_path c' rule path"
  using assms(1,2)
proof (induction "card (unfound c rule)" arbitrary: c r rule: less_induct)
  case less
  note inv = less.prems(1)
  show ?case
  proof (cases "0 < s_len (SearchPathForRule perm [r, 0] c rule)")
    case True
    then obtain k where k: "k \<in> set (map_keys (PathsCache c))" "key_matches rule k"
        "SearchPathForRule perm [r, 0] c rule = cached_path c k"
      using SearchPath_cases [of c rule "[r, 0]"] by (auto simp: nil_slice_def)
    have "found_path c rule (slice_vals (arrays c) (cached_path c k))"
      unfolding found_path_def
      using k path_vals(1) [OF cached_path_ok [OF chain_invD(4) [OF inv] k(1)]] by auto
    with True k(3) less.prems show ?thesis by (subst find_loop.simps) (simp add: Let_def)
  next
    case False
    obtain m st where rnd: "search_round grow perm r c rule = (m, st)" by fastforce
    note rd = search_round_ok [OF inv rnd] and J' = round_keepsD [OF J less.prems rnd]
    have none: "\<forall>k \<in> set (map_keys (PathsCache c)). \<not> key_matches rule k"
      using False SearchPath_found [OF chain_invD(4) [OF inv], of "[r, 0]" rule] by simp
    show ?thesis
    proof (cases "m = []")
      case True
      have "chain_inv (c\<lparr>arrays := st\<rparr>)"
        using put_paths_inv [OF inv rd(1), of "[]"] by (simp add: put_paths_def paths_ok_def)
      moreover have "found_path (c\<lparr>arrays := st\<rparr>) rule []"
        using none rd(3) True by (auto simp: found_path_def exhausted_def extends_def found_def base_rules_def)
      ultimately show ?thesis using False rnd True J'(1) by (subst find_loop.simps) (simp add: Let_def)
    next
      case nonempty: False
      let ?c = "put_paths (go_range perm [r, 3] m) (c\<lparr>arrays := st\<rparr>)"
      note p = round_progress [OF inv rnd nonempty]
      have "find_loop grow perm rule r c = find_loop grow perm rule (r + 1) ?c"
        using False rnd nonempty by (subst find_loop.simps) (simp add: Let_def)
      with less.hyps [OF p(3,1) J'(2), of "r + 1"] show ?thesis unfolding p(2) by (simp only:)
    qed
  qed
qed

lemma found_path_sound:
  assumes "chain_inv c" and "found_path c rule path" and "path \<noteq> []"
  shows "set path \<subseteq> base_rules c" and "ShortFromVersion (hd path) = ShortFromVersion rule"
proof -
  from assms(2,3) obtain k where k: "k \<in> set (map_keys (PathsCache c))" "key_matches rule k"
      "path = slice_vals (arrays c) (cached_path c k)"
    unfolding found_path_def by auto
  note v = path_vals [OF cached_path_ok [OF chain_invD(4) [OF assms(1)] k(1)]]
  show "set path \<subseteq> base_rules c" using v(2) k(3) by simp
  show "ShortFromVersion (hd path) = ShortFromVersion rule"
    using v(3) k(2,3) VersionsMatched_Trim by (fastforce simp: key_matches_def ShortFromVersion_def)
qed

end

section \<open>Completeness\<close>

text \<open>
  A way from one version to another: registered rules that link up, without coming back to the
  version it started from.
\<close>

definition conversion_way :: "Rule set \<Rightarrow> Rule \<Rightarrow> Rule list \<Rightarrow> bool" where
  "conversion_way R rule bs \<longleftrightarrow>
     bs \<noteq> [] \<and> set bs \<subseteq> R \<and> VersionsMatched (FromVersion (hd bs)) (FromVersion rule) \<and>
     ToVersion (last bs) = ToVersion rule \<and>
     successively (\<lambda>a b. VersionsMatched (ToVersion a) (FromVersion b)) bs \<and>
     list_all (\<lambda>b. ShortToVersion b \<noteq> ShortFromVersion rule) bs"

lemma exhausted_follows:
  assumes ex: "exhausted c rule" and base: "base_rules c \<subseteq> set (map_keys (PathsCache c))"
    and "bs \<noteq> []" "set bs \<subseteq> base_rules c" "VersionsMatched (FromVersion (hd bs)) (FromVersion rule)"
    and "successively (\<lambda>a b. VersionsMatched (ToVersion a) (FromVersion b)) bs"
    and "list_all (\<lambda>b. ShortToVersion b \<noteq> ShortFromVersion rule) bs"
  shows "found c (FromVersion rule) (ToVersion (last bs))"
  using assms(3-)
proof (induction bs rule: rev_nonempty_induct)
  case (single b)
  then have "b \<in> set (map_keys (PathsCache c))" using base by auto
  moreover have "key_matches (mk_rule (FromVersion rule) (ToVersion b)) b"
    using single VersionsMatched_sym by (simp add: key_matches_def)
  ultimately show ?case by (auto simp: found_def)
next
  case (snoc b bs)
  then have "found c (FromVersion rule) (ToVersion (last bs))"
    by (auto simp: successively_append_iff)
  then obtain k where k: "k \<in> set (map_keys (PathsCache c))"
      "key_matches (mk_rule (FromVersion rule) (ToVersion (last bs))) k"
    by (auto simp: found_def)
  have short: "ShortToVersion k = ShortToVersion (last bs)"
    using k(2) VersionsMatched_Trim by (fastforce simp: key_matches_def ShortToVersion_def)
  have "TrimGroup (ToVersion (last bs)) = TrimGroup (FromVersion b)"
    using snoc.prems snoc.hyps by (intro VersionsMatched_Trim) (simp add: successively_append_iff)
  then have "sublist (ShortToVersion k) (FromVersion b)"
    unfolding short by (simp add: ShortToVersion_def sublist_TrimGroup)
  then have "extends c rule k b"
    using snoc.prems by (auto simp: extends_def ShortToVersion_def)
  moreover have "ShortToVersion k \<noteq> ShortFromVersion rule"
    unfolding short using snoc.prems snoc.hyps by (auto simp: list_all_iff)
  moreover have "VersionsMatched (FromVersion k) (FromVersion rule)"
    using k(2) VersionsMatched_sym by (simp add: key_matches_def)
  ultimately show ?case using ex k(1) by (auto simp: exhausted_def)
qed

lemma exhausted_no_way:
  assumes "exhausted c rule" and "chain_inv c" shows "\<not> conversion_way (base_rules c) rule bs"
proof
  assume w: "conversion_way (base_rules c) rule bs"
  have "found c (FromVersion rule) (ToVersion (last bs))"
    using w by (intro exhausted_follows [OF assms(1) chain_invD(3) [OF assms(2)]])
      (auto simp: conversion_way_def)
  with w assms(1) show False by (auto simp: conversion_way_def found_def exhausted_def)
qed

end
