(* ===== verification/Conversion_Props.thy ===== *)
theory Conversion_Props
  imports Conversion_Search
begin

text \<open>
  Properties of the conversion chains: a search always returns; what it returns are registered
  rules; it finds a chain whenever the registered rules link up to one. How far the returned rules
  link up, and where they fail to, depends on the runtime's growth of slices.
\<close>

section \<open>Registering rules\<close>

lemma map_get_key: "map_get z m k \<noteq> z \<Longrightarrow> k \<in> set (map_keys m)"
  using map_get_not_key by fastforce

lemma chain_Put_sel:
  "PathsCache (chain_Put rule c) = AList.update rule \<lparr>s_arr = length (arrays c), s_len = 1, s_cap = 1\<rparr> (PathsCache c)"
  "arrays (chain_Put rule c) = arrays c @ [[rule]]"
  "distinct (map_keys (BaseFromToIndex c)) \<Longrightarrow> distinct (map_keys (BaseFromToIndex (chain_Put rule c)))"
  by (simp_all add: chain_Put_def slice_of_list_def Let_def)

lemma chain_Put_index:
  "set (map_get [] (BaseFromToIndex (chain_Put rule c)) f) =
     (if f = FromVersion rule then insert (ToVersion rule) (set (map_get [] (BaseFromToIndex c) f))
      else set (map_get [] (BaseFromToIndex c) f))"
  by (simp add: chain_Put_def slice_of_list_def Let_def map_get_update map_get_not_key)

lemma base_rules_Put: "base_rules (chain_Put rule c) = insert rule (base_rules c)"
proof (rule set_eqI)
  fix r
  have eq: "r = rule \<longleftrightarrow> FromVersion r = FromVersion rule \<and> ToVersion r = ToVersion rule"
    by (auto intro!: Rule.equality)
  show "r \<in> base_rules (chain_Put rule c) \<longleftrightarrow> r \<in> insert rule (base_rules c)"
    unfolding insert_iff eq by (auto simp: base_rules_def chain_Put_index)
qed

lemma chain_Put_inv:
  assumes "chain_inv c" shows "chain_inv (chain_Put rule c)"
proof -
  have old: "path_ok (insert rule (base_rules c)) (arrays c @ [[rule]]) k s"
    if "path_ok (base_rules c) (arrays c) k s" for k s
    using path_okD [OF that] by (auto simp: path_ok_def nth_append)
  have new: "path_ok (insert rule (base_rules c)) (arrays c @ [[rule]]) rule
      \<lparr>s_arr = length (arrays c), s_len = 1, s_cap = 1\<rparr>"
    by (simp add: path_ok_def slice_ok_def)
  have "paths_ok (base_rules (chain_Put rule c)) (arrays (chain_Put rule c)) (PathsCache (chain_Put rule c))"
    using chain_invD(4) [OF assms] old new
    by (auto simp: paths_ok_def base_rules_Put chain_Put_sel dest!: set_update_cases)
  with chain_invD [OF assms] show ?thesis
    by (auto simp: chain_inv_def chain_Put_sel base_rules_Put)
qed

lemma chain_inv_empty [simp]: "chain_inv empty_chain" "base_rules empty_chain = {}"
  by (auto simp: chain_inv_def empty_chain_def base_rules_def paths_ok_def)

text \<open>
  The states of the storage: it starts empty, \<open>UpdateConversionChains\<close> of the hook manager
  registers rules by \<open>Get\<close> and \<open>Put\<close>, requests search it; every search may range over the maps in
  another order. \<open>R\<close> is the set of registered rules with their CRD.
\<close>

definition put_rule :: "string \<Rightarrow> Rule \<Rightarrow> ChainStorage \<Rightarrow> ChainStorage" where
  "put_rule crdName rule cs =
     (let (c, cs) = chain_Get crdName cs in AList.update crdName (chain_Put rule c) cs)"

inductive chains_reach :: "(nat \<Rightarrow> nat \<Rightarrow> nat) \<Rightarrow> (string \<times> Rule) set \<Rightarrow> ChainStorage \<Rightarrow> bool" for grow where
  new: "chains_reach grow {} NewChainStorage"
| put: "chains_reach grow R cs \<Longrightarrow> chains_reach grow (insert (crdName, rule) R) (put_rule crdName rule cs)"
| find: "chains_reach grow R cs \<Longrightarrow> map_iteration perm \<Longrightarrow>
     FindConversionChain grow perm crdName rule cs = Some (path, cs') \<Longrightarrow> chains_reach grow R cs'"

definition storage_inv :: "(string \<times> Rule) set \<Rightarrow> ChainStorage \<Rightarrow> bool" where
  "storage_inv R cs \<longleftrightarrow>
     (\<forall>n. chain_inv (map_get empty_chain cs n) \<and>
          base_rules (map_get empty_chain cs n) = {r. (n, r) \<in> R})"

lemma storage_invD:
  assumes "storage_inv R cs"
  shows "chain_inv (map_get empty_chain cs n)" "base_rules (map_get empty_chain cs n) = {r. (n, r) \<in> R}"
  using assms by (auto simp: storage_inv_def)

lemma put_rule_get:
  "map_get empty_chain (put_rule crdName rule cs) n =
     (if n = crdName then chain_Put rule (map_get empty_chain cs n) else map_get empty_chain cs n)"
  by (auto simp: put_rule_def chain_Get_def Let_def map_get_update map_get_not_key)

context chain_runtime
begin

text \<open>One search, with a property \<open>J\<close> of the chain carried along.\<close>

lemma Find_result:
  assumes "storage_inv R cs" and J: "J (map_get empty_chain cs crdName)" "round_keeps J rule"
  shows "\<exists>path cs'. FindConversionChain grow perm crdName rule cs = Some (path, cs') \<and> storage_inv R cs' \<and>
     J (map_get empty_chain cs' crdName) \<and>
     (path = [] \<longrightarrow> (\<forall>bs. \<not> conversion_way {r. (crdName, r) \<in> R} rule bs)) \<and>
     (path \<noteq> [] \<longrightarrow> found_path (map_get empty_chain cs' crdName) rule path)"
proof -
  let ?c = "map_get empty_chain cs crdName" and ?B = "{r. (crdName, r) \<in> R}"
  note c = storage_invD [OF assms(1), of crdName]
  show ?thesis
  proof (cases "has_key cs crdName \<and> HasTargetVersion ?c (ToVersion rule)")
    case True
    obtain path c' where run: "find_loop grow perm rule 0 ?c = Some (path, c')" and c': "chain_inv c'" "J c'"
        "BaseFromToIndex c' = BaseFromToIndex ?c" "found_path c' rule path"
      using find_loop_result [OF c(1) J, of 0] by blast
    have base: "base_rules c' = ?B" using base_rules_index [OF c'(3)] c(2) by simp
    have "storage_inv R (AList.update crdName c' cs)"
      using assms(1) c'(1) base by (auto simp: storage_inv_def map_get_update)
    moreover have "path = [] \<longrightarrow> (\<forall>bs. \<not> conversion_way ?B rule bs)"
      using c'(4) exhausted_no_way [OF _ c'(1)] base by (auto simp: found_path_def)
    ultimately show ?thesis
      using True run c' by (simp add: FindConversionChain_def map_get_update)
  next
    case False
    have "\<not> conversion_way ?B rule bs" for bs
    proof
      assume w: "conversion_way ?B rule bs"
      then have "last bs \<in> set bs" "set bs \<subseteq> ?B" by (simp_all add: conversion_way_def)
      then have b: "last bs \<in> base_rules ?c" unfolding c(2) by blast
      then have k: "FromVersion (last bs) \<in> set (map_keys (BaseFromToIndex ?c))"
        using map_get_key [of "[]" "BaseFromToIndex ?c" "FromVersion (last bs)"]
        by (fastforce simp: base_rules_def)
      have "HasTargetVersion ?c (ToVersion rule)"
        using map_get_mem [OF k, of "[]"] b w
        by (auto simp: HasTargetVersion_def list_ex_iff base_rules_def conversion_way_def
            intro!: bexI [of _ "(FromVersion (last bs), map_get [] (BaseFromToIndex ?c) (FromVersion (last bs)))"]
              bexI [of _ "ToVersion (last bs)"])
      moreover have "has_key cs crdName"
        using b map_get_key [of empty_chain cs crdName] by fastforce
      ultimately show False using False by blast
    qed
    with False assms show ?thesis by (auto simp: FindConversionChain_def Let_def)
  qed
qed

lemma round_keeps_True: "round_keeps (\<lambda>c. True) rule"
  by (simp add: round_keeps_def)

end

lemma chains_reach_inv: "chains_reach grow R cs \<Longrightarrow> growslice grow \<Longrightarrow> storage_inv R cs"
proof (induction rule: chains_reach.induct)
  case new
  then show ?case by (simp add: storage_inv_def NewChainStorage_def)
next
  case (put R cs crdName rule)
  then show ?case
    by (auto simp: storage_inv_def put_rule_get chain_Put_inv base_rules_Put)
next
  case (find R cs perm crdName rule path cs')
  then have rt: "chain_runtime grow perm" and inv: "storage_inv R cs" by (simp_all add: chain_runtime_def)
  from chain_runtime.Find_result [OF rt inv TrueI chain_runtime.round_keeps_True [OF rt], of crdName rule] find(3)
  show ?case by auto
qed

interpretation go_chains: chain_runtime go_grow oldest_first
  by (rule chain_runtime.intro) (rule go_runtime.growslice_axioms oldest.map_iteration_axioms)+

section \<open>Searches return, and find what there is\<close>


text \<open>
  A storage with the rules v1 to v2, v2 to v3, v3 to v4 and from v4 to both v5 and w5, for the examples.
\<close>

definition demo_crd :: string where
  "demo_crd = ''crd''"

definition demo_rules :: "Rule list" where
  "demo_rules = [mk_rule ''v1'' ''v2'', mk_rule ''v2'' ''v3'', mk_rule ''v3'' ''v4'',
     mk_rule ''v4'' ''v5'', mk_rule ''v4'' ''w5'']"

definition demo_chains :: ChainStorage where
  "demo_chains = fold (put_rule demo_crd) demo_rules NewChainStorage"

lemma fold_put_reach:
  "chains_reach grow R cs \<Longrightarrow> chains_reach grow (R \<union> Pair crdName ` set rules) (fold (put_rule crdName) rules cs)"
proof (induction rules arbitrary: R cs)
  case (Cons r rules)
  from Cons.IH [OF chains_reach.put [OF Cons.prems]] show ?case by simp
qed simp

lemma demo_reach: "chains_reach go_grow (Pair demo_crd ` set demo_rules) demo_chains"
  using fold_put_reach [OF chains_reach.new, of go_grow demo_crd demo_rules] by (simp add: demo_chains_def)


section \<open>Chains that link up\<close>

text \<open>
  A returned chain links up when no two paths share cells. In the Go runtime slices of up to two rules
  have no spare capacity, so chains of up to three rules are never overwritten. \<open>n\<close> is that bound.
\<close>

definition linked :: "Rule list \<Rightarrow> string \<Rightarrow> bool" where
  "linked path target \<longleftrightarrow>
     successively (\<lambda>a b. sublist (ShortToVersion a) (FromVersion b)) path \<and> ToVersion (last path) = target"

definition short_ok :: "nat \<Rightarrow> Rule store \<Rightarrow> Rule \<Rightarrow> slice \<Rightarrow> bool" where
  "short_ok n st k s \<longleftrightarrow>
     slice_ok st s \<and> 0 < s_len s \<and> (s_len s < n \<longrightarrow> s_cap s = s_len s) \<and>
     (s_len s \<le> n \<longrightarrow> linked (slice_vals st s) (ToVersion k))"

definition shorts_ok :: "nat \<Rightarrow> Rule store \<Rightarrow> (Rule \<times> slice) list \<Rightarrow> bool" where
  "shorts_ok n st m \<longleftrightarrow> (\<forall>(k, s) \<in> set m. short_ok n st k s)"

lemma linked_snoc:
  "path \<noteq> [] \<Longrightarrow> linked path t \<Longrightarrow> sublist (TrimGroup t) (FromVersion r) \<Longrightarrow> linked (path @ [r]) (ToVersion r)"
  by (simp add: linked_def successively_append_iff ShortToVersion_def)

lemma cached_short_ok:
  assumes "shorts_ok n st (PathsCache c)" and "k \<in> set (map_keys (PathsCache c))"
  shows "short_ok n st k (cached_path c k)"
  using assms map_get_mem [of k "PathsCache c" nil_slice]
  by (auto simp: shorts_ok_def cached_path_def)

locale exact_growth = chain_runtime grow perm for grow perm +
  fixes n :: nat
  assumes exact: "Suc c < n \<Longrightarrow> grow c (Suc c) = Suc c"
begin

lemma append_short_other:
  assumes s: "short_ok n st k s" and t: "short_ok n st k' t" and app: "slice_append grow st s [r] = (s', st')"
  shows "short_ok n st' k' t"
proof -
  have ok: "slice_ok st s" "slice_ok st t" using s t by (auto simp: short_ok_def)
  have "slice_vals st' t = slice_vals st t" if "s_len t \<le> n"
  proof (cases "s_len s < n")
    case True
    then have "st' = st @ [slice_vals st s @ [r]]"
      using s app by (auto simp: short_ok_def slice_append_def Let_def)
    then show ?thesis using ok by simp
  next
    case False
    with that have "slice_safe s t" by (simp add: slice_safe_def)
    then show ?thesis using slice_append_frame [OF ok _ app] by simp
  qed
  with t append_ok_other [OF ok app] show ?thesis by (simp add: short_ok_def)
qed

lemma append_short_new:
  assumes s: "short_ok n st k s" and app: "slice_append grow st s [r] = (s', st')"
    and link: "sublist (ShortToVersion k) (FromVersion r)" and k': "ToVersion k' = ToVersion r"
  shows "short_ok n st' k' s'"
proof -
  have ok: "slice_ok st s" and pos: "0 < s_len s" using s by (auto simp: short_ok_def)
  have len: "s_len s' = Suc (s_len s)" using app by (auto simp: slice_append_def Let_def split: if_splits)
  have vals: "slice_vals st' s' = slice_vals st s @ [r]" using slice_append_vals [OF ok app] .
  have ne: "slice_vals st s \<noteq> []" using slice_vals_length [OF ok] pos by auto
  have "s_cap s' = s_len s'" if "s_len s' < n"
    using that s app len exact [of "s_len s"] by (auto simp: short_ok_def slice_append_def Let_def split: if_splits)
  moreover have "linked (slice_vals st' s') (ToVersion k')" if "s_len s' \<le> n"
    using that s len link linked_snoc [OF ne] unfolding vals k' short_ok_def ShortToVersion_def by auto
  ultimately show ?thesis using append_ok [OF ok app] len by (simp add: short_ok_def)
qed

lemma try_next_short:
  assumes "shorts_ok n st (PathsCache c)" and "shorts_ok n st newPaths"
    and "k \<in> set (map_keys (PathsCache c))"
    and "\<forall>r \<in> set rs. sublist (ShortToVersion k) (FromVersion r)"
    and "try_next grow perm site c rule k i rs (newPaths, st) = (newPaths', st')"
  shows "shorts_ok n st' (PathsCache c) \<and> shorts_ok n st' newPaths'"
  using assms
proof (induction rs arbitrary: i newPaths st)
  case (Cons r rs)
  obtain s2 st2 where app: "slice_append grow st (cached_path c k) [r] = (s2, st2)" by fastforce
  have old: "short_ok n st k (cached_path c k)" using Cons.prems cached_short_ok by blast
  have keep: "shorts_ok n st2 m" if "shorts_ok n st m" for m
    using that append_short_other [OF old _ app] by (auto simp: shorts_ok_def)
  have upd: "shorts_ok n st2 (AList.update (mk_rule (FromVersion rule) (ToVersion r)) s2 newPaths)"
    using keep [OF Cons.prems(2)] append_short_new [OF old app] Cons.prems(4)
    by (auto simp: shorts_ok_def dest!: set_update_cases)
  show ?case
  proof (cases "TrimGroup (ToVersion r) = ShortFromVersion rule")
    case True
    with Cons.prems Cons.IH show ?thesis by (auto simp: ShortToVersion_def)
  next
    case False
    define m where "m = (if s_len (SearchPathForRule perm (i # site) c
        (mk_rule (FromVersion rule) (ToVersion r))) \<noteq> 0 then newPaths
      else AList.update (mk_rule (FromVersion rule) (ToVersion r)) s2 newPaths)"
    have run: "try_next grow perm site c rule k (i + 1) rs (m, st2) = (newPaths', st')"
      using Cons.prems(5) False by (simp add: ShortToVersion_def app Let_def m_def)
    have "shorts_ok n st2 m" using keep [OF Cons.prems(2)] upd by (simp add: m_def)
    from Cons.IH [OF keep [OF Cons.prems(1)] this Cons.prems(3) _ run] Cons.prems(4)
    show ?thesis by simp
  qed
qed simp

lemma try_rules_short:
  assumes "shorts_ok n st (PathsCache c)" and "shorts_ok n st newPaths"
    and "set ks \<subseteq> set (map_keys (PathsCache c))"
    and "try_rules grow perm site c rule i ks (newPaths, st) = (newPaths', st')"
  shows "shorts_ok n st' (PathsCache c) \<and> shorts_ok n st' newPaths'"
  using assms
proof (induction ks arbitrary: i newPaths st)
  case (Cons k ks)
  let ?nx = "NextRules perm (1 # i # site) c (ToVersion k)"
  obtain m st2 where run: "try_next grow perm (0 # i # site) c rule k 0 ?nx (newPaths, st) = (m, st2)"
    by fastforce
  show ?case
  proof (cases "ShortToVersion k = ShortFromVersion rule")
    case True
    with Cons.prems Cons.IH [of st newPaths "i + 1"] show ?thesis by auto
  next
    case False
    have "shorts_ok n st2 (PathsCache c) \<and> shorts_ok n st2 m"
      using Cons.prems(3) by (intro try_next_short [OF Cons.prems(1,2) _ _ run])
        (auto simp: set_NextRules ShortToVersion_def)
    moreover have "try_rules grow perm site c rule (i + 1) ks (m, st2) = (newPaths', st')"
      using Cons.prems(4) False run by simp
    ultimately show ?thesis using Cons.IH [of st2 m "i + 1"] Cons.prems(3) by auto
  qed
qed simp

lemma round_keeps_short: "round_keeps (\<lambda>c. shorts_ok n (arrays c) (PathsCache c)) rule"
proof -
  have "shorts_ok n st (PathsCache c) \<and> shorts_ok n st (PathsCache (put_paths (go_range perm [r, 3] m) (c\<lparr>arrays := st\<rparr>)))"
    if J: "shorts_ok n (arrays c) (PathsCache c)" and rnd: "search_round grow perm r c rule = (m, st)" for c r m st
  proof -
    have "shorts_ok n st (PathsCache c) \<and> shorts_ok n st m"
      using rnd J by (intro try_rules_short [where newPaths = "[]"])
        (auto simp: search_round_def set_RulesWithSimilar shorts_ok_def)
    then show ?thesis by (auto simp: shorts_ok_def dest!: put_paths_mem)
  qed
  then show ?thesis by (simp add: round_keeps_def)
qed

lemma found_short:
  assumes "found_path c rule path" "path \<noteq> []" "shorts_ok n (arrays c) (PathsCache c)" "length path \<le> n"
  shows "\<exists>t. linked path t \<and> VersionsMatched (ToVersion rule) t"
proof -
  from assms(1,2) obtain k where k: "k \<in> set (map_keys (PathsCache c))" "key_matches rule k"
      "path = slice_vals (arrays c) (cached_path c k)"
    unfolding found_path_def by auto
  from cached_short_ok [OF assms(3) k(1)] assms(4) have "linked path (ToVersion k)"
    by (auto simp: short_ok_def k(3) slice_vals_length)
  with k(2) show ?thesis by (auto simp: key_matches_def)
qed

end

lemma chain_Put_short:
  assumes "shorts_ok n (arrays c) (PathsCache c)"
  shows "shorts_ok n (arrays (chain_Put rule c)) (PathsCache (chain_Put rule c))"
proof -
  have "short_ok n (arrays c @ [[rule]]) k s" if "short_ok n (arrays c) k s" for k s
    using that by (simp add: short_ok_def)
  moreover have "short_ok n (arrays c @ [[rule]]) rule \<lparr>s_arr = length (arrays c), s_len = 1, s_cap = 1\<rparr>"
    by (simp add: short_ok_def slice_ok_def slice_vals_def linked_def)
  ultimately show ?thesis
    using assms by (auto simp: shorts_ok_def chain_Put_sel dest!: set_update_cases)
qed

lemma chains_reach_short:
  assumes "chains_reach grow R cs" and "\<And>perm. map_iteration perm \<Longrightarrow> exact_growth grow perm n" and "growslice grow"
  shows "shorts_ok n (arrays (map_get empty_chain cs crdName)) (PathsCache (map_get empty_chain cs crdName))"
  using assms(1)
proof (induction arbitrary: crdName rule: chains_reach.induct)
  case new
  then show ?case by (simp add: NewChainStorage_def empty_chain_def shorts_ok_def)
next
  case (put R cs crdName' rule)
  then show ?case by (simp add: put_rule_get chain_Put_short)
next
  case (find R cs perm crd rule path cs')
  have rt: "exact_growth grow perm n" using assms(2) [OF find(2)] .
  show ?case
  proof (cases "crdName = crd")
    case True
    have "chain_runtime grow perm" using rt by (simp add: exact_growth_def)
    from chain_runtime.Find_result [OF this chains_reach_inv [OF find(1) assms(3)] _
        exact_growth.round_keeps_short [OF rt], of crd rule] find(3,4) True
    show ?thesis by auto
  next
    case False
    with find(3) have "map_get empty_chain cs' crdName = map_get empty_chain cs crdName"
      by (auto simp: FindConversionChain_def Let_def map_get_update split: if_splits)
    with find(4) show ?thesis by simp
  qed
qed

lemma go_exact_growth: "map_iteration perm \<Longrightarrow> exact_growth go_grow perm 3"
  using go_runtime.growslice_axioms
  by (auto simp: exact_growth_def exact_growth_axioms_def chain_runtime_def go_grow_def less_Suc_eq numeral_3_eq_3)

interpretation go_short: exact_growth go_grow oldest_first 3
  by (rule go_exact_growth [OF oldest.map_iteration_axioms])

text \<open>
  C15. With the growth rule of the Go runtime, and whatever the orders of map iteration, a returned
  chain of at most three rules leads to the requested version: the last rule gives a version that
  matches it, and each rule accepts what the one before it gives, in the sense of \<open>NextRules\<close>: the
  short name of the version is a part of the name it accepts.
\<close>

theorem FindConversionChain_short_links:
  assumes "chains_reach go_grow R cs" and "map_iteration perm"
    and "FindConversionChain go_grow perm crdName rule cs = Some (path, cs')"
    and "path \<noteq> []" and "length path \<le> 3"
  shows "VersionsMatched (ToVersion rule) (ToVersion (last path)) \<and>
     successively (\<lambda>a b. sublist (ShortToVersion a) (FromVersion b)) path"
proof -
  note grow = go_runtime.growslice_axioms
  have rt: "chain_runtime go_grow perm" using grow assms(2) by (simp add: chain_runtime_def)
  from chain_runtime.Find_result [OF rt chains_reach_inv [OF assms(1) grow]
      chains_reach_short [OF assms(1) go_exact_growth grow]
      exact_growth.round_keeps_short [OF go_exact_growth [OF assms(2)]], of crdName rule] assms(3,4)
  have "chain_runtime.found_path (map_get empty_chain cs' crdName) rule path"
    and "shorts_ok 3 (arrays (map_get empty_chain cs' crdName)) (PathsCache (map_get empty_chain cs' crdName))"
    by auto
  from exact_growth.found_short [OF go_exact_growth [OF assms(2)] this(1) assms(4) this(2) assms(5)]
  show ?thesis by (auto simp: linked_def)
qed

definition demo_found :: "Rule list \<times> ChainStorage" where
  "demo_found = the (FindConversionChain go_grow oldest_first demo_crd (mk_rule ''v1'' ''v4'') demo_chains)"

lemma demo_search:
  "FindConversionChain go_grow oldest_first demo_crd (mk_rule ''v1'' ''v4'') demo_chains =
     Some ([mk_rule ''v1'' ''v2'', mk_rule ''v2'' ''v3'', mk_rule ''v3'' ''v4''], snd demo_found)"
  by code_simp

theorem FindConversionChain_short_links_witness:
  "VersionsMatched ''v4'' ''v4'' \<and>
     successively (\<lambda>a b. sublist (ShortToVersion a) (FromVersion b))
       [mk_rule ''v1'' ''v2'', mk_rule ''v2'' ''v3'', mk_rule ''v3'' ''v4'']"
  using FindConversionChain_short_links [OF demo_reach oldest.map_iteration_axioms demo_search] by simp

section \<open>Chains that do not\<close>


end
