(* ===== verification/Task_Model.thy ===== *)
theory Task_Model
  imports Binding_Context
begin

text \<open>
  \<open>pkg/task/task.go\<close>, \<open>pkg/hook/task_metadata/task_metadata.go\<close> and \<open>pkg/utils/labels\<close>: tasks
  and what a hook task carries.

  A hook task carries a slice of binding contexts and a slice of monitor ids. \<open>HookMetadata\<close> is
  generic in how the two slices are held: the queue, where aliasing matters, uses slice headers
  over a store; the rest of the development uses their contents as lists. The random ids of
  \<open>uuid.NewV4\<close> are arguments. A task's metadata is an interface value: nil, a \<open>HookMetadata\<close>,
  or something that implements none of the accessor interfaces.
\<close>

section \<open>Labels\<close>

type_synonym labels = "string \<rightharpoonup> string"

definition MergeLabels :: "labels list \<Rightarrow> labels" where
  "MergeLabels labelsMaps = fold (\<lambda>m acc. acc ++ m) labelsMaps Map.empty"

definition DefaultIfEmpty :: "labels \<Rightarrow> labels \<Rightarrow> labels" where
  "DefaultIfEmpty m def = (if m = Map.empty then def else m)"

definition LabelValues :: "labels \<Rightarrow> string list \<Rightarrow> string list" where
  "LabelValues ls names = map (\<lambda>n. case ls n of Some v \<Rightarrow> v | None \<Rightarrow> []) names"

definition LabelNames :: "string list \<Rightarrow> string list" where
  "LabelNames keys = sort keys" \<comment> \<open>\<open>keys\<close>: the keys of the map, in the order the range visits them\<close>

definition IsSubset :: "string list \<Rightarrow> string list \<Rightarrow> bool" where
  "IsSubset a b = list_all (\<lambda>v. v \<in> set a) b"

section \<open>Hook metadata\<close>

record ('c, 'm) HookMetadata =
  HookName :: string
  hm_Binding :: string
  hm_Group :: string
  hm_BindingType :: BindingType
  hm_BindingContext :: 'c
  AllowFailure :: bool
  MonitorIDs :: 'm
  ExecuteOnSynchronization :: bool

definition SetBindingContext :: "('c, 'm) HookMetadata \<Rightarrow> 'c \<Rightarrow> ('c, 'm) HookMetadata" where
  "SetBindingContext m ctx = m\<lparr>hm_BindingContext := ctx\<rparr>"

definition SetMonitorIDs :: "('c, 'm) HookMetadata \<Rightarrow> 'm \<Rightarrow> ('c, 'm) HookMetadata" where
  "SetMonitorIDs m ids = m\<lparr>MonitorIDs := ids\<rparr>"

definition AppendBindingContext :: "('c list, 'm) HookMetadata \<Rightarrow> 'c \<Rightarrow> ('c list, 'm) HookMetadata" where
  "AppendBindingContext m ctx = m\<lparr>hm_BindingContext := hm_BindingContext m @ [ctx]\<rparr>"

definition HookMetadata_GetDescription :: "('c, 'm) HookMetadata \<Rightarrow> string" where
  "HookMetadata_GetDescription m =
     (let additional = (if hm_Group m \<noteq> [] then '':group='' @ hm_Group m else []);
          additional = additional @ (if hm_Binding m \<noteq> [] then '':'' @ hm_Binding m else []) in
      hm_BindingType m @ '':'' @ HookName m @ additional)"

definition hm_IsSynchronization :: "(BindingContext list, 'm) HookMetadata \<Rightarrow> bool" where
  "hm_IsSynchronization m \<longleftrightarrow>
     (case hm_BindingContext m of [] \<Rightarrow> False | bc # _ \<Rightarrow> bc_IsSynchronization bc)"

datatype 'md metadata = MetaNil | MetaHook 'md | MetaOther string

definition HookMetadataAccessor :: "'md metadata \<Rightarrow> 'md option" where
  "HookMetadataAccessor meta = (case meta of MetaHook m \<Rightarrow> Some m | _ \<Rightarrow> None)"

section \<open>Tasks\<close>

type_synonym TaskType = string

abbreviation HookRun :: TaskType where "HookRun \<equiv> ''HookRun''"
abbreviation EnableKubernetesBindings :: TaskType where "EnableKubernetesBindings \<equiv> ''EnableKubernetesBindings''"
abbreviation EnableScheduleBindings :: TaskType where "EnableScheduleBindings \<equiv> ''EnableScheduleBindings''"
abbreviation LogKeyTaskID :: string where "LogKeyTaskID \<equiv> ''task.id''"

record 'md BaseTask =
  task_Id :: string
  task_Type :: TaskType
  LogLabels :: labels
  FailureCount :: nat
  FailureMessage :: string
  QueueName :: string
  QueuedAt :: int
  Props :: "string \<rightharpoonup> json"
  Metadata :: "'md metadata"
  compactionID :: string
  processing :: bool

definition NewTask :: "string \<Rightarrow> TaskType \<Rightarrow> 'md BaseTask" where
  "NewTask uuid taskType = \<lparr>task_Id = uuid, task_Type = taskType, LogLabels = [LogKeyTaskID \<mapsto> uuid],
     FailureCount = 0, FailureMessage = [], QueueName = [], QueuedAt = 0, Props = Map.empty,
     Metadata = MetaNil, compactionID = uuid, processing = False\<rparr>"

definition deepCopy :: "'md BaseTask \<Rightarrow> 'md BaseTask" where
  "deepCopy t = \<lparr>task_Id = task_Id t, task_Type = task_Type t, LogLabels = LogLabels t,
     FailureCount = FailureCount t, FailureMessage = FailureMessage t, QueueName = QueueName t,
     QueuedAt = QueuedAt t, Props = Props t, Metadata = Metadata t, compactionID = [],
     processing = processing t\<rparr>"

definition DeepCopyWithNewUUID :: "string \<Rightarrow> 'md BaseTask \<Rightarrow> 'md BaseTask" where
  "DeepCopyWithNewUUID uuid t = (let newTask = deepCopy t in
     newTask\<lparr>task_Id := uuid, LogLabels := (LogLabels newTask)(LogKeyTaskID \<mapsto> uuid)\<rparr>)"

definition WithLogLabels :: "labels \<Rightarrow> 'md BaseTask \<Rightarrow> 'md BaseTask" where
  "WithLogLabels ls t = t\<lparr>LogLabels := MergeLabels [LogLabels t, ls]\<rparr>"

definition WithQueueName :: "string \<Rightarrow> 'md BaseTask \<Rightarrow> 'md BaseTask" where
  "WithQueueName name t = t\<lparr>QueueName := name\<rparr>"

definition WithMetadata :: "'md metadata \<Rightarrow> 'md BaseTask \<Rightarrow> 'md BaseTask" where
  "WithMetadata m t = t\<lparr>Metadata := m\<rparr>"

definition WithCompactionID :: "string \<Rightarrow> 'md BaseTask \<Rightarrow> 'md BaseTask" where
  "WithCompactionID cid t = t\<lparr>compactionID := cid\<rparr>"

definition WithQueuedAt :: "int \<Rightarrow> 'md BaseTask \<Rightarrow> 'md BaseTask" where
  "WithQueuedAt now t = t\<lparr>QueuedAt := now\<rparr>"

definition UpdateMetadata :: "'md metadata \<Rightarrow> 'md BaseTask \<Rightarrow> 'md BaseTask" where
  "UpdateMetadata m t = t\<lparr>Metadata := m\<rparr>"

definition SetProp :: "string \<Rightarrow> json \<Rightarrow> 'md BaseTask \<Rightarrow> 'md BaseTask" where
  "SetProp key v t = t\<lparr>Props := (Props t)(key \<mapsto> v)\<rparr>"

definition IncrementFailureCount :: "'md BaseTask \<Rightarrow> 'md BaseTask" where
  "IncrementFailureCount t = t\<lparr>FailureCount := FailureCount t + 1\<rparr>"

definition UpdateFailureMessage :: "string \<Rightarrow> 'md BaseTask \<Rightarrow> 'md BaseTask" where
  "UpdateFailureMessage msg t = t\<lparr>FailureMessage := msg\<rparr>"

definition SetProcessing :: "bool \<Rightarrow> 'md BaseTask \<Rightarrow> 'md BaseTask" where
  "SetProcessing b t = t\<lparr>processing := b\<rparr>"

definition GetDescription :: "('c, 'm) HookMetadata BaseTask \<Rightarrow> string" where
  "GetDescription t =
     (let metaDescription = (case Metadata t of MetaHook m \<Rightarrow> '':'' @ HookMetadata_GetDescription m | _ \<Rightarrow> []);
          failDescription =
            (if FailureCount t > 0
             then '':failures '' @ show_nat (FailureCount t) @
                  (if FailureMessage t \<noteq> [] then '':'' @ FailureMessage t else [])
             else []) in
      task_Type t @ '':'' @ QueueName t @ metaDescription @ failDescription)"

section \<open>Lemmas\<close>

lemma task_ops_id [simp]:
  "task_Id (SetProcessing b t) = task_Id t" "task_Id (UpdateMetadata m t) = task_Id t"
  "task_Id (IncrementFailureCount t) = task_Id t" "task_Id (UpdateFailureMessage s t) = task_Id t"
  by (simp_all add: SetProcessing_def UpdateMetadata_def IncrementFailureCount_def UpdateFailureMessage_def)

lemma task_ops_fields [simp]:
  "processing (SetProcessing b t) = b" "processing (IncrementFailureCount t) = processing t"
  "FailureCount (SetProcessing b t) = FailureCount t" "FailureCount (IncrementFailureCount t) = FailureCount t + 1"
  "task_Type (SetProcessing b t) = task_Type t" "task_Type (IncrementFailureCount t) = task_Type t"
  "compactionID (SetProcessing b t) = compactionID t" "compactionID (IncrementFailureCount t) = compactionID t"
  by (simp_all add: SetProcessing_def IncrementFailureCount_def)

lemma MergeLabels_snoc: "MergeLabels (ms @ [m]) = MergeLabels ms ++ m"
  by (simp add: MergeLabels_def)

section \<open>Properties\<close>

text \<open>
  A deep copy of a task with a new id keeps the type, the queue, the metadata, the failure
  record and the properties of the task, and changes the id and the id label together. It does not
  keep the compaction id: the copy's is empty, so copies of unrelated tasks share one counter of
  the queue.
\<close>

lemma DeepCopyWithNewUUID_keeps:
  "let c = DeepCopyWithNewUUID uuid t in
     task_Id c = uuid \<and> LogLabels c = (LogLabels t)(LogKeyTaskID \<mapsto> uuid) \<and>
     task_Type c = task_Type t \<and> QueueName c = QueueName t \<and> Metadata c = Metadata t \<and>
     FailureCount c = FailureCount t \<and> FailureMessage c = FailureMessage t \<and> Props c = Props t \<and>
     processing c = processing t \<and> compactionID c = []"
  by (simp add: DeepCopyWithNewUUID_def deepCopy_def Let_def)

text \<open>
  Merged labels: a label has the value the last map with that key gives it, and no key is
  invented.
\<close>

lemma MergeLabels_last_wins:
  "MergeLabels ms k = (case find (\<lambda>m. m k \<noteq> None) (rev ms) of None \<Rightarrow> None | Some m \<Rightarrow> m k)"
  by (induction ms rule: rev_induct)
    (auto simp: MergeLabels_snoc map_add_def MergeLabels_def [of "[]"] split: option.splits)

end
