(* ===== verification/Hook_Manager.thy ===== *)
theory Hook_Manager
  imports Hook_Config Conversion_Props Task_Model "HOL-Library.List_Lexorder" "HOL-Library.Char_ord"
begin

text \<open>
  \<open>pkg/hook/hook_manager.go\<close>, \<open>pkg/shell-operator/hook_task_factory.go\<close>: loading of hooks, the indices over them, and the tasks made for events.

  Running a hook with \<open>--config\<close> and parsing its answer is the argument \<open>fetch\<close> (\<open>None\<close>: an error). Hooks are pointers shared by the
  indices, so they live in a list indexed by address. \<open>sort.Slice\<close> is not stable: the sort by order is the argument \<open>sorter\<close>,
  of which only \<open>go_sort\<close> is assumed. Order values are rationals (floats without NaN). Log and metric labels of
  bindings are left out.
\<close>

section \<open>Hooks\<close>

record ('v, 'm) hook =
  h_Name :: string
  h_Path :: string
  h_Config :: "('v, 'm) HookConfig"
  h_Controller :: "('v, 'm) HookController"

text \<open>Webhook ids come from the names of the bindings.\<close>

definition update_webhook :: "'spec admission_binding \<Rightarrow> 'spec admission_binding" where
  "update_webhook config = config\<lparr>ab_Webhook := UpdateIds [] (ab_BindingName config) (ab_Webhook config)\<rparr>"

definition enrichHookMetadata :: "('v, 'm) HookConfig \<Rightarrow> ('v, 'm) HookConfig" where
  "enrichHookMetadata c = c\<lparr>KubernetesValidating := map update_webhook (KubernetesValidating c),
     KubernetesMutating := map update_webhook (KubernetesMutating c)\<rparr>"

definition wireHookController :: "('v, 'm) HookConfig \<Rightarrow> ('v, 'm) HookController" where
  "wireHookController c =
     InitAdmissionBindings (KubernetesValidating c) (KubernetesMutating c)
       (InitConversionBindings (KubernetesConversion c)
         (InitScheduleBindings (Schedules c) (InitKubernetesBindings (OnKubernetesEvents c) NewHookController)))"

text \<open>\<open>filepath.Rel\<close> for a path below the base directory; other paths are not hooks of the directory.\<close>

definition path_Rel :: "string \<Rightarrow> string \<Rightarrow> string option" where
  "path_Rel base targ = (if take (length base + 1) targ = base @ ''/'' then Some (drop (length base + 1) targ) else None)"

definition loadHook :: "(string \<Rightarrow> ('v, 'm) HookConfig option) \<Rightarrow> string \<Rightarrow> string \<Rightarrow> ('v, 'm) hook option" where
  "loadHook fetch workingDir hookPath =
     Option.bind (path_Rel workingDir hookPath) (\<lambda>hookName.
       map_option (\<lambda>c. let c = enrichHookMetadata c
                        in \<lparr>h_Name = hookName, h_Path = hookPath, h_Config = c, h_Controller = wireHookController c\<rparr>)
         (fetch hookPath))"

section \<open>The manager\<close>

record ('v, 'm) hook_manager =
  hook_heap :: "('v, 'm) hook list"
  hookNamesInOrder :: "string list"
  hooksByName :: "string \<rightharpoonup> nat"
  hooksInOrder :: "BindingType \<rightharpoonup> nat list"
  conversionChains :: ChainStorage

definition NewHookManager :: "('v, 'm) hook_manager" where
  "NewHookManager = \<lparr>hook_heap = [], hookNamesInOrder = [], hooksByName = Map.empty, hooksInOrder = Map.empty,
     conversionChains = NewChainStorage\<rparr>"

definition append_hook :: "nat \<Rightarrow> BindingType \<Rightarrow> (BindingType \<rightharpoonup> nat list) \<Rightarrow> (BindingType \<rightharpoonup> nat list)" where
  "append_hook p binding ix = ix(binding \<mapsto> (case ix binding of None \<Rightarrow> [] | Some ps \<Rightarrow> ps) @ [p])"

definition register_hook :: "('v, 'm) hook \<Rightarrow> ('v, 'm) hook_manager \<Rightarrow> ('v, 'm) hook_manager" where
  "register_hook h hm =
     (let p = length (hook_heap hm)
      in hm\<lparr>hook_heap := hook_heap hm @ [h],
            hooksInOrder := fold (append_hook p) (Bindings (h_Config h)) (hooksInOrder hm),
            hooksByName := (hooksByName hm)(h_Name h \<mapsto> p),
            hookNamesInOrder := hookNamesInOrder hm @ [h_Name h]\<rparr>)"

fun load_hooks :: "(string \<Rightarrow> ('v, 'm) HookConfig option) \<Rightarrow> string \<Rightarrow> string list \<Rightarrow> ('v, 'm) hook_manager \<Rightarrow>
    ('v, 'm) hook_manager option" where
  "load_hooks fetch workingDir [] hm = Some hm"
| "load_hooks fetch workingDir (hookPath # paths) hm =
     (case loadHook fetch workingDir hookPath of
        None \<Rightarrow> None
      | Some h \<Rightarrow> load_hooks fetch workingDir paths (register_hook h hm))"

definition GetHook :: "('v, 'm) hook_manager \<Rightarrow> string \<Rightarrow> ('v, 'm) hook option" where
  "GetHook hm name = map_option (nth (hook_heap hm)) (hooksByName hm name)"

abbreviation order_of :: "OnStartupConfig option \<Rightarrow> rat" where "order_of startup \<equiv> Order (the startup)"

text \<open>\<open>None\<close>: the error for a hook without order.\<close>

definition GetHooksInOrder :: "((nat \<Rightarrow> rat) \<Rightarrow> nat list \<Rightarrow> nat list) \<Rightarrow> ('v, 'm) hook_manager \<Rightarrow> BindingType \<Rightarrow> string list option" where
  "GetHooksInOrder sorter hm binding =
     (case hooksInOrder hm binding of
        None \<Rightarrow> Some []
      | Some hooks \<Rightarrow>
          if binding = bt_OnStartup then
            (if list_all (\<lambda>p. HasBinding (h_Config (hook_heap hm ! p)) bt_OnStartup) hooks
             then Some (map (\<lambda>p. h_Name (hook_heap hm ! p)) (sorter (\<lambda>p. order_of (OnStartup (h_Config (hook_heap hm ! p)))) hooks))
             else None)
          else Some (map (\<lambda>p. h_Name (hook_heap hm ! p)) hooks))"

text \<open>Hooks of a binding type, as the event handlers see them. \<open>None\<close>: a hook is nil and is used.\<close>

definition hooks_for :: "((nat \<Rightarrow> rat) \<Rightarrow> nat list \<Rightarrow> nat list) \<Rightarrow> ('v, 'm) hook_manager \<Rightarrow> BindingType \<Rightarrow> ('v, 'm) hook list option" where
  "hooks_for sorter hm binding =
     those (map (GetHook hm) (case GetHooksInOrder sorter hm binding of None \<Rightarrow> [] | Some names \<Rightarrow> names))"

definition put_rules :: "('v, 'm) hook \<Rightarrow> ChainStorage \<Rightarrow> ChainStorage" where
  "put_rules h cs =
     fold (\<lambda>cfg cs.
         let crdName = CrdName (cb_Webhook cfg); (chain, cs) = chain_Get crdName cs
         in AList.update crdName (fold chain_Put (Rules (cb_Webhook cfg)) chain) cs)
       (KubernetesConversion (h_Config h)) cs"

definition UpdateConversionChains :: "((nat \<Rightarrow> rat) \<Rightarrow> nat list \<Rightarrow> nat list) \<Rightarrow> ('v, 'm) hook_manager \<Rightarrow> ('v, 'm) hook_manager option" where
  "UpdateConversionChains sorter hm =
     map_option (\<lambda>hooks. hm\<lparr>conversionChains := fold put_rules hooks (conversionChains hm)\<rparr>)
       (hooks_for sorter hm bt_KubernetesConversion)"

text \<open>\<open>Init\<close> rebuilds the indices; \<open>Inl\<close> is an error, \<open>None\<close> a panic. \<open>discover\<close> is the list of hook files, \<open>None\<close> an error.\<close>

definition hm_Init :: "((nat \<Rightarrow> rat) \<Rightarrow> nat list \<Rightarrow> nat list) \<Rightarrow> (string \<Rightarrow> ('v, 'm) HookConfig option) \<Rightarrow> string \<Rightarrow> string list option \<Rightarrow>
    ('v, 'm) hook_manager \<Rightarrow> (unit + ('v, 'm) hook_manager) option" where
  "hm_Init sorter fetch workingDir discover hm =
     (case discover of
        None \<Rightarrow> Some (Inl ())
      | Some hookPaths \<Rightarrow>
          (case load_hooks fetch workingDir (sort hookPaths) (NewHookManager\<lparr>conversionChains := conversionChains hm\<rparr>) of
             None \<Rightarrow> Some (Inl ())
           | Some hm \<Rightarrow> map_option Inr (UpdateConversionChains sorter hm)))"

section \<open>Tasks for events\<close>

type_synonym run_task = "(BindingContext list, string list) HookMetadata BaseTask"

definition NewHookRunTask :: "string \<Rightarrow> string \<Rightarrow> BindingType \<Rightarrow> BindingExecutionInfo \<Rightarrow> labels \<Rightarrow> run_task" where
  "NewHookRunTask uuid hookName bindingType info logLabels =
     WithCompactionID hookName (WithQueueName (bei_QueueName info) (WithLogLabels logLabels
       (WithMetadata (MetaHook \<lparr>HookName = hookName, hm_Binding = bei_Binding info, hm_Group = bei_Group info,
           hm_BindingType = bindingType, hm_BindingContext = bei_BindingContext info, AllowFailure = bei_AllowFailure info,
           MonitorIDs = [], ExecuteOnSynchronization = False\<rparr>)
         (NewTask uuid HookRun))))"

definition NewSyncHookRunTask :: "kube_world \<Rightarrow> string \<Rightarrow> string \<Rightarrow> OnKubernetesEventConfig \<Rightarrow> BindingExecutionInfo \<Rightarrow> labels \<Rightarrow> run_task" where
  "NewSyncHookRunTask w uuid hookName config info logLabels =
     WithCompactionID hookName (WithQueueName ''main'' (WithLogLabels logLabels
       (WithMetadata (MetaHook \<lparr>HookName = hookName, hm_Binding = bei_Binding info, hm_Group = bei_Group info,
           hm_BindingType = bt_OnKubernetesEvent, hm_BindingContext = bei_BindingContext info,
           AllowFailure = bei_AllowFailure info, MonitorIDs = [binding_monitor w config],
           ExecuteOnSynchronization = ok_ExecuteHookOnSynchronization config\<rparr>)
         (NewTask uuid HookRun))))"

text \<open>The event handlers return what the callback makes of each pair of hook and execution info, in order.\<close>

definition CreateTasksFromKubeEvent :: "((nat \<Rightarrow> rat) \<Rightarrow> nat list \<Rightarrow> nat list) \<Rightarrow> kube_world \<Rightarrow> ('v, 'm) hook_manager \<Rightarrow> KubeEvent \<Rightarrow>
    (('v, 'm) hook \<Rightarrow> BindingExecutionInfo \<Rightarrow> 't) \<Rightarrow> 't list option" where
  "CreateTasksFromKubeEvent sorter w hm ev createTaskFn =
     map_option (\<lambda>hooks. concat (map (\<lambda>h. if CanHandleKubeEvent (h_Controller h) ev
         then map (createTaskFn h) (HandleKubeEvent w (h_Controller h) ev) else []) hooks))
       (hooks_for sorter hm bt_OnKubernetesEvent)"

definition HandleCreateTasksFromScheduleEvent :: "((nat \<Rightarrow> rat) \<Rightarrow> nat list \<Rightarrow> nat list) \<Rightarrow> iteration \<Rightarrow> ('v, 'm) hook_manager \<Rightarrow> string \<Rightarrow>
    (('v, 'm) hook \<Rightarrow> BindingExecutionInfo \<Rightarrow> 't) \<Rightarrow> 't list option" where
  "HandleCreateTasksFromScheduleEvent sorter perm hm crontab createTaskFn =
     map_option (\<lambda>hooks. concat (map (\<lambda>h. if CanHandleScheduleEvent (h_Controller h) crontab
         then map (createTaskFn h) (HandleScheduleEvent perm (h_Controller h) crontab) else []) hooks))
       (hooks_for sorter hm bt_Schedule)"

definition admission_infos :: "(Event \<Rightarrow> json) \<Rightarrow> Event \<Rightarrow> ('v, 'm) hook list \<Rightarrow> (('v, 'm) hook \<times> BindingExecutionInfo) list" where
  "admission_infos review event hooks =
     concat (map (\<lambda>h. if CanHandleAdmissionEvent (h_Controller h) event
       then map (Pair h) (hc_HandleAdmissionEvent review (h_Controller h) event) else []) hooks)"

definition HandleAdmissionEvent :: "((nat \<Rightarrow> rat) \<Rightarrow> nat list \<Rightarrow> nat list) \<Rightarrow> (Event \<Rightarrow> json) \<Rightarrow> ('v, 'm) hook_manager \<Rightarrow> Event \<Rightarrow>
    (('v, 'm) hook \<times> BindingExecutionInfo) list option" where
  "HandleAdmissionEvent sorter review hm event = do {
     vHooks \<leftarrow> hooks_for sorter hm bt_KubernetesValidating;
     mHooks \<leftarrow> hooks_for sorter hm bt_KubernetesMutating;
     Some (admission_infos review event vHooks @ admission_infos review event mHooks)
   }"

definition DetectAdmissionEventType :: "((nat \<Rightarrow> rat) \<Rightarrow> nat list \<Rightarrow> nat list) \<Rightarrow> ('v, 'm) hook_manager \<Rightarrow> Event \<Rightarrow> BindingType option" where
  "DetectAdmissionEventType sorter hm event = do {
     vHooks \<leftarrow> hooks_for sorter hm bt_KubernetesValidating;
     mHooks \<leftarrow> hooks_for sorter hm bt_KubernetesMutating;
     Some (if \<exists>h \<in> set vHooks. CanHandleAdmissionEvent (h_Controller h) event then bt_KubernetesValidating
           else if \<exists>h \<in> set mHooks. CanHandleAdmissionEvent (h_Controller h) event then bt_KubernetesMutating
           else [])
   }"

definition HandleConversionEvent :: "((nat \<Rightarrow> rat) \<Rightarrow> nat list \<Rightarrow> nat list) \<Rightarrow> ('v, 'm) hook_manager \<Rightarrow> string \<Rightarrow> json \<Rightarrow> Rule \<Rightarrow>
    (('v, 'm) hook \<times> BindingExecutionInfo) list option" where
  "HandleConversionEvent sorter hm crdName review rule =
     map_option (\<lambda>hooks. concat (map (\<lambda>h. if CanHandleConversionEvent (h_Controller h) crdName rule
         then map (Pair h) (hc_HandleConversionEvent (h_Controller h) crdName review rule) else []) hooks))
       (hooks_for sorter hm bt_KubernetesConversion)"

section \<open>Lemmas\<close>

locale go_sort =
  fixes sorter :: "(nat \<Rightarrow> rat) \<Rightarrow> nat list \<Rightarrow> nat list"
  assumes sorter_perm: "mset (sorter k ps) = mset ps"
    and sorter_sorted: "sorted (map k (sorter k ps))"
begin

lemma sorter_set [simp]: "set (sorter k ps) = set ps"
  using sorter_perm by (metis set_mset_mset)

lemma sorter_distinct [simp]: "distinct (sorter k ps) = distinct ps"
  by (rule mset_eq_imp_distinct_iff [OF sorter_perm])

end

interpretation stable: go_sort sort_key
  by unfold_locales simp_all

subsection \<open>The indices\<close>

definition binding_hooks :: "('v, 'm) hook list \<Rightarrow> BindingType \<Rightarrow> nat list" where
  "binding_hooks hs ty = filter (\<lambda>p. HasBinding (h_Config (hs ! p)) ty) [0..<length hs]"

definition indexed :: "('v, 'm) hook list \<Rightarrow> ('v, 'm) hook_manager \<Rightarrow> bool" where
  "indexed hs hm \<longleftrightarrow> hook_heap hm = hs \<and> hookNamesInOrder hm = map h_Name hs \<and> distinct (map h_Name hs) \<and>
     (\<forall>name p. hooksByName hm name = Some p \<longleftrightarrow> p < length hs \<and> h_Name (hs ! p) = name) \<and>
     (\<forall>ty. (case hooksInOrder hm ty of None \<Rightarrow> [] | Some ps \<Rightarrow> ps) = binding_hooks hs ty)"

lemma binding_hooks_nth: "map (nth hs) (binding_hooks hs ty) = filter (\<lambda>h. HasBinding (h_Config h) ty) hs"
proof -
  have "filter (\<lambda>h. HasBinding (h_Config h) ty) (map (nth hs) [0..<length hs]) = map (nth hs) (binding_hooks hs ty)"
    by (simp add: filter_map binding_hooks_def comp_def)
  then show ?thesis by (simp add: map_nth)
qed

lemma validBindingTypes_distinct: "distinct validBindingTypes"
  by (simp add: validBindingTypes_def)

lemma HasBinding_valid: "HasBinding c ty \<Longrightarrow> ty \<in> set validBindingTypes"
  by (simp add: HasBinding_def validBindingTypes_def split: if_splits)

lemma set_Bindings: "ty \<in> set (Bindings c) \<longleftrightarrow> HasBinding c ty"
  by (auto simp: Bindings_def HasBinding_valid)

lemma fold_append_hook:
  "distinct tys \<Longrightarrow> fold (append_hook p) tys ix ty =
     (if ty \<in> set tys then Some ((case ix ty of None \<Rightarrow> [] | Some ps \<Rightarrow> ps) @ [p]) else ix ty)"
  by (induction tys arbitrary: ix) (auto simp: append_hook_def)

lemma indexed_new: "indexed [] (NewHookManager\<lparr>conversionChains := cs\<rparr>)"
  by (simp add: indexed_def NewHookManager_def binding_hooks_def)

lemma indexed_register:
  assumes "indexed hs hm" and "h_Name h \<notin> set (map h_Name hs)"
  shows "indexed (hs @ [h]) (register_hook h hm)"
proof -
  have ix: "(case fold (append_hook (length hs)) (Bindings (h_Config h)) (hooksInOrder hm) ty of None \<Rightarrow> [] | Some ps \<Rightarrow> ps) =
      binding_hooks hs ty @ (if HasBinding (h_Config h) ty then [length hs] else [])" for ty
    using assms(1) fold_append_hook [of "Bindings (h_Config h)" "length hs" "hooksInOrder hm" ty]
    by (simp add: indexed_def set_Bindings Bindings_def [of "h_Config h"] validBindingTypes_distinct)
      (auto simp: Bindings_def HasBinding_valid)
  have bh: "binding_hooks (hs @ [h]) ty = binding_hooks hs ty @ (if HasBinding (h_Config h) ty then [length hs] else [])" for ty
    by (auto simp: binding_hooks_def nth_append intro!: filter_cong)
  have names: "((hooksByName hm)(h_Name h \<mapsto> length hs)) name = Some p \<longleftrightarrow> p < length (hs @ [h]) \<and> h_Name ((hs @ [h]) ! p) = name" for name p
  proof -
    have "h_Name (hs ! p) \<noteq> h_Name h" if "p < length hs" using assms(2) imageI [OF nth_mem [OF that], of h_Name] by (metis list.set_map)
    moreover have "hooksByName hm name = Some p \<longleftrightarrow> p < length hs \<and> h_Name (hs ! p) = name" using assms(1) unfolding indexed_def by blast
    ultimately show ?thesis by (auto simp: nth_append less_Suc_eq)
  qed
  show ?thesis
    using assms ix bh names by (simp add: indexed_def register_hook_def Let_def)
qed

lemma indexed_GetHook: "indexed hs hm \<Longrightarrow> p < length hs \<Longrightarrow> GetHook hm (h_Name (hs ! p)) = Some (hs ! p)"
proof -
  assume i: "indexed hs hm" and p: "p < length hs"
  have "hooksByName hm (h_Name (hs ! p)) = Some p" using i p unfolding indexed_def by blast
  moreover have "hook_heap hm = hs" using i unfolding indexed_def by blast
  ultimately show ?thesis by (simp add: GetHook_def)
qed

lemma those_map_Some: "(\<And>x. x \<in> set xs \<Longrightarrow> f x = Some (g x)) \<Longrightarrow> those (map f xs) = Some (map g xs)"
  by (induction xs) auto

context go_sort
begin

lemma names_in_order:
  assumes "indexed hs hm"
  shows "\<exists>ps. GetHooksInOrder sorter hm ty = Some (map (\<lambda>p. h_Name (hs ! p)) ps) \<and> mset ps = mset (binding_hooks hs ty) \<and>
     (if ty = bt_OnStartup then sorted (map (\<lambda>p. order_of (OnStartup (h_Config (hs ! p)))) ps) else ps = binding_hooks hs ty)"
proof (cases "hooksInOrder hm ty")
  case None
  with assms have "binding_hooks hs ty = []" unfolding indexed_def by (metis option.case(1))
  with None show ?thesis by (simp add: GetHooksInOrder_def)
next
  case (Some ps)
  with assms have ps: "ps = binding_hooks hs ty" unfolding indexed_def by (metis option.case(2))
  have heap: "hook_heap hm = hs" using assms by (simp add: indexed_def)
  have "list_all (\<lambda>p. HasBinding (h_Config (hs ! p)) ty) ps" by (simp add: ps binding_hooks_def list_all_iff)
  then show ?thesis
    using Some ps sorter_perm sorter_sorted by (auto simp: GetHooksInOrder_def heap)
qed

lemma hooks_for_indexed:
  assumes "indexed hs hm"
  shows "\<exists>ps. hooks_for sorter hm ty = Some (map (nth hs) ps) \<and> GetHooksInOrder sorter hm ty = Some (map (\<lambda>p. h_Name (hs ! p)) ps) \<and>
     mset ps = mset (binding_hooks hs ty) \<and>
     (if ty = bt_OnStartup then sorted (map (\<lambda>p. order_of (OnStartup (h_Config (hs ! p)))) ps) else ps = binding_hooks hs ty)"
proof -
  from names_in_order [OF assms, of ty] obtain ps where ps:
    "GetHooksInOrder sorter hm ty = Some (map (\<lambda>p. h_Name (hs ! p)) ps)" "mset ps = mset (binding_hooks hs ty)"
    "if ty = bt_OnStartup then sorted (map (\<lambda>p. order_of (OnStartup (h_Config (hs ! p)))) ps) else ps = binding_hooks hs ty" by blast
  have "p < length hs" if "p \<in> set ps" for p
  proof -
    have "p \<in> set (binding_hooks hs ty)" using that ps(2) by (metis set_mset_mset)
    then show ?thesis by (simp add: binding_hooks_def)
  qed
  then have "those (map (GetHook hm) (map (\<lambda>p. h_Name (hs ! p)) ps)) = Some (map (nth hs) ps)"
    unfolding map_map comp_def by (intro those_map_Some indexed_GetHook [OF assms])
  with ps show ?thesis by (auto simp: hooks_for_def)
qed

end

subsection \<open>Loading\<close>

lemma load_hooks_indexed:
  assumes "indexed hs hm" and "load_hooks fetch wd paths hm = Some hm'"
    and "distinct (map h_Path hs @ paths)" and "\<forall>h \<in> set hs. path_Rel wd (h_Path h) = Some (h_Name h)"
  shows "\<exists>hs'. indexed (hs @ hs') hm' \<and> conversionChains hm' = conversionChains hm \<and>
     list_all2 (\<lambda>p h. loadHook fetch wd p = Some h) paths hs'"
  using assms
proof (induction paths arbitrary: hs hm)
  case Nil
  then show ?case by simp
next
  case (Cons p paths)
  from Cons.prems(2) obtain h where h: "loadHook fetch wd p = Some h" "load_hooks fetch wd paths (register_hook h hm) = Some hm'"
    by (auto split: option.splits)
  then have rel: "path_Rel wd p = Some (h_Name h)" "h_Path h = p"
    by (auto simp: loadHook_def Let_def bind_eq_Some_conv)
  have "h_Name h \<notin> set (map h_Name hs)"
  proof
    assume "h_Name h \<in> set (map h_Name hs)"
    then obtain g where g: "g \<in> set hs" "h_Name g = h_Name h" by auto
    with Cons.prems(4) have "path_Rel wd (h_Path g) = path_Rel wd p" using rel by simp
    with rel have "h_Path g = p"
      by (auto simp: path_Rel_def split: if_splits) (metis append_take_drop_id)
    with g Cons.prems(3) show False by auto
  qed
  from indexed_register [OF Cons.prems(1) this]
  have "indexed (hs @ [h]) (register_hook h hm)" .
  from Cons.IH [OF this h(2)] Cons.prems(3,4) rel h(1)
  obtain hs' where "indexed ((hs @ [h]) @ hs') hm'" "conversionChains hm' = conversionChains (register_hook h hm)"
      "list_all2 (\<lambda>p h. loadHook fetch wd p = Some h) paths hs'" by auto
  then show ?case using h(1) by (intro exI [of _ "h # hs'"]) (simp add: register_hook_def Let_def)
qed

lemma indexed_chains [simp]: "indexed hs (hm\<lparr>conversionChains := cs\<rparr>) = indexed hs hm"
  by (simp add: indexed_def)

subsection \<open>Conversion chains\<close>

definition hook_rules :: "('v, 'm) hook \<Rightarrow> (string \<times> Rule) set" where
  "hook_rules h = {(CrdName (cb_Webhook cfg), r) | cfg r. cfg \<in> set (KubernetesConversion (h_Config h)) \<and> r \<in> set (Rules (cb_Webhook cfg))}"

lemma chain_Puts_inv:
  "chain_inv c \<Longrightarrow> chain_inv (fold chain_Put rs c) \<and> base_rules (fold chain_Put rs c) = set rs \<union> base_rules c"
  by (induction rs arbitrary: c) (auto simp: chain_Put_inv base_rules_Put)

lemma chain_Get_get: "map_get empty_chain (snd (chain_Get crd cs)) n = map_get empty_chain cs n" "fst (chain_Get crd cs) = map_get empty_chain cs crd"
  by (auto simp: chain_Get_def Let_def map_get_update map_get_not_key)

lemma put_rules_inv:
  assumes "storage_inv R cs" shows "storage_inv (hook_rules h \<union> R) (put_rules h cs)"
proof -
  have step: "storage_inv (Pair (CrdName (cb_Webhook cfg)) ` set (Rules (cb_Webhook cfg)) \<union> R)
      (let crdName = CrdName (cb_Webhook cfg); (chain, cs) = chain_Get crdName cs
       in AList.update crdName (fold chain_Put (Rules (cb_Webhook cfg)) chain) cs)"
    if "storage_inv R cs" for cfg R cs
    using storage_invD [OF that] chain_Puts_inv [OF storage_invD(1) [OF that]]
    by (auto simp: storage_inv_def Let_def case_prod_beta map_get_update chain_Get_get)
  have "storage_inv ({(CrdName (cb_Webhook cfg), r) | cfg r. cfg \<in> set cfgs \<and> r \<in> set (Rules (cb_Webhook cfg))} \<union> R)
      (fold (\<lambda>cfg cs. let crdName = CrdName (cb_Webhook cfg); (chain, cs) = chain_Get crdName cs
         in AList.update crdName (fold chain_Put (Rules (cb_Webhook cfg)) chain) cs) cfgs cs)"
    if "storage_inv R cs" for cfgs R cs
    using that
  proof (induction cfgs arbitrary: R cs)
    case (Cons cfg cfgs)
    have "{(CrdName (cb_Webhook c), r) | c r. c \<in> set (cfg # cfgs) \<and> r \<in> set (Rules (cb_Webhook c))} \<union> R =
        {(CrdName (cb_Webhook c), r) | c r. c \<in> set cfgs \<and> r \<in> set (Rules (cb_Webhook c))} \<union>
        (Pair (CrdName (cb_Webhook cfg)) ` set (Rules (cb_Webhook cfg)) \<union> R)" by auto
    then show ?case using Cons.IH [OF step [OF Cons.prems, of cfg]] by (simp only: fold_Cons comp_apply)
  qed simp
  from this [OF assms] show ?thesis unfolding hook_rules_def put_rules_def .
qed

lemma fold_put_rules_inv:
  "storage_inv R cs \<Longrightarrow> storage_inv (\<Union> (hook_rules ` set hs) \<union> R) (fold put_rules hs cs)"
proof (induction hs arbitrary: R cs)
  case (Cons h hs)
  from Cons.IH [OF put_rules_inv [OF Cons.prems, of h]] show ?case by (simp add: Un_assoc Un_left_commute)
qed simp

section \<open>Properties\<close>

lemma HasBinding_enrich [simp]: "HasBinding (enrichHookMetadata c) ty = HasBinding c ty"
  by (simp add: HasBinding_def enrichHookMetadata_def)

lemma OnStartup_enrich [simp]: "OnStartup (enrichHookMetadata c) = OnStartup c"
  by (simp add: enrichHookMetadata_def)

text \<open>What \<open>Init\<close> leaves: the hooks of the sorted files, indexed, and all their conversion rules in the chains.\<close>

lemma hm_Init_indexed:
  assumes "go_sort sorter" and "distinct paths" and "storage_inv R (conversionChains hm)"
    and "hm_Init sorter fetch wd (Some paths) hm = Some (Inr hm')"
  obtains hs where "indexed hs hm'" "list_all2 (\<lambda>p h. loadHook fetch wd p = Some h) (sort paths) hs"
    "storage_inv (\<Union> (hook_rules ` set hs) \<union> R) (conversionChains hm')"
proof -
  from assms(4) obtain hm1 where 1: "load_hooks fetch wd (sort paths) (NewHookManager\<lparr>conversionChains := conversionChains hm\<rparr>) = Some hm1"
      "UpdateConversionChains sorter hm1 = Some hm'"
    by (auto simp: hm_Init_def split: option.splits)
  from load_hooks_indexed [OF indexed_new 1(1)] assms(2)
  obtain hs where hs: "indexed hs hm1" "conversionChains hm1 = conversionChains hm" "list_all2 (\<lambda>p h. loadHook fetch wd p = Some h) (sort paths) hs"
    by (auto simp: NewHookManager_def)
  from go_sort.hooks_for_indexed [OF assms(1) hs(1), of bt_KubernetesConversion]
  have "hooks_for sorter hm1 bt_KubernetesConversion = Some (map (nth hs) (binding_hooks hs bt_KubernetesConversion))" by auto
  then have hm': "hm' = hm1\<lparr>conversionChains := fold put_rules (map (nth hs) (binding_hooks hs bt_KubernetesConversion)) (conversionChains hm1)\<rparr>"
    using 1(2) by (simp add: UpdateConversionChains_def)
  have "hook_rules h = {}" if "\<not> HasBinding (h_Config h) bt_KubernetesConversion" for h :: "('a, 'b) hook"
    using that by (simp add: hook_rules_def HasBinding_def)
  then have rules: "\<Union> (hook_rules ` set (map (nth hs) (binding_hooks hs bt_KubernetesConversion))) = \<Union> (hook_rules ` set hs)"
    unfolding binding_hooks_nth by auto
  show ?thesis
  proof (rule that)
    show "indexed hs hm'" using hs(1) by (simp add: hm')
    show "storage_inv (\<Union> (hook_rules ` set hs) \<union> R) (conversionChains hm')"
      using fold_put_rules_inv [OF assms(3), of "map (nth hs) (binding_hooks hs bt_KubernetesConversion)"]
      unfolding hm' rules hs(2) by simp
  qed (rule hs(3))
qed

lemma loadHook_path:
  assumes "loadHook fetch wd p = Some h"
  shows "p = wd @ ''/'' @ h_Name h" "path_Rel wd p = Some (h_Name h)" "\<exists>c. fetch p = Some c \<and> h_Config h = enrichHookMetadata c"
proof -
  from assms show rel: "path_Rel wd p = Some (h_Name h)" and "\<exists>c. fetch p = Some c \<and> h_Config h = enrichHookMetadata c"
    by (auto simp: loadHook_def Let_def bind_eq_Some_conv)
  from rel have "take (length wd + 1) p = wd @ ''/''" "drop (length wd + 1) p = h_Name h" by (auto simp: path_Rel_def split: if_splits)
  then show "p = wd @ ''/'' @ h_Name h" by (metis append_assoc append_take_drop_id)
qed

lemma append_le_append [simp]: "(xs @ a \<le> xs @ b) = (a \<le> (b :: string))"
  by (induction xs) simp_all

lemma loaded_names:
  assumes "list_all2 (\<lambda>p h. loadHook fetch wd p = Some h) (sort paths) hs"
  shows "sorted (map h_Name hs)"
    and "h_Name ` {h \<in> set hs. HasBinding (h_Config h) ty} =
       {name. \<exists>p \<in> set paths. \<exists>c. path_Rel wd p = Some name \<and> fetch p = Some c \<and> HasBinding c ty}"
proof -
  from assms have "sort paths = map (\<lambda>h. (wd @ ''/'') @ h_Name h) hs"
    by (induction rule: list_all2_induct) (auto dest: loadHook_path(1))
  then have "sorted (map (\<lambda>h. (wd @ ''/'') @ h_Name h) hs)" by (metis sorted_sort)
  then show "sorted (map h_Name hs)" unfolding sorted_map append_le_append by simp
  have l: "loadHook fetch wd (sort paths ! i) = Some (hs ! i)" "i < length (sort paths)" if "i < length hs" for i
    using list_all2_nthD2 [OF assms that] list_all2_lengthD [OF assms] that by simp_all
  show "h_Name ` {h \<in> set hs. HasBinding (h_Config h) ty} =
     {name. \<exists>p \<in> set paths. \<exists>c. path_Rel wd p = Some name \<and> fetch p = Some c \<and> HasBinding c ty}"
  proof (intro subset_antisym subsetI)
    fix name assume "name \<in> h_Name ` {h \<in> set hs. HasBinding (h_Config h) ty}"
    then obtain i where i: "i < length hs" "HasBinding (h_Config (hs ! i)) ty" "name = h_Name (hs ! i)"
      by (auto simp: in_set_conv_nth)
    have "sort paths ! i \<in> set paths" using nth_mem [OF l(2) [OF i(1)]] by simp
    with loadHook_path(2,3) [OF l(1) [OF i(1)]] i(2,3)
    show "name \<in> {name. \<exists>p \<in> set paths. \<exists>c. path_Rel wd p = Some name \<and> fetch p = Some c \<and> HasBinding c ty}" by auto
  next
    fix name assume "name \<in> {name. \<exists>p \<in> set paths. \<exists>c. path_Rel wd p = Some name \<and> fetch p = Some c \<and> HasBinding c ty}"
    then obtain p c where p: "p \<in> set (sort paths)" "path_Rel wd p = Some name" "fetch p = Some c" "HasBinding c ty" by auto
    then obtain i where i: "i < length (sort paths)" "p = sort paths ! i" by (metis in_set_conv_nth)
    then have hs: "i < length hs" using list_all2_lengthD [OF assms] by simp
    from loadHook_path(2,3) [OF l(1) [OF hs]] p i(2) have "h_Name (hs ! i) = name" "HasBinding (h_Config (hs ! i)) ty" by auto
    with hs show "name \<in> h_Name ` {h \<in> set hs. HasBinding (h_Config h) ty}" by (auto intro!: image_eqI [of _ _ "hs ! i"])
  qed
qed

lemma load_hooks_None:
  "load_hooks fetch wd paths hm = None \<Longrightarrow> \<exists>p \<in> set paths. loadHook fetch wd p = None"
  by (induction paths arbitrary: hm) (auto split: option.splits)

lemma hm_Init_total:
  assumes "go_sort sorter" "distinct paths" shows "hm_Init sorter fetch wd (Some paths) hm \<noteq> None"
proof -
  have "UpdateConversionChains sorter hm1 \<noteq> None" if
    "load_hooks fetch wd (sort paths) (NewHookManager\<lparr>conversionChains := conversionChains hm\<rparr>) = Some hm1" for hm1
  proof -
    from load_hooks_indexed [OF indexed_new that] assms(2) obtain hs where "indexed hs hm1" by auto
    from go_sort.hooks_for_indexed [OF assms(1) this, of bt_KubernetesConversion] show ?thesis
      by (auto simp: UpdateConversionChains_def)
  qed
  then show ?thesis by (auto simp: hm_Init_def split: option.splits)
qed

lemma NewHookManager_chains: "storage_inv {} (conversionChains NewHookManager)"
  by (simp add: NewHookManager_def storage_inv_def NewChainStorage_def)

text \<open>
  C30. Loading hooks never panics and fails only if some hook cannot be loaded. Afterwards, for every type of binding and however
  \<open>sort.Slice\<close> treats equal orders: the hooks listed are exactly those whose configuration has the binding, each once, found by
  name; onStartup hooks come in the order of their order values, all others in the order of their names.
\<close>

theorem hooks_in_order:
  assumes "go_sort sorter" and "distinct paths"
  shows "case hm_Init sorter fetch wd (Some paths) NewHookManager of
     None \<Rightarrow> False
   | Some (Inl _) \<Rightarrow> (\<exists>p \<in> set paths. loadHook fetch wd p = None)
   | Some (Inr hm) \<Rightarrow> (\<exists>names. GetHooksInOrder sorter hm ty = Some names \<and> distinct names \<and>
       set names = {name. \<exists>p \<in> set paths. \<exists>c. path_Rel wd p = Some name \<and> fetch p = Some c \<and> HasBinding c ty} \<and>
       list_all (\<lambda>name. GetHook hm name \<noteq> None) names \<and>
       (if ty = bt_OnStartup then sorted (map (\<lambda>name. order_of (OnStartup (h_Config (the (GetHook hm name))))) names) else sorted names))"
proof (cases "hm_Init sorter fetch wd (Some paths) NewHookManager")
  case None
  with hm_Init_total [OF assms] show ?thesis by blast
next
  case (Some r)
  show ?thesis
  proof (cases r)
    case (Inl u)
    then have "load_hooks fetch wd (sort paths) NewHookManager = None"
      using Some by (auto simp: hm_Init_def split: option.splits)
    from load_hooks_None [OF this] Some Inl show ?thesis by simp
  next
    case (Inr hm)
    from hm_Init_indexed [OF assms NewHookManager_chains Some [unfolded Inr]]
    obtain hs where hs: "indexed hs hm" "list_all2 (\<lambda>p h. loadHook fetch wd p = Some h) (sort paths) hs" by blast
    from go_sort.hooks_for_indexed [OF assms(1) hs(1), of ty]
    obtain ps where ps: "GetHooksInOrder sorter hm ty = Some (map (\<lambda>p. h_Name (hs ! p)) ps)" "mset ps = mset (binding_hooks hs ty)"
        "if ty = bt_OnStartup then sorted (map (\<lambda>p. order_of (OnStartup (h_Config (hs ! p)))) ps) else ps = binding_hooks hs ty" by blast
    have set_ps: "set ps = set (binding_hooks hs ty)" using ps(2) by (metis set_mset_mset)
    then have get: "GetHook hm (h_Name (hs ! p)) = Some (hs ! p)" if "p \<in> set ps" for p
      using that indexed_GetHook [OF hs(1)] by (simp add: binding_hooks_def)
    have names: "map (\<lambda>p. h_Name (hs ! p)) (binding_hooks hs ty) = map h_Name (filter (\<lambda>h. HasBinding (h_Config h) ty) hs)"
      unfolding binding_hooks_nth [symmetric] map_map comp_def ..
    have mset_names: "mset (map (\<lambda>p. h_Name (hs ! p)) ps) = mset (map h_Name (filter (\<lambda>h. HasBinding (h_Config h) ty) hs))"
      unfolding names [symmetric] using ps(2) by simp
    have "distinct (map h_Name hs)" using hs(1) by (simp add: indexed_def)
    then have "distinct (map (\<lambda>p. h_Name (hs ! p)) ps)"
      unfolding mset_eq_imp_distinct_iff [OF mset_names] by (rule distinct_map_filter)
    moreover have "set (map (\<lambda>p. h_Name (hs ! p)) ps) = h_Name ` {h \<in> set hs. HasBinding (h_Config h) ty}"
      using mset_eq_setD [OF mset_names] by simp
    moreover have "list_all (\<lambda>name. GetHook hm name \<noteq> None) (map (\<lambda>p. h_Name (hs ! p)) ps)"
      by (simp add: list_all_iff get)
    moreover have order: "map (\<lambda>name. order_of (OnStartup (h_Config (the (GetHook hm name))))) (map (\<lambda>p. h_Name (hs ! p)) ps) =
        map (\<lambda>p. order_of (OnStartup (h_Config (hs ! p)))) ps"
      by (simp add: get)
    moreover have "sorted (map (\<lambda>p. h_Name (hs ! p)) ps)" if "ty \<noteq> bt_OnStartup"
    proof -
      have "map (\<lambda>p. h_Name (hs ! p)) ps = map h_Name (filter (\<lambda>h. HasBinding (h_Config h) ty) hs)"
        using ps(3) that names by simp
      then show ?thesis using sorted_filter [OF loaded_names(1) [OF hs(2)]] by simp
    qed
    moreover have "sorted (map (\<lambda>name. order_of (OnStartup (h_Config (the (GetHook hm name))))) (map (\<lambda>p. h_Name (hs ! p)) ps))"
      if "ty = bt_OnStartup" unfolding order using ps(3) that by simp
    ultimately show ?thesis
      using ps(1) Some Inr loaded_names(2) [OF hs(2), of ty] by (auto simp del: map_map)
  qed
qed

definition demo_hook_config :: "rat option \<Rightarrow> (unit, unit) HookConfig" where
  "demo_hook_config order = (empty_config ''v1'')\<lparr>OnStartup :=
     map_option (\<lambda>x. \<lparr>os_BindingName = bt_OnStartup, os_AllowFailure = False, Order = x\<rparr>) order\<rparr>"

theorem hooks_in_order_witness:
  "\<exists>hm. hm_Init sort_key (\<lambda>p. Some (demo_hook_config (Some (if p = ''/h/a'' then 10 else 5)))) ''/h'' (Some [''/h/b'', ''/h/a'']) NewHookManager = Some (Inr hm) \<and>
     (\<exists>names. GetHooksInOrder sort_key hm bt_OnStartup = Some names \<and> distinct names)"
proof -
  let ?fetch = "\<lambda>p. Some (demo_hook_config (Some (if p = ''/h/a'' then 10 else 5)))"
  have d: "distinct [''/h/b'', ''/h/a'']" by simp
  have "loadHook ?fetch ''/h'' ''/h/b'' \<noteq> None" "loadHook ?fetch ''/h'' ''/h/a'' \<noteq> None" by code_simp+
  with hooks_in_order [OF stable.go_sort_axioms d, of ?fetch "''/h''" bt_OnStartup] show ?thesis
    by (auto split: option.splits sum.splits)
qed

end
