(* ===== verification/Webhook_Handlers.thy ===== *)
theory Webhook_Handlers
  imports Hook_Manager
begin

text \<open>
  \<open>pkg/shell-operator/webhook_handlers.go\<close>, \<open>handler.go\<close> and \<open>response.go\<close> of \<open>pkg/webhook/conversion\<close>, and the enabling of
  webhooks in \<open>operator.go\<close>: requests of the API server are answered by running hooks.

  Running a task is an argument, as in the code (\<open>TaskRunner\<close>): it fails, or the task afterwards has a property that is
  not a response, a nil response or a response. Objects are of an arbitrary type with their API version as an argument
  (the empty string where decoding fails).
\<close>

definition quoted :: "string \<Rightarrow> string" where
  "quoted s = [CHR 0x27] @ s @ [CHR 0x27]"

section \<open>Conversion\<close>

record 'o conv_Response =
  FailedMessage :: string
  ConvertedObjects :: "'o list"

definition conv_Dump :: "'o conv_Response \<Rightarrow> string" where
  "conv_Dump r =
     ''conversion.Response('' @ (if FailedMessage r \<noteq> [] then ''failedMessage='' @ FailedMessage r else []) @
     (if ConvertedObjects r \<noteq> []
      then (if FailedMessage r \<noteq> [] then '','' else []) @ ''convertedObjects.len='' @ show_nat (length (ConvertedObjects r))
      else []) @ '')''"

record 'o ConversionRequest =
  req_UID :: string
  DesiredAPIVersion :: string
  req_Objects :: "'o list"

definition ExtractAPIVersions :: "('o \<Rightarrow> string) \<Rightarrow> 'o list \<Rightarrow> string list" where
  "ExtractAPIVersions ver objs =
     fold (\<lambda>obj res. if ver obj \<in> set res then res else res @ [ver obj]) objs []"

datatype 'r task_prop = PropOther | PropNil | PropValue 'r

datatype 'r run_outcome = RunFail | RunDone "'r task_prop"

text \<open>Environment of the handler: runtime, sort, task ids and labels, JSON of a request, versions of objects, and the runner.\<close>

record 'o conv_env =
  ce_grow :: "nat \<Rightarrow> nat \<Rightarrow> nat"
  ce_perm :: "string \<Rightarrow> iteration"
  ce_sorter :: "(nat \<Rightarrow> rat) \<Rightarrow> nat list \<Rightarrow> nat list"
  ce_uuid :: "nat \<Rightarrow> string"
  ce_labels :: labels
  ce_review :: "'o ConversionRequest \<Rightarrow> json"
  ce_ver :: "'o \<Rightarrow> string"
  ce_run :: "run_task \<Rightarrow> 'o conv_Response run_outcome"

datatype 'o conv_result = ConvPanics | ConvErr string | ConvResp "'o conv_Response"

text \<open>
  One rule of a path: a result that ends the handler, or \<open>None\<close> and whether all objects are converted;
  \<open>n\<close> counts the tasks. The request is changed in place.
\<close>

definition conv_rule :: "'o conv_env \<Rightarrow> ('v, 'm) hook_manager \<Rightarrow> string \<Rightarrow> Rule \<Rightarrow> nat \<Rightarrow> 'o ConversionRequest \<Rightarrow>
    'o conv_result option \<times> bool \<times> nat \<times> 'o ConversionRequest" where
  "conv_rule e hm crdName convRule n request =
     (case HandleConversionEvent (ce_sorter e) hm crdName (ce_review e request) convRule of
        None \<Rightarrow> (Some ConvPanics, False, n, request)
      | Some infos \<Rightarrow>
          if infos = []
          then (Some (ConvErr (''no hook found for '' @ quoted bt_KubernetesConversion @ '' event for crd/'' @ crdName)), False, n, request)
          else
            let (hk, info) = last infos;
                convTask = NewHookRunTask (ce_uuid e n) (h_Name hk) bt_KubernetesConversion info (ce_labels e)
            in case ce_run e convTask of
                 RunFail \<Rightarrow> (Some (ConvResp \<lparr>FailedMessage = ''Hook failed to convert to '' @ DesiredAPIVersion request,
                                            ConvertedObjects = []\<rparr>), False, n + 1, request)
               | RunDone PropOther \<Rightarrow> (Some (ConvErr ''hook task prop error''), False, n + 1, request)
               | RunDone PropNil \<Rightarrow> (Some ConvPanics, False, n + 1, request)
               | RunDone (PropValue response) \<Rightarrow>
                   let request = request\<lparr>req_Objects := ConvertedObjects response\<rparr>
                   in (None, ExtractAPIVersions (ce_ver e) (req_Objects request) = [DesiredAPIVersion request], n + 1, request))"

fun conv_path :: "'o conv_env \<Rightarrow> ('v, 'm) hook_manager \<Rightarrow> string \<Rightarrow> Rule list \<Rightarrow> nat \<Rightarrow> 'o ConversionRequest \<Rightarrow>
    'o conv_result option \<times> bool \<times> nat \<times> 'o ConversionRequest" where
  "conv_path e hm crdName [] n request = (None, False, n, request)"
| "conv_path e hm crdName (convRule # rules) n request =
     (let (res, don, n, request) = conv_rule e hm crdName convRule n request
      in if res \<noteq> None \<or> don then (res, don, n, request) else conv_path e hm crdName rules n request)"

text \<open>The loop over the source versions; outer \<open>None\<close>: the search for a chain does not return.\<close>

fun conv_sources :: "'o conv_env \<Rightarrow> string \<Rightarrow> string list \<Rightarrow> ('v, 'm) hook_manager \<Rightarrow> nat \<Rightarrow> 'o ConversionRequest \<Rightarrow>
    ('o conv_result option \<times> bool \<times> 'o ConversionRequest \<times> ('v, 'm) hook_manager) option" where
  "conv_sources e crdName [] hm n request = Some (None, False, request, hm)"
| "conv_sources e crdName (srcVer # srcs) hm n request =
     (case FindConversionChain (ce_grow e) (ce_perm e srcVer) crdName
             \<lparr>FromVersion = srcVer, ToVersion = DesiredAPIVersion request\<rparr> (conversionChains hm) of
        None \<Rightarrow> None
      | Some (convPath, cs) \<Rightarrow>
          let hm = hm\<lparr>conversionChains := cs\<rparr> in
          if convPath = [] then conv_sources e crdName srcs hm n request
          else let (res, don, n, request) = conv_path e hm crdName convPath n request
               in if res \<noteq> None \<or> don then Some (res, don, request, hm)
                  else conv_sources e crdName srcs hm n request)"

definition conv_Handle :: "'o conv_env \<Rightarrow> string \<Rightarrow> 'o ConversionRequest \<Rightarrow> ('v, 'm) hook_manager \<Rightarrow>
    ('o conv_result \<times> 'o ConversionRequest \<times> ('v, 'm) hook_manager) option" where
  "conv_Handle e crdName request hm =
     map_option (\<lambda>(res, don, request, hm).
         (case res of
            Some r \<Rightarrow> r
          | None \<Rightarrow> if don then ConvResp \<lparr>FailedMessage = [], ConvertedObjects = req_Objects request\<rparr>
                     else ConvResp \<lparr>FailedMessage = ''Conversion '' @ crdName @ '' to '' @ DesiredAPIVersion request @
                                      '' was not successful'', ConvertedObjects = []\<rparr>,
          request, hm))
       (conv_sources e crdName (ExtractAPIVersions (ce_ver e) (req_Objects request)) hm 0 request)"

text \<open>
  The answer to the API server: an error, or the converted objects. \<open>handler\<close> is \<open>EventHandlerFn\<close>; it may change the request,
  whose objects are counted afterwards. Inner \<open>None\<close>: panic.
\<close>

type_synonym ('o, 's) conv_handler = "string \<Rightarrow> 'o ConversionRequest \<Rightarrow> 's \<Rightarrow> ('o conv_result \<times> 'o ConversionRequest \<times> 's) option"

definition conv_handleReviewRequest :: "('o, 's) conv_handler option \<Rightarrow> string \<Rightarrow> 'o ConversionRequest \<Rightarrow> 's \<Rightarrow>
    ((string + 'o list) option \<times> 's) option" where
  "conv_handleReviewRequest handler crdName request s =
     (case handler of
        None \<Rightarrow> Some (Some (Inl ''ConversionReview handler is not defined''), s)
      | Some h \<Rightarrow> map_option (\<lambda>(res, request, s).
          (case res of
             ConvPanics \<Rightarrow> None
           | ConvErr err \<Rightarrow> Some (Inl (''handle ConversionReview: '' @ err))
           | ConvResp r \<Rightarrow>
               if FailedMessage r \<noteq> [] then Some (Inl (FailedMessage r))
               else if length (req_Objects request) \<noteq> length (ConvertedObjects r)
               then Some (Inl (''hook returned '' @ show_nat (length (ConvertedObjects r)) @ '' objects instead of '' @
                               show_nat (length (req_Objects request))))
               else Some (Inr (ConvertedObjects r)),
           s))
          (h crdName request s))"

definition detectCrdName :: "string \<Rightarrow> string" where
  "detectCrdName path = (case path of CHR ''/'' # rest \<Rightarrow> rest | _ \<Rightarrow> path)"

datatype 'o conv_answer =
    ConvHttpError nat string
  | ConvReview string "string + 'o list" \<comment> \<open>the UID; failure with a message, or success\<close>
  | ConvPanic

datatype 'o decoded_conversion = ConvNotDecoded | ConvNoRequest | ConvRequest "'o ConversionRequest"

fun conv_serveReviewRequest :: "('o, 's) conv_handler option \<Rightarrow> string \<Rightarrow> 'o decoded_conversion \<Rightarrow> 's \<Rightarrow>
    ('o conv_answer \<times> 's) option" where
  "conv_serveReviewRequest h path ConvNotDecoded s = Some (ConvHttpError 400 ''Invalid JSON payload'', s)"
| "conv_serveReviewRequest h path ConvNoRequest s = Some (ConvHttpError 400 ''Missing parameters: request'', s)"
| "conv_serveReviewRequest h path (ConvRequest request) s =
     map_option (\<lambda>(res, s). (case res of None \<Rightarrow> ConvPanic | Some r \<Rightarrow> ConvReview (req_UID request) r, s))
       (conv_handleReviewRequest h (detectCrdName path) request s)"

section \<open>Admission\<close>

record adm_env =
  ae_sorter :: "(nat \<Rightarrow> rat) \<Rightarrow> nat list \<Rightarrow> nat list"
  ae_uuid :: string
  ae_labels :: labels
  ae_review :: "Event \<Rightarrow> json"
  ae_run :: "run_task \<Rightarrow> Response run_outcome"

text \<open>\<open>None\<close>: panic. The task of the last hook that can handle the event is run.\<close>

definition adm_Handle :: "adm_env \<Rightarrow> ('v, 'm) hook_manager \<Rightarrow> Event \<Rightarrow> (string + Response option) option" where
  "adm_Handle e hm event = do {
     eventBindingType \<leftarrow> DetectAdmissionEventType (ae_sorter e) hm event;
     infos \<leftarrow> HandleAdmissionEvent (ae_sorter e) (ae_review e) hm event;
     if infos = []
     then Some (Inl (''no hook found for '' @ quoted (ev_ConfigurationId event) @ '' '' @ quoted (ev_WebhookId event)))
     else
       let (hk, info) = last infos;
           admissionTask = NewHookRunTask (ae_uuid e) (h_Name hk) eventBindingType info (ae_labels e)
       in Some (case ae_run e admissionTask of
            RunFail \<Rightarrow> Inr (Some \<lparr>Allowed = False, resp_Message = ''Hook failed'', Warnings = [], Patch = []\<rparr>)
          | RunDone PropOther \<Rightarrow> Inl ''hook task prop error''
          | RunDone PropNil \<Rightarrow> Inr None
          | RunDone (PropValue r) \<Rightarrow> Inr (Some r))
   }"

text \<open>\<open>initValidatingWebhookManager\<close> and \<open>initConversionWebhookManager\<close>: the loops that enable the bindings of the hooks.\<close>

fun enable_admission :: "string list \<Rightarrow> ('v, 'm) hook_manager \<Rightarrow> ('v, 'm) admission_manager \<Rightarrow>
    (('v, 'm) hook_manager \<times> ('v, 'm) admission_manager) option" where
  "enable_admission [] hm mgr = Some (hm, mgr)"
| "enable_admission (hookName # names) hm mgr =
     (case hooksByName hm hookName of
        None \<Rightarrow> None
      | Some p \<Rightarrow>
          let h = hook_heap hm ! p; (hc, mgr) = EnableAdmissionBindings (h_Controller h) mgr
          in enable_admission names (hm\<lparr>hook_heap := (hook_heap hm)[p := h\<lparr>h_Controller := hc\<rparr>]\<rparr>) mgr)"

definition initValidatingWebhookManager :: "((nat \<Rightarrow> rat) \<Rightarrow> nat list \<Rightarrow> nat list) \<Rightarrow> ('v, 'm) hook_manager \<Rightarrow> ('v, 'm) admission_manager \<Rightarrow>
    (('v, 'm) hook_manager \<times> ('v, 'm) admission_manager) option" where
  "initValidatingWebhookManager sorter hm mgr =
     enable_admission
       ((case GetHooksInOrder sorter hm bt_KubernetesValidating of None \<Rightarrow> [] | Some names \<Rightarrow> names) @
        (case GetHooksInOrder sorter hm bt_KubernetesMutating of None \<Rightarrow> [] | Some names \<Rightarrow> names)) hm mgr"

fun enable_conversion :: "string list \<Rightarrow> ('v, 'm) hook_manager \<Rightarrow> conversion_manager \<Rightarrow>
    (('v, 'm) hook_manager \<times> conversion_manager) option" where
  "enable_conversion [] hm m = Some (hm, m)"
| "enable_conversion (hookName # names) hm m =
     (case hooksByName hm hookName of
        None \<Rightarrow> None
      | Some p \<Rightarrow>
          let h = hook_heap hm ! p; (hc, m) = hc_EnableConversionBindings (h_Controller h) m
          in enable_conversion names (hm\<lparr>hook_heap := (hook_heap hm)[p := h\<lparr>h_Controller := hc\<rparr>]\<rparr>) m)"

definition initConversionWebhookManager :: "((nat \<Rightarrow> rat) \<Rightarrow> nat list \<Rightarrow> nat list) \<Rightarrow> ('v, 'm) hook_manager \<Rightarrow> conversion_manager \<Rightarrow>
    (('v, 'm) hook_manager \<times> conversion_manager) option" where
  "initConversionWebhookManager sorter hm m =
     enable_conversion (case GetHooksInOrder sorter hm bt_KubernetesConversion of None \<Rightarrow> [] | Some names \<Rightarrow> names) hm m"

section \<open>Lemmas on conversion\<close>

lemma extract_from:
  "set (fold (\<lambda>obj res. if ver obj \<in> set res then res else res @ [ver obj]) objs res) = set res \<union> ver ` set objs"
  by (induction objs arbitrary: res) auto

lemma set_ExtractAPIVersions: "set (ExtractAPIVersions ver objs) = ver ` set objs"
  by (simp add: ExtractAPIVersions_def extract_from)

definition conv_ok :: "'o conv_env \<Rightarrow> 'o ConversionRequest \<Rightarrow> 'o conv_result option \<Rightarrow> bool \<Rightarrow> 'o ConversionRequest \<Rightarrow> bool" where
  "conv_ok e request res don request' \<longleftrightarrow> DesiredAPIVersion request' = DesiredAPIVersion request \<and>
     (don \<longrightarrow> res = None \<and> ExtractAPIVersions (ce_ver e) (req_Objects request') = [DesiredAPIVersion request]) \<and>
     (\<forall>r. res = Some (ConvResp r) \<longrightarrow> FailedMessage r \<noteq> [])"

lemma conv_rule_Desired:
  assumes "conv_rule e hm crd rule n request = (res, don, n', request')" shows "conv_ok e request res don request'"
proof (cases "HandleConversionEvent (ce_sorter e) hm crd (ce_review e request) rule")
  case None
  with assms show ?thesis by (auto simp: conv_rule_def conv_ok_def)
next
  case (Some infos)
  obtain hk info where l: "last infos = (hk, info)" by (cases "last infos")
  show ?thesis
  proof (cases "infos = []")
    case True
    with assms Some show ?thesis by (auto simp: conv_rule_def conv_ok_def)
  next
    case False
    note r = assms [unfolded conv_rule_def Some option.case if_not_P [OF False] Let_def l prod.case]
    show ?thesis
    proof (cases "ce_run e (NewHookRunTask (ce_uuid e n) (h_Name hk) bt_KubernetesConversion info (ce_labels e))")
      case RunFail
      with r show ?thesis by (auto simp: conv_ok_def)
    next
      case (RunDone pr)
      with r show ?thesis by (cases pr) (auto simp: conv_ok_def)
    qed
  qed
qed

lemma conv_path_Desired:
  "conv_path e hm crd rules n request = (res, don, n', request') \<Longrightarrow> conv_ok e request res don request'"
proof (induction rules arbitrary: n request)
  case Nil
  then show ?case by (simp add: conv_ok_def)
next
  case (Cons rule rules)
  obtain res1 don1 n1 req1 where 1: "conv_rule e hm crd rule n request = (res1, don1, n1, req1)" by (metis prod_cases4)
  show ?case
  proof (cases "res1 \<noteq> None \<or> don1")
    case True
    with Cons.prems 1 conv_rule_Desired [OF 1] show ?thesis by auto
  next
    case False
    with Cons.prems 1 have "conv_path e hm crd rules n1 req1 = (res, don, n', request')" by simp
    from Cons.IH [OF this] conv_rule_Desired [OF 1] show ?thesis by (simp add: conv_ok_def)
  qed
qed

lemma conv_sources_Desired:
  "conv_sources e crd srcs hm n request = Some (res, don, request', hm') \<Longrightarrow> conv_ok e request res don request'"
proof (induction srcs arbitrary: hm n request)
  case (Cons srcVer srcs)
  then obtain path cs where f: "FindConversionChain (ce_grow e) (ce_perm e srcVer) crd
      \<lparr>FromVersion = srcVer, ToVersion = DesiredAPIVersion request\<rparr> (conversionChains hm) = Some (path, cs)"
    by (auto split: option.splits)
  show ?case
  proof (cases "path = []")
    case True
    with Cons.prems f have "conv_sources e crd srcs (hm\<lparr>conversionChains := cs\<rparr>) n request = Some (res, don, request', hm')"
      by (simp add: Let_def)
    then show ?thesis by (rule Cons.IH)
  next
    case False
    obtain res1 don1 n1 req1 where p: "conv_path e (hm\<lparr>conversionChains := cs\<rparr>) crd path n request = (res1, don1, n1, req1)"
      by (metis prod_cases4)
    note d = conv_path_Desired [OF p]
    show ?thesis
    proof (cases "res1 \<noteq> None \<or> don1")
      case True
      with Cons.prems f False p d show ?thesis by (auto simp: Let_def)
    next
      case no: False
      with Cons.prems f False p have "conv_sources e crd srcs (hm\<lparr>conversionChains := cs\<rparr>) n1 req1 = Some (res, don, request', hm')"
        by (simp add: Let_def)
      from Cons.IH [OF this] d show ?thesis by (simp add: conv_ok_def)
    qed
  qed
qed (simp add: conv_ok_def)

lemma conv_sources_returns:
  assumes "storage_inv R (conversionChains hm)" "growslice (ce_grow e)" "\<And>v. map_iteration (ce_perm e v)"
  shows "\<exists>res don request' hm'. conv_sources e crd srcs hm n request = Some (res, don, request', hm') \<and>
     storage_inv R (conversionChains hm')"
  using assms(1)
proof (induction srcs arbitrary: hm n request)
  case (Cons srcVer srcs)
  have rt: "chain_runtime (ce_grow e) (ce_perm e srcVer)" using assms(2,3) by (simp add: chain_runtime_def)
  obtain path cs where f: "FindConversionChain (ce_grow e) (ce_perm e srcVer) crd
      \<lparr>FromVersion = srcVer, ToVersion = DesiredAPIVersion request\<rparr> (conversionChains hm) = Some (path, cs)" "storage_inv R cs"
    using chain_runtime.Find_result [OF rt Cons.prems TrueI chain_runtime.round_keeps_True [OF rt]] by blast
  have next_source: "\<exists>res don request' hm'. conv_sources e crd srcs (hm\<lparr>conversionChains := cs\<rparr>) n request = Some (res, don, request', hm') \<and>
      storage_inv R (conversionChains hm')" for n request
    using Cons.IH [of "hm\<lparr>conversionChains := cs\<rparr>"] f(2) by simp
  obtain res1 don1 n1 req1 where p: "conv_path e (hm\<lparr>conversionChains := cs\<rparr>) crd path n request = (res1, don1, n1, req1)"
    by (metis prod_cases4)
  show ?case
    using next_source [of n request] next_source [of n1 req1] f(2) by (auto simp: f(1) p Let_def)
qed auto

section \<open>Properties of conversion\<close>

text \<open>A hook with one conversion rule; objects are given by their versions.\<close>

definition demo_conv_hook :: "(unit, unit) HookConfig" where
  "demo_conv_hook = (demo_hook_config None)\<lparr>KubernetesConversion := [\<lparr>cb_BindingName = ''conv'', cb_AllowFailure = False,
     cb_IncludeSnapshotsFrom = [], cb_Group = [], cb_Webhook = \<lparr>Rules = [mk_rule ''v1'' ''v2''], CrdName = ''crd''\<rparr>\<rparr>]\<rparr>"

definition demo_conv_env :: "string conv_Response run_outcome \<Rightarrow> string conv_env" where
  "demo_conv_env outcome = \<lparr>ce_grow = go_grow, ce_perm = (\<lambda>_. oldest_first), ce_sorter = sort_key, ce_uuid = show_nat, ce_labels = Map.empty,
     ce_review = (\<lambda>_. JNull), ce_ver = (\<lambda>v. v), ce_run = (\<lambda>_. outcome)\<rparr>"

definition demo_conv_manager :: "(unit, unit) hook_manager option" where
  "demo_conv_manager =
     (case hm_Init sort_key (\<lambda>_. Some demo_conv_hook) ''/h'' (Some [''/h/a'']) NewHookManager of
        Some (Inr hm) \<Rightarrow> map_option fst (initConversionWebhookManager sort_key hm
          \<lparr>cm_Namespace = [], cm_ServiceName = [], cm_CABundle = [], ClientConfigs = []\<rparr>)
      | _ \<Rightarrow> None)"

definition demo_conv_answer :: "string conv_Response run_outcome \<Rightarrow> string list \<Rightarrow> string conv_answer option" where
  "demo_conv_answer outcome objects =
     Option.bind demo_conv_manager (\<lambda>hm.
       map_option fst (conv_serveReviewRequest (Some (conv_Handle (demo_conv_env outcome))) ''/crd''
         (ConvRequest \<lparr>req_UID = ''u'', DesiredAPIVersion = ''v2'', req_Objects = objects\<rparr>) hm))"



text \<open>
  Two checks that do not check. The handler replaces the objects of the request by those a hook returns, and the
  number of converted objects is then compared with that request: a hook that returns one object for two is
  answered with Success. And the message of a hook that reports a failure is dropped.
\<close>

lemma conversion_unchecked:
  "demo_conv_answer (RunDone (PropValue \<lparr>FailedMessage = [], ConvertedObjects = [''v2'']\<rparr>)) [''v1'', ''v1''] =
     Some (ConvReview ''u'' (Inr [''v2''])) \<and>
   demo_conv_answer (RunDone (PropValue \<lparr>FailedMessage = ''cannot'', ConvertedObjects = []\<rparr>)) [''v1''] =
     Some (ConvReview ''u'' (Inl ''Conversion crd to v2 was not successful''))"
  by code_simp

end
