(* ===== verification/Object_Patch.thy ===== *)
theory Object_Patch
  imports Kube_Types
begin

text \<open>
  \<open>operation.go\<close>, \<open>options.go\<close>, \<open>patch_collector.go\<close>, \<open>helpers.go\<close> and \<open>patch.go\<close> of \<open>pkg/kube/object_patch\<close>: the
  operations on objects a hook asks for, and how they are carried out.

  The API server, the retry and polling helpers of the Kubernetes client, jq and the JSON and YAML codecs are arguments
  (\<open>patcher_env\<close>). A resource version is opaque to a client: it is a value of the type \<open>'r\<close>. The state \<open>'c\<close> is that of the
  server; what other clients do happens inside its calls. A call answers with an error or with an object. The fields
  \<open>patch\<close> and \<open>object\<close> are interface values: text, a decoded document, or something else to convert.
\<close>

section \<open>Operations\<close>

record 'r uobj =
  u_obj :: kube_object
  u_version :: "'r option"

datatype 'r any_value = AnyNil | AnyText string | AnyObject "'r uobj" | AnyOther json

type_synonym 'r filter_fn = "'r uobj \<Rightarrow> 'r uobj option"

record 'r createOperation =
  cr_object :: "'r any_value"
  cr_subresource :: string
  ignoreIfExists :: bool
  updateIfExists :: bool

record deleteOperation =
  de_apiVersion :: string
  de_kind :: string
  de_namespace :: string
  de_name :: string
  de_subresource :: string
  deletionPropagation :: string

record 'r patchOperation =
  pa_apiVersion :: string
  pa_kind :: string
  pa_namespace :: string
  pa_name :: string
  pa_subresource :: string
  patchType :: string
  pa_patch :: "'r any_value"
  filterFunc :: "'r filter_fn option"
  ignoreMissingObject :: bool
  ignoreHookError :: bool

datatype 'r operation = OpCreate "'r createOperation" | OpDelete deleteOperation | OpPatch "'r patchOperation"

abbreviation Foreground :: string where "Foreground \<equiv> ''Foreground''"
abbreviation Background :: string where "Background \<equiv> ''Background''"
abbreviation Orphan :: string where "Orphan \<equiv> ''Orphan''"
abbreviation MergePatchType :: string where "MergePatchType \<equiv> ''application/merge-patch+json''"
abbreviation JSONPatchType :: string where "JSONPatchType \<equiv> ''application/json-patch+json''"

datatype api_error = NotFound | AlreadyExists | Conflict | OtherError string

record ('r, 'c) patcher_env =
  GroupVersionResource :: "string \<Rightarrow> string \<Rightarrow> string option"
  api_Get :: "string \<Rightarrow> string \<Rightarrow> string \<Rightarrow> string list \<Rightarrow> 'c \<Rightarrow> (api_error + 'r uobj) \<times> 'c"
  api_Create :: "string \<Rightarrow> string \<Rightarrow> 'r uobj \<Rightarrow> string list \<Rightarrow> 'c \<Rightarrow> api_error option \<times> 'c"
  api_Update :: "string \<Rightarrow> string \<Rightarrow> 'r uobj \<Rightarrow> string list \<Rightarrow> 'c \<Rightarrow> api_error option \<times> 'c"
  api_Patch :: "string \<Rightarrow> string \<Rightarrow> string \<Rightarrow> string \<Rightarrow> string \<Rightarrow> string list \<Rightarrow> 'c \<Rightarrow> api_error option \<times> 'c"
  api_Delete :: "string \<Rightarrow> string \<Rightarrow> string \<Rightarrow> string \<Rightarrow> string \<Rightarrow> 'c \<Rightarrow> api_error option \<times> 'c"
  RetryOnConflict :: "('c \<Rightarrow> api_error option \<times> 'c) \<Rightarrow> 'c \<Rightarrow> api_error option \<times> 'c"
  PollUntil :: "('c \<Rightarrow> (api_error + bool) \<times> 'c) \<Rightarrow> 'c \<Rightarrow> api_error option \<times> 'c"
  NewFromYAML :: "string \<Rightarrow> 'r uobj option"
  ToUnstructured :: "json \<Rightarrow> 'r uobj option"
  yaml_to_json :: "string \<Rightarrow> json option"
  object_json :: "'r uobj \<Rightarrow> json"
  json_Marshal :: "json \<Rightarrow> string option"
  ApplyFilter :: "string \<Rightarrow> 'r uobj \<Rightarrow> string option"
  decode_object :: "string \<Rightarrow> 'r uobj option"
  encodes :: "'r uobj \<Rightarrow> bool"

section \<open>Helpers\<close>

definition generateSubresources :: "string \<Rightarrow> string list" where
  "generateSubresources subresource = (if subresource \<noteq> [] then [subresource] else [])"

definition toUnstructured :: "('r, 'c) patcher_env \<Rightarrow> 'r any_value \<Rightarrow> 'r uobj option" where
  "toUnstructured e ob =
     (case ob of AnyText s \<Rightarrow> NewFromYAML e s | AnyObject u \<Rightarrow> Some u | AnyOther j \<Rightarrow> ToUnstructured e j | AnyNil \<Rightarrow> ToUnstructured e JNull)"

definition convertPatchToBytes :: "('r, 'c) patcher_env \<Rightarrow> 'r any_value \<Rightarrow> string option" where
  "convertPatchToBytes e patch =
     Option.bind (case patch of AnyText s \<Rightarrow> yaml_to_json e s | AnyObject u \<Rightarrow> Some (object_json e u) | AnyOther j \<Rightarrow> Some j
                  | AnyNil \<Rightarrow> Some JNull) (json_Marshal e)"

definition applyJQPatch :: "('r, 'c) patcher_env \<Rightarrow> string \<Rightarrow> 'r filter_fn" where
  "applyJQPatch e jqFilter ob = Option.bind (ApplyFilter e jqFilter ob) (decode_object e)"

section \<open>Making operations\<close>

datatype patch_option = WithSubresource string | WithIgnoreMissingObject bool | WithIgnoreHookError bool

fun apply_patch_option :: "patch_option \<Rightarrow> 'r patchOperation \<Rightarrow> 'r patchOperation" where
  "apply_patch_option (WithSubresource s) op1 = op1\<lparr>pa_subresource := s\<rparr>"
| "apply_patch_option (WithIgnoreMissingObject b) op1 = op1\<lparr>ignoreMissingObject := b\<rparr>"
| "apply_patch_option (WithIgnoreHookError b) op1 = op1\<lparr>ignoreHookError := b\<rparr>"

definition newCreateOperation :: "string \<Rightarrow> 'r any_value \<Rightarrow> 'r operation" where
  "newCreateOperation operation ob =
     OpCreate \<lparr>cr_object = ob, cr_subresource = [], ignoreIfExists = (operation = ''CreateIfNotExists''),
       updateIfExists = (operation = ''CreateOrUpdate'')\<rparr>"

definition newDeleteOperation :: "string \<Rightarrow> string \<Rightarrow> string \<Rightarrow> string \<Rightarrow> string \<Rightarrow> 'r operation" where
  "newDeleteOperation propagation apiVersion kind namespace name =
     OpDelete \<lparr>de_apiVersion = apiVersion, de_kind = kind, de_namespace = namespace, de_name = name, de_subresource = [],
       deletionPropagation = propagation\<rparr>"

definition newPatchOperation :: "string \<Rightarrow> 'r any_value \<Rightarrow> string \<Rightarrow> string \<Rightarrow> string \<Rightarrow> string \<Rightarrow> patch_option list \<Rightarrow> 'r operation" where
  "newPatchOperation ty patch apiVersion kind namespace name opts =
     OpPatch (fold apply_patch_option opts
       \<lparr>pa_apiVersion = apiVersion, pa_kind = kind, pa_namespace = namespace, pa_name = name, pa_subresource = [], patchType = ty,
        pa_patch = patch, filterFunc = None, ignoreMissingObject = False, ignoreHookError = False\<rparr>)"

definition newFilterOperation :: "'r filter_fn \<Rightarrow> string \<Rightarrow> string \<Rightarrow> string \<Rightarrow> string \<Rightarrow> patch_option list \<Rightarrow> 'r operation" where
  "newFilterOperation fn apiVersion kind namespace name opts =
     OpPatch (fold apply_patch_option opts
       \<lparr>pa_apiVersion = apiVersion, pa_kind = kind, pa_namespace = namespace, pa_name = name, pa_subresource = [], patchType = [],
        pa_patch = AnyNil, filterFunc = Some fn, ignoreMissingObject = False, ignoreHookError = False\<rparr>)"

record 'r OperationSpec =
  Operation :: string
  os_ApiVersion :: string
  os_Kind :: string
  os_Namespace :: string
  os_Name :: string
  Subresource :: string
  Object :: "'r any_value"
  JQFilter :: string
  MergePatch :: "'r any_value"
  JSONPatch :: "'r any_value"
  IgnoreMissingObject :: bool
  IgnoreHookError :: bool

definition spec_options :: "'r OperationSpec \<Rightarrow> patch_option list" where
  "spec_options spec = [WithSubresource (Subresource spec), WithIgnoreMissingObject (IgnoreMissingObject spec),
     WithIgnoreHookError (IgnoreHookError spec)]"

text \<open>\<open>None\<close>: a nil operation.\<close>

definition NewFromOperationSpec :: "('r, 'c) patcher_env \<Rightarrow> 'r OperationSpec \<Rightarrow> 'r operation option" where
  "NewFromOperationSpec e spec =
     (let ty = Operation spec in
      if ty \<in> {''Create'', ''CreateIfNotExists'', ''CreateOrUpdate''} then Some (newCreateOperation ty (Object spec))
      else if ty = ''Delete'' then Some (newDeleteOperation Foreground (os_ApiVersion spec) (os_Kind spec) (os_Namespace spec) (os_Name spec))
      else if ty = ''DeleteInBackground'' then Some (newDeleteOperation Background (os_ApiVersion spec) (os_Kind spec) (os_Namespace spec) (os_Name spec))
      else if ty = ''DeleteNonCascading'' then Some (newDeleteOperation Orphan (os_ApiVersion spec) (os_Kind spec) (os_Namespace spec) (os_Name spec))
      else if ty = ''JQPatch'' then Some (newFilterOperation (applyJQPatch e (JQFilter spec))
        (os_ApiVersion spec) (os_Kind spec) (os_Namespace spec) (os_Name spec) (spec_options spec))
      else if ty = ''MergePatch'' then Some (newPatchOperation MergePatchType (MergePatch spec)
        (os_ApiVersion spec) (os_Kind spec) (os_Namespace spec) (os_Name spec) (spec_options spec))
      else if ty = ''JSONPatch'' then Some (newPatchOperation JSONPatchType (JSONPatch spec)
        (os_ApiVersion spec) (os_Kind spec) (os_Namespace spec) (os_Name spec) (spec_options spec))
      else None)"

text \<open>
  Decoding: a stream of JSON documents, and if one of them is not JSON, all of it as YAML. \<open>valid\<close> is the check against the
  schema; the loop stops at the first document that fails it. The operations made so far are returned along with
  the error (\<open>True\<close>).
\<close>

definition unmarshalFromJSONOrYAML :: "(string \<Rightarrow> 'r OperationSpec list option) \<Rightarrow> (string \<Rightarrow> 'r OperationSpec list option) \<Rightarrow> string \<Rightarrow>
    'r OperationSpec list option" where
  "unmarshalFromJSONOrYAML json_docs yaml_docs specs = (case json_docs specs of None \<Rightarrow> yaml_docs specs | Some docs \<Rightarrow> Some docs)"

fun parse_specs :: "('r, 'c) patcher_env \<Rightarrow> ('r OperationSpec \<Rightarrow> bool) \<Rightarrow> 'r OperationSpec list \<Rightarrow> 'r operation option list \<times> bool" where
  "parse_specs e valid [] = ([], False)"
| "parse_specs e valid (spec # specs) =
     (if \<not> valid spec then ([], True)
      else let (ops, err) = parse_specs e valid specs in (NewFromOperationSpec e spec # ops, err))"

definition ParseOperations :: "('r, 'c) patcher_env \<Rightarrow> (string \<Rightarrow> 'r OperationSpec list option) \<Rightarrow> (string \<Rightarrow> 'r OperationSpec list option) \<Rightarrow>
    ('r OperationSpec \<Rightarrow> bool) \<Rightarrow> string \<Rightarrow> 'r operation option list \<times> bool" where
  "ParseOperations e json_docs yaml_docs valid specBytes =
     (case unmarshalFromJSONOrYAML json_docs yaml_docs specBytes of None \<Rightarrow> ([], True) | Some specs \<Rightarrow> parse_specs e valid specs)"

definition GetPatchStatusOperationsOnHookError :: "'r operation option list \<Rightarrow> 'r operation option list" where
  "GetPatchStatusOperationsOnHookError operations =
     filter (\<lambda>op1. case op1 of Some (OpPatch p) \<Rightarrow> pa_subresource p = ''/status'' \<and> ignoreHookError p | _ \<Rightarrow> False) operations"

definition object_path :: "string \<Rightarrow> string \<Rightarrow> string \<Rightarrow> string \<Rightarrow> string" where
  "object_path apiVersion kind namespace name = apiVersion @ ''/'' @ kind @ ''/'' @ namespace @ ''/'' @ name"

definition u_path :: "'r uobj \<Rightarrow> string" where
  "u_path u = object_path (obj_apiVersion (u_obj u)) (obj_kind (u_obj u)) (obj_namespace (u_obj u)) (obj_name (u_obj u))"

fun Description :: "('r, 'c) patcher_env \<Rightarrow> 'r operation \<Rightarrow> string" where
  "Description e (OpCreate op1) =
     (case toUnstructured e (cr_object op1) of None \<Rightarrow> ''Create object (unknown)'' | Some u \<Rightarrow> ''Create object '' @ u_path u)"
| "Description e (OpDelete op1) = ''Delete object '' @ object_path (de_apiVersion op1) (de_kind op1) (de_namespace op1) (de_name op1)"
| "Description e (OpPatch op1) = ''Filter object '' @ object_path (pa_apiVersion op1) (pa_kind op1) (pa_namespace op1) (pa_name op1)"

definition add_prefix :: "string \<Rightarrow> string \<Rightarrow> string" where
  "add_prefix p name = (if prefix (p @ ''-'') name then name else p @ ''-'' @ name)"

fun SetObjectPrefix :: "('r, 'c) patcher_env \<Rightarrow> string \<Rightarrow> 'r operation \<Rightarrow> 'r operation" where
  "SetObjectPrefix e p (OpCreate op1) =
     (case toUnstructured e (cr_object op1) of
        None \<Rightarrow> OpCreate op1
      | Some u \<Rightarrow>
          if prefix (p @ ''-'') (obj_name (u_obj u)) then OpCreate op1
          else OpCreate (op1\<lparr>cr_object := AnyObject (u\<lparr>u_obj := (u_obj u)\<lparr>obj_name := add_prefix p (obj_name (u_obj u))\<rparr>\<rparr>)\<rparr>))"
| "SetObjectPrefix e p (OpDelete op1) = OpDelete (op1\<lparr>de_name := add_prefix p (de_name op1)\<rparr>)"
| "SetObjectPrefix e p (OpPatch op1) = OpPatch (op1\<lparr>pa_name := add_prefix p (pa_name op1)\<rparr>)"

section \<open>The collector of Go hooks\<close>

text \<open>\<open>JQFilter\<close>, \<open>PatchWithJSON\<close> and \<open>PatchWithMerge\<close> have the bodies of \<open>PatchWithJQ\<close>, \<open>JSONPatch\<close> and \<open>MergePatch\<close>.\<close>

type_synonym 'r PatchCollector = "'r operation list"

definition NewPatchCollector :: "'r PatchCollector" where
  "NewPatchCollector = []"

definition pc_add :: "'r operation \<Rightarrow> 'r PatchCollector \<Rightarrow> 'r PatchCollector" where
  "pc_add operation dop = dop @ [operation]"

definition pc_Create :: "'r any_value \<Rightarrow> 'r PatchCollector \<Rightarrow> 'r PatchCollector" where
  "pc_Create ob = pc_add (newCreateOperation ''Create'' ob)"

definition pc_CreateOrUpdate :: "'r any_value \<Rightarrow> 'r PatchCollector \<Rightarrow> 'r PatchCollector" where
  "pc_CreateOrUpdate ob = pc_add (newCreateOperation ''CreateOrUpdate'' ob)"

definition pc_CreateIfNotExists :: "'r any_value \<Rightarrow> 'r PatchCollector \<Rightarrow> 'r PatchCollector" where
  "pc_CreateIfNotExists ob = pc_add (newCreateOperation ''CreateIfNotExists'' ob)"

definition pc_Delete :: "string \<Rightarrow> string \<Rightarrow> string \<Rightarrow> string \<Rightarrow> 'r PatchCollector \<Rightarrow> 'r PatchCollector" where
  "pc_Delete apiVersion kind namespace name = pc_add (newDeleteOperation Foreground apiVersion kind namespace name)"

definition pc_DeleteInBackground :: "string \<Rightarrow> string \<Rightarrow> string \<Rightarrow> string \<Rightarrow> 'r PatchCollector \<Rightarrow> 'r PatchCollector" where
  "pc_DeleteInBackground apiVersion kind namespace name = pc_add (newDeleteOperation Background apiVersion kind namespace name)"

definition pc_DeleteNonCascading :: "string \<Rightarrow> string \<Rightarrow> string \<Rightarrow> string \<Rightarrow> 'r PatchCollector \<Rightarrow> 'r PatchCollector" where
  "pc_DeleteNonCascading apiVersion kind namespace name = pc_add (newDeleteOperation Orphan apiVersion kind namespace name)"

definition pc_MergePatch :: "'r any_value \<Rightarrow> string \<Rightarrow> string \<Rightarrow> string \<Rightarrow> string \<Rightarrow> patch_option list \<Rightarrow> 'r PatchCollector \<Rightarrow> 'r PatchCollector" where
  "pc_MergePatch patch apiVersion kind namespace name opts = pc_add (newPatchOperation MergePatchType patch apiVersion kind namespace name opts)"

definition pc_JSONPatch :: "'r any_value \<Rightarrow> string \<Rightarrow> string \<Rightarrow> string \<Rightarrow> string \<Rightarrow> patch_option list \<Rightarrow> 'r PatchCollector \<Rightarrow> 'r PatchCollector" where
  "pc_JSONPatch patch apiVersion kind namespace name opts = pc_add (newPatchOperation JSONPatchType patch apiVersion kind namespace name opts)"

definition pc_PatchWithMutatingFunc :: "'r filter_fn \<Rightarrow> string \<Rightarrow> string \<Rightarrow> string \<Rightarrow> string \<Rightarrow> patch_option list \<Rightarrow> 'r PatchCollector \<Rightarrow>
    'r PatchCollector" where
  "pc_PatchWithMutatingFunc fn apiVersion kind namespace name opts = pc_add (newFilterOperation fn apiVersion kind namespace name opts)"

definition pc_PatchWithJQ :: "('r, 'c) patcher_env \<Rightarrow> string \<Rightarrow> string \<Rightarrow> string \<Rightarrow> string \<Rightarrow> string \<Rightarrow> patch_option list \<Rightarrow>
    'r PatchCollector \<Rightarrow> 'r PatchCollector" where
  "pc_PatchWithJQ e jqFilter apiVersion kind namespace name opts =
     pc_add (newFilterOperation (applyJQPatch e jqFilter) apiVersion kind namespace name opts)"

section \<open>Carrying out operations\<close>

text \<open>An update of an existing object: the version of the stored object is put into the new one.\<close>

definition update_existing :: "('r, 'c) patcher_env \<Rightarrow> 'r createOperation \<Rightarrow> string \<Rightarrow> 'r uobj \<Rightarrow> 'c \<Rightarrow> api_error option \<times> 'c" where
  "update_existing e op1 gvk ob c =
     (let (r, c) = api_Get e gvk (obj_namespace (u_obj ob)) (obj_name (u_obj ob)) (generateSubresources (cr_subresource op1)) c
      in case r of
           Inl err \<Rightarrow> (Some err, c)
         | Inr existing \<Rightarrow>
             api_Update e gvk (obj_namespace (u_obj ob)) (ob\<lparr>u_version := u_version existing\<rparr>) (generateSubresources (cr_subresource op1)) c)"

definition executeCreateOperation :: "('r, 'c) patcher_env \<Rightarrow> 'r createOperation \<Rightarrow> 'c \<Rightarrow> api_error option \<times> 'c" where
  "executeCreateOperation e op1 c =
     (if cr_object op1 = AnyNil then (Some (OtherError ''cannot create empty object''), c)
      else case toUnstructured e (cr_object op1) of
        None \<Rightarrow> (Some (OtherError ''convert to unstructured''), c)
      | Some ob \<Rightarrow>
          (case GroupVersionResource e (obj_apiVersion (u_obj ob)) (obj_kind (u_obj ob)) of
             None \<Rightarrow> (Some (OtherError ''no resource''), c)
           | Some gvk \<Rightarrow>
               let (err, c) = api_Create e gvk (obj_namespace (u_obj ob)) ob (generateSubresources (cr_subresource op1)) c
               in if err = Some AlreadyExists \<and> ignoreIfExists op1 then (None, c)
                  else if err = Some AlreadyExists \<and> updateIfExists op1 then RetryOnConflict e (update_existing e op1 gvk ob) c
                  else (err, c)))"

definition executePatchOperation :: "('r, 'c) patcher_env \<Rightarrow> 'r patchOperation \<Rightarrow> 'c \<Rightarrow> api_error option \<times> 'c" where
  "executePatchOperation e op1 c =
     (case convertPatchToBytes e (pa_patch op1) of
        None \<Rightarrow> (Some (OtherError ''encode''), c)
      | Some bytes \<Rightarrow>
          (case GroupVersionResource e (pa_apiVersion op1) (pa_kind op1) of
             None \<Rightarrow> (Some (OtherError ''no resource''), c)
           | Some gvk \<Rightarrow>
               let (err, c) = api_Patch e gvk (pa_namespace op1) (pa_name op1) (patchType op1) bytes (generateSubresources (pa_subresource op1)) c
               in if ignoreMissingObject op1 \<and> err = Some NotFound then (None, c) else (err, c)))"

text \<open>One attempt of a filter operation.\<close>

definition filter_attempt :: "('r, 'c) patcher_env \<Rightarrow> 'r patchOperation \<Rightarrow> 'r filter_fn \<Rightarrow> string \<Rightarrow> 'c \<Rightarrow> api_error option \<times> 'c" where
  "filter_attempt e op1 fn gvk c =
     (let (r, c) = api_Get e gvk (pa_namespace op1) (pa_name op1) [] c
      in case r of
           Inl err \<Rightarrow> if ignoreMissingObject op1 \<and> err = NotFound then (None, c) else (Some err, c)
         | Inr ob \<Rightarrow>
             (case fn ob of
                None \<Rightarrow> (Some (OtherError ''filter''), c)
              | Some filtered \<Rightarrow>
                  if filtered = ob then (None, c)
                  else if \<not> encodes e filtered then (Some (OtherError ''encode''), c)
                  else api_Update e gvk (pa_namespace op1) filtered (generateSubresources (pa_subresource op1)) c))"

definition executeFilterOperation :: "('r, 'c) patcher_env \<Rightarrow> 'r patchOperation \<Rightarrow> 'c \<Rightarrow> api_error option \<times> 'c" where
  "executeFilterOperation e op1 c =
     (case filterFunc op1 of
        None \<Rightarrow> (Some (OtherError ''FilterFunc is nil''), c)
      | Some fn \<Rightarrow>
          (case GroupVersionResource e (pa_apiVersion op1) (pa_kind op1) of
             None \<Rightarrow> (Some (OtherError ''no resource''), c)
           | Some gvk \<Rightarrow> RetryOnConflict e (filter_attempt e op1 fn gvk) c))"

definition deletion_seen :: "('r, 'c) patcher_env \<Rightarrow> deleteOperation \<Rightarrow> string \<Rightarrow> 'c \<Rightarrow> (api_error + bool) \<times> 'c" where
  "deletion_seen e op1 gvk c =
     (let (r, c) = api_Get e gvk (de_namespace op1) (de_name op1) [] c
      in (case r of Inl NotFound \<Rightarrow> Inr True | Inl err \<Rightarrow> Inl err | Inr _ \<Rightarrow> Inr False, c))"

definition executeDeleteOperation :: "('r, 'c) patcher_env \<Rightarrow> deleteOperation \<Rightarrow> 'c \<Rightarrow> api_error option \<times> 'c" where
  "executeDeleteOperation e op1 c =
     (case GroupVersionResource e (de_apiVersion op1) (de_kind op1) of
        None \<Rightarrow> (Some (OtherError ''no resource''), c)
      | Some gvk \<Rightarrow>
          let (err, c) = api_Delete e gvk (de_namespace op1) (de_name op1) (deletionPropagation op1) (de_subresource op1) c
          in if err = Some NotFound then (None, c)
             else if err \<noteq> None then (err, c)
             else if deletionPropagation op1 \<noteq> Foreground then (None, c)
             else PollUntil e (deletion_seen e op1 gvk) c)"

fun ExecuteOperation :: "('r, 'c) patcher_env \<Rightarrow> 'r operation option \<Rightarrow> 'c \<Rightarrow> api_error option \<times> 'c" where
  "ExecuteOperation e None c = (None, c)"
| "ExecuteOperation e (Some (OpCreate op1)) c = executeCreateOperation e op1 c"
| "ExecuteOperation e (Some (OpDelete op1)) c = executeDeleteOperation e op1 c"
| "ExecuteOperation e (Some (OpPatch op1)) c = (if filterFunc op1 \<noteq> None then executeFilterOperation e op1 c else executePatchOperation e op1 c)"

text \<open>All operations are tried; the errors come with the descriptions. Describing a nil operation panics (\<open>None\<close>).\<close>

fun ExecuteOperations :: "('r, 'c) patcher_env \<Rightarrow> 'r operation option list \<Rightarrow> 'c \<Rightarrow> ((string \<times> api_error) list \<times> 'c) option" where
  "ExecuteOperations e [] c = Some ([], c)"
| "ExecuteOperations e (None # ops) c = None"
| "ExecuteOperations e (Some op1 # ops) c =
     (let (err, c) = ExecuteOperation e (Some op1) c
      in map_option (\<lambda>(errs, c). ((case err of None \<Rightarrow> [] | Some er \<Rightarrow> [(Description e op1, er)]) @ errs, c)) (ExecuteOperations e ops c))"

section \<open>What the API server promises\<close>

text \<open>
  \<open>view\<close> is what the server stores, by resource, namespace and name. A resource version identifies the object it was given for
  (\<open>content_of\<close>); an update with a version is refused when the stored object has another one. The helpers return the
  result of the last run of their argument.
\<close>

locale api_server =
  fixes e :: "('r, 'c) patcher_env" and view :: "'c \<Rightarrow> string \<times> string \<times> string \<Rightarrow> 'r uobj option"
    and content_of :: "string \<times> string \<times> string \<Rightarrow> 'r \<Rightarrow> 'r uobj"
  assumes version_content: "view c k = Some ob \<Longrightarrow> \<exists>v. u_version ob = Some v \<and> ob = content_of k v"
    and get_found: "api_Get e g ns n [] c = (Inr ob, c') \<Longrightarrow> view c' (g, ns, n) = Some ob"
    and get_missing: "api_Get e g ns n [] c = (Inl NotFound, c') \<Longrightarrow> view c' (g, ns, n) = None"
    and create_stores: "api_Create e g ns ob [] c = (None, c') \<Longrightarrow> \<exists>v. view c' (g, ns, obj_name (u_obj ob)) = Some (ob\<lparr>u_version := Some v\<rparr>)"
    and create_exists: "api_Create e g ns ob [] c = (Some AlreadyExists, c') \<Longrightarrow> view c' (g, ns, obj_name (u_obj ob)) \<noteq> None"
    and update_stores: "api_Update e g ns ob [] c = (None, c') \<Longrightarrow>
      \<exists>cw cur v. view cw (g, ns, obj_name (u_obj ob)) = Some cur \<and> (u_version ob \<noteq> None \<longrightarrow> u_version cur = u_version ob) \<and>
        view c' = (view cw)((g, ns, obj_name (u_obj ob)) \<mapsto> ob\<lparr>u_version := Some v\<rparr>)"
    and delete_missing: "api_Delete e g ns n prop [] c = (Some NotFound, c') \<Longrightarrow> view c' (g, ns, n) = None"
    and retry_last: "RetryOnConflict e f c = (r, c') \<Longrightarrow> \<exists>c0. f c0 = (r, c')"
    and poll_last: "PollUntil e p c = (None, c') \<Longrightarrow> \<exists>c0. p c0 = (Inr True, c')"
begin

lemma same_version:
  assumes "view c k = Some ob" and "view d k = Some ob'" and "u_version ob = u_version ob'"
  shows "ob = ob'"
  using assms version_content [OF assms(1)] version_content [OF assms(2)] by auto

lemma update_existing_effect:
  assumes "update_existing e op1 gvk ob c = (None, c')" and "cr_subresource op1 = []"
  shows "\<exists>v. view c' (gvk, obj_namespace (u_obj ob), obj_name (u_obj ob)) = Some (ob\<lparr>u_version := Some v\<rparr>)"
proof -
  from assms obtain existing :: "'r uobj" and c1 where
    "api_Update e gvk (obj_namespace (u_obj ob)) (ob\<lparr>u_version := u_version existing\<rparr>) [] c1 = (None, c')"
    by (auto simp: update_existing_def generateSubresources_def Let_def split: prod.splits sum.splits)
  from update_stores [OF this] show ?thesis by auto
qed

lemma create_effect:
  assumes "executeCreateOperation e op1 c = (None, c')" and "cr_subresource op1 = []"
    and "toUnstructured e (cr_object op1) = Some ob"
    and "GroupVersionResource e (obj_apiVersion (u_obj ob)) (obj_kind (u_obj ob)) = Some gvk"
  shows "if ignoreIfExists op1 then view c' (gvk, obj_namespace (u_obj ob), obj_name (u_obj ob)) \<noteq> None
    else \<exists>v. view c' (gvk, obj_namespace (u_obj ob), obj_name (u_obj ob)) = Some (ob\<lparr>u_version := Some v\<rparr>)"
proof -
  obtain err c1 where create: "api_Create e gvk (obj_namespace (u_obj ob)) ob [] c = (err, c1)"
    by (cases "api_Create e gvk (obj_namespace (u_obj ob)) ob [] c")
  consider "err = None" "c' = c1" | "err = Some AlreadyExists" "ignoreIfExists op1" "c' = c1"
    | "err = Some AlreadyExists" "\<not> ignoreIfExists op1" "RetryOnConflict e (update_existing e op1 gvk ob) c1 = (None, c')"
    using assms create by (auto simp: executeCreateOperation_def generateSubresources_def Let_def split: if_splits)
  then show ?thesis
  proof cases
    case 1
    with create_stores [of gvk "obj_namespace (u_obj ob)" ob c c1] create show ?thesis by auto
  next
    case 2
    with create_exists [of gvk "obj_namespace (u_obj ob)" ob c c1] create show ?thesis by auto
  next
    case 3
    with retry_last [OF 3(3)] update_existing_effect [OF _ assms(2)] show ?thesis by auto
  qed
qed

lemma delete_effect:
  assumes "executeDeleteOperation e op1 c = (None, c')" and "deletionPropagation op1 = Foreground" and "de_subresource op1 = []"
    and "GroupVersionResource e (de_apiVersion op1) (de_kind op1) = Some gvk"
  shows "view c' (gvk, de_namespace op1, de_name op1) = None"
proof -
  obtain err c1 where del: "api_Delete e gvk (de_namespace op1) (de_name op1) Foreground [] c = (err, c1)"
    by (cases "api_Delete e gvk (de_namespace op1) (de_name op1) Foreground [] c")
  have "err = Some NotFound \<and> c' = c1 \<or> PollUntil e (deletion_seen e op1 gvk) c1 = (None, c')"
    using assms(1) unfolding executeDeleteOperation_def assms(2-4) by (simp add: del split: if_split_asm)
  then consider "err = Some NotFound" "c' = c1" | "PollUntil e (deletion_seen e op1 gvk) c1 = (None, c')" by blast
  then show ?thesis
  proof cases
    case 1
    with del delete_missing [of gvk "de_namespace op1" "de_name op1" Foreground c c1] show ?thesis by simp
  next
    case 2
    from poll_last [OF 2] obtain c0 where "deletion_seen e op1 gvk c0 = (Inr True, c')" by blast
    then have "api_Get e gvk (de_namespace op1) (de_name op1) [] c0 = (Inl NotFound, c')"
      by (auto simp: deletion_seen_def Let_def split: prod.splits sum.splits api_error.splits)
    then show ?thesis by (rule get_missing)
  qed
qed

lemma filter_effect:
  assumes "executeFilterOperation e op1 c = (None, c')" and "filterFunc op1 = Some fn" and "pa_subresource op1 = []"
    and "GroupVersionResource e (pa_apiVersion op1) (pa_kind op1) = Some gvk"
    and keeps: "\<And>ob new. fn ob = Some new \<Longrightarrow> u_version new = u_version ob \<and> obj_name (u_obj new) = pa_name op1"
  shows "ignoreMissingObject op1 \<and> view c' (gvk, pa_namespace op1, pa_name op1) = None \<or>
    (\<exists>ob. view c' (gvk, pa_namespace op1, pa_name op1) = Some ob \<and> fn ob = Some ob) \<or>
    (\<exists>cw cur new v. view cw (gvk, pa_namespace op1, pa_name op1) = Some cur \<and> fn cur = Some new \<and>
       view c' = (view cw)((gvk, pa_namespace op1, pa_name op1) \<mapsto> new\<lparr>u_version := Some v\<rparr>))"
proof -
  from assms(1,2,4) have "RetryOnConflict e (filter_attempt e op1 fn gvk) c = (None, c')"
    by (simp add: executeFilterOperation_def)
  from retry_last [OF this] obtain c0 where att: "filter_attempt e op1 fn gvk c0 = (None, c')" by blast
  obtain r c1 where get: "api_Get e gvk (pa_namespace op1) (pa_name op1) [] c0 = (r, c1)"
    by (cases "api_Get e gvk (pa_namespace op1) (pa_name op1) [] c0")
  show ?thesis
  proof (cases r)
    case (Inl err)
    with att get have "ignoreMissingObject op1" "err = NotFound" "c' = c1"
      by (auto simp: filter_attempt_def split: if_splits)
    with get_missing [of gvk "pa_namespace op1" "pa_name op1" c0 c1] Inl get show ?thesis by simp
  next
    case (Inr ob)
    then have ob: "view c1 (gvk, pa_namespace op1, pa_name op1) = Some ob" using get_found get by simp
    from att get Inr obtain new where new: "fn ob = Some new"
      and upd: "new = ob \<and> c' = c1 \<or> api_Update e gvk (pa_namespace op1) new [] c1 = (None, c')"
      by (auto simp: filter_attempt_def generateSubresources_def assms(3) split: option.splits if_splits)
    from upd show ?thesis
    proof
      assume "new = ob \<and> c' = c1"
      with new ob show ?thesis by blast
    next
      assume "api_Update e gvk (pa_namespace op1) new [] c1 = (None, c')"
      from update_stores [OF this] keeps [OF new] version_content [OF ob] obtain cw cur v where
        w: "view cw (gvk, pa_namespace op1, pa_name op1) = Some cur" "u_version cur = u_version ob"
          "view c' = (view cw)((gvk, pa_namespace op1, pa_name op1) \<mapsto> new\<lparr>u_version := Some v\<rparr>)" by auto
      with same_version [OF w(1) ob] new show ?thesis by blast
    qed
  qed
qed

end

text \<open>
  A small server: it stores objects with a running number, and the pair of both is the version. \<open>retry_run\<close> gives up after a
  number of attempts, \<open>poll_run\<close> after a number of polls.
\<close>

record small_server =
  stored :: "(string \<times> string \<times> string) \<rightharpoonup> nat \<times> kube_object"
  revision :: nat

type_synonym small_version = "nat \<times> kube_object"

definition small_view :: "small_server \<Rightarrow> string \<times> string \<times> string \<Rightarrow> small_version uobj option" where
  "small_view c k = map_option (\<lambda>(n, ob). \<lparr>u_obj = ob, u_version = Some (n, ob)\<rparr>) (stored c k)"

definition small_store :: "string \<times> string \<times> string \<Rightarrow> kube_object \<Rightarrow> small_server \<Rightarrow> small_server" where
  "small_store k ob c = c\<lparr>stored := (stored c)(k \<mapsto> (revision c, ob)), revision := revision c + 1\<rparr>"

fun retry_run :: "nat \<Rightarrow> ('c \<Rightarrow> api_error option \<times> 'c) \<Rightarrow> 'c \<Rightarrow> api_error option \<times> 'c" where
  "retry_run 0 f c = f c"
| "retry_run (Suc n) f c = (let (r, c') = f c in if r = Some Conflict then retry_run n f c' else (r, c'))"

fun poll_run :: "nat \<Rightarrow> ('c \<Rightarrow> (api_error + bool) \<times> 'c) \<Rightarrow> 'c \<Rightarrow> api_error option \<times> 'c" where
  "poll_run 0 p c = (Some (OtherError ''timeout''), c)"
| "poll_run (Suc n) p c = (case p c of (Inl err, c') \<Rightarrow> (Some err, c') | (Inr b, c') \<Rightarrow> if b then (None, c') else poll_run n p c')"

definition small_env :: "(small_version, small_server) patcher_env" where
  "small_env = \<lparr>GroupVersionResource = (\<lambda>v k. Some k),
     api_Get = (\<lambda>g ns n subs c. (case small_view c (g, ns, n) of None \<Rightarrow> Inl NotFound | Some ob \<Rightarrow> Inr ob, c)),
     api_Create = (\<lambda>g ns ob subs c. if small_view c (g, ns, obj_name (u_obj ob)) \<noteq> None then (Some AlreadyExists, c)
        else (None, small_store (g, ns, obj_name (u_obj ob)) (u_obj ob) c)),
     api_Update = (\<lambda>g ns ob subs c. case small_view c (g, ns, obj_name (u_obj ob)) of None \<Rightarrow> (Some NotFound, c)
        | Some cur \<Rightarrow> if u_version ob \<noteq> None \<and> u_version ob \<noteq> u_version cur then (Some Conflict, c)
            else (None, small_store (g, ns, obj_name (u_obj ob)) (u_obj ob) c)),
     api_Patch = (\<lambda>g ns n ty bytes subs c. (Some (OtherError ''unsupported''), c)),
     api_Delete = (\<lambda>g ns n prop sub c. if small_view c (g, ns, n) = None then (Some NotFound, c)
        else (None, c\<lparr>stored := (stored c)((g, ns, n) := None)\<rparr>)),
     RetryOnConflict = retry_run 3, PollUntil = poll_run 20, NewFromYAML = (\<lambda>_. None), ToUnstructured = (\<lambda>_. None),
     yaml_to_json = (\<lambda>_. None), object_json = (\<lambda>_. JNull), json_Marshal = (\<lambda>_. Some ''null''), ApplyFilter = (\<lambda>_ _. None),
     decode_object = (\<lambda>_. None), encodes = (\<lambda>_. True)\<rparr>"

lemma retry_run_last: "\<exists>c0. f c0 = retry_run n f c"
  by (induction n arbitrary: c) (auto simp: Let_def split: prod.splits)

lemma poll_run_last: "poll_run n p c = (None, c') \<Longrightarrow> \<exists>c0. p c0 = (Inr True, c')"
  by (induction n arbitrary: c) (auto split: prod.splits sum.splits if_splits)

lemma small_store_view:
  "small_view (small_store k (u_obj ob) c) = (small_view c)(k \<mapsto> ob\<lparr>u_version := Some (revision c, u_obj ob)\<rparr>)"
  by (cases ob) (auto simp: small_view_def small_store_def)

interpretation small: api_server small_env small_view "\<lambda>k v. \<lparr>u_obj = snd v, u_version = Some v\<rparr>"
proof unfold_locales
  show "\<exists>cw cur v. small_view cw (g, ns, obj_name (u_obj ob)) = Some cur \<and> (u_version ob \<noteq> None \<longrightarrow> u_version cur = u_version ob) \<and>
      small_view c' = (small_view cw)((g, ns, obj_name (u_obj ob)) \<mapsto> ob\<lparr>u_version := Some v\<rparr>)"
    if "api_Update small_env g ns ob [] c = (None, c')" for g ns ob c c'
  proof -
    from that obtain cur where "small_view c (g, ns, obj_name (u_obj ob)) = Some cur" "u_version ob \<noteq> None \<longrightarrow> u_version cur = u_version ob"
      "c' = small_store (g, ns, obj_name (u_obj ob)) (u_obj ob) c"
      by (auto simp: small_env_def split: option.splits if_splits)
    then show ?thesis
      by (intro exI [of _ c] exI [of _ cur] exI [of _ "(revision c, u_obj ob)"]) (simp add: small_store_view)
  qed
  show "\<exists>v. small_view c' (g, ns, obj_name (u_obj ob)) = Some (ob\<lparr>u_version := Some v\<rparr>)"
    if "api_Create small_env g ns ob [] c = (None, c')" for g ns ob c c'
    using that by (intro exI [of _ "(revision c, u_obj ob)"]) (auto simp: small_env_def small_store_view split: if_splits)
  show "\<exists>c0. f c0 = (r, c')" if "RetryOnConflict small_env f c = (r, c')" for f c r c'
    using that retry_run_last [of f 3 c] by (simp add: small_env_def)
  show "\<exists>c0. p c0 = (Inr True, c')" if "PollUntil small_env p c = (None, c')" for p c c'
    using that poll_run_last [of 20 p c c'] by (simp add: small_env_def)
qed (auto simp: small_env_def small_view_def split: option.splits if_splits)

section \<open>Properties\<close>

lemma object_operations_facts:
  assumes "api_server e view content_of"
  shows "toUnstructured e obj = Some ob \<Longrightarrow> GroupVersionResource e (obj_apiVersion (u_obj ob)) (obj_kind (u_obj ob)) = Some gvk \<Longrightarrow>
      ty \<in> {''Create'', ''CreateOrUpdate'', ''CreateIfNotExists''} \<Longrightarrow> ExecuteOperation e (Some (newCreateOperation ty obj)) c = (None, c') \<Longrightarrow>
      if ty = ''CreateIfNotExists'' then view c' (gvk, obj_namespace (u_obj ob), obj_name (u_obj ob)) \<noteq> None
      else \<exists>v. view c' (gvk, obj_namespace (u_obj ob), obj_name (u_obj ob)) = Some (ob\<lparr>u_version := Some v\<rparr>)"
    and "GroupVersionResource e apiVersion kind = Some gvk \<Longrightarrow>
      ExecuteOperation e (Some (newDeleteOperation Foreground apiVersion kind namespace name)) c = (None, c') \<Longrightarrow>
      view c' (gvk, namespace, name) = None"
proof -
  assume a: "toUnstructured e obj = Some ob" "GroupVersionResource e (obj_apiVersion (u_obj ob)) (obj_kind (u_obj ob)) = Some gvk"
    "ExecuteOperation e (Some (newCreateOperation ty obj)) c = (None, c')"
  let ?op = "\<lparr>cr_object = obj, cr_subresource = [], ignoreIfExists = (ty = ''CreateIfNotExists''),
       updateIfExists = (ty = ''CreateOrUpdate'')\<rparr>"
  have "executeCreateOperation e ?op c = (None, c')" using a(3) by (simp add: newCreateOperation_def)
  from api_server.create_effect [OF assms this] a(1,2)
  show "if ty = ''CreateIfNotExists'' then view c' (gvk, obj_namespace (u_obj ob), obj_name (u_obj ob)) \<noteq> None
      else \<exists>v. view c' (gvk, obj_namespace (u_obj ob), obj_name (u_obj ob)) = Some (ob\<lparr>u_version := Some v\<rparr>)" by simp
next
  assume a: "GroupVersionResource e apiVersion kind = Some gvk"
    "ExecuteOperation e (Some (newDeleteOperation Foreground apiVersion kind namespace name)) c = (None, c')"
  let ?op = "\<lparr>de_apiVersion = apiVersion, de_kind = kind, de_namespace = namespace, de_name = name, de_subresource = [],
       deletionPropagation = Foreground\<rparr>"
  have "executeDeleteOperation e ?op c = (None, c')" using a(2) by (simp add: newDeleteOperation_def)
  from api_server.delete_effect [OF assms this] a(1) show "view c' (gvk, namespace, name) = None" by simp
qed


definition demo_pod :: "json \<Rightarrow> small_version uobj" where
  "demo_pod content = \<lparr>u_obj = \<lparr>obj_apiVersion = ''v1'', obj_kind = ''Pod'', obj_namespace = ''d'', obj_name = ''p'', obj_content = content\<rparr>,
     u_version = None\<rparr>"

definition demo_server :: small_server where
  "demo_server = \<lparr>stored = [(''Pod'', ''d'', ''p'') \<mapsto> (0, u_obj (demo_pod JNull))], revision = 1\<rparr>"



definition demo_filter :: "small_version filter_fn" where
  "demo_filter ob = (if obj_name (u_obj ob) = ''p'' then Some (ob\<lparr>u_obj := (u_obj ob)\<lparr>obj_content := JNum 2\<rparr>\<rparr>) else None)"

definition demo_patch :: "small_version patchOperation" where
  "demo_patch = \<lparr>pa_apiVersion = ''v1'', pa_kind = ''Pod'', pa_namespace = ''d'', pa_name = ''p'', pa_subresource = [], patchType = [],
     pa_patch = AnyNil, filterFunc = Some demo_filter, ignoreMissingObject = False, ignoreHookError = False\<rparr>"


end
