(* ===== verification/Hook_Run.thy ===== *)
theory Hook_Run
  imports Webhook_Handlers Object_Patch
begin

text \<open>
  \<open>pkg/hook/hook.go\<close> (\<open>Run\<close> and the temporary files), \<open>hook_io.go\<close> and \<open>operation.go\<close>, the response files of
  \<open>pkg/webhook/admission\<close> and \<open>pkg/webhook/conversion\<close>, and \<open>handleRunHook\<close> of \<open>pkg/shell-operator/operator.go\<close>: one
  execution of a hook.

  The file system is a map from paths to contents. Arguments (\<open>run_env\<close>): random ids, sanitized names, which files
  cannot be created, the encoding of binding contexts (\<open>False\<close>: an error after a part was written), the command, which may
  write any file, the JSON decoders, and the metric storage. Numbers of metrics are rationals. Error texts are kinds of errors.
\<close>

type_synonym files = "string \<rightharpoonup> string"

section \<open>Metric operations\<close>

record MetricOperation =
  mo_Name :: string
  mo_Add :: "rat option"
  mo_Set :: "rat option"
  mo_Value :: "rat option"
  mo_Buckets :: "rat list option"
  mo_Labels :: "(string \<times> string) list"
  mo_Group :: string
  mo_Action :: string

definition shortcut :: "string \<Rightarrow> MetricOperation \<Rightarrow> MetricOperation" where
  "shortcut defaultGroup m =
     (let m = (if mo_Set m \<noteq> None \<and> mo_Add m = None then m\<lparr>mo_Action := ''set'', mo_Value := mo_Set m\<rparr> else m);
          m = (if mo_Add m \<noteq> None \<and> mo_Set m = None then m\<lparr>mo_Action := ''add'', mo_Value := mo_Add m\<rparr> else m)
      in if mo_Group m = [] then m\<lparr>mo_Group := defaultGroup\<rparr> else m)"

text \<open>\<open>docs\<close> decodes the stream; \<open>None\<close>: an error of the decoder.\<close>

definition MetricOperationsFromBytes :: "(string \<Rightarrow> MetricOperation list option) \<Rightarrow> string \<Rightarrow> string \<Rightarrow> MetricOperation list option" where
  "MetricOperationsFromBytes docs data defaultGroup = map_option (map (shortcut defaultGroup)) (docs data)"

definition MetricOperationsFromFile :: "(string \<Rightarrow> MetricOperation list option) \<Rightarrow> files \<Rightarrow> string \<Rightarrow> string \<Rightarrow> MetricOperation list option" where
  "MetricOperationsFromFile docs fs path defaultGroup =
     (case fs path of
        None \<Rightarrow> None
      | Some data \<Rightarrow> if data = [] then Some [] else MetricOperationsFromBytes docs data defaultGroup)"

datatype metric_problem = NoAction | BadAction | NoName | NoNameForGroup | NoValue string | NoBuckets | SetAndAdd

definition ValidateMetricOperation :: "MetricOperation \<Rightarrow> metric_problem list" where
  "ValidateMetricOperation m =
     (if mo_Action m = [] then [NoAction] else []) @
     (if mo_Group m = []
      then (if mo_Action m \<notin> {''set'', ''add'', ''observe''} then [BadAction] else [])
      else (if mo_Action m \<notin> {''expire'', ''set'', ''add''} then [BadAction] else [])) @
     (if mo_Name m = [] \<and> mo_Group m = [] then [NoName] else []) @
     (if mo_Name m = [] \<and> mo_Group m \<noteq> [] \<and> mo_Action m \<noteq> ''expire'' then [NoNameForGroup] else []) @
     (if mo_Action m = ''set'' \<and> mo_Value m = None then [NoValue ''set''] else []) @
     (if mo_Action m = ''add'' \<and> mo_Value m = None then [NoValue ''add''] else []) @
     (if mo_Action m = ''observe'' \<and> mo_Value m = None then [NoValue ''observe''] else []) @
     (if mo_Action m = ''observe'' \<and> mo_Buckets m = None then [NoBuckets] else []) @
     (if mo_Set m \<noteq> None \<and> mo_Add m \<noteq> None then [SetAndAdd] else [])"

definition ValidateOperations :: "MetricOperation list \<Rightarrow> metric_problem list" where
  "ValidateOperations ops = concat (map ValidateMetricOperation ops)"

datatype metric_action = ActionCounterAdd | ActionGaugeSet | ActionHistogramObserve | ActionExpireMetrics

record storage_operation =
  so_Name :: string
  so_Value :: "rat option"
  so_Buckets :: "rat list option"
  so_Labels :: "(string \<times> string) list"
  so_Group :: string
  so_Action :: metric_action

definition remap_action :: "string \<Rightarrow> metric_action option" where
  "remap_action action =
     (if action = ''add'' then Some ActionCounterAdd else if action = ''set'' then Some ActionGaugeSet
      else if action = ''observe'' then Some ActionHistogramObserve else if action = ''expire'' then Some ActionExpireMetrics
      else None)"

definition remapOperationsToOperations :: "MetricOperation list \<Rightarrow> storage_operation list" where
  "remapOperationsToOperations ops =
     List.map_filter (\<lambda>m. map_option (\<lambda>action. \<lparr>so_Name = mo_Name m, so_Value = mo_Value m, so_Buckets = mo_Buckets m,
         so_Labels = mo_Labels m, so_Group = mo_Group m, so_Action = action\<rparr>) (remap_action (mo_Action m))) ops"

section \<open>Temporary files\<close>

record HookEnv =
  ContextPath :: string
  MetricsPath :: string
  AdmissionPath :: string
  ConversionPath :: string
  KubernetesPatchPath :: string

definition Envs :: "string list \<Rightarrow> HookEnv \<Rightarrow> string list" where
  "Envs environ env = environ @
     (if ContextPath env \<noteq> []
      then [''BINDING_CONTEXT_PATH='' @ ContextPath env, ''METRICS_PATH='' @ MetricsPath env,
            ''CONVERSION_RESPONSE_PATH='' @ ConversionPath env, ''VALIDATING_RESPONSE_PATH='' @ AdmissionPath env,
            ''ADMISSION_RESPONSE_PATH='' @ AdmissionPath env, ''KUBERNETES_PATCH_PATH='' @ KubernetesPatchPath env]
      else [])"

record 'o run_env =
  re_uuid :: "nat \<Rightarrow> string"
  SafeName :: "string \<Rightarrow> string"
  TmpDir :: string
  KeepTemporaryHookFiles :: bool
  cannot_create :: "string \<Rightarrow> bool"
  WriteJson :: "(string \<rightharpoonup> field_value) list \<Rightarrow> string \<times> bool"
  re_environ :: "string list"
  RunAndLogLines :: "string \<Rightarrow> string list \<Rightarrow> files \<Rightarrow> bool \<times> files"
  metric_docs :: "string \<Rightarrow> MetricOperation list option"
  admission_doc :: "string \<Rightarrow> Response option"
  conversion_doc :: "string \<Rightarrow> 'o conv_Response option"
  re_unmarshal :: "string \<Rightarrow> json option"
  re_snap :: snap_env

definition tmp_name :: "'o run_env \<Rightarrow> string \<Rightarrow> string \<Rightarrow> nat \<Rightarrow> string" where
  "tmp_name e hookName what n = TmpDir e @ ''/hook-'' @ SafeName e hookName @ ''-'' @ what @ ''-'' @ re_uuid e n @ ''.json''"

definition patch_name :: "'o run_env \<Rightarrow> string \<Rightarrow> nat \<Rightarrow> string" where
  "patch_name e hookName n = TmpDir e @ ''/'' @ SafeName e hookName @ ''-object-patch-'' @ re_uuid e n"

text \<open>An empty file, or the encoded binding contexts. \<open>False\<close>: an error.\<close>

definition prepare_empty :: "'o run_env \<Rightarrow> string \<Rightarrow> files \<Rightarrow> bool \<times> files" where
  "prepare_empty e path fs = (if cannot_create e path then (False, fs) else (True, fs(path \<mapsto> [])))"

definition prepareBindingContextJsonFile :: "'o run_env \<Rightarrow> string \<Rightarrow> (string \<rightharpoonup> field_value) list \<Rightarrow> files \<Rightarrow> bool \<times> files" where
  "prepareBindingContextJsonFile e path ctx fs =
     (if cannot_create e path then (False, fs) else (snd (WriteJson e ctx), fs(path \<mapsto> fst (WriteJson e ctx))))"

definition hook_env :: "'o run_env \<Rightarrow> string \<Rightarrow> nat \<Rightarrow> HookEnv" where
  "hook_env e hookName n = \<lparr>ContextPath = tmp_name e hookName ''binding-context'' n, MetricsPath = tmp_name e hookName ''metrics'' (n + 1),
     AdmissionPath = tmp_name e hookName ''admission-response'' (n + 2), ConversionPath = tmp_name e hookName ''conversion-response'' (n + 3),
     KubernetesPatchPath = patch_name e hookName (n + 4)\<rparr>"

text \<open>\<open>None\<close>: an error; files made before it stay. \<open>n\<close> counts the random ids.\<close>

definition Prepare :: "'o run_env \<Rightarrow> string \<Rightarrow> (string \<rightharpoonup> field_value) list \<Rightarrow> nat \<Rightarrow> files \<Rightarrow> HookEnv option \<times> files" where
  "Prepare e hookName ctx n fs =
     (let env = hook_env e hookName n;
          (ok, fs) = prepareBindingContextJsonFile e (ContextPath env) ctx fs in
      if \<not> ok then (None, fs) else let (ok, fs) = prepare_empty e (MetricsPath env) fs in
      if \<not> ok then (None, fs) else let (ok, fs) = prepare_empty e (AdmissionPath env) fs in
      if \<not> ok then (None, fs) else let (ok, fs) = prepare_empty e (ConversionPath env) fs in
      if \<not> ok then (None, fs) else let (ok, fs) = prepare_empty e (KubernetesPatchPath env) fs in
      if \<not> ok then (None, fs) else (Some env, fs))"

definition env_paths :: "HookEnv \<Rightarrow> string list" where
  "env_paths env = [ContextPath env, MetricsPath env, ConversionPath env, AdmissionPath env, KubernetesPatchPath env]"

definition Cleanup :: "'o run_env \<Rightarrow> HookEnv \<Rightarrow> files \<Rightarrow> files" where
  "Cleanup e env fs = (if KeepTemporaryHookFiles e then fs else fold (\<lambda>p fs. fs(p := None)) (env_paths env) fs)"

section \<open>Running a hook\<close>

record 'o run_result =
  Metrics :: "storage_operation list"
  ConversionResponse :: "'o conv_Response option"
  AdmissionResponse :: "Response option"
  KubernetesPatchBytes :: string

definition empty_result :: "'o run_result" where
  "empty_result = \<lparr>Metrics = [], ConversionResponse = None, AdmissionResponse = None, KubernetesPatchBytes = []\<rparr>"

datatype run_error = PrepareFailed | HookFailed | BadMetrics | BadAdmissionResponse | BadConversionResponse | NoPatchFile

text \<open>A response file: \<open>Inr None\<close> when it is empty.\<close>

definition ResponseFromFile :: "(string \<Rightarrow> 'a option) \<Rightarrow> files \<Rightarrow> string \<Rightarrow> unit + 'a option" where
  "ResponseFromFile doc fs path =
     (case fs path of
        None \<Rightarrow> Inl ()
      | Some data \<Rightarrow> if data = [] then Inr None else (case doc data of None \<Rightarrow> Inl () | Some r \<Rightarrow> Inr (Some r)))"

definition ParseResult :: "'o run_env \<Rightarrow> string \<Rightarrow> HookEnv \<Rightarrow> files \<Rightarrow> 'o run_result \<Rightarrow> run_error option \<times> 'o run_result" where
  "ParseResult e hookName env fs result =
     (case MetricOperationsFromFile (metric_docs e) fs (MetricsPath env) hookName of
        None \<Rightarrow> (Some BadMetrics, result)
      | Some operations \<Rightarrow>
          let result = result\<lparr>Metrics := remapOperationsToOperations operations\<rparr> in
          (case ResponseFromFile (admission_doc e) fs (AdmissionPath env) of
             Inl _ \<Rightarrow> (Some BadAdmissionResponse, result\<lparr>AdmissionResponse := None\<rparr>)
           | Inr adm \<Rightarrow>
               let result = result\<lparr>AdmissionResponse := adm\<rparr> in
               (case ResponseFromFile (conversion_doc e) fs (ConversionPath env) of
                  Inl _ \<Rightarrow> (Some BadConversionResponse, result\<lparr>ConversionResponse := None\<rparr>)
                | Inr conv \<Rightarrow>
                    let result = result\<lparr>ConversionResponse := conv\<rparr> in
                    (case fs (KubernetesPatchPath env) of
                       None \<Rightarrow> (Some NoPatchFile, result\<lparr>KubernetesPatchBytes := []\<rparr>)
                     | Some bytes \<Rightarrow> (None, result\<lparr>KubernetesPatchBytes := bytes\<rparr>)))))"

text \<open>\<open>Run\<close>: the error and the result (a pointer), and what is left of the files. Outer \<open>None\<close>: a panic of the conversion.\<close>

definition run_command :: "'o run_env \<Rightarrow> string \<Rightarrow> string \<Rightarrow> HookEnv \<Rightarrow> files \<Rightarrow> (run_error option \<times> 'o run_result) \<times> files" where
  "run_command e hookName path env fs =
     (let (ok, fs) = RunAndLogLines e path (Envs (re_environ e) env) fs
      in (if \<not> ok then (Some HookFailed, empty_result) else ParseResult e hookName env fs empty_result, Cleanup e env fs))"

definition Run :: "'o run_env \<Rightarrow> ('v, 'm) hook \<Rightarrow> BindingContext list \<Rightarrow> nat \<Rightarrow> kube_world \<Rightarrow> files \<Rightarrow>
    ((run_error option \<times> 'o run_result option) \<times> kube_world \<times> files) option" where
  "Run e h contexts n w fs =
     (let (fresh, w) = hc_UpdateSnapshots (re_snap e) (h_Controller h) contexts w
      in case ConvertBindingContextList (re_unmarshal e) (Version (h_Config h)) fresh of
           None \<Rightarrow> None
         | Some ctx \<Rightarrow>
             (case Prepare e (h_Name h) ctx n fs of
                (None, fs) \<Rightarrow> Some ((Some PrepareFailed, None), w, fs)
              | (Some env, fs) \<Rightarrow>
                  let ((err, result), fs) = run_command e (h_Name h) (h_Path h) env fs
                  in Some ((err, Some result), w, fs)))"

section \<open>What a hook asked for\<close>

record ('r, 'c) patch_env =
  pe_env :: "('r, 'c) patcher_env"
  pe_json :: "string \<Rightarrow> 'r OperationSpec list option"
  pe_yaml :: "string \<Rightarrow> 'r OperationSpec list option"
  pe_valid :: "'r OperationSpec \<Rightarrow> bool"
  ApplyBatchOperations :: "storage_operation list \<Rightarrow> string \<Rightarrow> bool"

definition parse_patch :: "('r, 'c) patch_env \<Rightarrow> string \<Rightarrow> 'r operation option list \<times> bool" where
  "parse_patch p bytes = ParseOperations (pe_env p) (pe_json p) (pe_yaml p) (pe_valid p) bytes"

datatype handle_error =
    HandleRun run_error | HandleStatusPatch run_error | HandleParse | HandleExecute "(string \<times> api_error) list" | HandleMetrics

text \<open>The properties of the task that are set.\<close>

record 'o run_props =
  admissionResponse :: "Response option"
  conversionResponse :: "'o conv_Response option"

definition no_props :: "'o run_props" where
  "no_props = \<lparr>admissionResponse = None, conversionResponse = None\<rparr>"

definition after_error :: "('r, 'c) patch_env \<Rightarrow> run_error \<Rightarrow> 'o run_result option \<Rightarrow> 'c \<Rightarrow> (handle_error \<times> 'c) option" where
  "after_error p err result c =
     (case result of
        None \<Rightarrow> Some (HandleRun err, c)
      | Some r \<Rightarrow>
          if KubernetesPatchBytes r \<noteq> []
          then let (ops, bad) = parse_patch p (KubernetesPatchBytes r)
               in if bad then Some (HandleStatusPatch err, c)
                  else map_option (\<lambda>(errs, c). (if errs \<noteq> [] then HandleStatusPatch err else HandleRun err, c))
                         (ExecuteOperations (pe_env p) (GetPatchStatusOperationsOnHookError ops) c)
          else Some (HandleRun err, c))"

definition after_success :: "('r, 'c) patch_env \<Rightarrow> string \<Rightarrow> 'o run_result \<Rightarrow> 'c \<Rightarrow> (handle_error option \<times> 'o run_props \<times> 'c) option" where
  "after_success p hookName r c =
     (case (if KubernetesPatchBytes r = [] then Some (None, c)
            else let (ops, bad) = parse_patch p (KubernetesPatchBytes r)
                 in if bad then Some (Some HandleParse, c)
                    else map_option (\<lambda>(errs, c). (if errs \<noteq> [] then Some (HandleExecute errs) else None, c)) (ExecuteOperations (pe_env p) ops c)) of
        None \<Rightarrow> None
      | Some (Some err, c) \<Rightarrow> Some (Some err, no_props, c)
      | Some (None, c) \<Rightarrow>
          if \<not> ApplyBatchOperations p (Metrics r) hookName then Some (Some HandleMetrics, no_props, c)
          else Some (None, \<lparr>admissionResponse = AdmissionResponse r, conversionResponse = ConversionResponse r\<rparr>, c))"

definition handleRunHook :: "'o run_env \<Rightarrow> ('r, 'c) patch_env \<Rightarrow> ('v, 'm) hook \<Rightarrow> BindingContext list \<Rightarrow> nat \<Rightarrow> kube_world \<Rightarrow> files \<Rightarrow> 'c \<Rightarrow>
    (handle_error option \<times> 'o run_props \<times> kube_world \<times> files \<times> 'c) option" where
  "handleRunHook e p h contexts n w fs c =
     (case Run e h contexts n w fs of
        None \<Rightarrow> None
      | Some ((Some err, result), w, fs) \<Rightarrow>
          map_option (\<lambda>(er, c). (Some er, no_props, w, fs, c)) (after_error p err result c)
      | Some ((None, None), w, fs) \<Rightarrow> None
      | Some ((None, Some r), w, fs) \<Rightarrow>
          map_option (\<lambda>(er, props, c). (er, props, w, fs, c)) (after_success p (h_Name h) r c))"

section \<open>Lemmas\<close>

lemma Prepare_env: "Prepare e hookName ctx n fs = (Some env, fs') \<Longrightarrow> env = hook_env e hookName n"
  by (auto simp: Prepare_def Let_def split: prod.splits if_splits)

lemma Cleanup_removes: "\<not> KeepTemporaryHookFiles e \<Longrightarrow> path \<in> set (env_paths env) \<Longrightarrow> Cleanup e env fs path = None"
  by (auto simp: Cleanup_def env_paths_def)

lemma ParseResult_bytes: "ParseResult e hookName env fs empty_result = (Some err, r) \<Longrightarrow> KubernetesPatchBytes r = []"
  by (auto simp: ParseResult_def empty_result_def Let_def split: option.splits sum.splits)

lemma run_command_facts:
  assumes "run_command e hookName path env fs = ((err, r), fs')"
  shows "err \<noteq> None \<Longrightarrow> KubernetesPatchBytes r = []" and "err \<noteq> Some PrepareFailed"
    and "\<not> KeepTemporaryHookFiles e \<Longrightarrow> q \<in> set (env_paths env) \<Longrightarrow> fs' q = None"
  using assms ParseResult_bytes [of e hookName env] Cleanup_removes [of e q env]
  by (auto simp: run_command_def empty_result_def ParseResult_def Let_def split: prod.splits if_splits option.splits sum.splits)

lemma Run_cases:
  assumes "Run e h contexts n w fs = Some ((err, res), w', fs')"
  shows "err = Some PrepareFailed \<and> res = None \<or>
    err \<noteq> Some PrepareFailed \<and> (\<exists>r. res = Some r \<and> (err \<noteq> None \<longrightarrow> KubernetesPatchBytes r = [])) \<and>
      (KeepTemporaryHookFiles e \<or> list_all (\<lambda>q. fs' q = None) (env_paths (hook_env e (h_Name h) n)))"
proof -
  obtain fresh w1 where u: "hc_UpdateSnapshots (re_snap e) (h_Controller h) contexts w = (fresh, w1)"
    by (cases "hc_UpdateSnapshots (re_snap e) (h_Controller h) contexts w")
  with assms obtain ctx where c: "ConvertBindingContextList (re_unmarshal e) (Version (h_Config h)) fresh = Some ctx"
    by (auto simp: Run_def split: option.splits)
  obtain prep fs1 where p: "Prepare e (h_Name h) ctx n fs = (prep, fs1)" by (cases "Prepare e (h_Name h) ctx n fs")
  show ?thesis
  proof (cases prep)
    case None
    with assms u c p show ?thesis by (simp add: Run_def)
  next
    case (Some env)
    with p have env: "env = hook_env e (h_Name h) n" by (simp add: Prepare_env)
    obtain err1 r fs2 where run: "run_command e (h_Name h) (h_Path h) env fs1 = ((err1, r), fs2)"
      by (cases "run_command e (h_Name h) (h_Path h) env fs1") auto
    with assms u c p Some have "err = err1" "res = Some r" "fs' = fs2" by (simp_all add: Run_def)
    then show ?thesis using run_command_facts [OF run] env by (auto simp: list_all_iff)
  qed
qed

lemma after_error_no_bytes:
  "(\<And>r. result = Some r \<Longrightarrow> KubernetesPatchBytes r = []) \<Longrightarrow> after_error p err result c = Some (HandleRun err, c)"
  by (simp add: after_error_def split: option.splits)

lemma after_success_facts:
  assumes "after_success p hookName r c = Some (err, props, c')"
  shows "if err = None
    then ApplyBatchOperations p (Metrics r) hookName \<and>
      props = \<lparr>admissionResponse = AdmissionResponse r, conversionResponse = ConversionResponse r\<rparr> \<and>
      (if KubernetesPatchBytes r = [] then c' = c
       else \<exists>ops. parse_patch p (KubernetesPatchBytes r) = (ops, False) \<and> ExecuteOperations (pe_env p) ops c = Some ([], c'))
    else props = no_props"
  using assms by (auto simp: after_success_def Let_def split: option.splits if_splits prod.splits)

lemma parse_specs_not_nil:
  "(\<And>spec. valid spec \<Longrightarrow> NewFromOperationSpec e spec \<noteq> None) \<Longrightarrow> None \<notin> set (fst (parse_specs e valid specs))"
proof (induction specs)
  case (Cons spec specs)
  then show ?case using Cons.prems [of spec] by (cases "NewFromOperationSpec e spec") (auto simp: Let_def split: prod.splits)
qed simp

lemma ExecuteOperations_total: "None \<notin> set ops \<Longrightarrow> ExecuteOperations e ops c \<noteq> None"
proof (induction ops arbitrary: c)
  case (Cons op1 ops)
  then obtain o1 where "op1 = Some o1" by (cases op1) auto
  moreover obtain err c1 where "ExecuteOperation e (Some o1) c = (err, c1)" by (cases "ExecuteOperation e (Some o1) c")
  ultimately show ?case using Cons.IH [of c1] Cons.prems by (auto simp: Let_def)
qed simp

lemma parse_patch_not_nil:
  assumes "\<And>spec. pe_valid p spec \<Longrightarrow> NewFromOperationSpec (pe_env p) spec \<noteq> None"
  shows "None \<notin> set (fst (parse_patch p bytes))"
  using parse_specs_not_nil [of "pe_valid p" "pe_env p"] assms
  by (simp add: parse_patch_def ParseOperations_def split: option.splits)

lemma ConvertBindingContextList_v1_total: "ConvertBindingContextList um ''v1'' bcs \<noteq> None"
  unfolding ConvertBindingContextList_def using those_map_total [of bcs "\<lambda>bc. bc_Map um (bc\<lparr>bc_Version := ''v1''\<rparr>)"
      "\<lambda>bc. MapV1 um (bc\<lparr>bc_Version := ''v1''\<rparr>)"] by (simp add: bc_Map_def)

lemma after_success_total:
  assumes "\<And>spec. pe_valid p spec \<Longrightarrow> NewFromOperationSpec (pe_env p) spec \<noteq> None"
  shows "after_success p hookName r c \<noteq> None"
proof (cases "KubernetesPatchBytes r = []")
  case False
  obtain ops bad where o: "parse_patch p (KubernetesPatchBytes r) = (ops, bad)" by (cases "parse_patch p (KubernetesPatchBytes r)")
  with parse_patch_not_nil [OF assms, of "KubernetesPatchBytes r"] have "None \<notin> set ops" by simp
  from ExecuteOperations_total [OF this, of "pe_env p" c] obtain errs c1 where "ExecuteOperations (pe_env p) ops c = Some (errs, c1)"
    by auto
  with False o show ?thesis by (simp add: after_success_def)
qed (simp add: after_success_def)

section \<open>Properties\<close>

lemma handleRunHook_facts:
  assumes "Version (h_Config h) = ''v1''" and "\<And>spec. pe_valid p spec \<Longrightarrow> NewFromOperationSpec (pe_env p) spec \<noteq> None"
  shows "\<exists>err props w' fs' c' runErr res. handleRunHook e p h contexts n w fs c = Some (err, props, w', fs', c') \<and>
    Run e h contexts n w fs = Some ((runErr, res), w', fs') \<and>
    (case runErr of
       Some er \<Rightarrow> err = Some (HandleRun er) \<and> c' = c \<and> props = no_props
     | None \<Rightarrow> \<exists>r. res = Some r \<and>
         (if err = None
          then ApplyBatchOperations p (Metrics r) (h_Name h) \<and>
            props = \<lparr>admissionResponse = AdmissionResponse r, conversionResponse = ConversionResponse r\<rparr> \<and>
            (if KubernetesPatchBytes r = [] then c' = c
             else \<exists>ops. parse_patch p (KubernetesPatchBytes r) = (ops, False) \<and> ExecuteOperations (pe_env p) ops c = Some ([], c'))
          else props = no_props)) \<and>
    (runErr = Some PrepareFailed \<or> KeepTemporaryHookFiles e \<or> list_all (\<lambda>q. fs' q = None) (env_paths (hook_env e (h_Name h) n)))"
proof -
  obtain fresh w1 where u: "hc_UpdateSnapshots (re_snap e) (h_Controller h) contexts w = (fresh, w1)"
    by (cases "hc_UpdateSnapshots (re_snap e) (h_Controller h) contexts w")
  from ConvertBindingContextList_v1_total obtain ctx where "ConvertBindingContextList (re_unmarshal e) ''v1'' fresh = Some ctx" by blast
  with u have "Run e h contexts n w fs \<noteq> None"
    by (simp add: Run_def assms(1) Let_def split: prod.splits option.splits)
  then obtain runErr res w' fs' where run: "Run e h contexts n w fs = Some ((runErr, res), w', fs')" by auto
  note cases = Run_cases [OF run]
  show ?thesis
  proof (cases runErr)
    case (Some er)
    then have "after_error p er res c = Some (HandleRun er, c)" using cases by (intro after_error_no_bytes) auto
    then show ?thesis using run Some cases by (simp add: handleRunHook_def) blast
  next
    case None
    with cases obtain r where r: "res = Some r" by auto
    from after_success_total [OF assms(2), of "h_Name h" r c] obtain err props c' where s: "after_success p (h_Name h) r c = Some (err, props, c')"
      by (cases "after_success p (h_Name h) r c") auto
    have h: "handleRunHook e p h contexts n w fs c = Some (err, props, w', fs', c')"
      using run None r s by (simp add: handleRunHook_def)
    show ?thesis
      by (rule exI [of _ err], rule exI [of _ props], rule exI [of _ w'], rule exI [of _ fs'], rule exI [of _ c'],
          rule exI [of _ runErr], rule exI [of _ res])
        (use h run None r after_success_facts [OF s] cases in simp)
  qed
qed


definition demo_run_env :: "bool \<Rightarrow> json run_env" where
  "demo_run_env ok = \<lparr>re_uuid = (\<lambda>n. replicate n CHR ''u''), SafeName = (\<lambda>s. s), TmpDir = ''/tmp'', KeepTemporaryHookFiles = False,
     cannot_create = (\<lambda>_. False), WriteJson = (\<lambda>_. (''[]'', True)), re_environ = [],
     RunAndLogLines = (\<lambda>_ _ fs. (ok, fs)), metric_docs = (\<lambda>_. None), admission_doc = (\<lambda>_. None), conversion_doc = (\<lambda>_. None),
     re_unmarshal = (\<lambda>_. None), re_snap = \<lparr>sn_perm = oldest_first, sn_sorter = (\<lambda>xs. xs), sn_other = (\<lambda>_ w. w)\<rparr>\<rparr>"

definition demo_patch_env :: "(small_version, small_server) patch_env" where
  "demo_patch_env = \<lparr>pe_env = small_env, pe_json = (\<lambda>_. None), pe_yaml = (\<lambda>_. None), pe_valid = (\<lambda>_. False),
     ApplyBatchOperations = (\<lambda>_ _. True)\<rparr>"

definition demo_run_hook :: "(unit, unit) hook" where
  "demo_run_hook = \<lparr>h_Name = ''h'', h_Path = ''/h'', h_Config = demo_hook_config None, h_Controller = NewHookController\<rparr>"


end
