(* ===== verification/Go_Linked_List.thy ===== *)
theory Go_Linked_List
  imports Go_Prelude
begin

text \<open>
  The generic doubly linked list of \<open>pkg/utils/list/list.go\<close>, at the level of its pointers.

  A heap holds every element and every list header. A pointer is the sentinel \<open>Root l\<close> of
  list \<open>l\<close> or an allocated element \<open>El n\<close>; \<open>None\<close> is the nil pointer. Each operation does
  the source's assignments in the source's order; following a nil pointer is a panic, the
  value \<open>None\<close>. \<open>ring h l xs\<close> says that list \<open>l\<close> is a well-formed ring whose elements
  are \<open>xs\<close>; the lemmas show that no operation panics on a ring and what each does to \<open>xs\<close>.
\<close>

named_theorems ring_ops \<open>effect of the list operations on a ring\<close>

section \<open>The heap and the operations\<close>

datatype ptr = Root nat | El nat

record 'a lheap =
  nxt :: "ptr \<Rightarrow> ptr option"
  prv :: "ptr \<Rightarrow> ptr option"
  own :: "ptr \<Rightarrow> nat option"    \<comment> \<open>the field \<open>list\<close> of an element\<close>
  val :: "ptr \<Rightarrow> 'a option"     \<comment> \<open>the field \<open>Value\<close>\<close>
  llen :: "nat \<Rightarrow> nat"          \<comment> \<open>the field \<open>len\<close> of a list\<close>
  fresh :: nat                   \<comment> \<open>elements \<open>El n\<close> with \<open>fresh \<le> n\<close> are not allocated\<close>

definition empty_lheap :: "'a lheap" where
  "empty_lheap = \<lparr>nxt = (\<lambda>_. None), prv = (\<lambda>_. None), own = (\<lambda>_. None),
     val = (\<lambda>_. None), llen = (\<lambda>_. 0), fresh = 0\<rparr>"

definition set_nxt :: "ptr \<Rightarrow> ptr option \<Rightarrow> 'a lheap \<Rightarrow> 'a lheap" where
  "set_nxt p q h = h\<lparr>nxt := (nxt h)(p := q)\<rparr>"

definition set_prv :: "ptr \<Rightarrow> ptr option \<Rightarrow> 'a lheap \<Rightarrow> 'a lheap" where
  "set_prv p q h = h\<lparr>prv := (prv h)(p := q)\<rparr>"

definition Init :: "'a lheap \<Rightarrow> nat \<Rightarrow> 'a lheap" where
  "Init h l = (set_prv (Root l) (Some (Root l)) (set_nxt (Root l) (Some (Root l)) h))
     \<lparr>llen := (llen h)(l := 0)\<rparr>"

definition New :: "nat \<Rightarrow> 'a lheap" where
  "New l = Init empty_lheap l"

definition Len :: "'a lheap \<Rightarrow> nat \<Rightarrow> nat" where
  "Len h l = llen h l"

definition Next :: "'a lheap \<Rightarrow> ptr \<Rightarrow> ptr option" where
  "Next h e = (case own h e of None \<Rightarrow> None
     | Some l \<Rightarrow> if nxt h e = Some (Root l) then None else nxt h e)"

definition Prev :: "'a lheap \<Rightarrow> ptr \<Rightarrow> ptr option" where
  "Prev h e = (case own h e of None \<Rightarrow> None
     | Some l \<Rightarrow> if prv h e = Some (Root l) then None else prv h e)"

definition Front :: "'a lheap \<Rightarrow> nat \<Rightarrow> ptr option" where
  "Front h l = (if llen h l = 0 then None else nxt h (Root l))"

definition Back :: "'a lheap \<Rightarrow> nat \<Rightarrow> ptr option" where
  "Back h l = (if llen h l = 0 then None else prv h (Root l))"

definition lazyInit :: "'a lheap \<Rightarrow> nat \<Rightarrow> 'a lheap" where
  "lazyInit h l = (if nxt h (Root l) = None then Init h l else h)"

definition insert_el :: "'a lheap \<Rightarrow> nat \<Rightarrow> ptr \<Rightarrow> ptr \<Rightarrow> 'a lheap option" where
  "insert_el h l e at = do {
     let h = set_prv e (Some at) h;
     let h = set_nxt e (nxt h at) h;
     p \<leftarrow> prv h e;
     let h = set_nxt p (Some e) h;
     n \<leftarrow> nxt h e;
     let h = set_prv n (Some e) h;
     Some (h\<lparr>own := (own h)(e \<mapsto> l), llen := (llen h)(l := llen h l + 1)\<rparr>)
   }"

definition insertValue :: "'a lheap \<Rightarrow> nat \<Rightarrow> 'a \<Rightarrow> ptr \<Rightarrow> (ptr \<times> 'a lheap) option" where
  "insertValue h l v at = do {
     let e = El (fresh h);
     h \<leftarrow> insert_el (h\<lparr>fresh := Suc (fresh h), val := (val h)(e \<mapsto> v)\<rparr>) l e at;
     Some (e, h)
   }"

definition remove_el :: "'a lheap \<Rightarrow> nat \<Rightarrow> ptr \<Rightarrow> 'a lheap option" where
  "remove_el h l e = do {
     p \<leftarrow> prv h e;
     let h = set_nxt p (nxt h e) h;
     n \<leftarrow> nxt h e;
     let h = set_prv n (prv h e) h;
     let h = set_nxt e None h;
     let h = set_prv e None h;
     Some (h\<lparr>own := (own h)(e := None), llen := (llen h)(l := llen h l - 1)\<rparr>)
   }"

definition move_el :: "'a lheap \<Rightarrow> ptr \<Rightarrow> ptr \<Rightarrow> 'a lheap option" where
  "move_el h e at = (if e = at then Some h else do {
     p \<leftarrow> prv h e;
     let h = set_nxt p (nxt h e) h;
     n \<leftarrow> nxt h e;
     let h = set_prv n (prv h e) h;
     let h = set_prv e (Some at) h;
     let h = set_nxt e (nxt h at) h;
     p \<leftarrow> prv h e;
     let h = set_nxt p (Some e) h;
     n \<leftarrow> nxt h e;
     Some (set_prv n (Some e) h)
   })"

definition Remove :: "'a lheap \<Rightarrow> nat \<Rightarrow> ptr \<Rightarrow> ('a option \<times> 'a lheap) option" where
  "Remove h l e = do {
     h \<leftarrow> (if own h e = Some l then remove_el h l e else Some h);
     Some (val h e, h)
   }"

definition PushFront :: "'a lheap \<Rightarrow> nat \<Rightarrow> 'a \<Rightarrow> (ptr \<times> 'a lheap) option" where
  "PushFront h l v = insertValue (lazyInit h l) l v (Root l)"

definition PushBack :: "'a lheap \<Rightarrow> nat \<Rightarrow> 'a \<Rightarrow> (ptr \<times> 'a lheap) option" where
  "PushBack h l v = do {
     let h = lazyInit h l;
     at \<leftarrow> prv h (Root l);
     insertValue h l v at
   }"

definition InsertBefore :: "'a lheap \<Rightarrow> nat \<Rightarrow> 'a \<Rightarrow> ptr \<Rightarrow> (ptr option \<times> 'a lheap) option" where
  "InsertBefore h l v mark =
     (if own h mark \<noteq> Some l then Some (None, h) else do {
        at \<leftarrow> prv h mark;
        (e, h) \<leftarrow> insertValue h l v at;
        Some (Some e, h)
      })"

definition InsertAfter :: "'a lheap \<Rightarrow> nat \<Rightarrow> 'a \<Rightarrow> ptr \<Rightarrow> (ptr option \<times> 'a lheap) option" where
  "InsertAfter h l v mark =
     (if own h mark \<noteq> Some l then Some (None, h) else do {
        (e, h) \<leftarrow> insertValue h l v mark;
        Some (Some e, h)
      })"

definition MoveToFront :: "'a lheap \<Rightarrow> nat \<Rightarrow> ptr \<Rightarrow> 'a lheap option" where
  "MoveToFront h l e =
     (if own h e \<noteq> Some l \<or> nxt h (Root l) = Some e then Some h else move_el h e (Root l))"

definition MoveToBack :: "'a lheap \<Rightarrow> nat \<Rightarrow> ptr \<Rightarrow> 'a lheap option" where
  "MoveToBack h l e =
     (if own h e \<noteq> Some l \<or> prv h (Root l) = Some e then Some h else do {
        at \<leftarrow> prv h (Root l);
        move_el h e at
      })"

definition MoveBefore :: "'a lheap \<Rightarrow> nat \<Rightarrow> ptr \<Rightarrow> ptr \<Rightarrow> 'a lheap option" where
  "MoveBefore h l e mark =
     (if own h e \<noteq> Some l \<or> e = mark \<or> own h mark \<noteq> Some l then Some h else do {
        at \<leftarrow> prv h mark;
        move_el h e at
      })"

definition MoveAfter :: "'a lheap \<Rightarrow> nat \<Rightarrow> ptr \<Rightarrow> ptr \<Rightarrow> 'a lheap option" where
  "MoveAfter h l e mark =
     (if own h e \<noteq> Some l \<or> e = mark \<or> own h mark \<noteq> Some l then Some h else move_el h e mark)"

text \<open>
  The copy loops: \<open>i\<close> counts down from \<open>other.Len()\<close>. A nil \<open>e\<close> with \<open>i > 0\<close> panics at
  \<open>e.Value\<close>.
\<close>

fun push_back_from :: "nat \<Rightarrow> 'a lheap \<Rightarrow> nat \<Rightarrow> ptr option \<Rightarrow> 'a lheap option" where
  "push_back_from 0 h l e = Some h"
| "push_back_from (Suc i) h l e = do {
     p \<leftarrow> e;
     v \<leftarrow> val h p;
     at \<leftarrow> prv h (Root l);
     (_, h) \<leftarrow> insertValue h l v at;
     push_back_from i h l (Next h p)
   }"

fun push_front_from :: "nat \<Rightarrow> 'a lheap \<Rightarrow> nat \<Rightarrow> ptr option \<Rightarrow> 'a lheap option" where
  "push_front_from 0 h l e = Some h"
| "push_front_from (Suc i) h l e = do {
     p \<leftarrow> e;
     v \<leftarrow> val h p;
     (_, h) \<leftarrow> insertValue h l v (Root l);
     push_front_from i h l (Prev h p)
   }"

definition PushBackList :: "'a lheap \<Rightarrow> nat \<Rightarrow> nat \<Rightarrow> 'a lheap option" where
  "PushBackList h l other = (let h = lazyInit h l in
     push_back_from (Len h other) h l (Front h other))"

definition PushFrontList :: "'a lheap \<Rightarrow> nat \<Rightarrow> nat \<Rightarrow> 'a lheap option" where
  "PushFrontList h l other = (let h = lazyInit h l in
     push_front_from (Len h other) h l (Back h other))"

section \<open>Rings\<close>

text \<open>\<open>linked h a xs b\<close>: the pointers lead from \<open>a\<close> through \<open>xs\<close> to \<open>b\<close>, both ways.\<close>

fun linked :: "'a lheap \<Rightarrow> ptr \<Rightarrow> ptr list \<Rightarrow> ptr \<Rightarrow> bool" where
  "linked h a [] b \<longleftrightarrow> nxt h a = Some b \<and> prv h b = Some a"
| "linked h a (x # xs) b \<longleftrightarrow> nxt h a = Some x \<and> prv h x = Some a \<and> linked h x xs b"

definition ring :: "'a lheap \<Rightarrow> nat \<Rightarrow> ptr list \<Rightarrow> bool" where
  "ring h l xs \<longleftrightarrow>
     distinct xs \<and> linked h (Root l) xs (Root l) \<and> llen h l = length xs \<and>
     (\<forall>p. own h p = Some l \<longleftrightarrow> p \<in> set xs) \<and>
     (\<forall>p \<in> set xs. \<exists>n < fresh h. p = El n) \<and>
     (\<forall>p \<in> set xs. val h p \<noteq> None)"

definition ring_vals :: "'a lheap \<Rightarrow> ptr list \<Rightarrow> 'a list" where
  "ring_vals h xs = map (\<lambda>p. the (val h p)) xs"

text \<open>An allocated heap: no cell at or behind \<open>fresh\<close> belongs to a list.\<close>

definition heap_ok :: "'a lheap \<Rightarrow> bool" where
  "heap_ok h \<longleftrightarrow> (\<forall>n \<ge> fresh h. own h (El n) = None) \<and> (\<forall>l. own h (Root l) = None)"

lemma linked_append: "linked h a (xs @ y # ys) b \<longleftrightarrow> linked h a xs y \<and> linked h y ys b"
  by (induction xs arbitrary: a) auto

lemma linked_frame:
  assumes "\<And>p. p \<in> insert a (set xs) \<Longrightarrow> nxt h' p = nxt h p"
    and "\<And>p. p \<in> insert b (set xs) \<Longrightarrow> prv h' p = prv h p"
  shows "linked h' a xs b = linked h a xs b"
  using assms by (induction xs arbitrary: a) auto

lemma ringD:
  assumes "ring h l xs"
  shows "distinct xs" "linked h (Root l) xs (Root l)" "llen h l = length xs"
    "own h p = Some l \<longleftrightarrow> p \<in> set xs" "p \<in> set xs \<Longrightarrow> \<exists>n < fresh h. p = El n"
    "p \<in> set xs \<Longrightarrow> \<exists>v. val h p = Some v"
  using assms by (auto simp: ring_def)

lemma ring_Root [simp]: "ring h l xs \<Longrightarrow> Root k \<notin> set xs"
  by (auto simp: ring_def)


section \<open>Effect of the pointer surgery\<close>

lemma linked_mid:
  "linked h a (ys @ zs) c \<Longrightarrow>
     nxt h (last (a # ys)) = Some (hd (zs @ [c])) \<and> prv h (hd (zs @ [c])) = Some (last (a # ys))"
proof (induction ys arbitrary: a)
  case Nil
  then show ?case by (cases zs) auto
qed auto

lemma linked_insert:
  assumes "linked h a (ys @ zs) c" and "distinct (a # ys @ zs)" and "c \<notin> set (ys @ zs)"
    and "e \<notin> insert a (insert c (set (ys @ zs)))"
    and "nxt h' (last (a # ys)) = Some e" and "prv h' e = Some (last (a # ys))"
    and "nxt h' e = Some (hd (zs @ [c]))" and "prv h' (hd (zs @ [c])) = Some e"
    and "\<And>q. q \<noteq> last (a # ys) \<Longrightarrow> q \<noteq> e \<Longrightarrow> nxt h' q = nxt h q"
    and "\<And>q. q \<noteq> hd (zs @ [c]) \<Longrightarrow> q \<noteq> e \<Longrightarrow> prv h' q = prv h q"
  shows "linked h' a (ys @ e # zs) c"
  using assms
proof (induction ys arbitrary: a)
  case Nil
  show ?case
  proof (cases zs)
    case Nil
    with Nil.prems show ?thesis by simp
  next
    case (Cons z zs')
    have "linked h' z zs' c = linked h z zs' c"
    proof (rule linked_frame)
      fix q assume "q \<in> insert z (set zs')"
      then have "q \<noteq> a" "q \<noteq> e" using Cons Nil.prems(2,4) by auto
      then show "nxt h' q = nxt h q" using Nil.prems(9) by simp
    next
      fix q assume "q \<in> insert c (set zs')"
      then have "q \<noteq> z" "q \<noteq> e" using Cons Nil.prems(2,3,4) by auto
      then show "prv h' q = prv h q" using Cons Nil.prems(10) by simp
    qed
    with Cons Nil.prems show ?thesis by simp
  qed
next
  case (Cons y ys)
  have "hd (zs @ [c]) \<in> insert c (set zs)" by (cases zs) auto
  then have y: "y \<noteq> hd (zs @ [c])" "y \<noteq> e" using Cons.prems(2,3,4) by auto
  have "last (y # ys) \<in> set (y # ys)" by (rule last_in_set) simp
  then have a: "a \<noteq> last (y # ys)" "a \<noteq> e" using Cons.prems(2,4) by auto
  have "linked h' y (ys @ e # zs) c"
    using Cons.prems by (intro Cons.IH) (auto split: if_splits)
  moreover have "nxt h' a = nxt h a" using Cons.prems(9) a by simp
  moreover have "prv h' y = prv h y" using Cons.prems(10) y by simp
  ultimately show ?case using Cons.prems(1) by simp
qed

lemma linked_remove:
  assumes "linked h a (ys @ e # zs) c" and "distinct (a # ys @ e # zs)"
    and "c \<notin> set (ys @ e # zs)"
    and "nxt h' (last (a # ys)) = Some (hd (zs @ [c]))"
    and "prv h' (hd (zs @ [c])) = Some (last (a # ys))"
    and "\<And>q. q \<noteq> last (a # ys) \<Longrightarrow> q \<noteq> e \<Longrightarrow> nxt h' q = nxt h q"
    and "\<And>q. q \<noteq> hd (zs @ [c]) \<Longrightarrow> q \<noteq> e \<Longrightarrow> prv h' q = prv h q"
  shows "linked h' a (ys @ zs) c"
  using assms
proof (induction ys arbitrary: a)
  case Nil
  show ?case
  proof (cases zs)
    case Nil
    with Nil.prems show ?thesis by simp
  next
    case (Cons z zs')
    have "linked h' z zs' c = linked h z zs' c"
    proof (rule linked_frame)
      fix q assume "q \<in> insert z (set zs')"
      then have "q \<noteq> a" "q \<noteq> e" using Cons Nil.prems(2) by auto
      then show "nxt h' q = nxt h q" using Nil.prems(6) by simp
    next
      fix q assume "q \<in> insert c (set zs')"
      then have "q \<noteq> z" "q \<noteq> e" using Cons Nil.prems(2,3) by auto
      then show "prv h' q = prv h q" using Cons Nil.prems(7) by simp
    qed
    with Cons Nil.prems show ?thesis by simp
  qed
next
  case (Cons y ys)
  have "hd (zs @ [c]) \<in> insert c (set zs)" by (cases zs) auto
  then have y: "y \<noteq> hd (zs @ [c])" "y \<noteq> e" using Cons.prems(2,3) by auto
  have "last (y # ys) \<in> set (y # ys)" by (rule last_in_set) simp
  then have a: "a \<noteq> last (y # ys)" "a \<noteq> e" using Cons.prems(2) by auto
  have "linked h' y (ys @ zs) c"
    using Cons.prems by (intro Cons.IH) (auto split: if_splits)
  moreover have "nxt h' a = nxt h a" using Cons.prems(6) a by simp
  moreover have "prv h' y = prv h y" using Cons.prems(7) y by simp
  ultimately show ?case using Cons.prems(1) by simp
qed

lemma set_ptr_simps [simp]:
  "nxt (set_nxt p q h) = (nxt h)(p := q)" "prv (set_nxt p q h) = prv h"
  "nxt (set_prv p q h) = nxt h" "prv (set_prv p q h) = (prv h)(p := q)"
  "own (set_nxt p q h) = own h" "own (set_prv p q h) = own h"
  "val (set_nxt p q h) = val h" "val (set_prv p q h) = val h"
  "llen (set_nxt p q h) = llen h" "llen (set_prv p q h) = llen h"
  "fresh (set_nxt p q h) = fresh h" "fresh (set_prv p q h) = fresh h"
  by (simp_all add: set_nxt_def set_prv_def)

lemma insertValue_ring:
  assumes r: "ring h l (ys @ zs)" and ok: "heap_ok h" and at: "at = last (Root l # ys)"
  obtains h' where "insertValue h l v at = Some (El (fresh h), h')"
    and "ring h' l (ys @ El (fresh h) # zs)" and "heap_ok h'"
    and "val h' = (val h)(El (fresh h) \<mapsto> v)" and "fresh h' = Suc (fresh h)"
    and "\<forall>k. k \<noteq> l \<longrightarrow> llen h' k = llen h k" and "own h' = (own h)(El (fresh h) \<mapsto> l)"
    and "nxt h' = (nxt h)(El (fresh h) := Some (hd (zs @ [Root l])), at := Some (El (fresh h)))"
    and "prv h' = (prv h)(El (fresh h) := Some at, hd (zs @ [Root l]) := Some (El (fresh h)))"
proof -
  let ?e = "El (fresh h)" and ?b = "hd (zs @ [Root l])"
  have new: "?e \<notin> set (ys @ zs)"
    using ringD(5) [OF r, of ?e] by auto
  have "at \<in> insert (Root l) (set ys)" using at last_in_set [of "Root l # ys"] by auto
  with new have ne: "?e \<noteq> at" by auto
  have "?b \<in> insert (Root l) (set zs)" by (cases zs) auto
  with new have nb: "?e \<noteq> ?b" by auto
  have mid: "nxt h at = Some ?b" "prv h ?b = Some at"
    using linked_mid [OF ringD(2) [OF r]] at by auto
  define h' where "h' = h\<lparr>nxt := (nxt h)(?e := Some ?b, at := Some ?e),
      prv := (prv h)(?e := Some at, ?b := Some ?e), own := (own h)(?e \<mapsto> l),
      val := (val h)(?e \<mapsto> v), llen := (llen h)(l := llen h l + 1), fresh := Suc (fresh h)\<rparr>"
  have "insertValue h l v at = Some (?e, h')"
    using ne nb mid
    by (simp add: insertValue_def insert_el_def set_nxt_def set_prv_def h'_def Let_def)
  moreover have "linked h' (Root l) (ys @ ?e # zs) (Root l)"
    using ringD(1,2) [OF r] ring_Root [OF r] new ne nb at
    by (intro linked_insert [of h]) (auto simp: h'_def)
  with r new ok have "ring h' l (ys @ ?e # zs)"
    by (auto simp: ring_def h'_def heap_ok_def less_Suc_eq)
  moreover have "heap_ok h'" using ok by (auto simp: heap_ok_def h'_def)
  ultimately show ?thesis by (intro that [of h']) (simp_all add: h'_def)
qed

lemma remove_el_ring:
  assumes r: "ring h l (ys @ e # zs)" and ok: "heap_ok h"
  obtains h' where "remove_el h l e = Some h'" and "ring h' l (ys @ zs)" and "heap_ok h'"
    and "val h' = val h" and "fresh h' = fresh h" and "own h' = (own h)(e := None)"
    and "\<And>k. k \<noteq> l \<Longrightarrow> llen h' k = llen h k"
proof -
  let ?a = "last (Root l # ys)" and ?b = "hd (zs @ [Root l])"
  have dist: "distinct (Root l # ys @ e # zs)" using ringD(1) [OF r] ring_Root [OF r] by auto
  have "?a \<in> insert (Root l) (set ys)" using last_in_set [of "Root l # ys"] by auto
  then have ne: "?a \<noteq> e" using dist by auto
  have "?b \<in> insert (Root l) (set zs)" by (cases zs) auto
  then have nb: "?b \<noteq> e" using dist by auto
  have link: "linked h (Root l) ys e" "linked h e zs (Root l)"
    using ringD(2) [OF r] by (simp_all add: linked_append)
  have "prv h e = Some ?a" using linked_mid [of h "Root l" ys "[]" e] link(1) by simp
  moreover have "nxt h e = Some ?b" using linked_mid [of h e "[]" zs "Root l"] link(2) by simp
  ultimately have mid: "prv h e = Some ?a" "nxt h e = Some ?b" by auto
  define h' where "h' = h\<lparr>nxt := (nxt h)(?a := Some ?b, e := None),
      prv := (prv h)(?b := Some ?a, e := None), own := (own h)(e := None),
      llen := (llen h)(l := llen h l - 1)\<rparr>"
  have rem: "remove_el h l e = Some h'"
    using ne nb mid by (simp add: remove_el_def set_nxt_def set_prv_def h'_def Let_def)
  have "linked h' (Root l) (ys @ zs) (Root l)"
  proof (rule linked_remove [OF ringD(2) [OF r] dist ring_Root [OF r]])
  qed (use ne nb in \<open>simp_all add: h'_def\<close>)
  moreover have "\<And>p. own h' p = Some l \<longleftrightarrow> p \<in> set (ys @ zs)"
    using ringD(4) [OF r] dist by (auto simp: h'_def)
  ultimately have "ring h' l (ys @ zs)"
    using r unfolding ring_def by (simp add: h'_def)
  moreover have "heap_ok h'" using ok by (auto simp: heap_ok_def h'_def)
  ultimately show ?thesis using rem by (intro that [of h']) (simp_all add: h'_def)
qed


section \<open>The operations on a ring\<close>

lemma ring_nonzero: "ring h l xs \<Longrightarrow> nxt h (Root l) \<noteq> None \<and> prv h (Root l) \<noteq> None"
proof -
  assume "ring h l xs"
  then have "linked h (Root l) ([] @ xs) (Root l)" "linked h (Root l) (xs @ []) (Root l)"
    by (simp_all add: ringD(2))
  from this [THEN linked_mid] show ?thesis by simp
qed

lemma lazyInit_ring [simp]: "ring h l xs \<Longrightarrow> lazyInit h l = h"
  using ring_nonzero [of h l xs] by (auto simp: lazyInit_def)

lemma ring_Root_nxt: "ring h l xs \<Longrightarrow> nxt h (Root l) = Some (hd (xs @ [Root l]))"
  using linked_mid [of h "Root l" "[]" xs "Root l"] ringD(2) [of h l xs] by simp

lemma ring_Root_prv: "ring h l xs \<Longrightarrow> prv h (Root l) = Some (last (Root l # xs))"
  using linked_mid [of h "Root l" xs "[]" "Root l"] ringD(2) [of h l xs] by simp

lemma ring_nxt: "ring h l (ys @ e # zs) \<Longrightarrow> nxt h e = Some (hd (zs @ [Root l]))"
  using linked_mid [of h "Root l" "ys @ [e]" zs "Root l"] ringD(2) [of h l "ys @ e # zs"] by simp

lemma ring_prv: "ring h l (ys @ e # zs) \<Longrightarrow> prv h e = Some (last (Root l # ys))"
  using linked_mid [of h "Root l" ys "e # zs" "Root l"] ringD(2) [of h l "ys @ e # zs"] by simp

lemma Init_ring: "ring (New l) l []" "heap_ok (New l)"
  by (simp_all add: New_def Init_def ring_def heap_ok_def empty_lheap_def)

lemma Len_ring [simp]: "ring h l xs \<Longrightarrow> Len h l = length xs"
  by (simp add: Len_def ringD(3))

lemma Front_ring: "ring h l xs \<Longrightarrow> Front h l = (case xs of [] \<Rightarrow> None | x # _ \<Rightarrow> Some x)"
  by (auto simp: Front_def ringD(3) ring_Root_nxt split: list.splits)

lemma Back_ring: "ring h l xs \<Longrightarrow> Back h l = (if xs = [] then None else Some (last xs))"
  by (simp add: Back_def ringD(3) ring_Root_prv)

lemma Next_ring:
  assumes "ring h l (ys @ e # zs)"
  shows "Next h e = (case zs of [] \<Rightarrow> None | z # _ \<Rightarrow> Some z)"
proof -
  have "own h e = Some l" using ringD(4) [OF assms, of e] by simp
  moreover have "z \<noteq> Root l" if "zs = z # zs'" for z zs'
    using ring_Root [OF assms, of l] that by auto
  ultimately show ?thesis
    using ring_nxt [OF assms] by (auto simp: Next_def split: list.splits)
qed

lemma Prev_ring:
  assumes "ring h l (ys @ e # zs)"
  shows "Prev h e = (if ys = [] then None else Some (last ys))"
proof -
  have "own h e = Some l" using ringD(4) [OF assms, of e] by simp
  moreover have "last ys \<noteq> Root l" if "ys \<noteq> []"
    using ring_Root [OF assms, of l] last_in_set [OF that] by auto
  ultimately show ?thesis
    using ring_prv [OF assms] by (auto simp: Prev_def)
qed

definition lstate :: "nat \<Rightarrow> 'a lheap \<Rightarrow> ptr list \<Rightarrow> bool" where
  "lstate l h xs \<longleftrightarrow> ring h l xs \<and> heap_ok h"

lemma fresh_not_in: "ring h l xs \<Longrightarrow> El (fresh h) \<notin> set xs"
  using ringD(5) [of h l xs "El (fresh h)"] by auto

lemma insertValue_lstate:
  assumes "lstate l h (ys @ zs)"
  shows "\<exists>e h'. insertValue h l v (last (Root l # ys)) = Some (e, h') \<and>
     lstate l h' (ys @ e # zs) \<and> e \<notin> set (ys @ zs) \<and> val h' = (val h)(e \<mapsto> v)"
proof -
  from assms have r: "ring h l (ys @ zs)" "heap_ok h" by (simp_all add: lstate_def)
  then obtain h' where "insertValue h l v (last (Root l # ys)) = Some (El (fresh h), h')"
    "ring h' l (ys @ El (fresh h) # zs)" "heap_ok h'" "val h' = (val h)(El (fresh h) \<mapsto> v)"
    by (rule insertValue_ring [OF _ _ refl])
  then show ?thesis using fresh_not_in [OF r(1)] by (auto simp: lstate_def)
qed

lemma PushFront_lstate:
  "lstate l h xs \<Longrightarrow> \<exists>e h'. PushFront h l v = Some (e, h') \<and> lstate l h' (e # xs) \<and>
     e \<notin> set xs \<and> val h' = (val h)(e \<mapsto> v)"
  using insertValue_lstate [of l h "[]" xs v] by (auto simp: PushFront_def lstate_def)

lemma PushBack_lstate:
  "lstate l h xs \<Longrightarrow> \<exists>e h'. PushBack h l v = Some (e, h') \<and> lstate l h' (xs @ [e]) \<and>
     e \<notin> set xs \<and> val h' = (val h)(e \<mapsto> v)"
  using insertValue_lstate [of l h xs "[]" v]
  by (auto simp: PushBack_def lstate_def ring_Root_prv Let_def)

lemma InsertAfter_lstate:
  assumes "lstate l h (ys @ m # zs)"
  shows "\<exists>e h'. InsertAfter h l v m = Some (Some e, h') \<and> lstate l h' (ys @ m # e # zs) \<and>
     e \<notin> set (ys @ m # zs) \<and> val h' = (val h)(e \<mapsto> v)"
proof -
  have "own h m = Some l" using assms ringD(4) [of h l "ys @ m # zs" m] by (simp add: lstate_def)
  moreover have "lstate l h ((ys @ [m]) @ zs)" using assms by simp
  from insertValue_lstate [OF this, of v] obtain e h' where
    "insertValue h l v m = Some (e, h')" "lstate l h' (ys @ m # e # zs)"
    "e \<notin> set (ys @ m # zs)" "val h' = (val h)(e \<mapsto> v)" by auto
  ultimately show ?thesis by (auto simp: InsertAfter_def)
qed

lemma InsertBefore_lstate:
  assumes "lstate l h (ys @ m # zs)"
  shows "\<exists>e h'. InsertBefore h l v m = Some (Some e, h') \<and> lstate l h' (ys @ e # m # zs) \<and>
     e \<notin> set (ys @ m # zs) \<and> val h' = (val h)(e \<mapsto> v)"
proof -
  from assms have "own h m = Some l" "prv h m = Some (last (Root l # ys))"
    using ringD(4) [of h l "ys @ m # zs" m] ring_prv [of h l ys m zs] by (simp_all add: lstate_def)
  moreover from insertValue_lstate [OF assms, of v] obtain e h' where
    "insertValue h l v (last (Root l # ys)) = Some (e, h')" "lstate l h' (ys @ e # m # zs)"
    "e \<notin> set (ys @ m # zs)" "val h' = (val h)(e \<mapsto> v)" by auto
  ultimately show ?thesis by (auto simp: InsertBefore_def)
qed

lemma Remove_lstate:
  assumes "lstate l h (ys @ e # zs)"
  shows "\<exists>v h'. Remove h l e = Some (Some v, h') \<and> val h e = Some v \<and>
     lstate l h' (ys @ zs) \<and> val h' = val h"
proof -
  from assms have r: "ring h l (ys @ e # zs)" "heap_ok h" by (simp_all add: lstate_def)
  obtain v where v: "val h e = Some v" using ringD(6) [OF r(1), of e] by auto
  from r obtain h' where "remove_el h l e = Some h'" "ring h' l (ys @ zs)" "heap_ok h'"
    "val h' = val h" by (rule remove_el_ring)
  moreover have "own h e = Some l" using ringD(4) [OF r(1), of e] by simp
  ultimately show ?thesis using v by (auto simp: Remove_def lstate_def)
qed

lemma foreign_noop:
  assumes "lstate l h xs" and "m \<notin> set xs"
  shows "InsertAfter h l v m = Some (None, h)" and "InsertBefore h l v m = Some (None, h)"
    and "Remove h l m = Some (val h m, h)"
  using assms ringD(4) [of h l xs m]
  by (simp_all add: InsertAfter_def InsertBefore_def Remove_def lstate_def)


section \<open>Moves and copies\<close>

lemma move_el_ring:
  assumes st: "lstate l h (ys @ e # zs)" and split: "ys @ zs = ys' @ zs'"
    and at: "at = last (Root l # ys')"
  shows "\<exists>h'. move_el h e at = Some h' \<and> lstate l h' (ys' @ e # zs') \<and> val h' = val h"
proof -
  have r: "ring h l (ys @ e # zs)" and ok: "heap_ok h" using st by (simp_all add: lstate_def)
  let ?a = "last (Root l # ys)" and ?n = "hd (zs @ [Root l])" and ?b = "hd (zs' @ [Root l])"
  have dist: "distinct (Root l # ys @ e # zs)" using ringD(1) [OF r] ring_Root [OF r] by auto
  have e: "e \<notin> set (ys' @ zs')" "e \<noteq> Root l" using dist split [symmetric] by auto
  have "?a \<in> insert (Root l) (set ys)" using last_in_set [of "Root l # ys"] by auto
  then have na: "?a \<noteq> e" using dist by auto
  have "?n \<in> insert (Root l) (set zs)" by (cases zs) auto
  then have nn: "?n \<noteq> e" using dist by auto
  have "at \<in> insert (Root l) (set ys')" using at last_in_set [of "Root l # ys'"] by auto
  then have nat: "at \<noteq> e" using e by auto
  have "?b \<in> insert (Root l) (set zs')" by (cases zs') auto
  then have nb: "?b \<noteq> e" using e by auto
  define h1 where "h1 = h\<lparr>nxt := (nxt h)(?a := Some ?n), prv := (prv h)(?n := Some ?a)\<rparr>"
  have "linked h1 (Root l) (ys @ zs) (Root l)"
  proof (rule linked_remove [OF ringD(2) [OF r] dist ring_Root [OF r]])
  qed (simp_all add: h1_def)
  then have lk1: "linked h1 (Root l) (ys' @ zs') (Root l)" by (simp add: split)
  from linked_mid [OF this] have mid: "nxt h1 at = Some ?b" "prv h1 ?b = Some at"
    by (simp_all add: at)
  define h2 where "h2 = h1\<lparr>nxt := (nxt h1)(e := Some ?b, at := Some e),
     prv := (prv h1)(e := Some at, ?b := Some e)\<rparr>"
  have "prv h e = Some ?a" "nxt h e = Some ?n" by (rule ring_prv [OF r], rule ring_nxt [OF r])
  then have mv: "move_el h e at = Some h2"
    using nat na nn nb mid
    by (simp add: move_el_def set_nxt_def set_prv_def h1_def h2_def Let_def)
  have dist': "distinct (Root l # ys' @ zs')" using dist unfolding split [symmetric] by auto
  have "linked h2 (Root l) (ys' @ e # zs') (Root l)"
  proof (rule linked_insert [OF lk1 dist'])
  qed (use dist' e nat nb at in \<open>simp_all add: h2_def\<close>)
  moreover have eqs: "set (ys' @ e # zs') = set (ys @ e # zs)"
      "length (ys' @ e # zs') = length (ys @ e # zs)"
    using arg_cong [OF split, of set] arg_cong [OF split, of length] by auto
  moreover have "distinct (ys' @ e # zs')" using dist' e by auto
  ultimately have "ring h2 l (ys' @ e # zs')"
    using r unfolding ring_def by (simp add: h2_def h1_def)
  then show ?thesis using mv ok by (auto simp: lstate_def heap_ok_def h2_def h1_def)
qed

lemma lstate_own: "lstate l h (ys @ e # zs) \<Longrightarrow> own h e = Some l"
  using ringD(4) [of h l "ys @ e # zs" e] by (simp add: lstate_def)

lemma MoveToFront_lstate:
  assumes "lstate l h (ys @ e # zs)"
  shows "\<exists>h'. MoveToFront h l e = Some h' \<and> lstate l h' (e # ys @ zs) \<and> val h' = val h"
proof (cases "nxt h (Root l) = Some e")
  case True
  have r: "ring h l (ys @ e # zs)" using assms by (simp add: lstate_def)
  from True ring_Root_nxt [OF r] have "hd (ys @ e # zs) = e" by (cases ys) simp_all
  then have "ys = []" using ringD(1) [OF r] by (cases ys) auto
  with True assms show ?thesis by (auto simp: MoveToFront_def)
next
  case False
  with move_el_ring [OF assms, of "[]" "ys @ zs"] lstate_own [OF assms]
  show ?thesis by (simp add: MoveToFront_def)
qed

lemma MoveToBack_lstate:
  assumes "lstate l h (ys @ e # zs)"
  shows "\<exists>h'. MoveToBack h l e = Some h' \<and> lstate l h' (ys @ zs @ [e]) \<and> val h' = val h"
proof -
  have r: "ring h l (ys @ e # zs)" using assms by (simp add: lstate_def)
  show ?thesis
  proof (cases "zs = []")
    case True
    with assms ring_Root_prv [OF r] show ?thesis by (simp add: MoveToBack_def)
  next
    case False
    then have at: "prv h (Root l) = Some (last (Root l # ys @ zs))"
      using ring_Root_prv [OF r] by simp
    have "last zs \<noteq> e" using ringD(1) [OF r] last_in_set [OF False] by auto
    with at False lstate_own [OF assms] move_el_ring [OF assms, of "ys @ zs" "[]"]
    show ?thesis by (simp add: MoveToBack_def)
  qed
qed

lemma split_mark:
  assumes "ys @ zs = us @ m # vs"
  obtains w where "ys = us @ m # w" "vs = w @ zs" | w where "zs = w @ m # vs" "us = ys @ w"
proof -
  from assms [unfolded append_eq_append_conv2] obtain w where
    "ys = us @ w \<and> w @ zs = m # vs \<or> ys @ w = us \<and> zs = w @ m # vs" by auto
  then show ?thesis by (cases w) (auto intro: that(1) that(2) [of "[]"] that(2))
qed

lemma MoveAfter_lstate:
  assumes "lstate l h (ys @ e # zs)" and "ys @ zs = us @ m # vs"
  shows "\<exists>h'. MoveAfter h l e m = Some h' \<and> lstate l h' (us @ m # e # vs) \<and> val h' = val h"
proof -
  have r: "ring h l (ys @ e # zs)" using assms(1) by (simp add: lstate_def)
  have "m \<in> set (ys @ zs)" unfolding assms(2) by simp
  then have "own h m = Some l" "e \<noteq> m" using ringD(4) [OF r, of m] ringD(1) [OF r] by auto
  moreover have "ys @ zs = (us @ [m]) @ vs" using assms(2) by simp
  from move_el_ring [OF assms(1) this, of m] have
    "\<exists>h'. move_el h e m = Some h' \<and> lstate l h' (us @ m # e # vs) \<and> val h' = val h" by simp
  ultimately show ?thesis using lstate_own [OF assms(1)] by (simp add: MoveAfter_def)
qed

lemma MoveBefore_lstate:
  assumes "lstate l h (ys @ e # zs)" and "ys @ zs = us @ m # vs"
  shows "\<exists>h'. MoveBefore h l e m = Some h' \<and> lstate l h' (us @ e # m # vs) \<and> val h' = val h"
proof -
  have r: "ring h l (ys @ e # zs)" using assms(1) by (simp add: lstate_def)
  have "m \<in> set (ys @ zs)" unfolding assms(2) by simp
  then have own: "own h m = Some l" "e \<noteq> m" using ringD(4) [OF r, of m] ringD(1) [OF r] by auto
  have mv: "\<exists>h'. move_el h e (last (Root l # us)) = Some h' \<and>
      lstate l h' (us @ e # m # vs) \<and> val h' = val h"
    using move_el_ring [OF assms] by simp
  show ?thesis using assms(2)
  proof (cases rule: split_mark)
    case (1 w)
    then have "prv h m = Some (last (Root l # us))" using ring_prv [of h l us m "w @ e # zs"] r by simp
    with mv own lstate_own [OF assms(1)] show ?thesis by (simp add: MoveBefore_def)
  next
    case (2 w)
    then have at: "prv h m = Some (last (e # w))"
      using ring_prv [of h l "ys @ e # w" m vs] r by simp
    show ?thesis
    proof (cases "w = []")
      case True
      with 2 at own lstate_own [OF assms(1)] assms(1) show ?thesis
        by (simp add: MoveBefore_def move_el_def)
    next
      case False
      with 2 at mv own lstate_own [OF assms(1)] show ?thesis by (simp add: MoveBefore_def)
    qed
  qed
qed

lemma insertValue_other:
  assumes "lstate l h (xs @ zs)" and "lstate k h ws" and "k \<noteq> l"
    and ins: "insertValue h l v (last (Root l # xs)) = Some (e, h')"
  shows "lstate k h' ws"
proof -
  let ?n = "hd (zs @ [Root l])"
  have r: "ring h l (xs @ zs)" and rk: "ring h k ws" and ok: "heap_ok h"
    using assms(1,2) by (simp_all add: lstate_def)
  from r ok refl obtain h1 where eq: "insertValue h l v (last (Root l # xs)) = Some (El (fresh h), h1)"
    and "ring h1 l (xs @ El (fresh h) # zs)"
    and h1: "heap_ok h1" "val h1 = (val h)(El (fresh h) \<mapsto> v)" "fresh h1 = Suc (fresh h)"
      "\<forall>k. k \<noteq> l \<longrightarrow> llen h1 k = llen h k" "own h1 = (own h)(El (fresh h) \<mapsto> l)"
    and nx: "nxt h1 = (nxt h)(El (fresh h) := Some ?n,
         last (Root l # xs) := Some (El (fresh h)))"
    and pv: "prv h1 = (prv h)(El (fresh h) := Some (last (Root l # xs)),
         ?n := Some (El (fresh h)))"
    by (rule insertValue_ring [where v = v])
  have disj: "q \<notin> set (xs @ zs)" if "q \<in> set ws" for q
    using ringD(4) [OF rk, of q] ringD(4) [OF r, of q] that assms(3) by auto
  have at: "last (Root l # xs) \<in> insert (Root l) (set xs)"
    using last_in_set [of "Root l # xs"] by auto
  have n: "?n \<in> insert (Root l) (set zs)" by (cases zs) auto
  have new: "El (fresh h) \<notin> set ws" using fresh_not_in [OF rk] .
  have lk: "linked h1 (Root k) ws (Root k) = linked h (Root k) ws (Root k)"
  proof (rule linked_frame)
    fix q assume q: "q \<in> insert (Root k) (set ws)"
    then have "q \<noteq> last (Root l # xs)" "q \<noteq> El (fresh h)"
      using disj at new ring_Root [OF rk, of l] ring_Root [OF r, of k] assms(3) by auto
    then show "nxt h1 q = nxt h q" by (simp add: nx)
  next
    fix q assume q: "q \<in> insert (Root k) (set ws)"
    then have "q \<noteq> ?n" "q \<noteq> El (fresh h)"
      using disj n new ring_Root [OF rk, of l] ring_Root [OF r, of k] assms(3) by auto
    then show "prv h1 q = prv h q" by (simp add: pv)
  qed
  have "own h1 q = Some k \<longleftrightarrow> q \<in> set ws" for q
    using ringD(4) [OF rk, of q] new assms(3) by (auto simp: h1)
  moreover have "\<forall>q \<in> set ws. \<exists>n < fresh h1. q = El n"
    using ringD(5) [OF rk] by (auto simp: h1 less_Suc_eq)
  moreover have "\<forall>q \<in> set ws. val h1 q \<noteq> None" using ringD(6) [OF rk] by (auto simp: h1)
  ultimately have "ring h1 k ws" using rk lk assms(3) by (simp add: ring_def h1)
  then show ?thesis using eq ins h1(1) by (simp add: lstate_def)
qed

lemma push_back_from_copies:
  assumes "lstate l h xs" and "lstate k h (ys @ zs @ rest)" and "k = l \<Longrightarrow> xs = ys @ zs @ rest"
    and "e = (case zs @ rest of [] \<Rightarrow> None | z # _ \<Rightarrow> Some z)"
  shows "\<exists>h' es. push_back_from (length zs) h l e = Some h' \<and> lstate l h' (xs @ es) \<and>
     map (val h') es = map (val h) zs \<and>
     (\<forall>q \<in> set xs \<union> set (ys @ zs @ rest). val h' q = val h q) \<and>
     (k \<noteq> l \<longrightarrow> lstate k h' (ys @ zs @ rest))"
  using assms
proof (induction zs arbitrary: h xs ys rest e)
  case Nil
  then show ?case by (intro exI [of _ h] exI [of _ "[]"]) simp
next
  case (Cons z zs)
  have rk: "ring h k (ys @ (z # zs) @ rest)" and r: "ring h l xs"
    using Cons.prems(1,2) by (simp_all add: lstate_def)
  obtain v where v: "val h z = Some v" using ringD(6) [OF rk, of z] by auto
  obtain e1 h1 where ins: "insertValue h l v (last (Root l # xs)) = Some (e1, h1)"
    and l1: "lstate l h1 (xs @ [e1])" and new: "e1 \<notin> set xs" and v1: "val h1 = (val h)(e1 \<mapsto> v)"
    using insertValue_lstate [of l h xs "[]" v] Cons.prems(1) by auto
  define rest1 where "rest1 = (if k = l then rest @ [e1] else rest)"
  have k1: "lstate k h1 ((ys @ [z]) @ zs @ rest1)"
  proof (cases "k = l")
    case True
    with l1 Cons.prems(3) show ?thesis by (simp add: rest1_def)
  next
    case False
    with insertValue_other [of l h xs "[]" k _ v e1 h1] Cons.prems(1,2) ins
    show ?thesis by (simp add: rest1_def)
  qed
  have nx: "Next h1 z = (case zs @ rest1 of [] \<Rightarrow> None | x # _ \<Rightarrow> Some x)"
    using Next_ring [of h1 k ys z "zs @ rest1"] k1 by (simp add: lstate_def)
  have e1_new: "e1 \<notin> set (ys @ (z # zs) @ rest)"
  proof (cases "k = l")
    case True
    then show ?thesis using Cons.prems(3) new by simp
  next
    case False
    have "own h1 e1 = Some l" using l1 lstate_own [of l h1 xs e1 "[]"] by simp
    moreover have "ring h1 k (ys @ (z # zs) @ rest)" using k1 False by (simp add: rest1_def lstate_def)
    ultimately show ?thesis using ringD(4) [of h1 k "ys @ (z # zs) @ rest" e1] False by simp
  qed
  from Cons.IH [OF l1 k1 _ nx] Cons.prems(3) obtain h' es where
    IH: "push_back_from (length zs) h1 l (Next h1 z) = Some h'" "lstate l h' ((xs @ [e1]) @ es)"
      "map (val h') es = map (val h1) zs"
      "\<forall>q \<in> set (xs @ [e1]) \<union> set ((ys @ [z]) @ zs @ rest1). val h' q = val h1 q"
      "k \<noteq> l \<longrightarrow> lstate k h' ((ys @ [z]) @ zs @ rest1)"
    by (auto simp: rest1_def)
  have "push_back_from (length (z # zs)) h l e = Some h'"
    using Cons.prems(4) v ins IH(1) ring_Root_prv [OF r] by simp
  moreover have "map (val h') (e1 # es) = map (val h) (z # zs)"
    using IH(3,4) v1 v e1_new by auto
  moreover have "\<forall>q \<in> set xs \<union> set (ys @ (z # zs) @ rest). val h' q = val h q"
    using IH(4) v1 e1_new new by (auto simp: rest1_def)
  moreover have "k \<noteq> l \<longrightarrow> lstate k h' (ys @ (z # zs) @ rest)"
    using IH(5) by (auto simp: rest1_def)
  ultimately show ?case using IH(2) by (intro exI [of _ h'] exI [of _ "e1 # es"]) simp
qed

lemma push_front_from_copies:
  assumes "lstate l h xs" and "lstate k h (rest @ zs @ ys)" and "k = l \<Longrightarrow> xs = rest @ zs @ ys"
    and "e = (if rest @ zs = [] then None else Some (last (rest @ zs)))"
  shows "\<exists>h' es. push_front_from (length zs) h l e = Some h' \<and> lstate l h' (es @ xs) \<and>
     map (val h') es = map (val h) zs \<and>
     (\<forall>q \<in> set xs \<union> set (rest @ zs @ ys). val h' q = val h q) \<and>
     (k \<noteq> l \<longrightarrow> lstate k h' (rest @ zs @ ys))"
  using assms
proof (induction zs arbitrary: h xs ys rest e rule: rev_induct)
  case Nil
  then show ?case by (intro exI [of _ h] exI [of _ "[]"]) simp
next
  case (snoc z zs)
  have rk: "ring h k (rest @ (zs @ [z]) @ ys)" and r: "ring h l xs"
    using snoc.prems(1,2) by (simp_all add: lstate_def)
  obtain v where v: "val h z = Some v" using ringD(6) [OF rk, of z] by auto
  obtain e1 h1 where ins: "insertValue h l v (Root l) = Some (e1, h1)"
    and l1: "lstate l h1 (e1 # xs)" and new: "e1 \<notin> set xs" and v1: "val h1 = (val h)(e1 \<mapsto> v)"
    using insertValue_lstate [of l h "[]" xs v] snoc.prems(1) by auto
  define rest1 where "rest1 = (if k = l then e1 # rest else rest)"
  have k1: "lstate k h1 (rest1 @ zs @ (z # ys))"
  proof (cases "k = l")
    case True
    with l1 snoc.prems(3) show ?thesis by (simp add: rest1_def)
  next
    case False
    with insertValue_other [of l h "[]" xs k _ v e1 h1] snoc.prems(1,2) ins
    show ?thesis by (simp add: rest1_def)
  qed
  have pv: "Prev h1 z = (if rest1 @ zs = [] then None else Some (last (rest1 @ zs)))"
    using Prev_ring [of h1 k "rest1 @ zs" z ys] k1 by (simp add: lstate_def)
  have e1_new: "e1 \<notin> set (rest @ (zs @ [z]) @ ys)"
  proof (cases "k = l")
    case True
    then show ?thesis using snoc.prems(3) new by simp
  next
    case False
    have "own h1 e1 = Some l" using l1 lstate_own [of l h1 "[]" e1 xs] by simp
    moreover have "ring h1 k (rest @ (zs @ [z]) @ ys)" using k1 False by (simp add: rest1_def lstate_def)
    ultimately show ?thesis using ringD(4) [of h1 k "rest @ (zs @ [z]) @ ys" e1] False by simp
  qed
  from snoc.IH [OF l1 k1 _ pv] snoc.prems(3) obtain h' es where
    IH: "push_front_from (length zs) h1 l (Prev h1 z) = Some h'" "lstate l h' (es @ e1 # xs)"
      "map (val h') es = map (val h1) zs"
      "\<forall>q \<in> set (e1 # xs) \<union> set (rest1 @ zs @ (z # ys)). val h' q = val h1 q"
      "k \<noteq> l \<longrightarrow> lstate k h' (rest1 @ zs @ (z # ys))"
    by (auto simp: rest1_def)
  have "push_front_from (length (zs @ [z])) h l e = Some h'"
    using snoc.prems(4) v ins IH(1) by simp
  moreover have "map (val h') (es @ [e1]) = map (val h) (zs @ [z])"
    using IH(3,4) v1 v e1_new by auto
  moreover have "\<forall>q \<in> set xs \<union> set (rest @ (zs @ [z]) @ ys). val h' q = val h q"
    using IH(4) v1 e1_new new by (auto simp: rest1_def)
  moreover have "k \<noteq> l \<longrightarrow> lstate k h' (rest @ (zs @ [z]) @ ys)"
    using IH(5) by (auto simp: rest1_def)
  ultimately show ?case using IH(2) by (intro exI [of _ h'] exI [of _ "es @ [e1]"]) simp
qed

lemma PushBackList_lstate:
  assumes "lstate l h xs" and "lstate k h ws" and "k = l \<Longrightarrow> xs = ws"
  shows "\<exists>h' es. PushBackList h l k = Some h' \<and> lstate l h' (xs @ es) \<and>
     map (val h') es = map (val h) ws \<and> (\<forall>q \<in> set xs \<union> set ws. val h' q = val h q) \<and>
     (k \<noteq> l \<longrightarrow> lstate k h' ws)"
  using push_back_from_copies [of l h xs k "[]" ws "[]" "Front h k"] assms
  by (auto simp: PushBackList_def Let_def lstate_def Front_ring)

lemma PushFrontList_lstate:
  assumes "lstate l h xs" and "lstate k h ws" and "k = l \<Longrightarrow> xs = ws"
  shows "\<exists>h' es. PushFrontList h l k = Some h' \<and> lstate l h' (es @ xs) \<and>
     map (val h') es = map (val h) ws \<and> (\<forall>q \<in> set xs \<union> set ws. val h' q = val h q) \<and>
     (k \<noteq> l \<longrightarrow> lstate k h' ws)"
  using push_front_from_copies [of l h xs k "[]" ws "[]" "Back h k"] assms
  by (auto simp: PushFrontList_def Let_def lstate_def Back_ring)

section \<open>The contract of the list, for its clients\<close>

lemma lstate_val: "lstate l h xs \<Longrightarrow> p \<in> set xs \<Longrightarrow> val h p \<noteq> None"
  using ringD(6) [of h l xs p] by (auto simp: lstate_def)

lemma lstate_distinct: "lstate l h xs \<Longrightarrow> distinct xs"
  by (auto simp: lstate_def dest: ringD(1))

text \<open>
  A client of the list sees handles to elements and the sequence they form. \<open>inv h xs\<close>: the
  list is well formed and holds the elements \<open>xs\<close> in this order.
\<close>

locale element_list =
  fixes inv :: "'h \<Rightarrow> 'p list \<Rightarrow> bool"
    and valof :: "'h \<Rightarrow> 'p \<Rightarrow> 'a option"
    and push_front :: "'h \<Rightarrow> 'a \<Rightarrow> ('p \<times> 'h) option"
    and push_back :: "'h \<Rightarrow> 'a \<Rightarrow> ('p \<times> 'h) option"
    and insert_after :: "'h \<Rightarrow> 'a \<Rightarrow> 'p \<Rightarrow> ('p option \<times> 'h) option"
    and insert_before :: "'h \<Rightarrow> 'a \<Rightarrow> 'p \<Rightarrow> ('p option \<times> 'h) option"
    and remove :: "'h \<Rightarrow> 'p \<Rightarrow> ('a option \<times> 'h) option"
  assumes inv_val: "inv h xs \<Longrightarrow> p \<in> set xs \<Longrightarrow> valof h p \<noteq> None"
    and inv_distinct: "inv h xs \<Longrightarrow> distinct xs"
    and push_front_law: "inv h xs \<Longrightarrow> \<exists>e h'. push_front h v = Some (e, h') \<and> inv h' (e # xs) \<and>
          e \<notin> set xs \<and> valof h' = (valof h)(e \<mapsto> v)"
    and push_back_law: "inv h xs \<Longrightarrow> \<exists>e h'. push_back h v = Some (e, h') \<and> inv h' (xs @ [e]) \<and>
          e \<notin> set xs \<and> valof h' = (valof h)(e \<mapsto> v)"
    and insert_after_law: "inv h (ys @ m # zs) \<Longrightarrow> \<exists>e h'. insert_after h v m = Some (Some e, h') \<and>
          inv h' (ys @ m # e # zs) \<and> e \<notin> set (ys @ m # zs) \<and> valof h' = (valof h)(e \<mapsto> v)"
    and insert_before_law: "inv h (ys @ m # zs) \<Longrightarrow> \<exists>e h'. insert_before h v m = Some (Some e, h') \<and>
          inv h' (ys @ e # m # zs) \<and> e \<notin> set (ys @ m # zs) \<and> valof h' = (valof h)(e \<mapsto> v)"
    and remove_law: "inv h (ys @ e # zs) \<Longrightarrow> \<exists>v h'. remove h e = Some (Some v, h') \<and>
          valof h e = Some v \<and> inv h' (ys @ zs) \<and> valof h' = valof h"
begin

definition contents :: "'h \<Rightarrow> 'p list \<Rightarrow> 'a list" where
  "contents h xs = map (\<lambda>p. the (valof h p)) xs"

lemma contents_simps [simp]:
  "contents h [] = []" "contents h (p # xs) = the (valof h p) # contents h xs"
  "contents h (xs @ ys) = contents h xs @ contents h ys"
  "contents h (rev xs) = rev (contents h xs)" "length (contents h xs) = length xs"
  by (simp_all add: contents_def rev_map)

lemma contents_fresh:
  "e \<notin> set xs \<Longrightarrow> valof h' = (valof h)(e \<mapsto> v) \<Longrightarrow> contents h' xs = contents h xs"
  by (auto simp: contents_def)

lemma push_front_contents:
  assumes "inv h xs"
  obtains e h' where "push_front h v = Some (e, h')" "inv h' (e # xs)"
    "contents h' (e # xs) = v # contents h xs"
  using push_front_law [OF assms, of v] contents_fresh by (fastforce simp: contents_def)

lemma push_back_contents:
  assumes "inv h xs"
  obtains e h' where "push_back h v = Some (e, h')" "inv h' (xs @ [e])"
    "contents h' (xs @ [e]) = contents h xs @ [v]"
  using push_back_law [OF assms, of v] contents_fresh by (fastforce simp: contents_def)

lemma remove_contents:
  assumes "inv h (ys @ e # zs)"
  obtains v h' where "remove h e = Some (Some v, h')" "inv h' (ys @ zs)"
    "contents h (ys @ e # zs) = contents h' ys @ v # contents h' zs"
  using remove_law [OF assms] by (fastforce simp: contents_def)

end

interpretation go_list: element_list "lstate l" val
    "\<lambda>h v. PushFront h l v" "\<lambda>h v. PushBack h l v"
    "\<lambda>h v m. InsertAfter h l v m" "\<lambda>h v m. InsertBefore h l v m" "\<lambda>h e. Remove h l e"
  for l
  by unfold_locales
    (erule (1) lstate_val, (erule lstate_distinct PushFront_lstate PushBack_lstate
      InsertAfter_lstate InsertBefore_lstate Remove_lstate)+)

section \<open>Properties\<close>

text \<open>
  Appending a list copies the values of the other list, in order, to the end of the first,
  also when a list is appended to itself; the other list keeps its elements and values.
\<close>

lemma PushBackList_values:
  assumes "lstate l h xs" and "lstate k h ws" and "k = l \<Longrightarrow> xs = ws"
  shows "\<exists>h' es. PushBackList h l k = Some h' \<and> lstate l h' (xs @ es) \<and>
     go_list.contents h' (xs @ es) = go_list.contents h xs @ go_list.contents h ws \<and>
     (k \<noteq> l \<longrightarrow> lstate k h' ws \<and> go_list.contents h' ws = go_list.contents h ws)"
proof -
  from PushBackList_lstate [OF assms] obtain h' es where
    h': "PushBackList h l k = Some h'" "lstate l h' (xs @ es)" "map (val h') es = map (val h) ws"
      "\<forall>q \<in> set xs \<union> set ws. val h' q = val h q" "k \<noteq> l \<longrightarrow> lstate k h' ws" by blast
  from h'(3) have "map the (map (val h') es) = map the (map (val h) ws)" by simp
  then have "go_list.contents h' es = go_list.contents h ws" by (simp add: go_list.contents_def comp_def)
  moreover have "go_list.contents h' xs = go_list.contents h xs"
    "go_list.contents h' ws = go_list.contents h ws" using h'(4) by (simp_all add: go_list.contents_def)
  ultimately show ?thesis using h' by (intro exI [of _ h'] exI [of _ es]) simp
qed

text \<open>
  Moving an element to the front, to the back or next to a mark takes it out of its place
  and puts it there, keeps the order of the others, loses no element and no value, and never
  panics.
\<close>

lemma list_moves:
  assumes "lstate l h (ys @ e # zs)"
  shows "(\<exists>h'. MoveToFront h l e = Some h' \<and> lstate l h' (e # ys @ zs) \<and> val h' = val h) \<and>
     (\<exists>h'. MoveToBack h l e = Some h' \<and> lstate l h' (ys @ zs @ [e]) \<and> val h' = val h) \<and>
     (\<forall>us m vs. ys @ zs = us @ m # vs \<longrightarrow>
        (\<exists>h'. MoveAfter h l e m = Some h' \<and> lstate l h' (us @ m # e # vs) \<and> val h' = val h) \<and>
        (\<exists>h'. MoveBefore h l e m = Some h' \<and> lstate l h' (us @ e # m # vs) \<and> val h' = val h))"
  using MoveToFront_lstate [OF assms] MoveToBack_lstate [OF assms]
    MoveAfter_lstate [OF assms] MoveBefore_lstate [OF assms] by blast

end
