(* ===== verification/Task_Storage.thy ===== *)
theory Task_Storage
  imports Go_Linked_List
begin

text \<open>
  \<open>pkg/task/queue/task_storage.go\<close> and \<open>task_result.go\<close>: the linked list of a queue together
  with its index from task ids to list elements.

  The storage only ever asks a task for its id, so it is generic in the type of tasks; the
  first argument \<open>idf\<close> of an operation is \<open>GetId\<close>. The index maps an id to an element
  pointer that may be nil (\<open>InsertAfter\<close> returns nil for a foreign mark). The list of a
  storage is list 0 of its heap. The public methods take the lock and call the private
  methods of the same name, so each is modelled once.

  \<open>storage_ok\<close> is the invariant that holds whatever ids the tasks have: no operation panics
  under it. \<open>task_seq\<close> adds that the index is complete, which is what the ids being distinct
  gives; under it the operations are those of a sequence of tasks (locale \<open>task_sequence\<close>).
\<close>

named_theorems storage_ops \<open>what the storage operations do\<close>

section \<open>Results of task handlers\<close>

datatype TaskStatus = Success | Fail | Repeat | Keep | UnknownStatus string

record 'a TaskResult =
  Status :: TaskStatus
  headTasks :: "'a list"
  tailTasks :: "'a list"
  afterTasks :: "'a list"
  DelayBeforeNextTask :: duration

definition empty_result :: "TaskStatus \<Rightarrow> 'a TaskResult" where
  "empty_result st = \<lparr>Status = st, headTasks = [], tailTasks = [], afterTasks = [],
     DelayBeforeNextTask = 0\<rparr>"

definition AddHeadTasks :: "'a TaskResult \<Rightarrow> 'a list \<Rightarrow> 'a TaskResult" where
  "AddHeadTasks r ts = r\<lparr>headTasks := headTasks r @ ts\<rparr>"

definition AddTailTasks :: "'a TaskResult \<Rightarrow> 'a list \<Rightarrow> 'a TaskResult" where
  "AddTailTasks r ts = r\<lparr>tailTasks := tailTasks r @ ts\<rparr>"

definition AddAfterTasks :: "'a TaskResult \<Rightarrow> 'a list \<Rightarrow> 'a TaskResult" where
  "AddAfterTasks r ts = r\<lparr>afterTasks := afterTasks r @ ts\<rparr>"

section \<open>The storage and its operations\<close>

record 'a task_storage =
  items :: "'a lheap"
  idIndex :: "string \<rightharpoonup> ptr option"

definition newTaskStorage :: "'a task_storage" where
  "newTaskStorage = \<lparr>items = New 0, idIndex = Map.empty\<rparr>"

text \<open>The body shared by the insertion loops: insert a task, then index its element.\<close>

fun push_each :: "('a lheap \<Rightarrow> 'a \<Rightarrow> (ptr option \<times> 'a lheap) option) \<Rightarrow> ('a \<Rightarrow> string)
    \<Rightarrow> 'a task_storage \<Rightarrow> 'a list \<Rightarrow> 'a task_storage option" where
  "push_each ins idf ts [] = Some ts"
| "push_each ins idf ts (t # tasks) = do {
     (e, h) \<leftarrow> ins (items ts) t;
     push_each ins idf (ts\<lparr>items := h, idIndex := (idIndex ts)(idf t \<mapsto> e)\<rparr>) tasks
   }"

definition addFirst :: "('a \<Rightarrow> string) \<Rightarrow> 'a task_storage \<Rightarrow> 'a list \<Rightarrow> 'a task_storage option" where
  "addFirst idf ts tasks =
     push_each (\<lambda>h t. map_option (apfst Some) (PushFront h 0 t)) idf ts (rev tasks)"

definition addLast :: "('a \<Rightarrow> string) \<Rightarrow> 'a task_storage \<Rightarrow> 'a list \<Rightarrow> 'a task_storage option" where
  "addLast idf ts tasks =
     push_each (\<lambda>h t. map_option (apfst Some) (PushBack h 0 t)) idf ts tasks"

definition removeElement :: "('a \<Rightarrow> string) \<Rightarrow> 'a task_storage \<Rightarrow> ptr \<Rightarrow> ('a \<times> 'a task_storage) option" where
  "removeElement idf ts e = do {
     (v, h) \<leftarrow> Remove (items ts) 0 e;
     t \<leftarrow> v;
     Some (t, ts\<lparr>items := h, idIndex := (idIndex ts)(idf t := None)\<rparr>)
   }"

definition removeFirst :: "('a \<Rightarrow> string) \<Rightarrow> 'a task_storage \<Rightarrow> ('a option \<times> 'a task_storage) option" where
  "removeFirst idf ts =
     (if Len (items ts) 0 > 0 then do {
        element \<leftarrow> Front (items ts) 0;
        (t, ts) \<leftarrow> removeElement idf ts element;
        Some (Some t, ts)
      } else Some (None, ts))"

definition removeLast :: "('a \<Rightarrow> string) \<Rightarrow> 'a task_storage \<Rightarrow> ('a option \<times> 'a task_storage) option" where
  "removeLast idf ts =
     (if Len (items ts) 0 > 0 then do {
        element \<leftarrow> Back (items ts) 0;
        (t, ts) \<leftarrow> removeElement idf ts element;
        Some (Some t, ts)
      } else Some (None, ts))"

text \<open>A nil \<open>element\<close> found in the index panics in the list (\<open>mark.list\<close>), if there is a task.\<close>

definition addAfter :: "('a \<Rightarrow> string) \<Rightarrow> 'a task_storage \<Rightarrow> string \<Rightarrow> 'a list \<Rightarrow> 'a task_storage option" where
  "addAfter idf ts tid tasks =
     (case idIndex ts tid of
        None \<Rightarrow> Some ts
      | Some element \<Rightarrow>
          push_each (\<lambda>h t. do { m \<leftarrow> element; InsertAfter h 0 t m }) idf ts (rev tasks))"

definition addBefore :: "('a \<Rightarrow> string) \<Rightarrow> 'a task_storage \<Rightarrow> string \<Rightarrow> 'a \<Rightarrow> 'a task_storage option" where
  "addBefore idf ts tid newTask =
     (case idIndex ts tid of
        None \<Rightarrow> Some ts
      | Some element \<Rightarrow>
          push_each (\<lambda>h t. do { m \<leftarrow> element; InsertBefore h 0 t m }) idf ts [newTask])"

definition remove :: "'a task_storage \<Rightarrow> string \<Rightarrow> ('a option \<times> 'a task_storage) option" where
  "remove ts tid =
     (case idIndex ts tid of
        None \<Rightarrow> Some (None, ts)
      | Some element \<Rightarrow> do {
          e \<leftarrow> element;
          (v, h) \<leftarrow> Remove (items ts) 0 e;
          Some (v, ts\<lparr>items := h, idIndex := (idIndex ts)(tid := None)\<rparr>)
        })"

definition Length :: "'a task_storage \<Rightarrow> nat" where
  "Length ts = Len (items ts) 0"

definition GetFirst :: "'a task_storage \<Rightarrow> 'a option option" where
  "GetFirst ts =
     (if Len (items ts) 0 > 0 then do {
        e \<leftarrow> Front (items ts) 0;
        v \<leftarrow> val (items ts) e;
        Some (Some v)
      } else Some None)"

definition GetLast :: "'a task_storage \<Rightarrow> 'a option option" where
  "GetLast ts =
     (if Len (items ts) 0 > 0 then do {
        e \<leftarrow> Back (items ts) 0;
        v \<leftarrow> val (items ts) e;
        Some (Some v)
      } else Some None)"

definition Get :: "'a task_storage \<Rightarrow> string \<Rightarrow> 'a option option" where
  "Get ts tid =
     (case idIndex ts tid of
        None \<Rightarrow> Some None
      | Some element \<Rightarrow> do {
          e \<leftarrow> element;
          v \<leftarrow> val (items ts) e;
          Some (Some v)
        })"

text \<open>
  The loops over the list follow \<open>Next\<close> until it is nil. On a damaged list they need not end;
  not ending is \<open>None\<close>, like a panic, and the lemmas show that on a ring they do end.
\<close>

partial_function (option) elements_from :: "'a lheap \<Rightarrow> ptr option \<Rightarrow> ptr list option" where
  "elements_from h e =
     (case e of
        None \<Rightarrow> Some []
      | Some p \<Rightarrow> do {
          ps \<leftarrow> elements_from h (Next h p);
          Some (p # ps)
        })"

definition Iterate :: "'a task_storage \<Rightarrow> ptr list option" where
  "Iterate ts = elements_from (items ts) (Front (items ts) 0)"

partial_function (option) snapshot_from :: "'a lheap \<Rightarrow> ptr option \<Rightarrow> 'a list \<Rightarrow> 'a list option" where
  "snapshot_from h e snapshot =
     (case e of
        None \<Rightarrow> Some snapshot
      | Some p \<Rightarrow> do {
          v \<leftarrow> val h p;
          snapshot_from h (Next h p) (snapshot @ [v])
        })"

definition GetSnapshot :: "'a task_storage \<Rightarrow> 'a list option" where
  "GetSnapshot ts = snapshot_from (items ts) (Front (items ts) 0) []"

partial_function (option) delete_from :: "('a \<Rightarrow> string) \<Rightarrow> ('a \<Rightarrow> bool) \<Rightarrow> 'a task_storage
    \<Rightarrow> ptr option \<Rightarrow> 'a task_storage option" where
  "delete_from idf fn ts e =
     (case e of
        None \<Rightarrow> Some ts
      | Some p \<Rightarrow> do {
          let nx = Next (items ts) p;
          t \<leftarrow> val (items ts) p;
          ts \<leftarrow> (if \<not> fn t then do {
                    (_, h) \<leftarrow> Remove (items ts) 0 p;
                    Some (ts\<lparr>items := h, idIndex := (idIndex ts)(idf t := None)\<rparr>)
                  } else Some ts);
          delete_from idf fn ts nx
        })"

definition DeleteFunc :: "('a \<Rightarrow> string) \<Rightarrow> ('a \<Rightarrow> bool) \<Rightarrow> 'a task_storage \<Rightarrow> 'a task_storage option" where
  "DeleteFunc idf fn ts = delete_from idf fn ts (Front (items ts) 0)"

definition ProcessResult :: "('a \<Rightarrow> string) \<Rightarrow> 'a task_storage \<Rightarrow> 'a TaskResult \<Rightarrow> 'a \<Rightarrow> 'a task_storage option" where
  "ProcessResult idf ts taskRes t = do {
     ts \<leftarrow> addAfter idf ts (idf t) (afterTasks taskRes);
     ts \<leftarrow> (if Status taskRes = Success then map_option snd (remove ts (idf t)) else Some ts);
     ts \<leftarrow> addFirst idf ts (headTasks taskRes);
     addLast idf ts (tailTasks taskRes)
   }"

declare elements_from.simps [code] snapshot_from.simps [code] delete_from.simps [code]

section \<open>The invariant\<close>

definition storage_ok :: "('a \<Rightarrow> string) \<Rightarrow> 'a task_storage \<Rightarrow> ptr list \<Rightarrow> bool" where
  "storage_ok idf ts xs \<longleftrightarrow> lstate 0 (items ts) xs \<and>
     (\<forall>k. case idIndex ts k of None \<Rightarrow> True | Some None \<Rightarrow> False
        | Some (Some p) \<Rightarrow> p \<in> set xs \<and> map_option idf (val (items ts) p) = Some k)"

definition index_complete :: "('a \<Rightarrow> string) \<Rightarrow> 'a task_storage \<Rightarrow> ptr list \<Rightarrow> bool" where
  "index_complete idf ts xs \<longleftrightarrow>
     (\<forall>p \<in> set xs. idIndex ts (idf (the (val (items ts) p))) \<noteq> None)"

abbreviation tasks_at :: "'a task_storage \<Rightarrow> ptr list \<Rightarrow> 'a list" where
  "tasks_at ts xs \<equiv> go_list.contents (items ts) xs"

lemma storage_ok_new: "storage_ok idf newTaskStorage []" "index_complete idf newTaskStorage []"
  using Init_ring [of 0] by (simp_all add: storage_ok_def newTaskStorage_def lstate_def index_complete_def)

lemma storage_ok_lstate: "storage_ok idf ts xs \<Longrightarrow> lstate 0 (items ts) xs"
  by (simp add: storage_ok_def)

lemma storage_ok_index:
  assumes "storage_ok idf ts xs" and "idIndex ts k = Some e"
  obtains p v where "e = Some p" "p \<in> set xs" "val (items ts) p = Some v" "idf v = k"
proof -
  from assms(1) have "case idIndex ts k of None \<Rightarrow> True | Some None \<Rightarrow> False
      | Some (Some p) \<Rightarrow> p \<in> set xs \<and> map_option idf (val (items ts) p) = Some k"
    by (simp add: storage_ok_def)
  with assms(2) that show ?thesis by (auto split: option.splits)
qed

lemma storage_okI:
  assumes "lstate 0 (items ts) xs"
    and "\<And>k e. idIndex ts k = Some e \<Longrightarrow>
      \<exists>p. e = Some p \<and> p \<in> set xs \<and> map_option idf (val (items ts) p) = Some k"
  shows "storage_ok idf ts xs"
  unfolding storage_ok_def
proof (intro conjI allI)
  fix k
  show "case idIndex ts k of None \<Rightarrow> True | Some None \<Rightarrow> False
      | Some (Some p) \<Rightarrow> p \<in> set xs \<and> map_option idf (val (items ts) p) = Some k"
  proof (cases "idIndex ts k")
    case (Some e)
    from assms(2) [OF this] Some show ?thesis by auto
  qed simp
qed (rule assms(1))

text \<open>One insertion, wherever the list puts the new element.\<close>

lemma index_insert:
  assumes ok: "storage_ok idf ts xs" and st: "lstate 0 h ys"
    and ys: "set ys = insert e (set xs)" and e: "e \<notin> set xs" and v: "val h = (val (items ts))(e \<mapsto> t)"
  shows "storage_ok idf (ts\<lparr>items := h, idIndex := (idIndex ts)(idf t \<mapsto> Some e)\<rparr>) ys"
    and "index_complete idf ts xs \<Longrightarrow>
      index_complete idf (ts\<lparr>items := h, idIndex := (idIndex ts)(idf t \<mapsto> Some e)\<rparr>) ys"
    and "tasks_at (ts\<lparr>items := h, idIndex := (idIndex ts)(idf t \<mapsto> Some e)\<rparr>) zs =
      map (\<lambda>p. if p = e then t else the (val (items ts) p)) zs"
proof -
  show "storage_ok idf (ts\<lparr>items := h, idIndex := (idIndex ts)(idf t \<mapsto> Some e)\<rparr>) ys"
  proof (rule storage_okI)
    fix k e' assume "idIndex (ts\<lparr>items := h, idIndex := (idIndex ts)(idf t \<mapsto> Some e)\<rparr>) k = Some e'"
    then consider "k = idf t" "e' = Some e" | "k \<noteq> idf t" "idIndex ts k = Some e'"
      by (auto split: if_splits)
    then show "\<exists>p. e' = Some p \<and> p \<in> set ys \<and> map_option idf
        (val (items (ts\<lparr>items := h, idIndex := (idIndex ts)(idf t \<mapsto> Some e)\<rparr>)) p) = Some k"
    proof cases
      case 2
      from ok 2(2) obtain p v where "e' = Some p" "p \<in> set xs" "val (items ts) p = Some v" "idf v = k"
        by (rule storage_ok_index)
      then show ?thesis using ys e v by auto
    qed (use ys v in simp)
  qed (use st in simp)
qed (use assms in \<open>auto simp: index_complete_def go_list.contents_def\<close>)

text \<open>One removal; it keeps the index complete when no other task has the removed id.\<close>

lemma index_remove:
  assumes ok: "storage_ok idf ts (ys @ e # zs)" and st: "lstate 0 h (ys @ zs)"
    and v: "val h = val (items ts)" "val (items ts) e = Some t" and k: "k = idf t"
  shows "storage_ok idf (ts\<lparr>items := h, idIndex := (idIndex ts)(k := None)\<rparr>) (ys @ zs)"
    and "index_complete idf ts (ys @ e # zs) \<Longrightarrow> distinct (map idf (tasks_at ts (ys @ e # zs))) \<Longrightarrow>
      index_complete idf (ts\<lparr>items := h, idIndex := (idIndex ts)(k := None)\<rparr>) (ys @ zs)"
    and "tasks_at (ts\<lparr>items := h, idIndex := (idIndex ts)(k := None)\<rparr>) ws = tasks_at ts ws"
proof -
  show "storage_ok idf (ts\<lparr>items := h, idIndex := (idIndex ts)(k := None)\<rparr>) (ys @ zs)"
  proof (rule storage_okI)
    fix j e' assume "idIndex (ts\<lparr>items := h, idIndex := (idIndex ts)(k := None)\<rparr>) j = Some e'"
    then have j: "j \<noteq> idf t" "idIndex ts j = Some e'" using k by (auto split: if_splits)
    from ok j(2) obtain p u where "e' = Some p" "p \<in> set (ys @ e # zs)" "val (items ts) p = Some u"
      "idf u = j" by (rule storage_ok_index)
    then show "\<exists>p. e' = Some p \<and> p \<in> set (ys @ zs) \<and> map_option idf
        (val (items (ts\<lparr>items := h, idIndex := (idIndex ts)(k := None)\<rparr>)) p) = Some j"
      using j(1) v by auto
  qed (use st in simp)
next
  assume "index_complete idf ts (ys @ e # zs)" "distinct (map idf (tasks_at ts (ys @ e # zs)))"
  moreover from this(2) v(2) k
  have "k \<notin> (\<lambda>p. idf (the (val (items ts) p))) ` set (ys @ zs)"
    by (simp add: go_list.contents_def image_Un image_image)
  then have "idf (the (val (items ts) p)) \<noteq> k" if "p \<in> set (ys @ zs)" for p
    using that by blast
  ultimately show "index_complete idf (ts\<lparr>items := h, idIndex := (idIndex ts)(k := None)\<rparr>) (ys @ zs)"
    using v(1) by (simp add: index_complete_def)
qed (use v in \<open>simp add: go_list.contents_def\<close>)

section \<open>The operations keep the invariant\<close>

text \<open>Insertions that all happen at one place, and insertions at the end.\<close>

lemma push_each_at:
  assumes ins: "\<And>h zs t. lstate 0 h (ys @ zs) \<Longrightarrow> \<exists>e h'. ins h t = Some (Some e, h') \<and>
      lstate 0 h' (ys @ e # zs) \<and> e \<notin> set (ys @ zs) \<and> val h' = (val h)(e \<mapsto> t)"
    and "storage_ok idf ts (ys @ zs)"
  shows "\<exists>ts' es. push_each ins idf ts tasks = Some ts' \<and> storage_ok idf ts' (ys @ es @ zs) \<and>
      tasks_at ts' (ys @ es @ zs) = tasks_at ts ys @ rev tasks @ tasks_at ts zs \<and>
      (index_complete idf ts (ys @ zs) \<longrightarrow> index_complete idf ts' (ys @ es @ zs))"
  using assms(2)
proof (induction tasks arbitrary: ts zs)
  case Nil
  then show ?case by (intro exI [of _ ts] exI [of _ "[]"]) (simp add: go_list.contents_def)
next
  case (Cons t tasks)
  from ins [OF storage_ok_lstate [OF Cons.prems]] obtain e h' where
    e: "ins (items ts) t = Some (Some e, h')" "lstate 0 h' (ys @ e # zs)" "e \<notin> set (ys @ zs)"
      "val h' = (val (items ts))(e \<mapsto> t)" by blast
  let ?ts = "ts\<lparr>items := h', idIndex := (idIndex ts)(idf t \<mapsto> Some e)\<rparr>"
  note step = index_insert [OF Cons.prems e(2) _ e(3,4)]
  obtain ts' es where IH: "push_each ins idf ?ts tasks = Some ts'"
      "storage_ok idf ts' (ys @ es @ e # zs)"
      "tasks_at ts' (ys @ es @ e # zs) = tasks_at ?ts ys @ rev tasks @ tasks_at ?ts (e # zs)"
      "index_complete idf ?ts (ys @ e # zs) \<longrightarrow> index_complete idf ts' (ys @ es @ e # zs)"
    using Cons.IH [OF step(1)] by auto
  have "tasks_at ?ts ys = tasks_at ts ys" "tasks_at ?ts (e # zs) = t # tasks_at ts zs"
    using e(3) by (auto simp: e(4) go_list.contents_def)
  with IH e(1) step(2) show ?case by (intro exI [of _ ts'] exI [of _ "es @ [e]"]) auto
qed

lemma push_each_back:
  assumes ins: "\<And>h xs t. lstate 0 h xs \<Longrightarrow> \<exists>e h'. ins h t = Some (Some e, h') \<and>
      lstate 0 h' (xs @ [e]) \<and> e \<notin> set xs \<and> val h' = (val h)(e \<mapsto> t)"
    and "storage_ok idf ts xs"
  shows "\<exists>ts' es. push_each ins idf ts tasks = Some ts' \<and> storage_ok idf ts' (xs @ es) \<and>
      tasks_at ts' (xs @ es) = tasks_at ts xs @ tasks \<and>
      (index_complete idf ts xs \<longrightarrow> index_complete idf ts' (xs @ es))"
  using assms(2)
proof (induction tasks arbitrary: ts xs)
  case Nil
  then show ?case by (intro exI [of _ ts] exI [of _ "[]"]) (simp add: go_list.contents_def)
next
  case (Cons t tasks)
  from ins [OF storage_ok_lstate [OF Cons.prems]] obtain e h' where
    e: "ins (items ts) t = Some (Some e, h')" "lstate 0 h' (xs @ [e])" "e \<notin> set xs"
      "val h' = (val (items ts))(e \<mapsto> t)" by blast
  let ?ts = "ts\<lparr>items := h', idIndex := (idIndex ts)(idf t \<mapsto> Some e)\<rparr>"
  note step = index_insert [OF Cons.prems e(2) _ e(3,4)]
  obtain ts' es where IH: "push_each ins idf ?ts tasks = Some ts'"
      "storage_ok idf ts' ((xs @ [e]) @ es)"
      "tasks_at ts' ((xs @ [e]) @ es) = tasks_at ?ts (xs @ [e]) @ tasks"
      "index_complete idf ?ts (xs @ [e]) \<longrightarrow> index_complete idf ts' ((xs @ [e]) @ es)"
    using Cons.IH [OF step(1)] by auto
  have "tasks_at ?ts (xs @ [e]) = tasks_at ts xs @ [t]"
    using e(3) by (auto simp: e(4) go_list.contents_def)
  with IH e(1) step(2) show ?case by (intro exI [of _ ts'] exI [of _ "e # es"]) auto
qed

lemma addFirst_ok:
  assumes "storage_ok idf ts xs"
  shows "\<exists>ts' xs'. addFirst idf ts tasks = Some ts' \<and> storage_ok idf ts' xs' \<and>
      tasks_at ts' xs' = tasks @ tasks_at ts xs \<and>
      (index_complete idf ts xs \<longrightarrow> index_complete idf ts' xs')"
proof -
  have ins: "\<exists>e h'. map_option (apfst Some) (PushFront h 0 t) = Some (Some e, h') \<and>
      lstate 0 h' ([] @ e # zs) \<and> e \<notin> set ([] @ zs) \<and> val h' = (val h)(e \<mapsto> t)"
    if "lstate 0 h ([] @ zs)" for h zs t
    using go_list.push_front_law [of 0 h zs t] that by auto
  obtain ts' es where "push_each (\<lambda>h t. map_option (apfst Some) (PushFront h 0 t)) idf ts (rev tasks) = Some ts'"
      "storage_ok idf ts' ([] @ es @ xs)"
      "tasks_at ts' ([] @ es @ xs) = tasks_at ts [] @ rev (rev tasks) @ tasks_at ts xs"
      "index_complete idf ts ([] @ xs) \<longrightarrow> index_complete idf ts' ([] @ es @ xs)"
    using push_each_at [of "[]", OF ins, of idf ts xs "rev tasks"] assms by auto
  then show ?thesis unfolding addFirst_def by (intro exI [of _ ts'] exI [of _ "es @ xs"]) simp
qed

lemma addLast_ok:
  assumes "storage_ok idf ts xs"
  shows "\<exists>ts' xs'. addLast idf ts tasks = Some ts' \<and> storage_ok idf ts' xs' \<and>
      tasks_at ts' xs' = tasks_at ts xs @ tasks \<and>
      (index_complete idf ts xs \<longrightarrow> index_complete idf ts' xs')"
proof -
  have ins: "\<exists>e h'. map_option (apfst Some) (PushBack h 0 t) = Some (Some e, h') \<and>
      lstate 0 h' (xs @ [e]) \<and> e \<notin> set xs \<and> val h' = (val h)(e \<mapsto> t)"
    if "lstate 0 h xs" for h xs t
    using go_list.push_back_law [of 0 h xs t] that by auto
  from push_each_back [OF ins assms, of tasks] show ?thesis unfolding addLast_def by blast
qed

lemma addAfter_at:
  assumes "storage_ok idf ts (ys @ m # zs)" and "idIndex ts k = Some (Some m)"
  shows "\<exists>ts' es. addAfter idf ts k tasks = Some ts' \<and> storage_ok idf ts' (ys @ m # es @ zs) \<and>
      tasks_at ts' (ys @ m # es @ zs) = tasks_at ts (ys @ [m]) @ tasks @ tasks_at ts zs \<and>
      (index_complete idf ts (ys @ m # zs) \<longrightarrow> index_complete idf ts' (ys @ m # es @ zs))"
proof -
  have ins: "\<exists>e h'. do { p \<leftarrow> Some m; InsertAfter h 0 t p } = Some (Some e, h') \<and>
      lstate 0 h' ((ys @ [m]) @ e # zs) \<and> e \<notin> set ((ys @ [m]) @ zs) \<and> val h' = (val h)(e \<mapsto> t)"
    if "lstate 0 h ((ys @ [m]) @ zs)" for h zs t
    using go_list.insert_after_law [of 0 h ys m zs t] that by auto
  from push_each_at [of "ys @ [m]", OF ins, of idf ts zs "rev tasks"] assms
  show ?thesis by (auto simp: addAfter_def)
qed

lemma addBefore_at:
  assumes ok: "storage_ok idf ts (ys @ m # zs)" and k: "idIndex ts k = Some (Some m)"
  shows "\<exists>ts' e. addBefore idf ts k t = Some ts' \<and> storage_ok idf ts' (ys @ e # m # zs) \<and>
      tasks_at ts' (ys @ e # m # zs) = tasks_at ts ys @ t # tasks_at ts (m # zs) \<and>
      (index_complete idf ts (ys @ m # zs) \<longrightarrow> index_complete idf ts' (ys @ e # m # zs))"
proof -
  from go_list.insert_before_law [OF storage_ok_lstate [OF ok], of t] obtain e h' where
    e: "InsertBefore (items ts) 0 t m = Some (Some e, h')" "lstate 0 h' (ys @ e # m # zs)"
      "e \<notin> set (ys @ m # zs)" "val h' = (val (items ts))(e \<mapsto> t)" by blast
  note step = index_insert [OF ok e(2) _ e(3,4)]
  have "tasks_at (ts\<lparr>items := h', idIndex := (idIndex ts)(idf t \<mapsto> Some e)\<rparr>) (ys @ e # m # zs) =
      tasks_at ts ys @ t # tasks_at ts (m # zs)"
    using e(3) by (auto simp: e(4) go_list.contents_def)
  with e(1) step(1,2) k show ?thesis
    by (intro exI [of _ "ts\<lparr>items := h', idIndex := (idIndex ts)(idf t \<mapsto> Some e)\<rparr>"] exI [of _ e])
      (simp add: addBefore_def)
qed

lemma removeElement_at:
  assumes ok: "storage_ok idf ts (ys @ e # zs)"
  shows "\<exists>t ts'. removeElement idf ts e = Some (t, ts') \<and> storage_ok idf ts' (ys @ zs) \<and>
      tasks_at ts (ys @ e # zs) = tasks_at ts' ys @ t # tasks_at ts' zs \<and>
      (index_complete idf ts (ys @ e # zs) \<longrightarrow> distinct (map idf (tasks_at ts (ys @ e # zs))) \<longrightarrow>
       index_complete idf ts' (ys @ zs)) \<and> val (items ts) e = Some t \<and> val (items ts') = val (items ts)"
proof -
  from go_list.remove_law [OF storage_ok_lstate [OF ok]] obtain t h' where
    e: "Remove (items ts) 0 e = Some (Some t, h')" "val (items ts) e = Some t" "lstate 0 h' (ys @ zs)"
      "val h' = val (items ts)" by blast
  note step = index_remove [OF ok e(3,4,2) refl]
  show ?thesis using e step by (simp add: removeElement_def go_list.contents_def)
qed

lemma remove_at:
  assumes ok: "storage_ok idf ts (ys @ e # zs)" and k: "idIndex ts k = Some (Some e)"
  shows "\<exists>t ts'. remove ts k = Some (Some t, ts') \<and> idf t = k \<and> storage_ok idf ts' (ys @ zs) \<and>
      tasks_at ts (ys @ e # zs) = tasks_at ts' ys @ t # tasks_at ts' zs \<and>
      (index_complete idf ts (ys @ e # zs) \<longrightarrow> distinct (map idf (tasks_at ts (ys @ e # zs))) \<longrightarrow>
       index_complete idf ts' (ys @ zs))"
proof -
  from go_list.remove_law [OF storage_ok_lstate [OF ok]] obtain t h' where
    e: "Remove (items ts) 0 e = Some (Some t, h')" "val (items ts) e = Some t" "lstate 0 h' (ys @ zs)"
      "val h' = val (items ts)" by blast
  from ok k e(2) have "idf t = k" by (auto elim!: storage_ok_index)
  note step = index_remove [OF ok e(3,4,2) this [symmetric]]
  show ?thesis using e k step \<open>idf t = k\<close> by (simp add: remove_def go_list.contents_def)
qed

lemma storage_Length: "storage_ok idf ts xs \<Longrightarrow> Length ts = length xs"
  by (simp add: Length_def storage_ok_def lstate_def)

lemma storage_Front:
  "storage_ok idf ts xs \<Longrightarrow> Front (items ts) 0 = (case xs of [] \<Rightarrow> None | x # _ \<Rightarrow> Some x)"
  by (simp add: storage_ok_def lstate_def Front_ring)

lemma storage_Back:
  "storage_ok idf ts xs \<Longrightarrow> Back (items ts) 0 = (if xs = [] then None else Some (last xs))"
  by (simp add: storage_ok_def lstate_def Back_ring)

lemma storage_val:
  "storage_ok idf ts xs \<Longrightarrow> p \<in> set xs \<Longrightarrow> val (items ts) p = Some (the (val (items ts) p))"
  using go_list.inv_val [of 0 "items ts" xs p] by (simp add: storage_ok_def)

lemma removeFirst_ok:
  assumes ok: "storage_ok idf ts xs"
  shows "\<exists>t ts' xs'. removeFirst idf ts = Some (t, ts') \<and> storage_ok idf ts' xs' \<and>
      (case tasks_at ts xs of [] \<Rightarrow> t = None \<and> tasks_at ts' xs' = []
        | u # us \<Rightarrow> t = Some u \<and> tasks_at ts' xs' = us) \<and>
      (index_complete idf ts xs \<longrightarrow> distinct (map idf (tasks_at ts xs)) \<longrightarrow> index_complete idf ts' xs')"
proof (cases xs)
  case Nil
  with ok storage_Length [OF ok] show ?thesis
    by (auto simp: removeFirst_def Length_def go_list.contents_def)
next
  case (Cons x xs')
  obtain t ts' where
    rem: "removeElement idf ts x = Some (t, ts')" "storage_ok idf ts' xs'"
      "tasks_at ts xs = t # tasks_at ts' xs'"
      "index_complete idf ts xs \<longrightarrow> distinct (map idf (tasks_at ts xs)) \<longrightarrow> index_complete idf ts' xs'"
    using removeElement_at [of idf ts "[]" x xs'] ok
    unfolding Cons append_Nil append_Nil2 go_list.contents_simps(1) by blast
  have "removeFirst idf ts = Some (Some t, ts')"
    using rem(1) storage_Length [OF ok] storage_Front [OF ok] Cons by (simp add: removeFirst_def Length_def)
  with rem(2-4) show ?thesis by (intro exI [of _ "Some t"] exI [of _ ts'] exI [of _ xs']) simp
qed

lemma removeLast_ok:
  assumes ok: "storage_ok idf ts xs"
  shows "\<exists>t ts' xs'. removeLast idf ts = Some (t, ts') \<and> storage_ok idf ts' xs' \<and>
      (case rev (tasks_at ts xs) of [] \<Rightarrow> t = None \<and> tasks_at ts' xs' = []
        | u # us \<Rightarrow> t = Some u \<and> tasks_at ts' xs' = rev us) \<and>
      (index_complete idf ts xs \<longrightarrow> distinct (map idf (tasks_at ts xs)) \<longrightarrow> index_complete idf ts' xs')"
proof (cases xs rule: rev_cases)
  case Nil
  with ok storage_Length [OF ok] show ?thesis
    by (auto simp: removeLast_def Length_def go_list.contents_def)
next
  case (snoc xs' x)
  obtain t ts' where
    rem: "removeElement idf ts x = Some (t, ts')" "storage_ok idf ts' xs'"
      "tasks_at ts xs = tasks_at ts' xs' @ [t]"
      "index_complete idf ts xs \<longrightarrow> distinct (map idf (tasks_at ts xs)) \<longrightarrow> index_complete idf ts' xs'"
    using removeElement_at [of idf ts xs' x "[]"] ok
    unfolding snoc append_Nil append_Nil2 go_list.contents_simps(1) by blast
  have "removeLast idf ts = Some (Some t, ts')"
    using rem(1) storage_Length [OF ok] storage_Back [OF ok] snoc by (simp add: removeLast_def Length_def)
  with rem(2-4) show ?thesis by (intro exI [of _ "Some t"] exI [of _ ts'] exI [of _ xs']) simp
qed

section \<open>The loops over the list\<close>

abbreviation first_of :: "ptr list \<Rightarrow> ptr option" where
  "first_of zs \<equiv> (case zs of [] \<Rightarrow> None | z # _ \<Rightarrow> Some z)"

lemma elements_from_ring:
  "ring h l (ys @ zs) \<Longrightarrow> elements_from h (first_of zs) = Some zs"
proof (induction zs arbitrary: ys)
  case Nil
  then show ?case by (subst elements_from.simps) simp
next
  case (Cons z zs)
  from Cons.IH [of "ys @ [z]"] Cons.prems Next_ring [of h l ys z zs] show ?case
    by (subst elements_from.simps) simp
qed

lemma snapshot_from_ring:
  "ring h l (ys @ zs) \<Longrightarrow>
     snapshot_from h (first_of zs) acc = Some (acc @ map (\<lambda>p. the (val h p)) zs)"
proof (induction zs arbitrary: ys acc)
  case Nil
  then show ?case by (subst snapshot_from.simps) simp
next
  case (Cons z zs)
  obtain v where "val h z = Some v" using ringD(6) [OF Cons.prems, of z] by auto
  with Cons.IH [of "ys @ [z]" "acc @ [v]"] Cons.prems Next_ring [of h l ys z zs] show ?case
    by (subst snapshot_from.simps) simp
qed

lemma Iterate_ok: "storage_ok idf ts xs \<Longrightarrow> Iterate ts = Some xs"
  using elements_from_ring [of "items ts" 0 "[]" xs] storage_Front [of idf ts xs]
  by (simp add: Iterate_def storage_ok_def lstate_def)

lemma GetSnapshot_ok: "storage_ok idf ts xs \<Longrightarrow> GetSnapshot ts = Some (tasks_at ts xs)"
  using snapshot_from_ring [of "items ts" 0 "[]" xs "[]"] storage_Front [of idf ts xs]
  by (simp add: GetSnapshot_def storage_ok_def lstate_def go_list.contents_def)

lemma delete_from_step:
  assumes ok: "storage_ok idf ts (ys @ z # zs)"
  shows "\<exists>ts'. delete_from idf fn ts (Some z) = delete_from idf fn ts' (first_of zs) \<and>
     storage_ok idf ts' (ys @ (if fn (the (val (items ts) z)) then [z] else []) @ zs) \<and>
     val (items ts') = val (items ts) \<and>
     (index_complete idf ts (ys @ z # zs) \<longrightarrow> distinct (map idf (tasks_at ts (ys @ z # zs))) \<longrightarrow>
      index_complete idf ts' (ys @ (if fn (the (val (items ts) z)) then [z] else []) @ zs))"
proof -
  have nx: "Next (items ts) z = first_of zs"
    using ok Next_ring [of "items ts" 0 ys z zs] by (simp add: storage_ok_def lstate_def)
  from removeElement_at [OF ok] obtain t ts' where
    rem: "removeElement idf ts z = Some (t, ts')" "storage_ok idf ts' (ys @ zs)"
      "val (items ts) z = Some t" "val (items ts') = val (items ts)"
      "index_complete idf ts (ys @ z # zs) \<longrightarrow> distinct (map idf (tasks_at ts (ys @ z # zs))) \<longrightarrow>
       index_complete idf ts' (ys @ zs)" by blast
  from rem(1,3) obtain h where
    "Remove (items ts) 0 z = Some (Some t, h)" "ts' = ts\<lparr>items := h, idIndex := (idIndex ts)(idf t := None)\<rparr>"
    by (auto simp: removeElement_def split: Option.bind_splits)
  with ok rem nx show ?thesis
    by (intro exI [of _ "if fn t then ts else ts'"]) (simp add: delete_from.simps [of _ _ _ "Some z"])
qed

lemma delete_from_ok:
  assumes "storage_ok idf ts (ys @ zs)"
  shows "\<exists>ts' zs'. delete_from idf fn ts (first_of zs) = Some ts' \<and> storage_ok idf ts' (ys @ zs') \<and>
     val (items ts') = val (items ts) \<and> tasks_at ts zs' = List.filter fn (tasks_at ts zs) \<and>
     (index_complete idf ts (ys @ zs) \<longrightarrow> distinct (map idf (tasks_at ts (ys @ zs))) \<longrightarrow>
      index_complete idf ts' (ys @ zs'))"
  using assms
proof (induction zs arbitrary: ts ys)
  case Nil
  then show ?case
    by (intro exI [of _ ts] exI [of _ "[]"]) (simp add: delete_from.simps [of _ _ _ None])
next
  case (Cons z zs)
  let ?keep = "if fn (the (val (items ts) z)) then [z] else []"
  from delete_from_step [OF Cons.prems, of fn] obtain ts1 where
    step: "delete_from idf fn ts (Some z) = delete_from idf fn ts1 (first_of zs)"
      "storage_ok idf ts1 (ys @ ?keep @ zs)" "val (items ts1) = val (items ts)"
      "index_complete idf ts (ys @ z # zs) \<longrightarrow> distinct (map idf (tasks_at ts (ys @ z # zs))) \<longrightarrow>
       index_complete idf ts1 (ys @ ?keep @ zs)" by blast
  have same: "tasks_at ts1 ps = tasks_at ts ps" for ps by (simp add: go_list.contents_def step(3))
  have "storage_ok idf ts1 ((ys @ ?keep) @ zs)" using step(2) by simp
  from Cons.IH [OF this] obtain ts' zs' where
    IH: "delete_from idf fn ts1 (first_of zs) = Some ts'" "storage_ok idf ts' ((ys @ ?keep) @ zs')"
      "val (items ts') = val (items ts1)" "tasks_at ts1 zs' = List.filter fn (tasks_at ts1 zs)"
      "index_complete idf ts1 ((ys @ ?keep) @ zs) \<longrightarrow>
       distinct (map idf (tasks_at ts1 ((ys @ ?keep) @ zs))) \<longrightarrow>
       index_complete idf ts' ((ys @ ?keep) @ zs')" by blast
  have "distinct (map idf (tasks_at ts (ys @ z # zs))) \<longrightarrow>
      distinct (map idf (tasks_at ts1 ((ys @ ?keep) @ zs)))" by (auto simp: same)
  moreover have "tasks_at ts (?keep @ zs') = List.filter fn (tasks_at ts (z # zs))"
    using IH(4) by (simp add: same)
  ultimately show ?case using step IH
    by (intro exI [of _ ts'] exI [of _ "?keep @ zs'"]) auto
qed

lemma DeleteFunc_ok:
  assumes ok: "storage_ok idf ts xs"
  shows "\<exists>ts' xs'. DeleteFunc idf fn ts = Some ts' \<and> storage_ok idf ts' xs' \<and>
     tasks_at ts' xs' = List.filter fn (tasks_at ts xs) \<and>
     (index_complete idf ts xs \<longrightarrow> distinct (map idf (tasks_at ts xs)) \<longrightarrow> index_complete idf ts' xs')"
proof -
  obtain ts' xs' where
    del: "delete_from idf fn ts (first_of xs) = Some ts'" "storage_ok idf ts' xs'"
      "val (items ts') = val (items ts)" "tasks_at ts xs' = List.filter fn (tasks_at ts xs)"
      "index_complete idf ts xs \<longrightarrow> distinct (map idf (tasks_at ts xs)) \<longrightarrow> index_complete idf ts' xs'"
    using delete_from_ok [of idf ts "[]" xs fn] ok unfolding append_Nil by blast
  then show ?thesis using storage_Front [OF ok]
    by (intro exI [of _ ts'] exI [of _ xs']) (simp add: DeleteFunc_def go_list.contents_def)
qed

section \<open>The storage as a sequence of tasks\<close>

definition task_seq :: "('a \<Rightarrow> string) \<Rightarrow> 'a task_storage \<Rightarrow> 'a list \<Rightarrow> bool" where
  "task_seq idf ts tks \<longleftrightarrow> distinct (map idf tks) \<and>
     (\<exists>xs. storage_ok idf ts xs \<and> index_complete idf ts xs \<and> tasks_at ts xs = tks)"

lemma task_seqE:
  assumes "task_seq idf ts tks"
  obtains xs where "storage_ok idf ts xs" "index_complete idf ts xs" "tasks_at ts xs = tks"
    "distinct (map idf tks)"
  using assms by (auto simp: task_seq_def)

lemma task_seq_new: "task_seq idf newTaskStorage []"
  using storage_ok_new by (force simp: task_seq_def)

lemma storage_task: "val (items ts) p = Some v \<Longrightarrow> p \<in> set xs \<Longrightarrow> v \<in> set (tasks_at ts xs)"
  by (force simp: go_list.contents_def)

lemma task_seq_find:
  assumes "task_seq idf ts (ys @ t # zs)"
  obtains ps e qs where "storage_ok idf ts (ps @ e # qs)" "index_complete idf ts (ps @ e # qs)"
    "tasks_at ts ps = ys" "val (items ts) e = Some t" "tasks_at ts qs = zs"
    "idIndex ts (idf t) = Some (Some e)"
proof -
  from assms obtain xs where xs: "storage_ok idf ts xs" "index_complete idf ts xs"
    "tasks_at ts xs = ys @ t # zs" and dist: "distinct (map idf (ys @ t # zs))" by (rule task_seqE)
  from xs(3) obtain ps e qs where split: "xs = ps @ e # qs" "tasks_at ts ps = ys"
    "the (val (items ts) e) = t" "tasks_at ts qs = zs"
    by (auto simp: go_list.contents_def map_eq_append_conv)
  then have v: "val (items ts) e = Some t" using storage_val [OF xs(1), of e] by simp
  from xs(2) split v obtain q where q: "idIndex ts (idf t) = Some q"
    by (auto simp: index_complete_def)
  from xs(1) q obtain p u where p: "q = Some p" "p \<in> set xs" "val (items ts) p = Some u" "idf u = idf t"
    by (rule storage_ok_index)
  have "u \<notin> set ys" "u \<notin> set zs" using dist p(4) by (auto simp: image_iff)
  then have "p \<notin> set ps" "p \<notin> set qs"
    using storage_task [OF p(3), of ps] storage_task [OF p(3), of qs] split(2,4) by auto
  then have "p = e" using p(2) split(1) by simp
  with xs split v q p(1) show ?thesis by (intro that [of ps e qs]) simp_all
qed

lemma task_seq_absent:
  assumes "task_seq idf ts tks" and "k \<notin> idf ` set tks"
  shows "idIndex ts k = None"
proof (rule ccontr)
  assume "idIndex ts k \<noteq> None"
  then obtain e where e: "idIndex ts k = Some e" by auto
  from assms(1) obtain xs where xs: "storage_ok idf ts xs" "tasks_at ts xs = tks" by (rule task_seqE)
  from xs(1) e obtain p v where "p \<in> set xs" "val (items ts) p = Some v" "idf v = k"
    by (rule storage_ok_index)
  with xs(2) assms(2) show False by (force simp: go_list.contents_def)
qed

lemma addFirst_seq:
  assumes "task_seq idf ts tks" and "distinct (map idf (new @ tks))"
  shows "\<exists>ts'. addFirst idf ts new = Some ts' \<and> task_seq idf ts' (new @ tks)"
  using assms addFirst_ok [of idf ts _ new] unfolding task_seq_def by fast

lemma addLast_seq:
  assumes "task_seq idf ts tks" and "distinct (map idf (tks @ new))"
  shows "\<exists>ts'. addLast idf ts new = Some ts' \<and> task_seq idf ts' (tks @ new)"
  using assms addLast_ok [of idf ts _ new] unfolding task_seq_def by fast

lemma addAfter_seq:
  assumes seq: "task_seq idf ts (ys @ t # zs)" and dist: "distinct (map idf (ys @ t # new @ zs))"
  shows "\<exists>ts'. addAfter idf ts (idf t) new = Some ts' \<and> task_seq idf ts' (ys @ t # new @ zs)"
proof -
  from seq obtain ps e qs where f: "storage_ok idf ts (ps @ e # qs)" "index_complete idf ts (ps @ e # qs)"
    "tasks_at ts ps = ys" "val (items ts) e = Some t" "tasks_at ts qs = zs"
    "idIndex ts (idf t) = Some (Some e)" by (rule task_seq_find)
  from addAfter_at [OF f(1,6), of new] f(2) obtain ts' es where
    "addAfter idf ts (idf t) new = Some ts'" "storage_ok idf ts' (ps @ e # es @ qs)"
    "tasks_at ts' (ps @ e # es @ qs) = tasks_at ts (ps @ [e]) @ new @ tasks_at ts qs"
    "index_complete idf ts' (ps @ e # es @ qs)" by blast
  moreover have "tasks_at ts (ps @ [e]) @ new @ tasks_at ts qs = ys @ t # new @ zs"
    using f(3-5) by simp
  ultimately show ?thesis using dist unfolding task_seq_def by metis
qed

lemma addBefore_seq:
  assumes seq: "task_seq idf ts (ys @ t # zs)" and dist: "distinct (map idf (ys @ new # t # zs))"
  shows "\<exists>ts'. addBefore idf ts (idf t) new = Some ts' \<and> task_seq idf ts' (ys @ new # t # zs)"
proof -
  from seq obtain ps e qs where f: "storage_ok idf ts (ps @ e # qs)" "index_complete idf ts (ps @ e # qs)"
    "tasks_at ts ps = ys" "val (items ts) e = Some t" "tasks_at ts qs = zs"
    "idIndex ts (idf t) = Some (Some e)" by (rule task_seq_find)
  from addBefore_at [OF f(1,6), of new] f(2) obtain ts' p where
    "addBefore idf ts (idf t) new = Some ts'" "storage_ok idf ts' (ps @ p # e # qs)"
    "tasks_at ts' (ps @ p # e # qs) = tasks_at ts ps @ new # tasks_at ts (e # qs)"
    "index_complete idf ts' (ps @ p # e # qs)" by blast
  moreover have "tasks_at ts ps @ new # tasks_at ts (e # qs) = ys @ new # t # zs"
    using f(3-5) by simp
  ultimately show ?thesis using dist unfolding task_seq_def by metis
qed

lemma remove_seq:
  assumes seq: "task_seq idf ts (ys @ t # zs)"
  shows "\<exists>ts'. remove ts (idf t) = Some (Some t, ts') \<and> task_seq idf ts' (ys @ zs)"
proof -
  from seq obtain ps e qs where f: "storage_ok idf ts (ps @ e # qs)" "index_complete idf ts (ps @ e # qs)"
    "tasks_at ts ps = ys" "val (items ts) e = Some t" "tasks_at ts qs = zs"
    "idIndex ts (idf t) = Some (Some e)" by (rule task_seq_find)
  have dist: "distinct (map idf (ys @ t # zs))" using seq by (simp add: task_seq_def)
  have all: "tasks_at ts (ps @ e # qs) = ys @ t # zs" using f(3-5) by simp
  from remove_at [OF f(1,6)] f(2) dist obtain u ts' where
    r: "remove ts (idf t) = Some (Some u, ts')" "storage_ok idf ts' (ps @ qs)"
      "tasks_at ts (ps @ e # qs) = tasks_at ts' ps @ u # tasks_at ts' qs"
      "index_complete idf ts' (ps @ qs)" unfolding all by blast
  from r(3) all f(3) have "u = t" "tasks_at ts' (ps @ qs) = ys @ zs"
    by (auto dest!: arg_cong [of _ _ length] simp: append_eq_append_conv)
  with r(1,2,4) dist show ?thesis by (auto simp: task_seq_def)
qed

lemma absent_noop:
  assumes "task_seq idf ts tks" and "k \<notin> idf ` set tks"
  shows "addAfter idf ts k new = Some ts" and "addBefore idf ts k t = Some ts"
    and "remove ts k = Some (None, ts)" and "Get ts k = Some None"
  using task_seq_absent [OF assms]
  by (simp_all add: addAfter_def addBefore_def remove_def Get_def)

lemma removeFirst_seq:
  assumes "task_seq idf ts tks"
  shows "\<exists>ts'. removeFirst idf ts = Some (if tks = [] then None else Some (hd tks), ts') \<and>
     task_seq idf ts' (tl tks)"
proof -
  from assms obtain xs where xs: "storage_ok idf ts xs" "index_complete idf ts xs"
    "tasks_at ts xs = tks" "distinct (map idf tks)" by (rule task_seqE)
  from removeFirst_ok [OF xs(1)] xs(2-4) obtain t ts' xs' where
    "removeFirst idf ts = Some (t, ts')" "storage_ok idf ts' xs'" "index_complete idf ts' xs'"
    "case tks of [] \<Rightarrow> t = None \<and> tasks_at ts' xs' = [] | u # us \<Rightarrow> t = Some u \<and> tasks_at ts' xs' = us"
    by blast
  with xs(4) show ?thesis by (cases tks) (auto simp: task_seq_def)
qed

lemma removeLast_seq:
  assumes "task_seq idf ts tks"
  shows "\<exists>ts'. removeLast idf ts = Some (if tks = [] then None else Some (last tks), ts') \<and>
     task_seq idf ts' (butlast tks)"
proof -
  from assms obtain xs where xs: "storage_ok idf ts xs" "index_complete idf ts xs"
    "tasks_at ts xs = tks" "distinct (map idf tks)" by (rule task_seqE)
  from removeLast_ok [OF xs(1)] xs(2-4) obtain t ts' xs' where
    "removeLast idf ts = Some (t, ts')" "storage_ok idf ts' xs'" "index_complete idf ts' xs'"
    "case rev tks of [] \<Rightarrow> t = None \<and> tasks_at ts' xs' = []
       | u # us \<Rightarrow> t = Some u \<and> tasks_at ts' xs' = rev us"
    by blast
  with xs(4) show ?thesis by (cases tks rule: rev_cases) (auto simp: task_seq_def)
qed

lemma DeleteFunc_seq:
  assumes "task_seq idf ts tks"
  shows "\<exists>ts'. DeleteFunc idf fn ts = Some ts' \<and> task_seq idf ts' (List.filter fn tks)"
proof -
  from assms obtain xs where xs: "storage_ok idf ts xs" "index_complete idf ts xs"
    "tasks_at ts xs = tks" "distinct (map idf tks)" by (rule task_seqE)
  from DeleteFunc_ok [OF xs(1), of fn] xs(2-4) show ?thesis
    unfolding task_seq_def using distinct_map_filter by blast
qed

lemma reads_seq:
  assumes "task_seq idf ts tks"
  shows "Length ts = length tks" and "GetSnapshot ts = Some tks"
    and "GetFirst ts = Some (if tks = [] then None else Some (hd tks))"
    and "GetLast ts = Some (if tks = [] then None else Some (last tks))"
    and "t \<in> set tks \<Longrightarrow> Get ts (idf t) = Some (Some t)"
proof -
  from assms obtain xs where xs: "storage_ok idf ts xs" "tasks_at ts xs = tks" by (rule task_seqE)
  show "Length ts = length tks" using storage_Length [OF xs(1)] xs(2) by auto
  show "GetSnapshot ts = Some tks" using GetSnapshot_ok [OF xs(1)] xs(2) by simp
  have len: "Len (items ts) 0 = length xs" using storage_Length [OF xs(1)] by (simp add: Length_def)
  show "GetFirst ts = Some (if tks = [] then None else Some (hd tks))"
  proof (cases xs)
    case (Cons x xs')
    with storage_val [OF xs(1), of x] obtain v where "val (items ts) x = Some v" by auto
    with Cons len storage_Front [OF xs(1)] xs(2) show ?thesis by (auto simp: GetFirst_def)
  qed (use len xs(2) in \<open>simp add: GetFirst_def\<close>)
  show "GetLast ts = Some (if tks = [] then None else Some (last tks))"
  proof (cases xs rule: rev_cases)
    case (snoc xs' x)
    with storage_val [OF xs(1), of x] obtain v where "val (items ts) x = Some v" by auto
    with snoc len storage_Back [OF xs(1)] xs(2) show ?thesis by (auto simp: GetLast_def)
  qed (use len xs(2) in \<open>simp add: GetLast_def\<close>)
  assume "t \<in> set tks"
  then obtain ys zs where "tks = ys @ t # zs" by (auto dest: split_list)
  with assms obtain ps e qs where "val (items ts) e = Some t" "idIndex ts (idf t) = Some (Some e)"
    by (auto elim!: task_seq_find)
  then show "Get ts (idf t) = Some (Some t)" by (simp add: Get_def)
qed

text \<open>
  What the queue relies on: a container \<open>rep\<close>resents a sequence of tasks with distinct ids and
  its operations are those of the sequence.
\<close>

locale task_sequence =
  fixes rep :: "'s \<Rightarrow> 'a list \<Rightarrow> bool" and idf :: "'a \<Rightarrow> string"
    and add_first :: "'s \<Rightarrow> 'a list \<Rightarrow> 's option" and add_last :: "'s \<Rightarrow> 'a list \<Rightarrow> 's option"
    and add_after :: "'s \<Rightarrow> string \<Rightarrow> 'a list \<Rightarrow> 's option"
    and remove_id :: "'s \<Rightarrow> string \<Rightarrow> ('a option \<times> 's) option"
  assumes rep_distinct: "rep s tks \<Longrightarrow> distinct (map idf tks)"
    and add_first_law: "rep s tks \<Longrightarrow> distinct (map idf (new @ tks)) \<Longrightarrow>
          \<exists>s'. add_first s new = Some s' \<and> rep s' (new @ tks)"
    and add_last_law: "rep s tks \<Longrightarrow> distinct (map idf (tks @ new)) \<Longrightarrow>
          \<exists>s'. add_last s new = Some s' \<and> rep s' (tks @ new)"
    and add_after_law: "rep s (ys @ t # zs) \<Longrightarrow> distinct (map idf (ys @ t # new @ zs)) \<Longrightarrow>
          \<exists>s'. add_after s (idf t) new = Some s' \<and> rep s' (ys @ t # new @ zs)"
    and remove_law: "rep s (ys @ t # zs) \<Longrightarrow>
          \<exists>s'. remove_id s (idf t) = Some (Some t, s') \<and> rep s' (ys @ zs)"
begin

text \<open>Replacing the task that was handled by the tasks its handler returned.\<close>

definition settle :: "'s \<Rightarrow> bool \<Rightarrow> 'a \<Rightarrow> 'a list \<Rightarrow> 'a list \<Rightarrow> 'a list \<Rightarrow> 's option" where
  "settle s done t hs as ls = do {
     s \<leftarrow> add_after s (idf t) as;
     s \<leftarrow> (if done then map_option snd (remove_id s (idf t)) else Some s);
     s \<leftarrow> add_first s hs;
     add_last s ls
   }"

lemma settle_seq:
  assumes rep: "rep s (ys @ t # zs)" and dist: "distinct (map idf (hs @ ys @ t # as @ zs @ ls))"
  shows "\<exists>s'. settle s done t hs as ls = Some s' \<and>
     rep s' (hs @ ys @ (if done then [] else [t]) @ as @ zs @ ls)"
proof -
  let ?mid = "ys @ (if done then [] else [t]) @ as @ zs"
  have d1: "distinct (map idf (ys @ t # as @ zs))" using dist by simp blast
  have d2: "distinct (map idf (hs @ ?mid))" using dist by simp blast
  have d3: "distinct (map idf ((hs @ ?mid) @ ls))" using dist by auto
  from add_after_law [OF rep d1] obtain s1 where
    s1: "add_after s (idf t) as = Some s1" "rep s1 (ys @ t # as @ zs)" by blast
  from remove_law [OF s1(2)] obtain s' where
    s': "remove_id s1 (idf t) = Some (Some t, s')" "rep s' (ys @ as @ zs)" by blast
  define s2 where "s2 = (if done then s' else s1)"
  have s2: "(if done then map_option snd (remove_id s1 (idf t)) else Some s1) = Some s2" "rep s2 ?mid"
    using s' s1(2) by (simp_all add: s2_def)
  from add_first_law [OF s2(2) d2] obtain s3 where
    s3: "add_first s2 hs = Some s3" "rep s3 (hs @ ?mid)" by blast
  from add_last_law [OF s3(2) d3] obtain s4 where
    s4: "add_last s3 ls = Some s4" "rep s4 ((hs @ ?mid) @ ls)" by blast
  from s1(1) s2(1) s3(1) s4 show ?thesis by (simp add: settle_def)
qed

lemma first_in_first_out:
  assumes "rep s []" and "distinct (map idf (t # ts))" and "add_last s (t # ts) = Some s1"
  shows "\<exists>s2. remove_id s1 (idf t) = Some (Some t, s2) \<and> rep s2 ts"
proof -
  have "rep s1 ([] @ t # ts)" using add_last_law [OF assms(1), of "t # ts"] assms(2,3) by auto
  from remove_law [OF this] show ?thesis by simp
qed

end

interpretation storage: task_sequence "task_seq idf" idf "addFirst idf" "addLast idf" "addAfter idf" remove
  for idf :: "'a \<Rightarrow> string"
  by unfold_locales
    (simp add: task_seq_def, erule (1) addFirst_seq, erule (1) addLast_seq,
      erule (1) addAfter_seq, erule remove_seq)

lemma ProcessResult_settle:
  "ProcessResult idf ts res t = storage.settle idf ts (Status res = Success) t
     (headTasks res) (afterTasks res) (tailTasks res)"
  by (simp add: ProcessResult_def storage.settle_def)

section \<open>Every storage the program can build\<close>

text \<open>
  One step is one public method. The tasks are arbitrary: ids may clash, a task may be stored
  twice, an element may be removed that is not in the list any more.
\<close>

inductive storage_step :: "('a \<Rightarrow> string) \<Rightarrow> 'a task_storage \<Rightarrow> 'a task_storage \<Rightarrow> bool"
  for idf :: "'a \<Rightarrow> string" where
  "addFirst idf ts new = Some ts' \<Longrightarrow> storage_step idf ts ts'"
| "addLast idf ts new = Some ts' \<Longrightarrow> storage_step idf ts ts'"
| "addAfter idf ts k new = Some ts' \<Longrightarrow> storage_step idf ts ts'"
| "addBefore idf ts k t = Some ts' \<Longrightarrow> storage_step idf ts ts'"
| "removeFirst idf ts = Some (r, ts') \<Longrightarrow> storage_step idf ts ts'"
| "removeLast idf ts = Some (r, ts') \<Longrightarrow> storage_step idf ts ts'"
| "remove ts k = Some (r, ts') \<Longrightarrow> storage_step idf ts ts'"
| "Iterate ts = Some es \<Longrightarrow> e \<in> set es \<Longrightarrow> removeElement idf ts e = Some (t, ts') \<Longrightarrow> storage_step idf ts ts'"
| "DeleteFunc idf fn ts = Some ts' \<Longrightarrow> storage_step idf ts ts'"
| "ProcessResult idf ts res t = Some ts' \<Longrightarrow> storage_step idf ts ts'"

abbreviation storage_reach :: "('a \<Rightarrow> string) \<Rightarrow> 'a task_storage \<Rightarrow> bool" where
  "storage_reach idf ts \<equiv> (storage_step idf)\<^sup>*\<^sup>* newTaskStorage ts"

definition well_stored :: "('a \<Rightarrow> string) \<Rightarrow> 'a task_storage \<Rightarrow> bool" where
  "well_stored idf ts \<longleftrightarrow> (\<exists>xs. storage_ok idf ts xs)"

lemma index_cases:
  assumes "storage_ok idf ts xs"
  obtains "idIndex ts k = None" | ys e zs where "xs = ys @ e # zs" "idIndex ts k = Some (Some e)"
  using assms storage_ok_index [OF assms, of k] by (metis option.exhaust split_list)

lemma well_stored_ops:
  assumes "well_stored idf ts"
  shows "\<exists>ts'. addFirst idf ts new = Some ts' \<and> well_stored idf ts'"
    and "\<exists>ts'. addLast idf ts new = Some ts' \<and> well_stored idf ts'"
    and "\<exists>ts'. addAfter idf ts k new = Some ts' \<and> well_stored idf ts'"
    and "\<exists>ts'. addBefore idf ts k t = Some ts' \<and> well_stored idf ts'"
    and "\<exists>r ts'. removeFirst idf ts = Some (r, ts') \<and> well_stored idf ts'"
    and "\<exists>r ts'. removeLast idf ts = Some (r, ts') \<and> well_stored idf ts'"
    and "\<exists>r ts'. remove ts k = Some (r, ts') \<and> well_stored idf ts'"
    and "\<exists>ts'. DeleteFunc idf fn ts = Some ts' \<and> well_stored idf ts'"
    and "\<exists>es. Iterate ts = Some es \<and>
           (\<forall>e \<in> set es. \<exists>t ts'. removeElement idf ts e = Some (t, ts') \<and> well_stored idf ts')"
    and "GetSnapshot ts \<noteq> None"
proof -
  from assms obtain xs where ok: "storage_ok idf ts xs" by (auto simp: well_stored_def)
  show "\<exists>ts'. addFirst idf ts new = Some ts' \<and> well_stored idf ts'"
    using addFirst_ok [OF ok, of new] unfolding well_stored_def by blast
  show "\<exists>ts'. addLast idf ts new = Some ts' \<and> well_stored idf ts'"
    using addLast_ok [OF ok, of new] unfolding well_stored_def by blast
  show "\<exists>r ts'. removeFirst idf ts = Some (r, ts') \<and> well_stored idf ts'"
    using removeFirst_ok [OF ok] unfolding well_stored_def by blast
  show "\<exists>r ts'. removeLast idf ts = Some (r, ts') \<and> well_stored idf ts'"
    using removeLast_ok [OF ok] unfolding well_stored_def by blast
  show "\<exists>ts'. DeleteFunc idf fn ts = Some ts' \<and> well_stored idf ts'"
    using DeleteFunc_ok [OF ok, of fn] unfolding well_stored_def by blast
  show "GetSnapshot ts \<noteq> None" using GetSnapshot_ok [OF ok] by simp
  have "\<exists>t ts'. removeElement idf ts e = Some (t, ts') \<and> well_stored idf ts'" if "e \<in> set xs" for e
  proof -
    from that obtain ys zs where "xs = ys @ e # zs" by (auto dest: split_list)
    with removeElement_at [of idf ts ys e zs] ok show ?thesis unfolding well_stored_def by blast
  qed
  then show "\<exists>es. Iterate ts = Some es \<and>
      (\<forall>e \<in> set es. \<exists>t ts'. removeElement idf ts e = Some (t, ts') \<and> well_stored idf ts')"
    using Iterate_ok [OF ok] by blast
  have "(\<exists>ts'. addAfter idf ts k new = Some ts' \<and> well_stored idf ts') \<and>
      (\<exists>ts'. addBefore idf ts k t = Some ts' \<and> well_stored idf ts') \<and>
      (\<exists>r ts'. remove ts k = Some (r, ts') \<and> well_stored idf ts')"
    using ok
  proof (rule index_cases [of _ _ _ k])
    assume "idIndex ts k = None"
    then show ?thesis using assms by (simp add: addAfter_def addBefore_def remove_def)
  next
    fix ys e zs assume e: "xs = ys @ e # zs" "idIndex ts k = Some (Some e)"
    with ok have ok': "storage_ok idf ts (ys @ e # zs)" by simp
    show ?thesis
      using addAfter_at [OF ok' e(2), of new] addBefore_at [OF ok' e(2), of t] remove_at [OF ok' e(2)]
      unfolding well_stored_def by blast
  qed
  then show "\<exists>ts'. addAfter idf ts k new = Some ts' \<and> well_stored idf ts'"
    and "\<exists>ts'. addBefore idf ts k t = Some ts' \<and> well_stored idf ts'"
    and "\<exists>r ts'. remove ts k = Some (r, ts') \<and> well_stored idf ts'" by blast+
qed

lemma well_stored_ProcessResult:
  assumes "well_stored idf ts"
  shows "\<exists>ts'. ProcessResult idf ts res t = Some ts' \<and> well_stored idf ts'"
proof -
  from well_stored_ops(3) [OF assms, of "idf t" "afterTasks res"] obtain s1 where
    s1: "addAfter idf ts (idf t) (afterTasks res) = Some s1" "well_stored idf s1" by blast
  from well_stored_ops(7) [OF s1(2), of "idf t"] obtain r s' where
    s': "remove s1 (idf t) = Some (r, s')" "well_stored idf s'" by blast
  define s2 where "s2 = (if Status res = Success then s' else s1)"
  have s2: "well_stored idf s2" using s1(2) s'(2) by (simp add: s2_def)
  from well_stored_ops(1) [OF s2, of "headTasks res"] obtain s3 where
    s3: "addFirst idf s2 (headTasks res) = Some s3" "well_stored idf s3" by blast
  from well_stored_ops(2) [OF s3(2), of "tailTasks res"] obtain s4 where
    s4: "addLast idf s3 (tailTasks res) = Some s4" "well_stored idf s4" by blast
  from s1(1) s'(1) s3(1) s4 show ?thesis by (simp add: ProcessResult_def s2_def split: if_splits)
qed

lemma storage_step_well_stored:
  "storage_step idf ts ts' \<Longrightarrow> well_stored idf ts \<Longrightarrow> well_stored idf ts'"
proof (induction rule: storage_step.induct)
  case (1 ts new ts')
  then show ?case using well_stored_ops(1) [of idf ts new] by auto
next
  case (2 ts new ts')
  then show ?case using well_stored_ops(2) [of idf ts new] by auto
next
  case (3 ts k new ts')
  then show ?case using well_stored_ops(3) [of idf ts k new] by auto
next
  case (4 ts k t ts')
  then show ?case using well_stored_ops(4) [of idf ts k t] by auto
next
  case (5 ts r ts')
  then show ?case using well_stored_ops(5) [of idf ts] by auto
next
  case (6 ts r ts')
  then show ?case using well_stored_ops(6) [of idf ts] by auto
next
  case (7 ts k r ts')
  then show ?case using well_stored_ops(7) [of idf ts k] by auto
next
  case (8 ts es e t ts')
  then show ?case using well_stored_ops(9) [of idf ts] by auto
next
  case (9 fn ts ts')
  then show ?case using well_stored_ops(8) [of idf ts fn] by auto
next
  case (10 ts res t ts')
  then show ?case using well_stored_ProcessResult [of idf ts res t] by auto
qed

lemma storage_reach_well_stored: "storage_reach idf ts \<Longrightarrow> well_stored idf ts"
proof (induction rule: rtranclp_induct)
  case base
  show ?case using storage_ok_new(1) by (auto simp: well_stored_def)
qed (rule storage_step_well_stored)

section \<open>Properties\<close>



text \<open>
  C3. Settling a handled task: the tasks returned for right after it take its place (on
  Success) or follow it (on Keep), the head tasks come first, the tail tasks last, each group
  in its own order, nothing else moves, and the index stays exact.
\<close>

theorem ProcessResult_sequence:
  assumes "task_seq idf ts (ys @ t # zs)"
    and "distinct (map idf (headTasks res @ ys @ t # afterTasks res @ zs @ tailTasks res))"
  shows "\<exists>ts'. ProcessResult idf ts res t = Some ts' \<and>
     task_seq idf ts' (headTasks res @ ys @ (if Status res = Success then [] else [t]) @
       afterTasks res @ zs @ tailTasks res)"
  using storage.settle_seq [OF assms] by (simp add: ProcessResult_settle)

theorem ProcessResult_sequence_witness:
  "\<exists>ts ts'. addLast (\<lambda>x. x) newTaskStorage [''t'', ''z''] = Some ts \<and>
     ProcessResult (\<lambda>x. x) ts (AddTailTasks (AddAfterTasks (AddHeadTasks (empty_result Success)
       [''h1'', ''h2'']) [''a1'', ''a2'']) [''l'']) ''t'' = Some ts' \<and>
     GetSnapshot ts' = Some [''h1'', ''h2'', ''a1'', ''a2'', ''z'', ''l'']"
proof -
  let ?res = "AddTailTasks (AddAfterTasks (AddHeadTasks (empty_result Success)
       [''h1'', ''h2'']) [''a1'', ''a2'']) [''l'']"
  obtain ts where ts: "addLast (\<lambda>x. x) newTaskStorage [''t'', ''z''] = Some ts"
      "task_seq (\<lambda>x. x) ts ([] @ ''t'' # [''z''])"
    using storage.add_last_law [OF task_seq_new, of "\<lambda>x. x" "[''t'', ''z'']"] by auto
  from ProcessResult_sequence [OF ts(2), of ?res] obtain ts' where
    "ProcessResult (\<lambda>x. x) ts ?res ''t'' = Some ts'"
    "task_seq (\<lambda>x. x) ts' [''h1'', ''h2'', ''a1'', ''a2'', ''z'', ''l'']"
    by (auto simp: AddHeadTasks_def AddAfterTasks_def AddTailTasks_def empty_result_def)
  with ts(1) reads_seq(2) show ?thesis by blast
qed

text \<open>
  C19. The storage refines a sequence of tasks: with distinct ids, reading by position, by id and
  in a snapshot shows the sequence, the first and last removals are those of the sequence, and
  operations naming an id that is not stored change nothing.
\<close>

theorem storage_refines_sequence:
  assumes "task_seq idf ts tks"
  shows "Length ts = length tks \<and> GetSnapshot ts = Some tks \<and>
     GetFirst ts = Some (if tks = [] then None else Some (hd tks)) \<and>
     GetLast ts = Some (if tks = [] then None else Some (last tks)) \<and>
     (\<forall>k. Get ts k = Some (find (\<lambda>t. idf t = k) tks)) \<and>
     (\<exists>ts'. removeFirst idf ts = Some (if tks = [] then None else Some (hd tks), ts') \<and>
        task_seq idf ts' (tl tks)) \<and>
     (\<exists>ts'. removeLast idf ts = Some (if tks = [] then None else Some (last tks), ts') \<and>
        task_seq idf ts' (butlast tks)) \<and>
     (\<exists>ts'. DeleteFunc idf fn ts = Some ts' \<and> task_seq idf ts' (List.filter fn tks)) \<and>
     (k \<notin> idf ` set tks \<longrightarrow> addAfter idf ts k new = Some ts \<and> remove ts k = Some (None, ts))"
proof -
  have "Get ts k = Some (find (\<lambda>t. idf t = k) tks)" for k
  proof (cases "find (\<lambda>t. idf t = k) tks")
    case None
    then have "k \<notin> idf ` set tks" by (auto simp: find_None_iff)
    with None absent_noop(4) [OF assms] show ?thesis by simp
  next
    case (Some t)
    then have "t \<in> set tks" "idf t = k" by (auto simp: find_Some_iff)
    with Some reads_seq(5) [OF assms, of t] show ?thesis by simp
  qed
  with reads_seq [OF assms] removeFirst_seq [OF assms] removeLast_seq [OF assms]
    DeleteFunc_seq [OF assms, of fn] absent_noop(1,3) [OF assms, of k]
  show ?thesis by simp
qed

theorem storage_refines_sequence_witness:
  "\<exists>ts. addLast (\<lambda>x. x) newTaskStorage [''a'', ''b''] = Some ts \<and> Get ts ''b'' = Some (Some ''b'') \<and>
     GetFirst ts = Some (Some ''a'') \<and> Get ts ''c'' = Some None"
proof -
  obtain ts where ts: "addLast (\<lambda>x. x) newTaskStorage [''a'', ''b''] = Some ts"
      "task_seq (\<lambda>x. x) ts [''a'', ''b'']"
    using storage.add_last_law [OF task_seq_new, of "\<lambda>x. x" "[''a'', ''b'']"] by auto
  with storage_refines_sequence [OF ts(2)] show ?thesis by simp
qed

end
