(* ===== verification/Task_Counter.thy ===== *)
theory Task_Counter
  imports Task_Model
begin

text \<open>
  \<open>pkg/task/queue/task_counter.go\<close>: how many tasks of each compaction id a queue holds, and which
  ids have reached the compaction threshold. Counters are Go's \<open>uint\<close>, 64-bit words.
  The gauge metrics are the list of labelled values they are set to.
\<close>

definition compactionThreshold :: nat where "compactionThreshold = 100"

definition compactionMetricsThreshold :: nat where "compactionMetricsThreshold = 20"

record TaskCounter =
  tc_queueName :: string
  counter :: "string \<rightharpoonup> 64 word"
  reachedCap :: "string set"
  countableTypes :: "TaskType set"

text \<open>A nil metric storage panics.\<close>

definition NewTaskCounter :: "string \<Rightarrow> TaskType set \<Rightarrow> bool \<Rightarrow> TaskCounter option" where
  "NewTaskCounter name types hasMetricStorage =
     (if \<not> hasMetricStorage then None
      else Some \<lparr>tc_queueName = name, counter = Map.empty, reachedCap = {}, countableTypes = types\<rparr>)"

definition countable :: "TaskCounter \<Rightarrow> 'md BaseTask \<Rightarrow> bool" where
  "countable tc t \<longleftrightarrow> countableTypes tc = {} \<or> task_Type t \<in> countableTypes tc"

definition counter_Add :: "TaskCounter \<Rightarrow> 'md BaseTask \<Rightarrow> TaskCounter" where
  "counter_Add tc t =
     (if \<not> countable tc t then tc
      else
        (let cid = compactionID t;
             n = (case counter tc cid of Some n \<Rightarrow> n | None \<Rightarrow> 0) + 1;
             tc = tc\<lparr>counter := (counter tc)(cid \<mapsto> n)\<rparr> in
         if n = of_nat compactionThreshold then tc\<lparr>reachedCap := insert cid (reachedCap tc)\<rparr> else tc))"

definition counter_Remove :: "TaskCounter \<Rightarrow> 'md BaseTask \<Rightarrow> TaskCounter" where
  "counter_Remove tc t =
     (if \<not> countable tc t then tc
      else
        (let cid = compactionID t in
         case counter tc cid of
           None \<Rightarrow> tc\<lparr>reachedCap := reachedCap tc - {cid}\<rparr>
         | Some n \<Rightarrow>
             if n = 0 then tc\<lparr>counter := (counter tc)(cid := None), reachedCap := reachedCap tc - {cid}\<rparr>
             else
               (let n = n - 1;
                    tc = tc\<lparr>counter := (counter tc)(cid := if n = 0 then None else Some n)\<rparr> in
                if n < of_nat compactionThreshold then tc\<lparr>reachedCap := reachedCap tc - {cid}\<rparr> else tc)))"

definition GetReachedCap :: "TaskCounter \<Rightarrow> string set" where
  "GetReachedCap tc = reachedCap tc"

definition IsAnyCapReached :: "TaskCounter \<Rightarrow> bool" where
  "IsAnyCapReached tc \<longleftrightarrow> reachedCap tc \<noteq> {}"

definition ResetReachedCap :: "TaskCounter \<Rightarrow> TaskCounter" where
  "ResetReachedCap tc = tc\<lparr>reachedCap := {}\<rparr>"

definition UpdateHookMetricsFromSnapshot :: "TaskCounter \<Rightarrow> (string \<times> 64 word) list \<Rightarrow>
    (string \<times> string \<times> 64 word) list" where
  "UpdateHookMetricsFromSnapshot tc hookCounts =
     map (\<lambda>(hook, n). (tc_queueName tc, hook, n))
       (List.filter (\<lambda>(hook, n). n > of_nat compactionMetricsThreshold) hookCounts)"

section \<open>The counter counts\<close>

text \<open>\<open>counts tc f\<close>: the counter of every id is \<open>f\<close>, and ids past the threshold are justified.\<close>

definition counts :: "TaskCounter \<Rightarrow> (string \<Rightarrow> nat) \<Rightarrow> bool" where
  "counts tc f \<longleftrightarrow> (\<forall>k. f k < 2 ^ 64 \<and> counter tc k = (if f k = 0 then None else Some (of_nat (f k)))) \<and>
     (\<forall>k \<in> reachedCap tc. compactionThreshold \<le> f k)"

lemma of_nat_word_eq: "(a::nat) < 2 ^ 64 \<Longrightarrow> b < 2 ^ 64 \<Longrightarrow> (of_nat a = (of_nat b :: 64 word)) = (a = b)"
  by (auto simp: word_unat_eq_iff unsigned_of_nat take_bit_nat_eq_self)

lemma of_nat_word_less: "(a::nat) < 2 ^ 64 \<Longrightarrow> b < 2 ^ 64 \<Longrightarrow> (of_nat a < (of_nat b :: 64 word)) = (a < b)"
  by (simp add: word_less_nat_alt unsigned_of_nat take_bit_nat_eq_self)

lemma threshold_word: "compactionThreshold < 2 ^ 64"
  by (simp add: compactionThreshold_def)

lemma counts_new: "NewTaskCounter name types True = Some tc \<Longrightarrow> counts tc (\<lambda>_. 0)"
  by (auto simp: NewTaskCounter_def counts_def)

lemma counts_Add:
  assumes c: "counts tc f" and t: "countable tc t" and b: "f (compactionID t) + 1 < 2 ^ 64"
  shows "counts (counter_Add tc t) (f(compactionID t := f (compactionID t) + 1))"
    and "compactionID t \<in> reachedCap (counter_Add tc t) \<longleftrightarrow>
      compactionID t \<in> reachedCap tc \<or> f (compactionID t) + 1 = compactionThreshold"
proof -
  let ?k = "compactionID t"
  have n: "(case counter tc ?k of Some n \<Rightarrow> n | None \<Rightarrow> 0) + 1 = (of_nat (f ?k + 1) :: 64 word)"
    using c by (simp add: counts_def)
  have cap: "(of_nat (f ?k + 1) = (of_nat compactionThreshold :: 64 word)) = (f ?k + 1 = compactionThreshold)"
    by (rule of_nat_word_eq [OF b threshold_word])
  have add: "counter_Add tc t = tc\<lparr>counter := (counter tc)(?k \<mapsto> of_nat (f ?k + 1)),
      reachedCap := (if f ?k + 1 = compactionThreshold then insert ?k (reachedCap tc) else reachedCap tc)\<rparr>"
    using t unfolding counter_Add_def Let_def n cap by (simp del: of_nat_Suc of_nat_add)
  show "counts (counter_Add tc t) (f(?k := f ?k + 1))"
    using c b unfolding add counts_def by auto
  show "?k \<in> reachedCap (counter_Add tc t) \<longleftrightarrow> ?k \<in> reachedCap tc \<or> f ?k + 1 = compactionThreshold"
    unfolding add by simp
qed

lemma counts_Remove:
  assumes c: "counts tc f" and t: "countable tc t"
  shows "counts (counter_Remove tc t) (f(compactionID t := f (compactionID t) - 1))"
proof (cases "f (compactionID t)")
  case 0
  with c t show ?thesis by (auto simp: counts_def counter_Remove_def Let_def)
next
  case (Suc n)
  let ?k = "compactionID t"
  have b: "Suc n < 2 ^ 64" using c Suc by (metis counts_def)
  have look: "counter tc ?k = Some (of_nat (Suc n))" using c Suc by (simp add: counts_def)
  have nz: "(of_nat (Suc n) :: 64 word) \<noteq> 0" using of_nat_word_eq [OF b, of 0] by simp
  have dec: "(of_nat (Suc n) :: 64 word) - 1 = of_nat n" by simp
  have z: "((of_nat n :: 64 word) = 0) = (n = 0)" using of_nat_word_eq [of n 0] b by simp
  have lt: "((of_nat n :: 64 word) < of_nat compactionThreshold) = (n < compactionThreshold)"
    using of_nat_word_less [OF _ threshold_word, of n] b by simp
  have rem: "counter_Remove tc t = tc\<lparr>counter := (counter tc)(?k := if n = 0 then None else Some (of_nat n)),
      reachedCap := (if n < compactionThreshold then reachedCap tc - {?k} else reachedCap tc)\<rparr>"
    using t look nz unfolding counter_Remove_def Let_def dec by (simp add: z lt)
  show ?thesis using c b Suc unfolding rem counts_def by auto
qed

lemma counts_unique: "counts tc f \<Longrightarrow> counts tc g \<Longrightarrow> f = g"
proof
  fix k assume a: "counts tc f" "counts tc g"
  then have "f k < 2 ^ 64" "g k < 2 ^ 64"
    "(if f k = 0 then None else Some (of_nat (f k) :: 64 word)) = (if g k = 0 then None else Some (of_nat (g k)))"
    by (simp_all add: counts_def)
  then show "f k = g k" using of_nat_word_eq [of "f k" "g k"] by (auto split: if_splits)
qed

end
