(* ===== verification/Task_Queue.thy ===== *)
theory Task_Queue
  imports Task_Storage Task_Counter Backoff
begin

text \<open>
  \<open>pkg/task/queue/task_queue.go\<close> and \<open>queue_status_type.go\<close>: a queue of tasks, its compaction and
  its worker.

  Tasks are objects: the queue stores references (\<open>taskref\<close>) and the world maps a reference to the
  task it stands for. Binding contexts and monitor ids of hook tasks are slices over the two array
  stores of the world, so that the reuse of arrays through \<open>sync.Pool\<close> is visible. What the
  language leaves open is a \<open>runtime\<close>: how \<open>append\<close> grows, which pooled slice a pool hands out
  (\<open>None\<close>: none, the pool makes a new one), the order in which a map is visited, and the random
  part of the backoff. The pooled \<open>compactionGroup\<close> objects are never shared between two users
  and are plain values here. Logging and metrics are left out.

  \<open>None\<close> is a panic.
\<close>

type_synonym taskref = nat
type_synonym qtask = "(slice, slice) HookMetadata BaseTask"

section \<open>Status\<close>

datatype QueueStatusType =
    QueueStatusUnknown | QueueStatusIdle | QueueStatusNoHandlerSet | QueueStatusRunningTask
  | QueueStatusStop | QueueStatusRepeatTask | QueueStatusSleeping | QueueStatusWaiting

fun QueueStatusType_String :: "QueueStatusType \<Rightarrow> string" where
  "QueueStatusType_String QueueStatusIdle = []"
| "QueueStatusType_String QueueStatusNoHandlerSet = ''no handler set''"
| "QueueStatusType_String QueueStatusRunningTask = ''run first task''"
| "QueueStatusType_String QueueStatusStop = ''stop''"
| "QueueStatusType_String QueueStatusRepeatTask = ''repeat head task''"
| "QueueStatusType_String QueueStatusSleeping = ''sleeping''"
| "QueueStatusType_String QueueStatusWaiting = ''waiting for task''"
| "QueueStatusType_String QueueStatusUnknown = ''unknown''"

record TaskQueueStatus =
  statusType :: QueueStatusType
  customText :: string

definition NewTaskQueueStatus :: TaskQueueStatus where
  "NewTaskQueueStatus = \<lparr>statusType = QueueStatusIdle, customText = []\<rparr>"

definition status_Get :: "TaskQueueStatus \<Rightarrow> string" where
  "status_Get s = (if customText s \<noteq> [] then customText s else QueueStatusType_String (statusType s))"

definition status_Set :: "QueueStatusType \<Rightarrow> TaskQueueStatus \<Rightarrow> TaskQueueStatus" where
  "status_Set st s = s\<lparr>statusType := st, customText := []\<rparr>"

definition status_SetText :: "string \<Rightarrow> TaskQueueStatus \<Rightarrow> TaskQueueStatus" where
  "status_SetText text s = s\<lparr>statusType := QueueStatusSleeping, customText := text\<rparr>"

definition status_SetWithText :: "QueueStatusType \<Rightarrow> string \<Rightarrow> TaskQueueStatus \<Rightarrow> TaskQueueStatus" where
  "status_SetWithText st text s = s\<lparr>statusType := st, customText := text\<rparr>"

definition status_Snapshot :: "TaskQueueStatus \<Rightarrow> QueueStatusType \<times> string" where
  "status_Snapshot s = (statusType s, customText s)"

definition status_Restore :: "QueueStatusType \<times> string \<Rightarrow> TaskQueueStatus \<Rightarrow> TaskQueueStatus" where
  "status_Restore snap s = s\<lparr>statusType := fst snap, customText := snd snap\<rparr>"

section \<open>World, runtime and queue\<close>

record qworld =
  tasks :: "taskref \<Rightarrow> qtask"
  ctxs :: "BindingContext store"
  mons :: "string store"
  ctxPool :: "slice list"
  monPool :: "slice list"

record qruntime =
  rt_grow :: "nat \<Rightarrow> nat \<Rightarrow> nat"
  rt_ctxPick :: "slice list \<Rightarrow> nat option"
  rt_monPick :: "slice list \<Rightarrow> nat option"
  rt_range :: "string list \<Rightarrow> string list"
  rt_backoff :: "nat \<Rightarrow> duration"

record TaskQueue =
  q_Name :: string
  storage :: "taskref task_storage"
  queueTasksCounter :: TaskCounter
  compactableTypes :: "TaskType set"
  status :: TaskQueueStatus
  waitInProgress :: bool
  cancelDelay :: bool
  q_started :: bool
  hasHandler :: bool
  hasContext :: bool
  ctxDone :: bool
  WaitLoopCheckInterval :: duration
  DelayOnQueueIsEmpty :: duration
  DelayOnRepeat :: duration

definition GetId :: "qworld \<Rightarrow> taskref \<Rightarrow> string" where
  "GetId w r = task_Id (tasks w r)"

definition upd_task :: "taskref \<Rightarrow> (qtask \<Rightarrow> qtask) \<Rightarrow> qworld \<Rightarrow> qworld" where
  "upd_task r f w = w\<lparr>tasks := (tasks w)(r := f (tasks w r))\<rparr>"

text \<open>
  The options of \<open>NewTasksQueue\<close> that matter to the model. \<open>WithContext\<close> and \<open>WithHandler\<close> set
  flags; the counter is made after the options, with the compactable types they left.
\<close>

datatype TaskQueueOption = WithContext | WithHandler | WithCompactableTypes "TaskType list"

fun apply_option :: "TaskQueueOption \<Rightarrow> TaskQueue \<Rightarrow> TaskQueue" where
  "apply_option WithContext q = q\<lparr>hasContext := True\<rparr>"
| "apply_option WithHandler q = q\<lparr>hasHandler := True\<rparr>"
| "apply_option (WithCompactableTypes ts) q = q\<lparr>compactableTypes := set ts\<rparr>"

definition NewTasksQueue :: "string \<Rightarrow> bool \<Rightarrow> TaskQueueOption list \<Rightarrow> TaskQueue option" where
  "NewTasksQueue name hasMetricStorage opts =
     (let q = \<lparr>q_Name = name, storage = newTaskStorage,
                queueTasksCounter = \<lparr>tc_queueName = [], counter = Map.empty, reachedCap = {}, countableTypes = {}\<rparr>,
                compactableTypes = {}, status = NewTaskQueueStatus, waitInProgress = False,
                cancelDelay = False, q_started = False, hasHandler = False, hasContext = False,
                ctxDone = False, WaitLoopCheckInterval = 125 * Millisecond,
                DelayOnQueueIsEmpty = 250 * Millisecond, DelayOnRepeat = 25 * Millisecond\<rparr>;
          q = fold apply_option opts q in
      do {
        tc \<leftarrow> NewTaskCounter (q_Name q) (compactableTypes q) hasMetricStorage;
        Some (q\<lparr>queueTasksCounter := tc\<rparr>)
      })"

section \<open>Pools of slices\<close>

fun pool_get :: "(slice list \<Rightarrow> nat option) \<Rightarrow> slice list \<Rightarrow> (slice \<times> slice list) option" where
  "pool_get pick pool =
     (case pick pool of
        Some i \<Rightarrow> if i < length pool then Some (pool ! i, take i pool @ drop (Suc i) pool) else None
      | None \<Rightarrow> None)"

definition getContextSlice :: "qruntime \<Rightarrow> qworld \<Rightarrow> slice \<times> qworld" where
  "getContextSlice rt w =
     (case pool_get (rt_ctxPick rt) (ctxPool w) of
        Some (s, pool) \<Rightarrow> (s, w\<lparr>ctxPool := pool\<rparr>)
      | None \<Rightarrow> (let (s, st) = slice_make (ctxs w) 64 in (s, w\<lparr>ctxs := st\<rparr>)))"

definition putContextSlice :: "slice \<Rightarrow> qworld \<Rightarrow> qworld" where
  "putContextSlice s w = w\<lparr>ctxPool := slice_reset s # ctxPool w\<rparr>"

definition getMonitorIDSlice :: "qruntime \<Rightarrow> qworld \<Rightarrow> slice \<times> qworld" where
  "getMonitorIDSlice rt w =
     (case pool_get (rt_monPick rt) (monPool w) of
        Some (s, pool) \<Rightarrow> (s, w\<lparr>monPool := pool\<rparr>)
      | None \<Rightarrow> (let (s, st) = slice_make (mons w) 64 in (s, w\<lparr>mons := st\<rparr>)))"

definition putMonitorIDSlice :: "slice \<Rightarrow> qworld \<Rightarrow> qworld" where
  "putMonitorIDSlice s w = w\<lparr>monPool := slice_reset s # monPool w\<rparr>"

section \<open>Compaction\<close>

text \<open>The groups named in a list of contexts, each once, in order of first occurrence.\<close>

definition group_names :: "BindingContext list \<Rightarrow> string list" where
  "group_names bcs = remdups (List.filter (\<lambda>g. g \<noteq> []) (map bc_Group bcs))"

text \<open>
  \<open>compactBindingContexts\<close> on the contents: the result for at least two contexts of which one is
  grouped. \<open>visit\<close> is the order in which the map \<open>lastIndexForGroup\<close> is visited.
\<close>

definition compact_contexts :: "(string list \<Rightarrow> string list) \<Rightarrow> BindingContext list \<Rightarrow> BindingContext list" where
  "compact_contexts visit bcs =
     List.filter (\<lambda>bc. bc_Group bc = []) bcs @
     map (\<lambda>g. last (List.filter (\<lambda>bc. bc_Group bc = g) bcs)) (visit (group_names bcs))"

text \<open>With fewer than two contexts, or without groups, the argument slice itself is returned.\<close>

definition compactBindingContexts :: "qruntime \<Rightarrow> qworld \<Rightarrow> slice \<Rightarrow> slice \<times> qworld" where
  "compactBindingContexts rt w combined =
     (let bcs = slice_vals (ctxs w) combined in
      if length bcs < 2 then (combined, w)
      else if list_all (\<lambda>bc. bc_Group bc = []) bcs then (combined, w)
      else (let (s, st) = slice_of_list (ctxs w) (compact_contexts (rt_range rt) bcs) in
            (s, w\<lparr>ctxs := st\<rparr>)))"

record compactionGroup =
  targetElement :: ptr
  elementsToMerge :: "ptr list"
  totalContexts :: nat
  totalMonitorIDs :: nat

text \<open>First pass: which hook, if any, an element is compacted for.\<close>

definition compactable_meta :: "TaskQueue \<Rightarrow> string set \<Rightarrow> qtask \<Rightarrow> (slice, slice) HookMetadata option" where
  "compactable_meta q cids t =
     (if task_Type t \<notin> compactableTypes q then None
      else if cids \<noteq> {} \<and> compactionID t \<notin> cids then None
      else if processing t then None
      else HookMetadataAccessor (Metadata t))"

fun add_to_groups :: "ptr \<Rightarrow> (slice, slice) HookMetadata \<Rightarrow> (string \<times> compactionGroup) list \<Rightarrow>
    (string \<times> compactionGroup) list" where
  "add_to_groups e m [] =
     [(HookName m, \<lparr>targetElement = e, elementsToMerge = [],
        totalContexts = s_len (hm_BindingContext m), totalMonitorIDs = s_len (MonitorIDs m)\<rparr>)]"
| "add_to_groups e m ((h, g) # gs) =
     (if h = HookName m
      then (h, g\<lparr>elementsToMerge := elementsToMerge g @ [e],
                 totalContexts := totalContexts g + s_len (hm_BindingContext m),
                 totalMonitorIDs := totalMonitorIDs g + s_len (MonitorIDs m)\<rparr>) # gs
      else (h, g) # add_to_groups e m gs)"

fun group_elements :: "qworld \<Rightarrow> TaskQueue \<Rightarrow> string set \<Rightarrow> ptr list \<Rightarrow>
    (string \<times> compactionGroup) list \<Rightarrow> (string \<times> compactionGroup) list option" where
  "group_elements w q cids [] groups = Some groups"
| "group_elements w q cids (e # es) groups = do {
     r \<leftarrow> val (items (storage q)) e;
     group_elements w q cids es
       (case compactable_meta q cids (tasks w r) of
          None \<Rightarrow> groups
        | Some m \<Rightarrow> add_to_groups e m groups)
   }"

text \<open>Second pass, the loop over \<open>elementsToMerge\<close>.\<close>

fun merge_elements :: "qruntime \<Rightarrow> ptr list \<Rightarrow> slice \<Rightarrow> slice \<Rightarrow> qworld \<Rightarrow> TaskQueue \<Rightarrow>
    (slice \<times> slice \<times> qworld \<times> TaskQueue) option" where
  "merge_elements rt [] cs ms w q = Some (cs, ms, w, q)"
| "merge_elements rt (e # es) cs ms w q = do {
     r \<leftarrow> val (items (storage q)) e;
     case HookMetadataAccessor (Metadata (tasks w r)) of
       None \<Rightarrow> merge_elements rt es cs ms w q
     | Some m \<Rightarrow> do {
         let (cs, st) = slice_append (rt_grow rt) (ctxs w) cs (slice_vals (ctxs w) (hm_BindingContext m));
         let w = w\<lparr>ctxs := st\<rparr>;
         let (ms, st) = slice_append (rt_grow rt) (mons w) ms (slice_vals (mons w) (MonitorIDs m));
         let w = w\<lparr>mons := st\<rparr>;
         (_, ts) \<leftarrow> removeElement (GetId w) (storage q) e;
         merge_elements rt es cs ms w
           (q\<lparr>storage := ts, queueTasksCounter := counter_Remove (queueTasksCounter q) (tasks w r)\<rparr>)
       }
   }"

definition ensure_capacity :: "'a store \<Rightarrow> slice \<Rightarrow> nat \<Rightarrow> slice \<times> 'a store" where
  "ensure_capacity st s n = (if s_cap s < n then slice_make st n else (s, st))"

definition merge_group :: "qruntime \<Rightarrow> compactionGroup \<Rightarrow> qworld \<Rightarrow> TaskQueue \<Rightarrow> (qworld \<times> TaskQueue) option" where
  "merge_group rt g w q =
     (if elementsToMerge g = [] then Some (w, q) else do {
        target \<leftarrow> val (items (storage q)) (targetElement g);
        let (cs, w) = getContextSlice rt w;
        let (ms, w) = getMonitorIDSlice rt w;
        let (cs, st) = ensure_capacity (ctxs w) cs (totalContexts g);
        let w = w\<lparr>ctxs := st\<rparr>;
        let (ms, st) = ensure_capacity (mons w) ms (totalMonitorIDs g);
        let w = w\<lparr>mons := st\<rparr>;
        case HookMetadataAccessor (Metadata (tasks w target)) of
          None \<Rightarrow> Some (w, q)
        | Some tm \<Rightarrow> do {
            let (cs, st) = slice_append (rt_grow rt) (ctxs w) cs (slice_vals (ctxs w) (hm_BindingContext tm));
            let w = w\<lparr>ctxs := st\<rparr>;
            let (ms, st) = slice_append (rt_grow rt) (mons w) ms (slice_vals (mons w) (MonitorIDs tm));
            let w = w\<lparr>mons := st\<rparr>;
            (cs, ms, w, q) \<leftarrow> merge_elements rt (elementsToMerge g) cs ms w q;
            let (compacted, w) = compactBindingContexts rt w cs;
            let w = upd_task target (UpdateMetadata (MetaHook (SetMonitorIDs (SetBindingContext tm compacted) ms))) w;
            Some (putMonitorIDSlice ms (putContextSlice cs w), q)
          }
      })"

fun merge_groups :: "qruntime \<Rightarrow> compactionGroup list \<Rightarrow> qworld \<Rightarrow> TaskQueue \<Rightarrow> (qworld \<times> TaskQueue) option" where
  "merge_groups rt [] w q = Some (w, q)"
| "merge_groups rt (g # gs) w q = do {
     (w, q) \<leftarrow> merge_group rt g w q;
     merge_groups rt gs w q
   }"

definition compaction :: "qruntime \<Rightarrow> string set \<Rightarrow> qworld \<Rightarrow> TaskQueue \<Rightarrow> (qworld \<times> TaskQueue) option" where
  "compaction rt cids w q =
     (if Length (storage q) < 2 then Some (w, q) else do {
        es \<leftarrow> Iterate (storage q);
        groups \<leftarrow> group_elements w q cids es [];
        (w, q) \<leftarrow> merge_groups rt (List.map_filter (map_of groups) (rt_range rt (map fst groups))) w q;
        Some (w, q\<lparr>queueTasksCounter := ResetReachedCap (queueTasksCounter q)\<rparr>)
      })"

section \<open>Operations of the queue\<close>

definition count_all :: "qworld \<Rightarrow> taskref list \<Rightarrow> TaskQueue \<Rightarrow> TaskQueue" where
  "count_all w rs q = q\<lparr>queueTasksCounter := fold (\<lambda>r tc. counter_Add tc (tasks w r)) rs (queueTasksCounter q)\<rparr>"

definition uncount :: "qworld \<Rightarrow> taskref option \<Rightarrow> TaskQueue \<Rightarrow> TaskQueue" where
  "uncount w r q = (case r of None \<Rightarrow> q
     | Some t \<Rightarrow> q\<lparr>queueTasksCounter := counter_Remove (queueTasksCounter q) (tasks w t)\<rparr>)"

definition AddFirst :: "qworld \<Rightarrow> taskref list \<Rightarrow> TaskQueue \<Rightarrow> TaskQueue option" where
  "AddFirst w rs q = do {
     ts \<leftarrow> addFirst (GetId w) (storage q) rs;
     Some (count_all w rs (q\<lparr>storage := ts\<rparr>))
   }"

definition RemoveFirst :: "qworld \<Rightarrow> TaskQueue \<Rightarrow> (taskref option \<times> TaskQueue) option" where
  "RemoveFirst w q = do {
     (t, ts) \<leftarrow> removeFirst (GetId w) (storage q);
     Some (t, uncount w t (q\<lparr>storage := ts\<rparr>))
   }"

definition RemoveLast :: "qworld \<Rightarrow> TaskQueue \<Rightarrow> (taskref option \<times> TaskQueue) option" where
  "RemoveLast w q =
     (if Length (storage q) = 0 then Some (None, q) else do {
        (t, ts) \<leftarrow> removeLast (GetId w) (storage q);
        Some (t, uncount w t (q\<lparr>storage := ts\<rparr>))
      })"

definition AddAfter :: "qworld \<Rightarrow> string \<Rightarrow> taskref list \<Rightarrow> TaskQueue \<Rightarrow> TaskQueue option" where
  "AddAfter w tid rs q = do {
     ts \<leftarrow> addAfter (GetId w) (storage q) tid rs;
     Some (count_all w rs (q\<lparr>storage := ts\<rparr>))
   }"

definition AddBefore :: "qworld \<Rightarrow> string \<Rightarrow> taskref \<Rightarrow> TaskQueue \<Rightarrow> TaskQueue option" where
  "AddBefore w tid r q = do {
     ts \<leftarrow> addBefore (GetId w) (storage q) tid r;
     Some (count_all w [r] (q\<lparr>storage := ts\<rparr>))
   }"

definition q_Remove :: "qworld \<Rightarrow> string \<Rightarrow> TaskQueue \<Rightarrow> (taskref option \<times> TaskQueue) option" where
  "q_Remove w tid q = do {
     (t, ts) \<leftarrow> remove (storage q) tid;
     Some (t, uncount w t (q\<lparr>storage := ts\<rparr>))
   }"

text \<open>The callback counts a task out when \<open>fn\<close> rejects it, in the order of the list.\<close>

definition q_DeleteFunc :: "qworld \<Rightarrow> (taskref \<Rightarrow> bool) \<Rightarrow> TaskQueue \<Rightarrow> TaskQueue option" where
  "q_DeleteFunc w fn q = do {
     rs \<leftarrow> GetSnapshot (storage q);
     ts \<leftarrow> DeleteFunc (GetId w) fn (storage q);
     Some (q\<lparr>storage := ts, queueTasksCounter :=
       fold (\<lambda>r tc. counter_Remove tc (tasks w r)) (List.filter (\<lambda>r. \<not> fn r) rs) (queueTasksCounter q)\<rparr>)
   }"

fun AddLast :: "qruntime \<Rightarrow> taskref list \<Rightarrow> qworld \<Rightarrow> TaskQueue \<Rightarrow> (qworld \<times> TaskQueue) option" where
  "AddLast rt [] w q = Some (w, q)"
| "AddLast rt (r # rs) w q = do {
     ts \<leftarrow> addLast (GetId w) (storage q) [r];
     let q = count_all w [r] (q\<lparr>storage := ts\<rparr>);
     (w, q) \<leftarrow> (if task_Type (tasks w r) \<in> compactableTypes q \<and>
                   Length (storage q) > compactionThreshold \<and> IsAnyCapReached (queueTasksCounter q)
                then compaction rt (GetReachedCap (queueTasksCounter q)) w q
                else Some (w, q));
     AddLast rt rs w q
   }"

definition SetStatus :: "QueueStatusType \<Rightarrow> TaskQueue \<Rightarrow> TaskQueue" where
  "SetStatus st q = q\<lparr>status := status_Set st (status q)\<rparr>"

definition SetStatusText :: "string \<Rightarrow> TaskQueue \<Rightarrow> TaskQueue" where
  "SetStatusText text q = q\<lparr>status := status_SetText text (status q)\<rparr>"

definition CancelTaskDelay :: "TaskQueue \<Rightarrow> TaskQueue" where
  "CancelTaskDelay q = (if waitInProgress q then q\<lparr>cancelDelay := True\<rparr> else q)"

definition q_Stop :: "TaskQueue \<Rightarrow> TaskQueue" where
  "q_Stop q = (if hasContext q then q\<lparr>ctxDone := True\<rparr> else q)"

end
