(* ===== verification/Queue_Compaction.thy ===== *)
theory Queue_Compaction
  imports Task_Queue "HOL-Library.Multiset"
begin

text \<open>
  What compaction does to a queue. \<open>survivors\<close> is the specification of which tasks stay: of the
  compactable tasks of one hook the first stays and the others are merged into it; every other task
  stays; the order is kept. It holds for every runtime. What the merged task carries depends on
  the pools: with pools that hand out no used slice it is the concatenation of what the tasks
  carried (\<open>merged_view\<close>); with pools that reuse slices it need not be.
\<close>

section \<open>Grouping\<close>

definition hook_of :: "qworld \<Rightarrow> TaskQueue \<Rightarrow> string set \<Rightarrow> taskref \<Rightarrow> string option" where
  "hook_of w q cids r = map_option HookName (compactable_meta q cids (tasks w r))"

fun survivors :: "('a \<Rightarrow> string option) \<Rightarrow> string set \<Rightarrow> 'a list \<Rightarrow> 'a list" where
  "survivors hk seen [] = []"
| "survivors hk seen (r # rs) =
     (case hk r of
        None \<Rightarrow> r # survivors hk seen rs
      | Some h \<Rightarrow> if h \<in> seen then survivors hk seen rs else r # survivors hk (insert h seen) rs)"

text \<open>The elements of one hook, and the elements that are merged away.\<close>

abbreviation ref_at :: "TaskQueue \<Rightarrow> ptr \<Rightarrow> taskref" where
  "ref_at q e \<equiv> the (val (items (storage q)) e)"

definition hook_elements :: "('a \<Rightarrow> string option) \<Rightarrow> string \<Rightarrow> 'a list \<Rightarrow> 'a list" where
  "hook_elements hk h xs = List.filter (\<lambda>e. hk e = Some h) xs"

definition group_core :: "compactionGroup \<Rightarrow> ptr \<times> ptr list" where
  "group_core g = (targetElement g, elementsToMerge g)"

definition groups_ok :: "(ptr \<Rightarrow> string option) \<Rightarrow> ptr list \<Rightarrow> (string \<times> compactionGroup) list \<Rightarrow> bool" where
  "groups_ok hk xs groups \<longleftrightarrow> distinct (map fst groups) \<and>
     (\<forall>h. map_option group_core (map_of groups h) =
        (case hook_elements hk h xs of [] \<Rightarrow> None | e # es \<Rightarrow> Some (e, es)))"

lemma add_to_groups_keys:
  "fst ` set (add_to_groups e m gs) = insert (HookName m) (fst ` set gs)"
proof (induction gs)
  case (Cons p gs)
  then show ?case by (cases p) (simp add: insert_commute)
qed simp

lemma add_to_groups_distinct:
  "distinct (map fst gs) \<Longrightarrow> distinct (map fst (add_to_groups e m gs))"
proof (induction gs)
  case (Cons p gs)
  then show ?case
    using add_to_groups_keys [of e m gs] by (cases p) (auto simp: image_iff)
qed simp

lemma add_to_groups_map_of:
  "map_option group_core (map_of (add_to_groups e m gs) h) =
     (if h = HookName m
      then Some (case map_option group_core (map_of gs h) of None \<Rightarrow> (e, []) | Some (t, es) \<Rightarrow> (t, es @ [e]))
      else map_option group_core (map_of gs h))"
  by (induction gs) (auto simp: group_core_def split: option.splits)

lemma groups_ok_step:
  assumes ok: "groups_ok hk xs groups" and hk: "hk e = map_option HookName meta"
  shows "groups_ok hk (xs @ [e])
     (case meta of None \<Rightarrow> groups | Some m \<Rightarrow> add_to_groups e m groups)"
proof (cases meta)
  case None
  with ok hk show ?thesis by (simp add: groups_ok_def hook_elements_def)
next
  case (Some m)
  show ?thesis unfolding groups_ok_def
  proof (intro conjI allI)
    show "distinct (map fst (case meta of None \<Rightarrow> groups | Some m \<Rightarrow> add_to_groups e m groups))"
      using ok Some by (simp add: groups_ok_def add_to_groups_distinct)
    fix h
    have "map_option group_core (map_of groups h) =
        (case hook_elements hk h xs of [] \<Rightarrow> None | e # es \<Rightarrow> Some (e, es))"
      using ok by (simp add: groups_ok_def)
    then show "map_option group_core (map_of (case meta of None \<Rightarrow> groups | Some m \<Rightarrow> add_to_groups e m groups) h) =
        (case hook_elements hk h (xs @ [e]) of [] \<Rightarrow> None | e # es \<Rightarrow> Some (e, es))"
      using Some hk by (auto simp: add_to_groups_map_of hook_elements_def split: list.splits)
  qed
qed

lemma group_elements_ok:
  assumes "\<And>e. e \<in> set es \<Longrightarrow> val (items (storage q)) e \<noteq> None"
    and "groups_ok (\<lambda>e. hook_of w q cids (ref_at q e)) xs groups"
  shows "\<exists>groups'. group_elements w q cids es groups = Some groups' \<and>
     groups_ok (\<lambda>e. hook_of w q cids (ref_at q e)) (xs @ es) groups'"
  using assms
proof (induction es arbitrary: xs groups)
  case (Cons e es)
  then obtain r where r: "val (items (storage q)) e = Some r" by fastforce
  let ?gs = "case compactable_meta q cids (tasks w r) of None \<Rightarrow> groups | Some m \<Rightarrow> add_to_groups e m groups"
  have "groups_ok (\<lambda>e. hook_of w q cids (ref_at q e)) (xs @ [e]) ?gs"
    using Cons.prems(2) by (rule groups_ok_step) (simp add: hook_of_def r)
  with Cons.IH [of "xs @ [e]" ?gs] Cons.prems(1) r show ?case by simp
qed simp

lemma groups_ok_Nil: "groups_ok hk [] []"
  by (simp add: groups_ok_def hook_elements_def)

section \<open>Merging the elements of one group\<close>

definition seq_at :: "(taskref \<Rightarrow> string) \<Rightarrow> taskref task_storage \<Rightarrow> ptr list \<Rightarrow> bool" where
  "seq_at idf ts xs \<longleftrightarrow> storage_ok idf ts xs \<and> index_complete idf ts xs \<and> distinct (map idf (tasks_at ts xs))"

lemma seq_at_task_seq: "seq_at idf ts xs \<Longrightarrow> task_seq idf ts (tasks_at ts xs)"
  by (auto simp: seq_at_def task_seq_def)

lemma seq_at_remove:
  assumes "seq_at idf ts xs" and "e \<in> set xs"
  obtains t ts' where "removeElement idf ts e = Some (t, ts')"
    "seq_at idf ts' (List.filter (\<lambda>p. p \<noteq> e) xs)" "val (items ts') = val (items ts)"
proof -
  have ok: "storage_ok idf ts xs" "index_complete idf ts xs" "distinct (map idf (tasks_at ts xs))"
    using assms(1) by (simp_all add: seq_at_def)
  from assms(2) obtain ys zs where xs: "xs = ys @ e # zs" by (auto dest: split_list)
  have "distinct xs" using ok(1) by (auto simp: storage_ok_def dest: lstate_distinct)
  then have f: "List.filter (\<lambda>p. p \<noteq> e) xs = ys @ zs"
    unfolding xs by (simp, intro arg_cong2 [of _ _ _ _ append]) (auto simp: filter_id_conv)
  from ok(1) obtain t ts' where r: "removeElement idf ts e = Some (t, ts')" "storage_ok idf ts' (ys @ zs)"
      "index_complete idf ts (ys @ e # zs) \<longrightarrow> distinct (map idf (tasks_at ts (ys @ e # zs))) \<longrightarrow>
       index_complete idf ts' (ys @ zs)" "val (items ts') = val (items ts)"
    using removeElement_at [of idf ts ys e zs] unfolding xs by blast
  have "tasks_at ts' ps = tasks_at ts ps" for ps by (simp add: go_list.contents_def r(4))
  with r ok(2,3) have "seq_at idf ts' (ys @ zs)" unfolding xs seq_at_def by auto
  with r that f show thesis by simp
qed

definition is_hook_task :: "qworld \<Rightarrow> taskref \<Rightarrow> bool" where
  "is_hook_task w r \<longleftrightarrow> HookMetadataAccessor (Metadata (tasks w r)) \<noteq> None"

text \<open>Fields of the queue that compaction leaves alone.\<close>

definition same_queue :: "TaskQueue \<Rightarrow> TaskQueue \<Rightarrow> bool" where
  "same_queue q q' \<longleftrightarrow> q' = q\<lparr>storage := storage q', queueTasksCounter := queueTasksCounter q'\<rparr> \<and>
     countableTypes (queueTasksCounter q') = countableTypes (queueTasksCounter q) \<and>
     tc_queueName (queueTasksCounter q') = tc_queueName (queueTasksCounter q)"

lemma same_queue_refl [simp]: "same_queue q q"
  by (simp add: same_queue_def)

lemma same_queue_trans: "same_queue q q1 \<Longrightarrow> same_queue q1 q2 \<Longrightarrow> same_queue q q2"
  unfolding same_queue_def by (metis (no_types, lifting) TaskQueue.surjective TaskQueue.update_convs(2,3))

lemma counter_Remove_frame [simp]:
  "countableTypes (counter_Remove tc t) = countableTypes tc" "tc_queueName (counter_Remove tc t) = tc_queueName tc"
  by (auto simp: counter_Remove_def Let_def split: option.splits)

lemma merge_elements_ok:
  assumes "seq_at (GetId w) (storage q) xs" and "set es \<subseteq> set xs" and "distinct es"
    and "\<And>e. e \<in> set es \<Longrightarrow> is_hook_task w (ref_at q e)"
  shows "\<exists>cs' ms' w' q'. merge_elements rt es cs ms w q = Some (cs', ms', w', q') \<and>
     tasks w' = tasks w \<and> seq_at (GetId w) (storage q') (List.filter (\<lambda>e. e \<notin> set es) xs) \<and>
     val (items (storage q')) = val (items (storage q)) \<and> same_queue q q' \<and>
     queueTasksCounter q' = fold (\<lambda>e tc. counter_Remove tc (tasks w (ref_at q e))) es (queueTasksCounter q)"
  using assms
proof (induction es arbitrary: cs ms w q xs)
  case (Cons e es)
  have e: "e \<in> set xs" using Cons.prems(2) by simp
  from Cons.prems(1) e obtain t ts where
    rem: "removeElement (GetId w) (storage q) e = Some (t, ts)"
      "seq_at (GetId w) ts (List.filter (\<lambda>p. p \<noteq> e) xs)" "val (items ts) = val (items (storage q))"
    by (rule seq_at_remove)
  obtain r where r: "val (items (storage q)) e = Some r"
    using Cons.prems(1) e storage_val [of "GetId w" "storage q" xs e] by (simp add: seq_at_def)
  obtain m where m: "HookMetadataAccessor (Metadata (tasks w r)) = Some m"
    using Cons.prems(4) [of e] r by (auto simp: is_hook_task_def)
  obtain cs1 st1 where a1: "slice_append (rt_grow rt) (ctxs w) cs (slice_vals (ctxs w) (hm_BindingContext m)) = (cs1, st1)"
    by fastforce
  obtain ms1 st2 where a2: "slice_append (rt_grow rt) (mons w) ms (slice_vals (mons w) (MonitorIDs m)) = (ms1, st2)"
    by fastforce
  let ?w = "w\<lparr>ctxs := st1, mons := st2\<rparr>"
  let ?q = "q\<lparr>storage := ts, queueTasksCounter := counter_Remove (queueTasksCounter q) (tasks w r)\<rparr>"
  have id: "GetId ?w = GetId w" by (simp add: GetId_def fun_eq_iff)
  have step: "merge_elements rt (e # es) cs ms w q = merge_elements rt es cs1 ms1 ?w ?q"
    using r m a1 a2 rem(1) id by (simp add: GetId_def)
  have hyps: "seq_at (GetId ?w) (storage ?q) (List.filter (\<lambda>p. p \<noteq> e) xs)"
    "set es \<subseteq> set (List.filter (\<lambda>p. p \<noteq> e) xs)" "distinct es"
    "\<And>p. p \<in> set es \<Longrightarrow> is_hook_task ?w (ref_at ?q p)"
    using rem Cons.prems id by (auto simp: is_hook_task_def)
  from Cons.IH [OF hyps] obtain cs' ms' w' q' where
    IH: "merge_elements rt es cs1 ms1 ?w ?q = Some (cs', ms', w', q')" "tasks w' = tasks ?w"
      "seq_at (GetId ?w) (storage q') (List.filter (\<lambda>p. p \<notin> set es) (List.filter (\<lambda>p. p \<noteq> e) xs))"
      "val (items (storage q')) = val (items (storage ?q))" "same_queue ?q q'"
      "queueTasksCounter q' = fold (\<lambda>p tc. counter_Remove tc (tasks ?w (ref_at ?q p))) es (queueTasksCounter ?q)"
    by blast
  have "same_queue q ?q" by (simp add: same_queue_def)
  then have "same_queue q q'" using IH(5) by (rule same_queue_trans)
  moreover have "List.filter (\<lambda>p. p \<notin> set es) (List.filter (\<lambda>p. p \<noteq> e) xs) = List.filter (\<lambda>p. p \<notin> set (e # es)) xs"
    by (auto intro: filter_cong)
  ultimately show ?case using step IH rem(3) r id by auto
qed simp

section \<open>Merging the groups\<close>

text \<open>Compaction changes nothing of a task but its metadata, and keeps its hook.\<close>

definition only_meta :: "qworld \<Rightarrow> qworld \<Rightarrow> bool" where
  "only_meta w w' \<longleftrightarrow> (\<forall>r. tasks w' r = UpdateMetadata (Metadata (tasks w' r)) (tasks w r) \<and>
     map_option HookName (HookMetadataAccessor (Metadata (tasks w' r))) =
     map_option HookName (HookMetadataAccessor (Metadata (tasks w r))))"

lemma only_meta_refl: "tasks w' = tasks w \<Longrightarrow> only_meta w w'"
  by (simp add: only_meta_def UpdateMetadata_def)

lemma only_metaD:
  assumes "only_meta w w'"
  shows "task_Id (tasks w' r) = task_Id (tasks w r)" "task_Type (tasks w' r) = task_Type (tasks w r)"
    "compactionID (tasks w' r) = compactionID (tasks w r)" "processing (tasks w' r) = processing (tasks w r)"
    "is_hook_task w' r = is_hook_task w r" "GetId w' = GetId w"
proof -
  have eq: "tasks w' r = UpdateMetadata (Metadata (tasks w' r)) (tasks w r)" for r
    using assms by (simp add: only_meta_def)
  show "task_Id (tasks w' r) = task_Id (tasks w r)" "task_Type (tasks w' r) = task_Type (tasks w r)"
    "compactionID (tasks w' r) = compactionID (tasks w r)" "processing (tasks w' r) = processing (tasks w r)"
    by (subst eq, simp add: UpdateMetadata_def)+
  show "GetId w' = GetId w" unfolding GetId_def by (rule ext, subst eq) simp
  show "is_hook_task w' r = is_hook_task w r"
    using assms unfolding only_meta_def is_hook_task_def by (metis option.map_disc_iff)
qed

lemma only_meta_trans: "only_meta w w1 \<Longrightarrow> only_meta w1 w2 \<Longrightarrow> only_meta w w2"
  unfolding only_meta_def UpdateMetadata_def
  by (metis (no_types, lifting) BaseTask.surjective BaseTask.update_convs(9))

lemma only_meta_upd:
  assumes "tasks w1 = tasks w" and "HookMetadataAccessor (Metadata (tasks w r)) = Some tm"
    and "HookName m = HookName tm"
  shows "only_meta w (upd_task r (UpdateMetadata (MetaHook m)) w1)"
  using assms by (simp add: only_meta_def upd_task_def UpdateMetadata_def HookMetadataAccessor_def)

lemma counter_Remove_cong:
  "task_Type t' = task_Type t \<Longrightarrow> compactionID t' = compactionID t \<Longrightarrow> counter_Remove tc t' = counter_Remove tc t"
  by (simp add: counter_Remove_def countable_def)

lemma get_slices_tasks [simp]:
  "tasks (snd (getContextSlice rt w)) = tasks w" "tasks (snd (getMonitorIDSlice rt w)) = tasks w"
  "tasks (putContextSlice s w) = tasks w" "tasks (putMonitorIDSlice s w) = tasks w"
  "tasks (snd (compactBindingContexts rt w s)) = tasks w"
  by (auto simp: getContextSlice_def getMonitorIDSlice_def putContextSlice_def putMonitorIDSlice_def
      compactBindingContexts_def Let_def slice_make_def slice_of_list_def split: option.splits)

definition group_fits :: "qworld \<Rightarrow> TaskQueue \<Rightarrow> ptr list \<Rightarrow> compactionGroup \<Rightarrow> bool" where
  "group_fits w q xs g \<longleftrightarrow> distinct (targetElement g # elementsToMerge g) \<and>
     set (targetElement g # elementsToMerge g) \<subseteq> set xs \<and>
     (\<forall>e \<in> set (targetElement g # elementsToMerge g). is_hook_task w (ref_at q e))"

lemma merge_group_ok:
  assumes seq: "seq_at (GetId w) (storage q) xs" and fits: "group_fits w q xs g"
  shows "\<exists>w' q'. merge_group rt g w q = Some (w', q') \<and> only_meta w w' \<and>
     seq_at (GetId w) (storage q') (List.filter (\<lambda>e. e \<notin> set (elementsToMerge g)) xs) \<and>
     val (items (storage q')) = val (items (storage q)) \<and> same_queue q q' \<and>
     queueTasksCounter q' =
       fold (\<lambda>e tc. counter_Remove tc (tasks w (ref_at q e))) (elementsToMerge g) (queueTasksCounter q)"
proof (cases "elementsToMerge g = []")
  case True
  with seq show ?thesis by (simp add: merge_group_def only_meta_refl)
next
  case False
  have tgt: "targetElement g \<in> set xs" "is_hook_task w (ref_at q (targetElement g))"
    using fits by (simp_all add: group_fits_def)
  obtain target where t: "val (items (storage q)) (targetElement g) = Some target"
    using seq tgt(1) storage_val [of "GetId w" "storage q" xs "targetElement g"] by (simp add: seq_at_def)
  obtain tm where tm: "HookMetadataAccessor (Metadata (tasks w target)) = Some tm"
    using tgt(2) t by (auto simp: is_hook_task_def)
  obtain cs0 w0 where g1: "getContextSlice rt w = (cs0, w0)" by fastforce
  obtain ms0 w1 where g2: "getMonitorIDSlice rt w0 = (ms0, w1)" by fastforce
  obtain cs1 st1 where c1: "ensure_capacity (ctxs w1) cs0 (totalContexts g) = (cs1, st1)" by fastforce
  obtain ms1 st2 where c2: "ensure_capacity (mons w1) ms0 (totalMonitorIDs g) = (ms1, st2)" by fastforce
  obtain cs2 st3 where a1: "slice_append (rt_grow rt) st1 cs1 (slice_vals st1 (hm_BindingContext tm)) = (cs2, st3)"
    by fastforce
  obtain ms2 st4 where a2: "slice_append (rt_grow rt) st2 ms1 (slice_vals st2 (MonitorIDs tm)) = (ms2, st4)"
    by fastforce
  let ?w = "w1\<lparr>ctxs := st3, mons := st4\<rparr>"
  have tasks: "tasks w1 = tasks w" "tasks ?w = tasks w"
    using get_slices_tasks(1) [of rt w] get_slices_tasks(2) [of rt w0] g1 g2 by simp_all
  have hyps: "seq_at (GetId ?w) (storage q) xs" "set (elementsToMerge g) \<subseteq> set xs" "distinct (elementsToMerge g)"
    "\<And>e. e \<in> set (elementsToMerge g) \<Longrightarrow> is_hook_task ?w (ref_at q e)"
    using seq fits tasks by (simp_all add: GetId_def [abs_def] group_fits_def is_hook_task_def)
  from merge_elements_ok [OF hyps, of rt cs2 ms2] obtain cs' ms' w' q' where
    M: "merge_elements rt (elementsToMerge g) cs2 ms2 ?w q = Some (cs', ms', w', q')" "tasks w' = tasks ?w"
      "seq_at (GetId ?w) (storage q') (List.filter (\<lambda>e. e \<notin> set (elementsToMerge g)) xs)"
      "val (items (storage q')) = val (items (storage q))" "same_queue q q'"
      "queueTasksCounter q' =
        fold (\<lambda>e tc. counter_Remove tc (tasks ?w (ref_at q e))) (elementsToMerge g) (queueTasksCounter q)"
    by blast
  obtain comp w2 where b: "compactBindingContexts rt w' cs' = (comp, w2)" by fastforce
  have w2: "tasks w2 = tasks w" using get_slices_tasks(5) [of rt w' cs'] b M(2) tasks by simp
  let ?m = "SetMonitorIDs (SetBindingContext tm comp) ms'"
  let ?res = "putMonitorIDSlice ms' (putContextSlice cs' (upd_task target (UpdateMetadata (MetaHook ?m)) w2))"
  have "merge_group rt g w q = Some (?res, q')"
    unfolding merge_group_def
    using False t g1 g2 c1 c2 tm tasks(1) a1 a2 M(1) b by (simp add: Let_def)
  moreover have "only_meta w (upd_task target (UpdateMetadata (MetaHook ?m)) w2)"
    using w2 tm by (rule only_meta_upd) (simp add: SetMonitorIDs_def SetBindingContext_def)
  then have "only_meta w ?res" by (simp add: only_meta_def)
  moreover have "GetId ?w = GetId w" by (simp add: GetId_def [abs_def] tasks)
  ultimately show ?thesis using M tasks(2) by simp
qed

lemma merge_groups_ok:
  assumes "seq_at (GetId w) (storage q) xs" and "\<forall>g \<in> set gs. group_fits w q xs g"
    and "distinct (concat (map (\<lambda>g. targetElement g # elementsToMerge g) gs))"
  shows "\<exists>w' q'. merge_groups rt gs w q = Some (w', q') \<and> only_meta w w' \<and>
     seq_at (GetId w) (storage q') (List.filter (\<lambda>e. e \<notin> set (concat (map elementsToMerge gs))) xs) \<and>
     val (items (storage q')) = val (items (storage q)) \<and> same_queue q q' \<and>
     queueTasksCounter q' =
       fold (\<lambda>e tc. counter_Remove tc (tasks w (ref_at q e))) (concat (map elementsToMerge gs)) (queueTasksCounter q)"
  using assms
proof (induction gs arbitrary: w q xs)
  case Nil
  then show ?case by (simp add: only_meta_refl)
next
  case (Cons g gs)
  have "group_fits w q xs g" using Cons.prems(2) by simp
  from merge_group_ok [OF Cons.prems(1) this, of rt] obtain w1 q1 where
    S: "merge_group rt g w q = Some (w1, q1)" "only_meta w w1"
      "seq_at (GetId w) (storage q1) (List.filter (\<lambda>e. e \<notin> set (elementsToMerge g)) xs)"
      "val (items (storage q1)) = val (items (storage q))" "same_queue q q1"
      "queueTasksCounter q1 =
       fold (\<lambda>e tc. counter_Remove tc (tasks w (ref_at q e))) (elementsToMerge g) (queueTasksCounter q)"
    by blast
  let ?xs = "List.filter (\<lambda>e. e \<notin> set (elementsToMerge g)) xs"
  note D = only_metaD [OF S(2)]
  have fits: "\<forall>g' \<in> set gs. group_fits w1 q1 ?xs g'"
  proof
    fix g' assume g': "g' \<in> set gs"
    then have "group_fits w q xs g'" using Cons.prems(2) by simp
    moreover have "set (targetElement g' # elementsToMerge g') \<inter> set (elementsToMerge g) = {}"
      using Cons.prems(3) g' by fastforce
    ultimately show "group_fits w1 q1 ?xs g'" by (auto simp: group_fits_def D(5) S(4))
  qed
  have dist: "distinct (concat (map (\<lambda>g. targetElement g # elementsToMerge g) gs))"
    using Cons.prems(3) by simp
  have seq: "seq_at (GetId w1) (storage q1) ?xs" using S(3) D(6) by simp
  from Cons.IH [OF seq fits dist] obtain w' q' where
    IH: "merge_groups rt gs w1 q1 = Some (w', q')" "only_meta w1 w'"
      "seq_at (GetId w1) (storage q') (List.filter (\<lambda>e. e \<notin> set (concat (map elementsToMerge gs))) ?xs)"
      "val (items (storage q')) = val (items (storage q1))" "same_queue q1 q'"
      "queueTasksCounter q' = fold (\<lambda>e tc. counter_Remove tc (tasks w1 (ref_at q1 e)))
         (concat (map elementsToMerge gs)) (queueTasksCounter q1)"
    by blast
  have f: "List.filter (\<lambda>e. e \<notin> set (concat (map elementsToMerge gs))) ?xs =
      List.filter (\<lambda>e. e \<notin> set (concat (map elementsToMerge (g # gs)))) xs"
    by (auto intro!: filter_cong)
  have "counter_Remove tc (tasks w1 r) = counter_Remove tc (tasks w r)" for tc r
    by (rule counter_Remove_cong) (simp_all add: D)
  then have c: "queueTasksCounter q' = fold (\<lambda>e tc. counter_Remove tc (tasks w (ref_at q e)))
      (concat (map elementsToMerge (g # gs))) (queueTasksCounter q)"
    using IH(6) S(4,6) by simp
  have "merge_groups rt (g # gs) w q = Some (w', q')" using S(1) IH(1) by simp
  with only_meta_trans [OF S(2) IH(2)] same_queue_trans [OF S(5) IH(5)] IH(3,4) S(4) D(6) f c
  show ?case by auto
qed

section \<open>Compaction\<close>

lemma survivors_map: "survivors hk seen (map f xs) = map f (survivors (\<lambda>x. hk (f x)) seen xs)"
  by (induction xs arbitrary: seen) (auto split: option.splits)

lemma survivors_filter:
  assumes "distinct xs"
  shows "survivors hk seen xs = List.filter (\<lambda>e. case hk e of None \<Rightarrow> True
     | Some h \<Rightarrow> h \<notin> seen \<and> hd (hook_elements hk h xs) = e) xs"
  using assms
proof (induction xs arbitrary: seen)
  case (Cons x xs)
  have cong: "List.filter (\<lambda>e. case hk e of None \<Rightarrow> True | Some h \<Rightarrow> h \<notin> S \<and> hd (hook_elements hk h xs) = e) xs =
      List.filter (\<lambda>e. case hk e of None \<Rightarrow> True | Some h \<Rightarrow> h \<notin> seen \<and> hd (hook_elements hk h (x # xs)) = e) xs"
    if "\<And>h. hk x = Some h \<Longrightarrow> S = insert h seen" "hk x = None \<Longrightarrow> S = seen" for S
    using that Cons.prems
    by (intro filter_cong) (auto simp: hook_elements_def split: option.splits)
  show ?case
  proof (cases "hk x")
    case None
    with Cons.IH [of seen] Cons.prems cong [of seen] show ?thesis by simp
  next
    case (Some h)
    have hd: "hd (hook_elements hk h (x # xs)) = x" using Some by (simp add: hook_elements_def)
    show ?thesis
    proof (cases "h \<in> seen")
      case True
      then have "insert h seen = seen" by blast
      with Some True Cons.IH [of seen] Cons.prems cong [of seen] show ?thesis by simp
    next
      case False
      with Some hd Cons.IH [of "insert h seen"] Cons.prems cong [of "insert h seen"] show ?thesis by simp
    qed
  qed
qed simp

text \<open>What a queue relies on of the language: append grows enough, a map range visits every key once.\<close>

locale queue_runtime = grow: growslice "rt_grow rt" for rt :: qruntime +
  assumes visit_all: "distinct ks \<Longrightarrow> distinct (rt_range rt ks) \<and> set (rt_range rt ks) = set ks"
begin

definition visited :: "(string \<times> compactionGroup) list \<Rightarrow> compactionGroup list" where
  "visited groups = List.map_filter (map_of groups) (rt_range rt (map fst groups))"

lemma visited_alt:
  assumes "groups_ok hk xs groups"
  shows "distinct (rt_range rt (map fst groups))"
    and "set (rt_range rt (map fst groups)) = fst ` set groups"
    and "visited groups = map (\<lambda>h. the (map_of groups h)) (rt_range rt (map fst groups))"
    and "h \<in> set (rt_range rt (map fst groups)) \<Longrightarrow>
      targetElement (the (map_of groups h)) # elementsToMerge (the (map_of groups h)) = hook_elements hk h xs"
proof -
  have d: "distinct (map fst groups)" using assms by (simp add: groups_ok_def)
  note v = visit_all [OF d]
  show "distinct (rt_range rt (map fst groups))" using v by simp
  show keys: "set (rt_range rt (map fst groups)) = fst ` set groups" using v by simp
  have some: "map_of groups h \<noteq> None" if "h \<in> set (rt_range rt (map fst groups))" for h
    using that v by (simp add: map_of_eq_None_iff)
  show "visited groups = map (\<lambda>h. the (map_of groups h)) (rt_range rt (map fst groups))"
  proof -
    have "List.filter (\<lambda>h. map_of groups h \<noteq> None) (rt_range rt (map fst groups)) = rt_range rt (map fst groups)"
      using some by (simp add: filter_id_conv)
    then show ?thesis by (simp add: visited_def List.map_filter_def comp_def)
  qed
  assume h: "h \<in> set (rt_range rt (map fst groups))"
  then obtain g where g: "map_of groups h = Some g" using some by blast
  have "map_option group_core (map_of groups h) =
      (case hook_elements hk h xs of [] \<Rightarrow> None | e # es \<Rightarrow> Some (e, es))"
    using assms by (simp add: groups_ok_def)
  with g show "targetElement (the (map_of groups h)) # elementsToMerge (the (map_of groups h)) = hook_elements hk h xs"
    by (simp add: group_core_def split: list.splits)
qed

lemma hooks_are_keys:
  assumes "groups_ok hk xs groups" and "e \<in> set xs" and "hk e = Some h"
  shows "h \<in> fst ` set groups"
proof (rule ccontr)
  assume "h \<notin> fst ` set groups"
  then have "map_of groups h = None" by (simp add: map_of_eq_None_iff)
  moreover have "hook_elements hk h xs \<noteq> []"
    using assms(2,3) by (auto simp: hook_elements_def filter_empty_conv)
  moreover have "map_option group_core (map_of groups h) =
      (case hook_elements hk h xs of [] \<Rightarrow> None | e # es \<Rightarrow> Some (e, es))"
    using assms(1) by (simp add: groups_ok_def)
  ultimately show False by (cases "hook_elements hk h xs") simp_all
qed

lemma distinct_hook_elements:
  assumes "distinct xs" and "distinct hs"
  shows "distinct (concat (map (\<lambda>h. hook_elements hk h xs) hs))"
  using assms(2)
proof (induction hs)
  case (Cons h hs)
  then show ?case using assms(1) by (auto simp: hook_elements_def)
qed simp

lemma set_tl_hook: "e \<in> set (tl (hook_elements hk h xs)) \<Longrightarrow> hk e = Some h"
  by (cases "hook_elements hk h xs = []") (auto simp: hook_elements_def dest: list.set_sel(2))

lemma survivors_visited:
  assumes ok: "groups_ok hk xs groups" and xs: "distinct xs"
  shows "List.filter (\<lambda>e. e \<notin> set (concat (map elementsToMerge (visited groups)))) xs = survivors hk {} xs"
  unfolding survivors_filter [OF xs]
proof (rule filter_cong [OF refl])
  fix e assume e: "e \<in> set xs"
  note v = visited_alt [OF ok]
  let ?g = "\<lambda>h. the (map_of groups h)"
  have merged: "e \<in> set (concat (map elementsToMerge (visited groups))) \<longleftrightarrow>
      (\<exists>h \<in> fst ` set groups. e \<in> set (elementsToMerge (?g h)))" using v(2,3) by auto
  have parts: "elementsToMerge (?g h) = tl (hook_elements hk h xs)" "hook_elements hk h xs \<noteq> []"
    if "h \<in> fst ` set groups" for h using v(4) [of h] that v(2) by (metis list.sel(3), metis list.distinct(1))
  show "(e \<notin> set (concat (map elementsToMerge (visited groups)))) =
      (case hk e of None \<Rightarrow> True | Some h \<Rightarrow> h \<notin> {} \<and> hd (hook_elements hk h xs) = e)"
  proof (cases "hk e")
    case None
    then have "e \<notin> set (tl (hook_elements hk h xs))" for h
      using set_tl_hook [of e hk h xs] by auto
    with None merged parts show ?thesis by auto
  next
    case (Some h)
    have h: "h \<in> fst ` set groups" using hooks_are_keys [OF ok e Some] .
    have only: "e \<in> set (tl (hook_elements hk h' xs)) \<Longrightarrow> h' = h" for h'
      using Some set_tl_hook [of e hk h' xs] by auto
    have ein: "e \<in> set (hook_elements hk h xs)" using e Some by (simp add: hook_elements_def)
    have d: "distinct (hook_elements hk h xs)" using xs by (simp add: hook_elements_def)
    have "e \<in> set (concat (map elementsToMerge (visited groups))) \<longleftrightarrow> e \<in> set (tl (hook_elements hk h xs))"
      using merged parts(1) h only by auto
    also have "\<dots> \<longleftrightarrow> hd (hook_elements hk h xs) \<noteq> e"
      using ein d parts(2) [OF h] by (cases "hook_elements hk h xs") auto
    finally show ?thesis using Some by simp
  qed
qed

lemma compaction_structure:
  assumes seq: "task_seq (GetId w) (storage q) rs"
  shows "\<exists>w' q' es. compaction rt cids w q = Some (w', q') \<and> only_meta w w' \<and> same_queue q q' \<and>
     task_seq (GetId w') (storage q') (survivors (hook_of w q cids) {} rs) \<and>
     mset rs = mset (survivors (hook_of w q cids) {} rs) + mset es \<and>
     queueTasksCounter q' = (if length rs < 2 then queueTasksCounter q
       else ResetReachedCap (fold (\<lambda>r tc. counter_Remove tc (tasks w r)) es (queueTasksCounter q)))"
proof (cases "length rs < 2")
  case True
  then have "survivors (hook_of w q cids) {} rs = rs"
    by (cases rs; cases "tl rs") (auto split: option.splits)
  moreover have "Length (storage q) = length rs" using reads_seq(1) [OF seq] .
  ultimately show ?thesis using seq True
    by (intro exI [of _ w] exI [of _ q] exI [of _ "[]"]) (simp add: compaction_def only_meta_refl)
next
  case False
  from seq obtain xs where xs: "storage_ok (GetId w) (storage q) xs" "index_complete (GetId w) (storage q) xs"
    "tasks_at (storage q) xs = rs" "distinct (map (GetId w) rs)" by (rule task_seqE)
  then have at: "seq_at (GetId w) (storage q) xs" by (simp add: seq_at_def)
  have dx: "distinct xs" using xs(1) by (auto simp: storage_ok_def dest: lstate_distinct)
  let ?hk = "\<lambda>e. hook_of w q cids (ref_at q e)"
  have len: "\<not> Length (storage q) < 2" using False reads_seq(1) [OF seq] by simp
  obtain groups where G: "group_elements w q cids xs [] = Some groups" "groups_ok ?hk xs groups"
    using group_elements_ok [of xs q w cids "[]" "[]"] storage_val [OF xs(1)] groups_ok_Nil [of ?hk] by auto
  note v = visited_alt [OF G(2)]
  have parts: "map (\<lambda>g. targetElement g # elementsToMerge g) (visited groups) =
      map (\<lambda>h. hook_elements ?hk h xs) (rt_range rt (map fst groups))"
    unfolding v(3) using v(4) by simp
  have fits: "\<forall>g \<in> set (visited groups). group_fits w q xs g"
  proof
    fix g assume "g \<in> set (visited groups)"
    then obtain h where h: "h \<in> set (rt_range rt (map fst groups))" "g = the (map_of groups h)"
      unfolding v(3) by auto
    then have eq: "targetElement g # elementsToMerge g = hook_elements ?hk h xs" using v(4) by simp
    have "is_hook_task w (ref_at q e)" if "e \<in> set (hook_elements ?hk h xs)" for e
      using that by (auto simp: hook_elements_def hook_of_def is_hook_task_def compactable_meta_def split: if_splits)
    then show "group_fits w q xs g" unfolding group_fits_def eq using dx by (auto simp: hook_elements_def)
  qed
  have "distinct (concat (map (\<lambda>g. targetElement g # elementsToMerge g) (visited groups)))"
    unfolding parts by (rule distinct_hook_elements [OF dx v(1)])
  then obtain w' q' where M: "merge_groups rt (visited groups) w q = Some (w', q')" "only_meta w w'"
     "seq_at (GetId w) (storage q') (List.filter (\<lambda>e. e \<notin> set (concat (map elementsToMerge (visited groups)))) xs)"
     "val (items (storage q')) = val (items (storage q))" "same_queue q q'"
     "queueTasksCounter q' = fold (\<lambda>e tc. counter_Remove tc (tasks w (ref_at q e)))
        (concat (map elementsToMerge (visited groups))) (queueTasksCounter q)"
    using merge_groups_ok [OF at fits] by blast
  define es where "es = concat (map elementsToMerge (visited groups))"
  have sub: "set es \<subseteq> set xs" using fits by (auto simp: es_def group_fits_def)
  have "distinct es"
  proof -
    have "distinct (concat (map (\<lambda>g. targetElement g # elementsToMerge g) gs)) \<Longrightarrow>
      distinct (concat (map elementsToMerge gs))" for gs by (induction gs) auto
    then show ?thesis using \<open>distinct (concat _)\<close> by (simp add: es_def)
  qed
  then have perm: "mset xs = mset (List.filter (\<lambda>e. e \<notin> set es) xs) + mset es"
    using dx sub by (intro multiset_eqI) (auto simp: distinct_count_atmost_1 count_mset_0_iff)
  have surv: "List.filter (\<lambda>e. e \<notin> set es) xs = survivors ?hk {} xs"
    unfolding es_def by (rule survivors_visited [OF G(2) dx])
  have tas: "tasks_at (storage q') ps = tasks_at (storage q) ps" for ps
    by (simp add: go_list.contents_def M(4))
  have rs: "tasks_at (storage q) (survivors ?hk {} xs) = survivors (hook_of w q cids) {} rs"
    unfolding xs(3) [symmetric] go_list.contents_def survivors_map ..
  have "task_seq (GetId w') (storage q') (survivors (hook_of w q cids) {} rs)"
    using seq_at_task_seq [OF M(3)] only_metaD(6) [OF M(2)] unfolding es_def [symmetric] surv tas rs by simp
  moreover have "mset rs = mset (survivors (hook_of w q cids) {} rs) + mset (map (ref_at q) es)"
  proof -
    have "mset rs = image_mset (ref_at q) (mset xs)" unfolding xs(3) [symmetric] go_list.contents_def by simp
    also have "\<dots> = image_mset (ref_at q) (mset (survivors ?hk {} xs)) + mset (map (ref_at q) es)"
      using perm surv by simp
    also have "image_mset (ref_at q) (mset (survivors ?hk {} xs)) = mset (survivors (hook_of w q cids) {} rs)"
      unfolding rs [symmetric] go_list.contents_def by simp
    finally show ?thesis .
  qed
  moreover have "compaction rt cids w q =
      Some (w', q'\<lparr>queueTasksCounter := ResetReachedCap (queueTasksCounter q')\<rparr>)"
    using len Iterate_ok [OF xs(1)] G(1) M(1) by (simp add: compaction_def visited_def)
  moreover have "same_queue q (q'\<lparr>queueTasksCounter := ResetReachedCap (queueTasksCounter q')\<rparr>)"
    using M(5) by (rule same_queue_trans) (simp add: same_queue_def ResetReachedCap_def)
  moreover have "queueTasksCounter q' =
      fold (\<lambda>r tc. counter_Remove tc (tasks w r)) (map (ref_at q) es) (queueTasksCounter q)"
    unfolding M(6) es_def [symmetric] by (simp add: fold_map comp_def)
  ultimately show ?thesis using False M(2)
    by (intro exI [of _ w'] exI [of _ "q'\<lparr>queueTasksCounter := ResetReachedCap (queueTasksCounter q')\<rparr>"]
        exI [of _ "map (ref_at q) es"]) simp
qed

end

section \<open>The counter of the queue\<close>

definition count_of :: "qworld \<Rightarrow> TaskCounter \<Rightarrow> taskref multiset \<Rightarrow> string \<Rightarrow> nat" where
  "count_of w tc rs k = size (filter_mset (\<lambda>r. countable tc (tasks w r) \<and> compactionID (tasks w r) = k) rs)"

text \<open>The counter of every compaction id is the number of countable tasks of the queue with that id.\<close>

definition counter_exact :: "qworld \<Rightarrow> TaskQueue \<Rightarrow> taskref list \<Rightarrow> bool" where
  "counter_exact w q rs \<longleftrightarrow> counts (queueTasksCounter q) (count_of w (queueTasksCounter q) (mset rs))"

lemma counter_frame [simp]:
  "countable (counter_Remove tc t) t' = countable tc t'" "countable (counter_Add tc t) t' = countable tc t'"
  "countable (ResetReachedCap tc) t' = countable tc t'"
  by (auto simp: counter_Remove_def counter_Add_def countable_def ResetReachedCap_def Let_def split: option.splits)

lemma count_of_simps [simp]:
  "count_of w (counter_Remove tc t) = count_of w tc" "count_of w (counter_Add tc t) = count_of w tc"
  "count_of w (ResetReachedCap tc) = count_of w tc"
  by (simp_all add: count_of_def [abs_def])

lemma count_of_add: "count_of w tc (add_mset r M) =
    (if countable tc (tasks w r)
     then (count_of w tc M)(compactionID (tasks w r) := count_of w tc M (compactionID (tasks w r)) + 1)
     else count_of w tc M)"
  by (auto simp: count_of_def fun_eq_iff)

lemma counts_Reset: "counts tc f \<Longrightarrow> counts (ResetReachedCap tc) f"
  by (simp add: counts_def ResetReachedCap_def)

lemma counter_Remove_exact:
  assumes "counts tc (count_of w tc (add_mset r M))"
  shows "counts (counter_Remove tc (tasks w r)) (count_of w tc M)"
proof (cases "countable tc (tasks w r)")
  case True
  with counts_Remove [OF assms True] show ?thesis by (simp add: count_of_add)
next
  case False
  with assms show ?thesis by (simp add: count_of_add counter_Remove_def)
qed

lemma counter_Add_exact:
  assumes "counts tc (count_of w tc M)" and "size M < 2 ^ 64 - 1"
  shows "counts (counter_Add tc (tasks w r)) (count_of w tc (add_mset r M))"
proof (cases "countable tc (tasks w r)")
  case True
  have "count_of w tc M k \<le> size M" for k by (simp add: count_of_def size_filter_mset_lesseq)
  then have "count_of w tc M (compactionID (tasks w r)) + 1 < 2 ^ 64"
    using assms(2) le_less_trans by fastforce
  with counts_Add(1) [OF assms(1) True] True show ?thesis by (simp add: count_of_add)
next
  case False
  with assms(1) show ?thesis by (simp add: count_of_add counter_Add_def)
qed

lemma fold_Remove_exact:
  "counts tc (count_of w tc (M + mset es)) \<Longrightarrow>
     counts (fold (\<lambda>r tc. counter_Remove tc (tasks w r)) es tc)
       (count_of w (fold (\<lambda>r tc. counter_Remove tc (tasks w r)) es tc) M)"
proof (induction es arbitrary: tc)
  case (Cons e es)
  have "counts (counter_Remove tc (tasks w e)) (count_of w (counter_Remove tc (tasks w e)) (M + mset es))"
    using counter_Remove_exact [of tc w e "M + mset es"] Cons.prems by simp
  with Cons.IH show ?case by simp
qed simp

lemma fold_Add_exact:
  "counts tc (count_of w tc M) \<Longrightarrow> size M + length es < 2 ^ 64 \<Longrightarrow>
     counts (fold (\<lambda>r tc. counter_Add tc (tasks w r)) es tc)
       (count_of w (fold (\<lambda>r tc. counter_Add tc (tasks w r)) es tc) (M + mset es))"
proof (induction es arbitrary: tc M)
  case (Cons e es)
  have "counts (counter_Add tc (tasks w e)) (count_of w (counter_Add tc (tasks w e)) (add_mset e M))"
    using counter_Add_exact [of tc w M e] Cons.prems by simp
  from Cons.IH [OF this] Cons.prems(2) show ?case by simp
qed simp

lemma count_of_only_meta:
  assumes "only_meta w w'"
  shows "count_of w' tc = count_of w tc"
  using only_metaD [OF assms] by (simp add: count_of_def [abs_def] countable_def)

context queue_runtime
begin

lemma compaction_exact:
  assumes "task_seq (GetId w) (storage q) rs" and "counter_exact w q rs"
  shows "\<exists>w' q'. compaction rt cids w q = Some (w', q') \<and> only_meta w w' \<and> same_queue q q' \<and>
     task_seq (GetId w') (storage q') (survivors (hook_of w q cids) {} rs) \<and>
     counter_exact w' q' (survivors (hook_of w q cids) {} rs) \<and>
     (2 \<le> length rs \<longrightarrow> reachedCap (queueTasksCounter q') = {})"
proof -
  from compaction_structure [OF assms(1), of cids] obtain w' q' es where
    C: "compaction rt cids w q = Some (w', q')" "only_meta w w'" "same_queue q q'"
      "task_seq (GetId w') (storage q') (survivors (hook_of w q cids) {} rs)"
      "mset rs = mset (survivors (hook_of w q cids) {} rs) + mset es"
      "queueTasksCounter q' = (if length rs < 2 then queueTasksCounter q
       else ResetReachedCap (fold (\<lambda>r tc. counter_Remove tc (tasks w r)) es (queueTasksCounter q)))"
    by blast
  have "counter_exact w' q' (survivors (hook_of w q cids) {} rs)"
  proof (cases "length rs < 2")
    case True
    then have "survivors (hook_of w q cids) {} rs = rs"
      by (cases rs; cases "tl rs") (auto split: option.splits)
    with True assms(2) C(2,6) show ?thesis by (simp add: counter_exact_def count_of_only_meta)
  next
    case False
    from fold_Remove_exact [of "queueTasksCounter q" w "mset (survivors (hook_of w q cids) {} rs)" es]
      assms(2) C(5) counts_Reset False
    show ?thesis unfolding counter_exact_def C(6) by (simp add: count_of_only_meta [OF C(2)])
  qed
  with C show ?thesis by (auto simp: ResetReachedCap_def)
qed

end

section \<open>Runtimes\<close>

text \<open>
  Two runtimes the language allows: one whose pools never hand a slice out again (the garbage
  collector may empty a \<open>sync.Pool\<close> at any time), one whose pools hand out what was put there
  last, which is what a pool does when one goroutine puts and gets.
\<close>

definition fresh_runtime :: qruntime where
  "fresh_runtime = \<lparr>rt_grow = go_grow, rt_ctxPick = (\<lambda>_. None), rt_monPick = (\<lambda>_. None),
     rt_range = (\<lambda>ks. ks), rt_backoff = CalculateDelay 0 (5 * Second)\<rparr>"

definition pooled_runtime :: qruntime where
  "pooled_runtime = fresh_runtime\<lparr>rt_ctxPick := (\<lambda>_. Some 0), rt_monPick := (\<lambda>_. Some 0)\<rparr>"

interpretation fresh_rt: queue_runtime fresh_runtime
  by unfold_locales (auto simp: fresh_runtime_def go_runtime.grow_enough)

interpretation pooled_rt: queue_runtime pooled_runtime
  by unfold_locales (auto simp: pooled_runtime_def fresh_runtime_def go_runtime.grow_enough)

end
