(* ===== verification/Compaction_Values.thy ===== *)
theory Compaction_Values
  imports Queue_Compaction
begin

text \<open>
  What the tasks carry after a compaction: with pools that hand out only new slices, the task that
  stays for a hook carries the binding contexts (compacted) and the monitor ids of all tasks merged
  into it, in queue order, and no other task changes. With pools that hand out used slices this
  fails: the slices stored in the merged task are put back into the pools, and the next group
  overwrites them.
\<close>

section \<open>Slices in new arrays\<close>

definition ctx_vals :: "qworld \<Rightarrow> taskref \<Rightarrow> BindingContext list" where
  "ctx_vals w r = (case HookMetadataAccessor (Metadata (tasks w r)) of
     None \<Rightarrow> [] | Some m \<Rightarrow> slice_vals (ctxs w) (hm_BindingContext m))"

definition mon_vals :: "qworld \<Rightarrow> taskref \<Rightarrow> string list" where
  "mon_vals w r = (case HookMetadataAccessor (Metadata (tasks w r)) of
     None \<Rightarrow> [] | Some m \<Rightarrow> slice_vals (mons w) (MonitorIDs m))"

definition world_ok :: "qworld \<Rightarrow> bool" where
  "world_ok w \<longleftrightarrow> (\<forall>r m. HookMetadataAccessor (Metadata (tasks w r)) = Some m \<longrightarrow>
     slice_ok (ctxs w) (hm_BindingContext m) \<and> slice_ok (mons w) (MonitorIDs m))"

text \<open>\<open>new_slice st0 st s\<close>: \<open>st\<close> extends \<open>st0\<close> and \<open>s\<close> is a good slice of \<open>st\<close> in a new array.\<close>

definition new_slice :: "'a store \<Rightarrow> 'a store \<Rightarrow> slice \<Rightarrow> bool" where
  "new_slice st0 st s \<longleftrightarrow> prefix st0 st \<and> slice_ok st s \<and> length st0 \<le> s_arr s"

lemma prefix_vals: "prefix st0 st \<Longrightarrow> slice_ok st0 s \<Longrightarrow> slice_vals st s = slice_vals st0 s"
  by (auto elim!: prefixE)

lemma prefix_ok: "prefix st0 st \<Longrightarrow> slice_ok st0 s \<Longrightarrow> slice_ok st s"
  by (auto elim!: prefixE)

lemma new_slice_make:
  assumes "prefix st0 st" and "slice_make st n = (s, st')"
  shows "new_slice st0 st' s" and "slice_vals st' s = []"
  using assms slice_make_ok [OF assms(2)] prefix_length_le [OF assms(1)]
  by (auto simp: new_slice_def slice_make_def intro: prefix_order.trans)

context growslice
begin

lemma new_slice_append:
  assumes new: "new_slice st0 st s" and app: "slice_append grow st s xs = (s', st')"
  shows "new_slice st0 st' s'" and "slice_vals st' s' = slice_vals st s @ xs"
proof -
  have ok: "slice_ok st s" and pre: "prefix st0 st" and arr: "length st0 \<le> s_arr s"
    using new by (simp_all add: new_slice_def)
  show "slice_vals st' s' = slice_vals st s @ xs" by (rule slice_append_vals [OF ok app])
  from pre obtain ext where st: "st = st0 @ ext" by (rule prefixE)
  have "prefix st0 st' \<and> length st0 \<le> s_arr s'"
    using app arr by (auto simp: st slice_append_def Let_def list_update_append split: if_splits)
  with append_ok [OF ok app] show "new_slice st0 st' s'" by (simp add: new_slice_def)
qed

end

section \<open>Merging\<close>

definition compact_view :: "(string list \<Rightarrow> string list) \<Rightarrow> BindingContext list \<Rightarrow> BindingContext list" where
  "compact_view visit bcs =
     (if length bcs < 2 \<or> list_all (\<lambda>bc. bc_Group bc = []) bcs then bcs else compact_contexts visit bcs)"

lemma distinct_hook_elements':
  "distinct rs \<Longrightarrow> distinct hs \<Longrightarrow> distinct (concat (map (\<lambda>h. List.filter (\<lambda>r. hk r = Some h) rs) hs))"
  by (induction hs) auto

lemma survivors_subset: "set (survivors hk seen rs) \<subseteq> set rs"
  by (induction rs arbitrary: seen) (auto split: option.splits if_splits)

definition group_refs :: "TaskQueue \<Rightarrow> compactionGroup \<Rightarrow> taskref list" where
  "group_refs q g = map (ref_at q) (targetElement g # elementsToMerge g)"

definition merged_as :: "(string list \<Rightarrow> string list) \<Rightarrow> qworld \<Rightarrow> qworld \<Rightarrow> taskref \<Rightarrow> taskref list \<Rightarrow> bool" where
  "merged_as visit w w' r rs \<longleftrightarrow>
     (if length rs < 2 then ctx_vals w' r = ctx_vals w r \<and> mon_vals w' r = mon_vals w r
      else ctx_vals w' r = compact_view visit (concat (map (ctx_vals w) rs)) \<and>
           mon_vals w' r = concat (map (mon_vals w) rs))"

text \<open>The tasks a task stands for after the compaction: the compactable tasks of its hook.\<close>

definition merged_from :: "qworld \<Rightarrow> TaskQueue \<Rightarrow> string set \<Rightarrow> taskref list \<Rightarrow> taskref \<Rightarrow> taskref list" where
  "merged_from w q cids rs r = (case hook_of w q cids r of None \<Rightarrow> [r]
     | Some h \<Rightarrow> List.filter (\<lambda>r'. hook_of w q cids r' = Some h) rs)"

lemma compactBindingContexts_new:
  assumes new: "new_slice st0 (ctxs w) s" and c: "compactBindingContexts rt w s = (s', w')"
  shows "prefix st0 (ctxs w') \<and> slice_ok (ctxs w') s' \<and>
     slice_vals (ctxs w') s' = compact_view (rt_range rt) (slice_vals (ctxs w) s) \<and>
     mons w' = mons w \<and> tasks w' = tasks w"
proof (cases "length (slice_vals (ctxs w) s) < 2 \<or> list_all (\<lambda>bc. bc_Group bc = []) (slice_vals (ctxs w) s)")
  case True
  with c have "s' = s" "w' = w" by (auto simp: compactBindingContexts_def Let_def split: if_splits)
  with new True show ?thesis by (simp add: new_slice_def compact_view_def)
next
  case False
  let ?bcs = "compact_contexts (rt_range rt) (slice_vals (ctxs w) s)"
  obtain t st where t: "slice_of_list (ctxs w) ?bcs = (t, st)" by fastforce
  with c False have eq: "s' = t" "w' = w\<lparr>ctxs := st\<rparr>" by (auto simp: compactBindingContexts_def Let_def)
  have "prefix (ctxs w) st" using t by (auto simp: slice_of_list_def)
  with new have "prefix st0 st" by (auto simp: new_slice_def intro: prefix_order.trans)
  with slice_of_list_ok [OF t] False show ?thesis by (auto simp: eq compact_view_def)
qed

context queue_runtime
begin

lemma merge_elements_vals:
  assumes "merge_elements rt es cs ms w q = Some (cs', ms', w', q')"
    and "world_ok w0" and "tasks w = tasks w0"
    and "new_slice (ctxs w0) (ctxs w) cs" and "new_slice (mons w0) (mons w) ms"
    and "\<And>e. e \<in> set es \<Longrightarrow> is_hook_task w0 (ref_at q e)"
    and "val (items (storage q)) = V"
    and "seq_at (GetId w) (storage q) xs" and "set es \<subseteq> set xs" and "distinct es"
  shows "new_slice (ctxs w0) (ctxs w') cs' \<and> new_slice (mons w0) (mons w') ms' \<and>
     slice_vals (ctxs w') cs' = slice_vals (ctxs w) cs @ concat (map (\<lambda>e. ctx_vals w0 (the (V e))) es) \<and>
     slice_vals (mons w') ms' = slice_vals (mons w) ms @ concat (map (\<lambda>e. mon_vals w0 (the (V e))) es)"
  using assms
proof (induction es arbitrary: cs ms w q xs)
  case (Cons e es)
  have e: "e \<in> set xs" using Cons.prems(9) by simp
  obtain r where r: "val (items (storage q)) e = Some r"
    using Cons.prems(8) e storage_val [of "GetId w" "storage q" xs e] by (simp add: seq_at_def)
  obtain m where m: "HookMetadataAccessor (Metadata (tasks w0 r)) = Some m"
    using Cons.prems(6) [of e] r by (auto simp: is_hook_task_def)
  from Cons.prems(8) e obtain t ts where
    rem: "removeElement (GetId w) (storage q) e = Some (t, ts)"
      "seq_at (GetId w) ts (List.filter (\<lambda>p. p \<noteq> e) xs)" "val (items ts) = val (items (storage q))"
    by (rule seq_at_remove)
  obtain cs1 st1 where a1: "slice_append (rt_grow rt) (ctxs w) cs (slice_vals (ctxs w) (hm_BindingContext m)) = (cs1, st1)"
    by fastforce
  obtain ms1 st2 where a2: "slice_append (rt_grow rt) (mons w) ms (slice_vals (mons w) (MonitorIDs m)) = (ms1, st2)"
    by fastforce
  let ?w = "w\<lparr>ctxs := st1, mons := st2\<rparr>"
  let ?q = "q\<lparr>storage := ts, queueTasksCounter := counter_Remove (queueTasksCounter q) (tasks w r)\<rparr>"
  have "merge_elements rt es cs1 ms1 ?w ?q = Some (cs', ms', w', q')"
    using Cons.prems(1,3) r m a1 a2 rem(1) by (simp add: GetId_def [abs_def])
  moreover have n1: "new_slice (ctxs w0) st1 cs1" "new_slice (mons w0) st2 ms1"
    using grow.new_slice_append(1) [OF Cons.prems(4) a1] grow.new_slice_append(1) [OF Cons.prems(5) a2] by simp_all
  moreover have "\<And>p. p \<in> set es \<Longrightarrow> is_hook_task w0 (ref_at ?q p)" using Cons.prems(6) rem(3) by simp
  moreover have "seq_at (GetId ?w) (storage ?q) (List.filter (\<lambda>p. p \<noteq> e) xs)"
    using rem(2) by (simp add: GetId_def [abs_def])
  moreover have "set es \<subseteq> set (List.filter (\<lambda>p. p \<noteq> e) xs)" using Cons.prems(9,10) by auto
  ultimately have IH: "new_slice (ctxs w0) (ctxs w') cs' \<and> new_slice (mons w0) (mons w') ms' \<and>
     slice_vals (ctxs w') cs' = slice_vals st1 cs1 @ concat (map (\<lambda>e. ctx_vals w0 (the (V e))) es) \<and>
     slice_vals (mons w') ms' = slice_vals st2 ms1 @ concat (map (\<lambda>e. mon_vals w0 (the (V e))) es)"
    using Cons.IH [of cs1 ms1 ?w ?q "List.filter (\<lambda>p. p \<noteq> e) xs"] Cons.prems(2,3,7,10) rem(3) by simp
  have sl: "slice_ok (ctxs w0) (hm_BindingContext m)" "slice_ok (mons w0) (MonitorIDs m)"
    using Cons.prems(2) m by (simp_all add: world_ok_def)
  have "slice_vals (ctxs w) (hm_BindingContext m) = ctx_vals w0 r"
    "slice_vals (mons w) (MonitorIDs m) = mon_vals w0 r"
    using Cons.prems(4,5) sl m by (simp_all add: new_slice_def ctx_vals_def mon_vals_def prefix_vals)
  then have "slice_vals st1 cs1 = slice_vals (ctxs w) cs @ ctx_vals w0 r"
    "slice_vals st2 ms1 = slice_vals (mons w) ms @ mon_vals w0 r"
    using grow.new_slice_append(2) [OF Cons.prems(4) a1] grow.new_slice_append(2) [OF Cons.prems(5) a2] by simp_all
  with IH r Cons.prems(7) show ?case by auto
qed simp

text \<open>One group. \<open>tgt\<close> is the task that stays, \<open>rs\<close> are the tasks merged into it.\<close>

lemma merge_group_vals:
  assumes picks: "rt_ctxPick rt (ctxPool w) = None" "rt_monPick rt (monPool w) = None"
    and wok: "world_ok w" and seq: "seq_at (GetId w) (storage q) xs" and fits: "group_fits w q xs g"
    and ne: "elementsToMerge g \<noteq> []" and run: "merge_group rt g w q = Some (w', q')"
  defines "tgt \<equiv> ref_at q (targetElement g)" and "rs \<equiv> map (ref_at q) (targetElement g # elementsToMerge g)"
  shows "world_ok w' \<and> ctx_vals w' tgt = compact_view (rt_range rt) (concat (map (ctx_vals w) rs)) \<and>
     mon_vals w' tgt = concat (map (mon_vals w) rs) \<and>
     (\<forall>r. r \<noteq> tgt \<longrightarrow> tasks w' r = tasks w r \<and> ctx_vals w' r = ctx_vals w r \<and> mon_vals w' r = mon_vals w r)"
proof -
  have tgt: "targetElement g \<in> set xs" "is_hook_task w (ref_at q (targetElement g))"
    using fits by (simp_all add: group_fits_def)
  have t: "val (items (storage q)) (targetElement g) = Some tgt"
    using seq tgt(1) storage_val [of "GetId w" "storage q" xs "targetElement g"] by (simp add: seq_at_def tgt_def)
  obtain tm where tm: "HookMetadataAccessor (Metadata (tasks w tgt)) = Some tm"
    using tgt(2) by (auto simp: is_hook_task_def tgt_def)
  obtain cs0 sa where g1: "slice_make (ctxs w) 64 = (cs0, sa)" by fastforce
  obtain ms0 sb where g2: "slice_make (mons w) 64 = (ms0, sb)" by fastforce
  obtain cs1 st1 where c1: "ensure_capacity sa cs0 (totalContexts g) = (cs1, st1)" by fastforce
  obtain ms1 st2 where c2: "ensure_capacity sb ms0 (totalMonitorIDs g) = (ms1, st2)" by fastforce
  obtain cs2 st3 where a1: "slice_append (rt_grow rt) st1 cs1 (slice_vals st1 (hm_BindingContext tm)) = (cs2, st3)"
    by fastforce
  obtain ms2 st4 where a2: "slice_append (rt_grow rt) st2 ms1 (slice_vals st2 (MonitorIDs tm)) = (ms2, st4)"
    by fastforce
  let ?w = "w\<lparr>ctxs := st3, mons := st4\<rparr>"
  have n0: "new_slice (ctxs w) sa cs0" "slice_vals sa cs0 = []" "new_slice (mons w) sb ms0" "slice_vals sb ms0 = []"
    using new_slice_make [OF _ g1, of "ctxs w"] new_slice_make [OF _ g2, of "mons w"] by simp_all
  have n1: "new_slice (ctxs w) st1 cs1 \<and> slice_vals st1 cs1 = []"
    using n0(1,2) c1 new_slice_make [of "ctxs w" sa "totalContexts g" cs1 st1]
    by (auto simp: ensure_capacity_def new_slice_def split: if_splits)
  have n2: "new_slice (mons w) st2 ms1 \<and> slice_vals st2 ms1 = []"
    using n0(3,4) c2 new_slice_make [of "mons w" sb "totalMonitorIDs g" ms1 st2]
    by (auto simp: ensure_capacity_def new_slice_def split: if_splits)
  have sl: "slice_ok (ctxs w) (hm_BindingContext tm)" "slice_ok (mons w) (MonitorIDs tm)"
    using wok tm by (simp_all add: world_ok_def)
  have tv: "slice_vals st1 (hm_BindingContext tm) = ctx_vals w tgt" "slice_vals st2 (MonitorIDs tm) = mon_vals w tgt"
    using n1 n2 sl tm by (simp_all add: new_slice_def ctx_vals_def mon_vals_def prefix_vals)
  have n3: "new_slice (ctxs w) st3 cs2" "slice_vals st3 cs2 = ctx_vals w tgt"
    "new_slice (mons w) st4 ms2" "slice_vals st4 ms2 = mon_vals w tgt"
    using grow.new_slice_append [OF _ a1, of "ctxs w"] grow.new_slice_append [OF _ a2, of "mons w"] n1 n2 tv by simp_all
  have hyps: "seq_at (GetId ?w) (storage q) xs" "set (elementsToMerge g) \<subseteq> set xs" "distinct (elementsToMerge g)"
    "\<And>e. e \<in> set (elementsToMerge g) \<Longrightarrow> is_hook_task w (ref_at q e)"
    using seq fits by (simp_all add: GetId_def [abs_def] group_fits_def)
  have hyps': "\<And>e. e \<in> set (elementsToMerge g) \<Longrightarrow> is_hook_task ?w (ref_at q e)"
    using hyps(4) by (simp add: is_hook_task_def)
  from merge_elements_ok [OF hyps(1-3) hyps', of rt cs2 ms2] obtain cs' ms' w1 q1 where
    M: "merge_elements rt (elementsToMerge g) cs2 ms2 ?w q = Some (cs', ms', w1, q1)" "tasks w1 = tasks ?w"
    by blast
  have V: "new_slice (ctxs w) (ctxs w1) cs' \<and> new_slice (mons w) (mons w1) ms' \<and>
     slice_vals (ctxs w1) cs' = ctx_vals w tgt @ concat (map (\<lambda>e. ctx_vals w (ref_at q e)) (elementsToMerge g)) \<and>
     slice_vals (mons w1) ms' = mon_vals w tgt @ concat (map (\<lambda>e. mon_vals w (ref_at q e)) (elementsToMerge g))"
    using merge_elements_vals [OF M(1) wok _ _ _ hyps(4) refl hyps(1-3)] n3 by simp
  obtain comp w2 where b: "compactBindingContexts rt w1 cs' = (comp, w2)" by fastforce
  have C: "prefix (ctxs w) (ctxs w2)" "slice_ok (ctxs w2) comp"
     "slice_vals (ctxs w2) comp = compact_view (rt_range rt) (slice_vals (ctxs w1) cs')"
     "mons w2 = mons w1" "tasks w2 = tasks w1"
    using compactBindingContexts_new [OF _ b] V by auto
  let ?m = "SetMonitorIDs (SetBindingContext tm comp) ms'"
  let ?res = "putMonitorIDSlice ms' (putContextSlice cs' (upd_task tgt (UpdateMetadata (MetaHook ?m)) w2))"
  have "merge_group rt g w q = Some (?res, q1)"
    unfolding merge_group_def
    using ne t picks g1 g2 c1 c2 tm a1 a2 M(1) b
    by (simp add: Let_def getContextSlice_def getMonitorIDSlice_def)
  with run have w': "w' = ?res" by simp
  have stores: "ctxs w' = ctxs w2" "mons w' = mons w1"
    by (simp_all add: w' putMonitorIDSlice_def putContextSlice_def upd_task_def C(4))
  have T: "tasks w' = (tasks w)(tgt := UpdateMetadata (MetaHook ?m) (tasks w tgt))"
    by (simp add: w' putMonitorIDSlice_def putContextSlice_def upd_task_def C(5) M(2))
  have meta: "HookMetadataAccessor (Metadata (tasks w' tgt)) = Some ?m"
    by (simp add: T UpdateMetadata_def HookMetadataAccessor_def)
  have pm: "prefix (mons w) (mons w1)" "slice_ok (mons w1) ms'" using V by (simp_all add: new_slice_def)
  have other: "ctx_vals w' r = ctx_vals w r" "mon_vals w' r = mon_vals w r" if "r \<noteq> tgt" for r
    using that wok C(1) pm(1)
    by (auto simp: ctx_vals_def mon_vals_def T stores world_ok_def prefix_vals split: option.splits)
  have "world_ok w'" unfolding world_ok_def stores
  proof (intro allI impI)
    fix r m assume m: "HookMetadataAccessor (Metadata (tasks w' r)) = Some m"
    show "slice_ok (ctxs w2) (hm_BindingContext m) \<and> slice_ok (mons w1) (MonitorIDs m)"
    proof (cases "r = tgt")
      case True
      with m meta C(2) pm(2) show ?thesis by (auto simp: SetMonitorIDs_def SetBindingContext_def)
    next
      case False
      with m wok C(1) pm(1) show ?thesis by (auto simp: T world_ok_def intro: prefix_ok)
    qed
  qed
  moreover have "ctx_vals w' tgt = compact_view (rt_range rt) (concat (map (ctx_vals w) rs))"
    unfolding ctx_vals_def [of w'] meta using C(3) V
    by (simp add: stores SetMonitorIDs_def SetBindingContext_def rs_def tgt_def comp_def)
  moreover have "mon_vals w' tgt = concat (map (mon_vals w) rs)"
    unfolding mon_vals_def [of w'] meta using V
    by (simp add: stores SetMonitorIDs_def rs_def tgt_def comp_def)
  ultimately show ?thesis using other T by simp
qed

lemma merge_groups_vals:
  assumes picks: "rt_ctxPick rt = (\<lambda>_. None)" "rt_monPick rt = (\<lambda>_. None)"
    and "world_ok w" and "seq_at (GetId w) (storage q) xs" and "\<forall>g \<in> set gs. group_fits w q xs g"
    and "distinct (concat (map (group_refs q) gs))"
    and "merge_groups rt gs w q = Some (w', q')"
  shows "(\<forall>g \<in> set gs. merged_as (rt_range rt) w w' (ref_at q (targetElement g)) (group_refs q g)) \<and>
     (\<forall>r. r \<notin> set (concat (map (group_refs q) gs)) \<longrightarrow> ctx_vals w' r = ctx_vals w r \<and> mon_vals w' r = mon_vals w r)"
  using assms(3-)
proof (induction gs arbitrary: w q xs)
  case (Cons g gs)
  have fit: "group_fits w q xs g" using Cons.prems(3) by simp
  from merge_group_ok [OF Cons.prems(2) fit, of rt] obtain w1 q1 where
    S: "merge_group rt g w q = Some (w1, q1)" "only_meta w w1"
      "seq_at (GetId w) (storage q1) (List.filter (\<lambda>e. e \<notin> set (elementsToMerge g)) xs)"
      "val (items (storage q1)) = val (items (storage q))" by blast
  let ?xs = "List.filter (\<lambda>e. e \<notin> set (elementsToMerge g)) xs" and ?t = "ref_at q (targetElement g)"
  have one: "world_ok w1" "merged_as (rt_range rt) w w1 ?t (group_refs q g)"
    "\<And>r. r \<noteq> ?t \<Longrightarrow> ctx_vals w1 r = ctx_vals w r \<and> mon_vals w1 r = mon_vals w r"
  proof -
    have "world_ok w1 \<and> merged_as (rt_range rt) w w1 ?t (group_refs q g) \<and>
      (\<forall>r. r \<noteq> ?t \<longrightarrow> ctx_vals w1 r = ctx_vals w r \<and> mon_vals w1 r = mon_vals w r)"
    proof (cases "elementsToMerge g = []")
      case True
      with S(1) have "w1 = w" by (simp add: merge_group_def)
      with True Cons.prems(1) show ?thesis by (simp add: merged_as_def group_refs_def)
    next
      case False
      then have "\<not> length (group_refs q g) < 2" by (cases "elementsToMerge g") (simp_all add: group_refs_def)
      with merge_group_vals [OF _ _ Cons.prems(1,2) fit False S(1)] picks show ?thesis
        by (simp add: merged_as_def group_refs_def)
    qed
    then show "world_ok w1" "merged_as (rt_range rt) w w1 ?t (group_refs q g)"
      "\<And>r. r \<noteq> ?t \<Longrightarrow> ctx_vals w1 r = ctx_vals w r \<and> mon_vals w1 r = mon_vals w r" by blast+
  qed
  have refs: "group_refs q1 g' = group_refs q g'" for g' by (simp add: group_refs_def S(4))
  have fits: "\<forall>g' \<in> set gs. group_fits w1 q1 ?xs g'"
  proof
    fix g' assume g': "g' \<in> set gs"
    then have "group_fits w q xs g'" using Cons.prems(3) by simp
    moreover have "set (group_refs q g') \<inter> set (group_refs q g) = {}"
      using Cons.prems(4) g' by fastforce
    then have "set (targetElement g' # elementsToMerge g') \<inter> set (elementsToMerge g) = {}"
      by (auto simp: group_refs_def)
    ultimately show "group_fits w1 q1 ?xs g'" by (auto simp: group_fits_def only_metaD(5) [OF S(2)] S(4))
  qed
  have "merge_groups rt gs w1 q1 = Some (w', q')" using Cons.prems(5) S(1) by simp
  moreover have "seq_at (GetId w1) (storage q1) ?xs" using S(3) only_metaD(6) [OF S(2)] by simp
  moreover have "distinct (concat (map (group_refs q1) gs))" using Cons.prems(4) by (simp add: refs [abs_def])
  ultimately have IH: "\<forall>g' \<in> set gs. merged_as (rt_range rt) w1 w' (ref_at q (targetElement g')) (group_refs q g')"
     "\<forall>r. r \<notin> set (concat (map (group_refs q) gs)) \<longrightarrow> ctx_vals w' r = ctx_vals w1 r \<and> mon_vals w' r = mon_vals w1 r"
    using Cons.IH [OF one(1) _ fits] S(4) by (simp_all add: refs [abs_def])
  have tg: "?t \<in> set (group_refs q g)" by (simp add: group_refs_def)
  then have tn: "?t \<notin> set (concat (map (group_refs q) gs))" using Cons.prems(4) by auto
  have "merged_as (rt_range rt) w w' (ref_at q (targetElement g')) (group_refs q g')" if "g' \<in> set gs" for g'
  proof -
    have no: "?t \<notin> set (group_refs q g')" using tn that by auto
    then have "map (ctx_vals w1) (group_refs q g') = map (ctx_vals w) (group_refs q g')"
      "map (mon_vals w1) (group_refs q g') = map (mon_vals w) (group_refs q g')"
      using one(3) by (metis (no_types, lifting) map_cong)+
    moreover have "ref_at q (targetElement g') \<in> set (group_refs q g')" by (simp add: group_refs_def)
    then have "ref_at q (targetElement g') \<noteq> ?t" using no by auto
    note this [THEN one(3)]
    moreover have "merged_as (rt_range rt) w1 w' (ref_at q (targetElement g')) (group_refs q g')"
      using IH(1) that by blast
    ultimately show ?thesis by (simp add: merged_as_def cong: map_cong)
  qed
  moreover have "merged_as (rt_range rt) w w' ?t (group_refs q g)"
    using one(2) IH(2) tn by (simp add: merged_as_def)
  moreover have "ctx_vals w' r = ctx_vals w r \<and> mon_vals w' r = mon_vals w r"
    if "r \<notin> set (concat (map (group_refs q) (g # gs)))" for r
    using that IH(2) one(3) [of r] tg by auto
  ultimately show ?case by auto
qed simp

lemma compaction_vals:
  assumes picks: "rt_ctxPick rt = (\<lambda>_. None)" "rt_monPick rt = (\<lambda>_. None)" and wok: "world_ok w"
    and seq: "task_seq (GetId w) (storage q) rs" and run: "compaction rt cids w q = Some (w', q')"
    and r: "r \<in> set (survivors (hook_of w q cids) {} rs)"
  shows "merged_as (rt_range rt) w w' r (merged_from w q cids rs r)"
proof (cases "length rs < 2")
  case True
  with run reads_seq(1) [OF seq] have "w' = w" by (simp add: compaction_def)
  moreover have "length (merged_from w q cids rs r) < 2"
    using le_less_trans [OF length_filter_le True] by (simp add: merged_from_def split: option.splits)
  ultimately show ?thesis by (simp add: merged_as_def)
next
  case False
  from seq obtain xs where xs: "storage_ok (GetId w) (storage q) xs" "index_complete (GetId w) (storage q) xs"
    "tasks_at (storage q) xs = rs" "distinct (map (GetId w) rs)" by (rule task_seqE)
  then have at: "seq_at (GetId w) (storage q) xs" by (simp add: seq_at_def)
  have dx: "distinct xs" using xs(1) by (auto simp: storage_ok_def dest: lstate_distinct)
  have drs: "distinct rs" using xs(4) by (simp add: distinct_map)
  have rs: "rs = map (ref_at q) xs" using xs(3) by (simp add: go_list.contents_def)
  let ?hk = "\<lambda>e. hook_of w q cids (ref_at q e)"
  have len: "\<not> Length (storage q) < 2" using False reads_seq(1) [OF seq] by simp
  obtain groups where G: "group_elements w q cids xs [] = Some groups" "groups_ok ?hk xs groups"
    using group_elements_ok [of xs q w cids "[]" "[]"] storage_val [OF xs(1)] groups_ok_Nil [of ?hk] by auto
  note v = visited_alt [OF G(2)]
  let ?hs = "rt_range rt (map fst groups)"
  have refs: "group_refs q (the (map_of groups h)) = List.filter (\<lambda>r'. hook_of w q cids r' = Some h) rs"
    if "h \<in> set ?hs" for h
    unfolding group_refs_def v(4) [OF that] by (simp add: rs hook_elements_def filter_map comp_def)
  have all: "map (group_refs q) (visited groups) =
      map (\<lambda>h. List.filter (\<lambda>r'. hook_of w q cids r' = Some h) rs) ?hs"
    unfolding v(3) using refs by simp
  have fits: "\<forall>g \<in> set (visited groups). group_fits w q xs g"
  proof
    fix g assume "g \<in> set (visited groups)"
    then obtain h where h: "h \<in> set ?hs" "g = the (map_of groups h)" unfolding v(3) by auto
    then have eq: "targetElement g # elementsToMerge g = hook_elements ?hk h xs" using v(4) by simp
    have "is_hook_task w (ref_at q e)" if "e \<in> set (hook_elements ?hk h xs)" for e
      using that by (auto simp: hook_elements_def hook_of_def is_hook_task_def compactable_meta_def split: if_splits)
    then show "group_fits w q xs g" unfolding group_fits_def eq using dx by (auto simp: hook_elements_def)
  qed
  have dist: "distinct (concat (map (group_refs q) (visited groups)))"
    unfolding all using distinct_hook_elements' [OF drs v(1)] .
  from run len Iterate_ok [OF xs(1)] G(1) obtain q1 where
    "merge_groups rt (visited groups) w q = Some (w', q1)"
    by (auto simp: compaction_def visited_def split: Option.bind_splits)
  note M = merge_groups_vals [OF picks wok at fits dist this]
  show ?thesis
  proof (cases "hook_of w q cids r")
    case None
    then have "r \<notin> set (concat (map (group_refs q) (visited groups)))" unfolding all by auto
    with M None show ?thesis by (simp add: merged_as_def merged_from_def)
  next
    case (Some h)
    have rin: "r \<in> set rs" using r survivors_subset by fast
    then obtain e where e: "e \<in> set xs" "r = ref_at q e" unfolding rs by auto
    have h: "h \<in> set ?hs" using hooks_are_keys [OF G(2) e(1)] Some e(2) v(2) by simp
    let ?g = "the (map_of groups h)"
    have g: "?g \<in> set (visited groups)" unfolding v(3) using h by simp
    have "hd (List.filter (\<lambda>r'. hook_of w q cids r' = Some h) rs) = r"
      using r Some unfolding survivors_filter [OF drs] by (simp add: hook_elements_def)
    then have "ref_at q (targetElement ?g) = r" using refs [OF h] by (simp add: group_refs_def) (metis list.sel(1))
    with M g refs [OF h] Some show ?thesis by (auto simp: merged_from_def)
  qed
qed

end

section \<open>A queue to run\<close>

text \<open>
  Two hooks with two tasks each. Task \<open>i\<close> carries one ungrouped binding context, named like its
  monitor id.
\<close>

definition demo_task :: "nat \<Rightarrow> qtask" where
  "demo_task i = (NewTask [char_of (97 + i)] HookRun)\<lparr>Metadata := MetaHook
     \<lparr>HookName = (if i < 2 then ''hookA'' else ''hookB''), hm_Binding = [], hm_Group = [],
      hm_BindingType = bt_OnKubernetesEvent, hm_BindingContext = \<lparr>s_arr = i mod 4, s_len = 1, s_cap = 1\<rparr>,
      AllowFailure = False, MonitorIDs = \<lparr>s_arr = i mod 4, s_len = 1, s_cap = 1\<rparr>,
      ExecuteOnSynchronization = True\<rparr>\<rparr>"

definition demo_world :: qworld where
  "demo_world = \<lparr>tasks = demo_task,
     ctxs = map (\<lambda>i. [empty_bc\<lparr>bc_Binding := [char_of (65 + i)]\<rparr>]) [0..<4],
     mons = map (\<lambda>i. [[char_of (65 + i)]]) [0..<4], ctxPool = [], monPool = []\<rparr>"

definition demo_queue :: "TaskQueue option" where
  "demo_queue = do {
     q \<leftarrow> NewTasksQueue ''main'' True [WithContext, WithHandler, WithCompactableTypes [HookRun]];
     (w, q) \<leftarrow> AddLast fresh_runtime [0, 1, 2, 3] demo_world q;
     Some q
   }"

definition demo_run :: "qruntime \<Rightarrow> (taskref list \<times> string list \<times> string list) option" where
  "demo_run rt = do {
     q \<leftarrow> demo_queue;
     (w, q) \<leftarrow> compaction rt {} demo_world q;
     rs \<leftarrow> GetSnapshot (storage q);
     Some (rs, mon_vals w 0, mon_vals w 2)
   }"

lemma demo_world_ok: "world_ok demo_world"
proof -
  have "i mod 4 < 4" "length (map f [0..<4] ! (i mod 4)) = Suc 0" if "\<And>j. length (f j) = Suc 0" for i :: nat and f :: "nat \<Rightarrow> 'b list"
    using that by (simp_all del: upt_conv_Cons upt_rec_numeral)
  then show ?thesis
    by (auto simp: world_ok_def demo_world_def demo_task_def HookMetadataAccessor_def slice_ok_def NewTask_def
        simp del: upt_conv_Cons upt_rec_numeral)
qed

end
