(* ===== verification/Queue_Ops.thy ===== *)
theory Queue_Ops
  imports Compaction_Values
begin

text \<open>
  The operations of the queue against its specification: \<open>queue_inv w q rs\<close> says that the queue
  holds the tasks \<open>rs\<close> in this order, with an exact index and an exact counter. Every operation of
  the queue keeps it, except the one the worker uses to settle a handled task
  (theory \<open>Queue_Worker\<close>), which leaves the counter alone.
\<close>

definition queue_inv :: "qworld \<Rightarrow> TaskQueue \<Rightarrow> taskref list \<Rightarrow> bool" where
  "queue_inv w q rs \<longleftrightarrow> task_seq (GetId w) (storage q) rs \<and> counter_exact w q rs"

text \<open>The number of tasks stays below the width of the counters.\<close>

abbreviation fits64 :: "'a list \<Rightarrow> bool" where
  "fits64 xs \<equiv> length xs < 2 ^ 64"

lemma count_all_simps [simp]:
  "storage (count_all w rs q) = storage q" "compactableTypes (count_all w rs q) = compactableTypes q"
  "queueTasksCounter (count_all w rs q) = fold (\<lambda>r tc. counter_Add tc (tasks w r)) rs (queueTasksCounter q)"
  by (simp_all add: count_all_def)

lemma storage_update_inv:
  assumes "queue_inv w q rs" and "task_seq (GetId w) ts (xs @ new @ ys)" and "rs = xs @ ys"
    and "fits64 (rs @ new)"
  shows "queue_inv w (count_all w new (q\<lparr>storage := ts\<rparr>)) (xs @ new @ ys)"
proof -
  have "counts (queueTasksCounter q) (count_of w (queueTasksCounter q) (mset rs))"
    using assms(1) by (simp add: queue_inv_def counter_exact_def)
  from fold_Add_exact [OF this, of new] assms(4)
  have "counts (fold (\<lambda>r tc. counter_Add tc (tasks w r)) new (queueTasksCounter q))
     (count_of w (fold (\<lambda>r tc. counter_Add tc (tasks w r)) new (queueTasksCounter q)) (mset rs + mset new))"
    by simp
  moreover have "mset rs + mset new = mset (xs @ new @ ys)" by (simp add: assms(3))
  ultimately show ?thesis using assms(2) by (simp add: queue_inv_def counter_exact_def)
qed

lemma uncount_inv:
  assumes "queue_inv w q (xs @ r # ys)" and "task_seq (GetId w) ts (xs @ ys)"
  shows "queue_inv w (uncount w (Some r) (q\<lparr>storage := ts\<rparr>)) (xs @ ys)"
proof -
  have "counts (queueTasksCounter q) (count_of w (queueTasksCounter q) (add_mset r (mset (xs @ ys))))"
    using assms(1) by (simp add: queue_inv_def counter_exact_def)
  from counter_Remove_exact [OF this] assms(2) show ?thesis
    by (simp add: queue_inv_def counter_exact_def uncount_def)
qed

lemma AddFirst_inv:
  assumes "queue_inv w q rs" and "distinct (map (GetId w) (new @ rs))" and "fits64 (rs @ new)"
  shows "\<exists>q'. AddFirst w new q = Some q' \<and> queue_inv w q' (new @ rs)"
proof -
  have "task_seq (GetId w) (storage q) rs" using assms(1) by (simp add: queue_inv_def)
  from storage.add_first_law [OF this assms(2)] obtain ts where
    "addFirst (GetId w) (storage q) new = Some ts" "task_seq (GetId w) ts (new @ rs)" by blast
  with storage_update_inv [OF assms(1), of ts "[]" new rs] assms(3) show ?thesis by (simp add: AddFirst_def)
qed

lemma AddFirst_types: "AddFirst w new q = Some q' \<Longrightarrow> compactableTypes q' = compactableTypes q"
  by (auto simp: AddFirst_def bind_eq_Some_conv)

lemma AddAfter_inv:
  assumes "queue_inv w q (xs @ r # ys)" and "distinct (map (GetId w) (xs @ r # new @ ys))"
    and "fits64 (xs @ r # new @ ys)"
  shows "\<exists>q'. AddAfter w (GetId w r) new q = Some q' \<and> queue_inv w q' (xs @ r # new @ ys)"
proof -
  have "task_seq (GetId w) (storage q) (xs @ r # ys)" using assms(1) by (simp add: queue_inv_def)
  from storage.add_after_law [OF this assms(2)] obtain ts where
    "addAfter (GetId w) (storage q) (GetId w r) new = Some ts" "task_seq (GetId w) ts (xs @ r # new @ ys)" by blast
  with storage_update_inv [OF assms(1), of ts "xs @ [r]" new ys] assms(3) show ?thesis by (simp add: AddAfter_def)
qed

lemma AddBefore_inv:
  assumes "queue_inv w q (xs @ r # ys)" and "distinct (map (GetId w) (xs @ t # r # ys))"
    and "fits64 (xs @ t # r # ys)"
  shows "\<exists>q'. AddBefore w (GetId w r) t q = Some q' \<and> queue_inv w q' (xs @ t # r # ys)"
proof -
  have "task_seq (GetId w) (storage q) (xs @ r # ys)" using assms(1) by (simp add: queue_inv_def)
  from addBefore_seq [OF this assms(2)] obtain ts where
    "addBefore (GetId w) (storage q) (GetId w r) t = Some ts" "task_seq (GetId w) ts (xs @ t # r # ys)" by blast
  with storage_update_inv [OF assms(1), of ts xs "[t]" "r # ys"] assms(3) show ?thesis by (simp add: AddBefore_def)
qed

lemma RemoveFirst_inv:
  assumes "queue_inv w q rs"
  shows "\<exists>q'. RemoveFirst w q = Some (if rs = [] then None else Some (hd rs), q') \<and> queue_inv w q' (tl rs)"
proof -
  have "task_seq (GetId w) (storage q) rs" using assms by (simp add: queue_inv_def)
  from removeFirst_seq [OF this] obtain ts where
    ts: "removeFirst (GetId w) (storage q) = Some (if rs = [] then None else Some (hd rs), ts)"
      "task_seq (GetId w) ts (tl rs)" by blast
  show ?thesis
  proof (cases rs)
    case Nil
    with ts assms show ?thesis by (simp add: RemoveFirst_def uncount_def queue_inv_def counter_exact_def)
  next
    case (Cons r rs')
    with ts uncount_inv [of w q "[]" r rs' ts] assms show ?thesis by (simp add: RemoveFirst_def)
  qed
qed

lemma RemoveLast_inv:
  assumes "queue_inv w q rs"
  shows "\<exists>q'. RemoveLast w q = Some (if rs = [] then None else Some (last rs), q') \<and> queue_inv w q' (butlast rs)"
proof -
  have seq: "task_seq (GetId w) (storage q) rs" using assms by (simp add: queue_inv_def)
  from removeLast_seq [OF this] obtain ts where
    ts: "removeLast (GetId w) (storage q) = Some (if rs = [] then None else Some (last rs), ts)"
      "task_seq (GetId w) ts (butlast rs)" by blast
  show ?thesis
  proof (cases rs rule: rev_cases)
    case Nil
    with assms reads_seq(1) [OF seq] show ?thesis by (simp add: RemoveLast_def)
  next
    case (snoc rs' r)
    with ts uncount_inv [of w q rs' r "[]" ts] assms reads_seq(1) [OF seq] show ?thesis
      by (simp add: RemoveLast_def)
  qed
qed

lemma q_Remove_inv:
  assumes "queue_inv w q (xs @ r # ys)"
  shows "\<exists>q'. q_Remove w (GetId w r) q = Some (Some r, q') \<and> queue_inv w q' (xs @ ys)"
proof -
  have "task_seq (GetId w) (storage q) (xs @ r # ys)" using assms by (simp add: queue_inv_def)
  from storage.remove_law [OF this] obtain ts where
    "remove (storage q) (GetId w r) = Some (Some r, ts)" "task_seq (GetId w) ts (xs @ ys)" by blast
  with uncount_inv [OF assms] show ?thesis by (simp add: q_Remove_def)
qed

lemma q_DeleteFunc_inv:
  assumes "queue_inv w q rs"
  shows "\<exists>q'. q_DeleteFunc w fn q = Some q' \<and> queue_inv w q' (List.filter fn rs)"
proof -
  have seq: "task_seq (GetId w) (storage q) rs" using assms by (simp add: queue_inv_def)
  from DeleteFunc_seq [OF seq, of fn] obtain ts where
    ts: "DeleteFunc (GetId w) fn (storage q) = Some ts" "task_seq (GetId w) ts (List.filter fn rs)" by blast
  let ?tc = "fold (\<lambda>r tc. counter_Remove tc (tasks w r)) (List.filter (\<lambda>r. \<not> fn r) rs) (queueTasksCounter q)"
  have "mset rs = mset (List.filter fn rs) + mset (List.filter (\<lambda>r. \<not> fn r) rs)"
    by (simp add: mset_filter)
  then have "counts ?tc (count_of w ?tc (mset (List.filter fn rs)))"
    using fold_Remove_exact [of "queueTasksCounter q" w "mset (List.filter fn rs)" "List.filter (\<lambda>r. \<not> fn r) rs"]
      assms by (simp add: queue_inv_def counter_exact_def)
  with ts reads_seq(2) [OF seq] show ?thesis
    by (simp add: q_DeleteFunc_def queue_inv_def counter_exact_def)
qed

lemma queue_inv_only_meta:
  assumes "only_meta w w'" and "queue_inv w q rs"
  shows "queue_inv w' q rs"
  using assms only_metaD(6) [OF assms(1)]
  by (simp add: queue_inv_def counter_exact_def count_of_only_meta)

lemma distinct_subseq: "subseq xs ys \<Longrightarrow> distinct ys \<Longrightarrow> distinct xs"
  by (auto simp: subseq_conv_nths intro: distinct_nthsI)

lemma survivors_subseq: "subseq (survivors hk seen rs) rs"
  by (induction rs arbitrary: seen) (auto split: option.splits)

text \<open>The hooks that have a task in a list; a compaction leaves a task of each.\<close>

abbreviation hook_name_of :: "qworld \<Rightarrow> taskref \<Rightarrow> string option" where
  "hook_name_of w r \<equiv> map_option HookName (HookMetadataAccessor (Metadata (tasks w r)))"

definition hook_names :: "qworld \<Rightarrow> taskref list \<Rightarrow> string option set" where
  "hook_names w rs = hook_name_of w ` set rs"

lemma hook_names_only_meta: "only_meta w w' \<Longrightarrow> hook_names w' rs = hook_names w rs"
  by (simp add: hook_names_def only_meta_def)

lemma hook_names_append: "hook_names w (xs @ ys) = hook_names w xs \<union> hook_names w ys"
  by (simp add: hook_names_def image_Un)

lemma survivors_image:
  assumes "\<And>r h. hk r = Some h \<Longrightarrow> f r = Some h"
  shows "f ` set (survivors hk seen rs) \<union> Some ` seen = f ` set rs \<union> Some ` seen"
proof (induction rs arbitrary: seen)
  case (Cons r rs)
  show ?case
  proof (cases "hk r")
    case None
    then show ?thesis using Cons.IH [of seen] by simp
  next
    case (Some h)
    then show ?thesis using Cons.IH [of seen] Cons.IH [of "insert h seen"] assms [OF Some] by auto
  qed
qed simp

lemma survivors_hook_names: "hook_names w (survivors (hook_of w q cids) {} rs) = hook_names w rs"
proof -
  have "hook_name_of w r = Some h" if "hook_of w q cids r = Some h" for r h
    using that by (auto simp: hook_of_def compactable_meta_def split: if_splits option.splits)
  from survivors_image [of "hook_of w q cids" "hook_name_of w" "{}" rs, OF this] show ?thesis
    by (simp add: hook_names_def)
qed

context queue_runtime
begin

lemma compaction_inv:
  assumes "queue_inv w q rs"
  shows "\<exists>w' q'. compaction rt cids w q = Some (w', q') \<and> only_meta w w' \<and> same_queue q q' \<and>
     queue_inv w' q' (survivors (hook_of w q cids) {} rs) \<and>
     (2 \<le> length rs \<longrightarrow> reachedCap (queueTasksCounter q') = {})"
  using compaction_exact [of w q rs cids] assms unfolding queue_inv_def by blast

lemma AddLast_inv:
  assumes "queue_inv w q rs" and "distinct (map (GetId w) (rs @ new))" and "fits64 (rs @ new)"
  shows "\<exists>w' q' rs'. AddLast rt new w q = Some (w', q') \<and> only_meta w w' \<and> queue_inv w' q' rs' \<and>
     subseq rs' (rs @ new) \<and> hook_names w rs' = hook_names w (rs @ new) \<and>
     ((\<forall>r \<in> set new. task_Type (tasks w r) \<notin> compactableTypes q) \<longrightarrow> rs' = rs @ new)"
  using assms
proof (induction new arbitrary: w q rs)
  case Nil
  then show ?case by (intro exI [of _ w] exI [of _ q] exI [of _ rs]) (simp add: only_meta_refl)
next
  case (Cons r new)
  have seq: "task_seq (GetId w) (storage q) rs" using Cons.prems(1) by (simp add: queue_inv_def)
  have "distinct (map (GetId w) (rs @ [r]))" using Cons.prems(2) by auto
  from storage.add_last_law [OF seq this] obtain ts where
    ts: "addLast (GetId w) (storage q) [r] = Some ts" "task_seq (GetId w) ts (rs @ [r])" by blast
  let ?q = "count_all w [r] (q\<lparr>storage := ts\<rparr>)"
  have inv: "queue_inv w ?q (rs @ [r])"
    using storage_update_inv [OF Cons.prems(1), of ts rs "[r]" "[]"] ts(2) Cons.prems(3) by simp
  let ?go = "task_Type (tasks w r) \<in> compactableTypes ?q \<and>
     Length (storage ?q) > compactionThreshold \<and> IsAnyCapReached (queueTasksCounter ?q)"
  obtain w1 q1 rs1 where
    one: "(if ?go then compaction rt (GetReachedCap (queueTasksCounter ?q)) w ?q else Some (w, ?q)) = Some (w1, q1)"
      "only_meta w w1" "queue_inv w1 q1 rs1" "subseq rs1 (rs @ [r])" "compactableTypes q1 = compactableTypes q"
      "hook_names w rs1 = hook_names w (rs @ [r])" "\<not> ?go \<longrightarrow> rs1 = rs @ [r]"
  proof (cases ?go)
    case True
    from compaction_inv [OF inv, of "GetReachedCap (queueTasksCounter ?q)"] obtain w1 q1 where
      "compaction rt (GetReachedCap (queueTasksCounter ?q)) w ?q = Some (w1, q1)" "only_meta w w1" "same_queue ?q q1"
      "queue_inv w1 q1 (survivors (hook_of w ?q (GetReachedCap (queueTasksCounter ?q))) {} (rs @ [r]))" by blast
    moreover from this(3) have "compactableTypes q1 = compactableTypes ?q"
      unfolding same_queue_def by (metis TaskQueue.select_convs(4) TaskQueue.surjective TaskQueue.update_convs(2,3))
    ultimately show thesis using True survivors_subseq survivors_hook_names
      by (intro that [of w1 q1 "survivors (hook_of w ?q (GetReachedCap (queueTasksCounter ?q))) {} (rs @ [r])"])
        (simp_all del: count_all_simps(3))
  next
    case False
    with inv show thesis by (intro that [of w ?q "rs @ [r]"]) (auto simp: only_meta_refl)
  qed
  have id: "GetId w1 = GetId w" by (rule only_metaD(6) [OF one(2)])
  have "subseq (rs1 @ new) ((rs @ [r]) @ new)" using one(4) by (rule list_emb_append_mono) simp
  then have sub: "subseq (rs1 @ new) (rs @ r # new)" by simp
  have d1: "distinct (map (GetId w1) (rs1 @ new))"
    using distinct_subseq [OF subseq_map [OF sub, of "GetId w"]] Cons.prems(2) by (simp only: id)
  have f1: "fits64 (rs1 @ new)" using list_emb_length [OF sub] Cons.prems(3) by simp
  from Cons.IH [OF one(3) d1 f1] obtain w' q' rs' where
    IH: "AddLast rt new w1 q1 = Some (w', q')" "only_meta w1 w'" "queue_inv w' q' rs'" "subseq rs' (rs1 @ new)" "hook_names w1 rs' = hook_names w1 (rs1 @ new)"
      "(\<forall>r \<in> set new. task_Type (tasks w1 r) \<notin> compactableTypes q1) \<longrightarrow> rs' = rs1 @ new" by blast
  have "AddLast rt (r # new) w q = Some (w', q')"
    using ts(1) one(1) IH(1) by (simp add: Let_def)
  moreover have "subseq rs' (rs @ r # new)" using IH(4) sub by (rule subseq_order.trans)
  moreover have "(\<forall>r' \<in> set (r # new). task_Type (tasks w r') \<notin> compactableTypes q) \<longrightarrow> rs' = rs @ r # new"
    using IH(6) one(5,7) only_metaD(2) [OF one(2)] by simp
  moreover have "hook_names w rs' = hook_names w (rs @ r # new)"
    using IH(5) one(6) hook_names_append [of w "rs @ [r]" new]
    by (simp add: hook_names_only_meta [OF one(2)] hook_names_append)
  ultimately show ?case using only_meta_trans [OF one(2) IH(2)] IH(3) by blast
qed

end

section \<open>Properties\<close>

lemma queue_runtimeI:
  assumes "\<And>c n. n \<le> rt_grow rt c n" and "\<And>ks. distinct ks \<Longrightarrow> distinct (rt_range rt ks) \<and> set (rt_range rt ks) = set ks"
  shows "queue_runtime rt"
  using assms by unfold_locales

lemma demo_inv:
  "\<exists>q. NewTasksQueue ''main'' True [WithContext, WithHandler, WithCompactableTypes [HookRun]] = Some q \<and>
     queue_inv demo_world q [] \<and> compactableTypes q = {HookRun}"
proof -
  obtain q where q: "NewTasksQueue ''main'' True [WithContext, WithHandler, WithCompactableTypes [HookRun]] = Some q"
    "storage q = newTaskStorage" "queueTasksCounter q = \<lparr>tc_queueName = ''main'', counter = Map.empty,
       reachedCap = {}, countableTypes = {HookRun}\<rparr>" "compactableTypes q = {HookRun}"
    by (simp add: NewTasksQueue_def NewTaskCounter_def)
  then show ?thesis using task_seq_new
    by (auto simp: queue_inv_def counter_exact_def counts_def count_of_def)
qed

text \<open>
  C1. Which tasks a compaction leaves: for every runtime the language allows, of the compactable
  tasks of a hook the first stays and the others go, every other task stays, the order is kept;
  no task changes but for its metadata; index and counters stay exact, and the marks that asked for
  the compaction are cleared.
\<close>

theorem compaction_survivors:
  assumes "\<And>c n. n \<le> rt_grow rt c n"
    and "\<And>ks. distinct ks \<Longrightarrow> distinct (rt_range rt ks) \<and> set (rt_range rt ks) = set ks"
    and "queue_inv w q rs"
  shows "\<exists>w' q'. compaction rt cids w q = Some (w', q') \<and> only_meta w w' \<and> same_queue q q' \<and>
     queue_inv w' q' (survivors (hook_of w q cids) {} rs) \<and>
     (2 \<le> length rs \<longrightarrow> \<not> IsAnyCapReached (queueTasksCounter q'))"
  using queue_runtime.compaction_inv [OF queue_runtimeI assms(3), of rt cids] assms(1,2)
  by (auto simp: IsAnyCapReached_def)

theorem compaction_survivors_witness:
  "\<exists>q0 q w' q'. NewTasksQueue ''main'' True [WithContext, WithHandler, WithCompactableTypes [HookRun]] = Some q0 \<and>
     AddFirst demo_world [0, 1, 2, 3] q0 = Some q \<and>
     compaction pooled_runtime {} demo_world q = Some (w', q') \<and> GetSnapshot (storage q') = Some [0, 2]"
proof -
  from demo_inv obtain q0 where
    q0: "NewTasksQueue ''main'' True [WithContext, WithHandler, WithCompactableTypes [HookRun]] = Some q0"
      "queue_inv demo_world q0 []" "compactableTypes q0 = {HookRun}" by blast
  have d: "distinct (map (GetId demo_world) ([0, 1, 2, 3] @ []))" by code_simp
  from AddFirst_inv [OF q0(2) d] obtain q where
    q: "AddFirst demo_world [0, 1, 2, 3] q0 = Some q" "queue_inv demo_world q [0, 1, 2, 3]" by auto
  have types: "compactableTypes q = {HookRun}"
    using AddFirst_types [OF q(1)] q0(3) by simp
  have hk: "hook_of demo_world q {} r = Some (if r < 2 then ''hookA'' else ''hookB'')" for r
    by (simp add: hook_of_def compactable_meta_def types demo_world_def demo_task_def NewTask_def HookMetadataAccessor_def)
  have "survivors (hook_of demo_world q {}) {} [0, 1, 2, 3] = [0, 2]" by (simp add: hk)
  with compaction_survivors [OF pooled_rt.grow.grow_enough pooled_rt.visit_all q(2), of "{}"] obtain w' q' where
    "compaction pooled_runtime {} demo_world q = Some (w', q')" "queue_inv w' q' [0, 2]" by auto
  with q0(1) q(1) reads_seq(2) show ?thesis by (fastforce simp: queue_inv_def)
qed

text \<open>
  C5. What a compacted task carries, when the pools hand out no used slice: the binding contexts of
  all tasks merged into it, in queue order and compacted by group, and all their monitor ids; a
  task that was not a target of a merge carries what it did.
\<close>

theorem compaction_merges:
  assumes "\<And>c n. n \<le> rt_grow rt c n"
    and "\<And>ks. distinct ks \<Longrightarrow> distinct (rt_range rt ks) \<and> set (rt_range rt ks) = set ks"
    and "rt_ctxPick rt = (\<lambda>_. None)" and "rt_monPick rt = (\<lambda>_. None)"
    and "world_ok w" and "queue_inv w q rs" and "compaction rt cids w q = Some (w', q')"
    and "r \<in> set (survivors (hook_of w q cids) {} rs)"
  shows "merged_as (rt_range rt) w w' r (merged_from w q cids rs r)"
  using queue_runtime.compaction_vals [OF queue_runtimeI assms(3-5) _ assms(7,8)] assms(1,2,6)
  by (simp add: queue_inv_def)

theorem compaction_merges_witness:
  "\<exists>q0 q w' q'. NewTasksQueue ''main'' True [WithContext, WithHandler, WithCompactableTypes [HookRun]] = Some q0 \<and>
     AddFirst demo_world [0, 1, 2, 3] q0 = Some q \<and>
     compaction fresh_runtime {} demo_world q = Some (w', q') \<and> mon_vals w' 0 = [''A'', ''B'']"
proof -
  from demo_inv obtain q0 where
    q0: "NewTasksQueue ''main'' True [WithContext, WithHandler, WithCompactableTypes [HookRun]] = Some q0"
      "queue_inv demo_world q0 []" "compactableTypes q0 = {HookRun}" by blast
  have d: "distinct (map (GetId demo_world) ([0, 1, 2, 3] @ []))" by code_simp
  from AddFirst_inv [OF q0(2) d] obtain q where
    q: "AddFirst demo_world [0, 1, 2, 3] q0 = Some q" "queue_inv demo_world q [0, 1, 2, 3]" by auto
  have types: "compactableTypes q = {HookRun}"
    using AddFirst_types [OF q(1)] q0(3) by simp
  have hk: "hook_of demo_world q {} r = Some (if r < 2 then ''hookA'' else ''hookB'')" for r
    by (simp add: hook_of_def compactable_meta_def types demo_world_def demo_task_def NewTask_def HookMetadataAccessor_def)
  have surv: "0 \<in> set (survivors (hook_of demo_world q {}) {} [0, 1, 2, 3])" by (simp add: hk)
  have picks: "rt_ctxPick fresh_runtime = (\<lambda>_. None)" "rt_monPick fresh_runtime = (\<lambda>_. None)"
    by (simp_all add: fresh_runtime_def)
  have mv: "mon_vals demo_world 0 = [''A'']" "mon_vals demo_world (Suc 0) = [''B'']" by code_simp+
  have wok: "world_ok demo_world" by (rule demo_world_ok)
  from fresh_rt.compaction_inv [OF q(2), of "{}"] obtain w' q' where
    c: "compaction fresh_runtime {} demo_world q = Some (w', q')" by blast
  from compaction_merges [OF fresh_rt.grow.grow_enough fresh_rt.visit_all picks wok q(2) c surv]
  have "mon_vals w' 0 = [''A'', ''B'']"
    by (simp add: merged_as_def merged_from_def hk mv)
  with q0(1) q(1) c show ?thesis by blast
qed


text \<open>
  Adding to the tail: the queue ends up with the old tasks followed by the new ones, less tasks
  merged by compactions; every hook that had a task still has one, and without a compactable task nothing is merged;
  index and counters stay exact.
\<close>

lemma AddLast_keeps_invariant:
  assumes "\<And>c n. n \<le> rt_grow rt c n"
    and "\<And>ks. distinct ks \<Longrightarrow> distinct (rt_range rt ks) \<and> set (rt_range rt ks) = set ks"
    and "queue_inv w q rs" and "distinct (map (GetId w) (rs @ new))" and "fits64 (rs @ new)"
  shows "\<exists>w' q' rs'. AddLast rt new w q = Some (w', q') \<and> only_meta w w' \<and> queue_inv w' q' rs' \<and>
     subseq rs' (rs @ new) \<and> hook_names w rs' = hook_names w (rs @ new) \<and>
     ((\<forall>r \<in> set new. task_Type (tasks w r) \<notin> compactableTypes q) \<longrightarrow> rs' = rs @ new)"
  using queue_runtime.AddLast_inv [OF queue_runtimeI assms(3-5)] assms(1,2) by blast



end
