(* ===== verification/Queue_Worker.thy ===== *)
theory Queue_Worker
  imports Queue_Ops
begin

text \<open>
  The worker of a queue (\<open>Start\<close>, \<open>waitForTask\<close>, \<open>processOne\<close> of
  \<open>pkg/task/queue/task_queue.go\<close>) and the periodic metrics.

  The task handler is a parameter: it gets the world and the queue (handlers add tasks) and gives
  both back with the task result, or \<open>None\<close> when it panics; the callback \<open>AfterHandle\<close> of a result
  likewise gives \<open>True\<close> when it panics. Waiting is a loop over ticks of the check ticker: a tick
  says what other goroutines did to the queue since the last one, whether the context was
  cancelled, and the time elapsed; the loop gives \<open>WaitMore\<close> when it is still waiting after the
  ticks it is given. A panic while the queue's lock is held leaves the queue half changed; it is
  \<open>None\<close>, and under the invariant there is none.
\<close>

section \<open>Processing one task\<close>

type_synonym task_handler = "qworld \<Rightarrow> TaskQueue \<Rightarrow> taskref \<Rightarrow> taskref TaskResult option \<times> qworld \<times> TaskQueue"
type_synonym after_handle = "qworld \<Rightarrow> TaskQueue \<Rightarrow> bool \<times> qworld \<times> TaskQueue"

definition no_after :: after_handle where
  "no_after w q = (False, w, q)"

text \<open>The deferred \<open>recover\<close>.\<close>

definition recover_task :: "qruntime \<Rightarrow> taskref \<Rightarrow> qworld \<Rightarrow> TaskQueue \<Rightarrow> duration \<times> bool \<times> qworld \<times> TaskQueue" where
  "recover_task rt r w q =
     (let w = upd_task r IncrementFailureCount (upd_task r (SetProcessing False) w);
          d = rt_backoff rt (FailureCount (tasks w r)) in
      (d, False, w, SetStatusText (''sleep after panic for '' @ Duration_String d) (SetStatus QueueStatusIdle q)))"

text \<open>The switch on the status of the result.\<close>

definition apply_result :: "qruntime \<Rightarrow> taskref TaskResult \<Rightarrow> taskref \<Rightarrow> qworld \<Rightarrow> TaskQueue \<Rightarrow>
    (duration \<times> qworld \<times> TaskQueue) option" where
  "apply_result rt res r w q =
     (case Status res of
        UnknownStatus _ \<Rightarrow> Some (0, w, q)
      | Fail \<Rightarrow>
          (let w = upd_task r (SetProcessing False) w;
               d = rt_backoff rt (FailureCount (tasks w r)) in
           Some (d, upd_task r IncrementFailureCount w,
             SetStatusText (''sleep after fail for '' @ Duration_String d) q))
      | Repeat \<Rightarrow>
          Some (DelayOnRepeat q, upd_task r (SetProcessing False) w, SetStatus QueueStatusRepeatTask q)
      | _ \<Rightarrow> do {
          ts \<leftarrow> ProcessResult (GetId w) (storage q) res r;
          Some (0, upd_task r (SetProcessing False) w, SetStatus QueueStatusIdle (q\<lparr>storage := ts\<rparr>))
        })"

definition processOne :: "qruntime \<Rightarrow> task_handler \<Rightarrow> after_handle \<Rightarrow> taskref \<Rightarrow> qworld \<Rightarrow> TaskQueue \<Rightarrow>
    (duration \<times> bool \<times> qworld \<times> TaskQueue) option" where
  "processOne rt handler after r w q = do {
     (w, q) \<leftarrow> (if IsAnyCapReached (queueTasksCounter q)
                 then compaction rt (GetReachedCap (queueTasksCounter q)) w q else Some (w, q));
     let w = upd_task r (SetProcessing True) w;
     let q = SetStatus QueueStatusRunningTask q;
     (case handler w q r of
        (None, w, q) \<Rightarrow> Some (recover_task rt r w q)
      | (Some res, w, q) \<Rightarrow>
          if \<not> hasContext q then Some (recover_task rt r w q)
          else if ctxDone q then Some (0, True, w, SetStatus QueueStatusStop q)
          else do {
            (d, w, q) \<leftarrow> apply_result rt res r w q;
            let (d, q) = (if DelayBeforeNextTask res \<noteq> 0
                          then (DelayBeforeNextTask res,
                                SetStatusText (''sleep for '' @ Duration_String (DelayBeforeNextTask res)) q)
                          else (d, q));
            (case after w q of
               (True, w, q) \<Rightarrow> Some (recover_task rt r w q)
             | (False, w, q) \<Rightarrow> Some (d, False, w, q))
          })
   }"

section \<open>Waiting for a task\<close>

record tick =
  tk_env :: "TaskQueue \<Rightarrow> TaskQueue"
  tk_done :: bool
  tk_elapsed :: duration
  tk_now :: duration

datatype wait_result = WaitTask taskref | WaitStopped | WaitMore

definition finish_wait :: "QueueStatusType \<times> string \<Rightarrow> TaskQueue \<Rightarrow> TaskQueue" where
  "finish_wait orig q = q\<lparr>waitInProgress := False, cancelDelay := False, status := status_Restore orig (status q)\<rparr>"

definition first_task :: "TaskQueue \<Rightarrow> wait_result option" where
  "first_task q = map_option (\<lambda>t. case t of Some r \<Rightarrow> WaitTask r | None \<Rightarrow> WaitStopped) (GetFirst (storage q))"

definition wait_status :: "duration \<Rightarrow> QueueStatusType \<times> string \<Rightarrow> duration \<Rightarrow> string" where
  "wait_status sleepDelay orig now =
     (let waitTime = Duration_Truncate now Second in
      if sleepDelay = 0 then ''waiting for task '' @ Duration_String waitTime
      else
        (let delay = Duration_Truncate sleepDelay Second;
             origStr = (if snd orig = [] then QueueStatusType_String (fst orig) else snd orig) in
         origStr @ '' ('' @ Duration_String (delay - waitTime) @ '' left of '' @ Duration_String delay @ '' delay)''))"

fun wait_loop :: "duration \<Rightarrow> QueueStatusType \<times> string \<Rightarrow> duration \<Rightarrow> tick list \<Rightarrow> TaskQueue \<Rightarrow>
    (wait_result \<times> TaskQueue) option" where
  "wait_loop sleepDelay orig waitUntil [] q = Some (WaitMore, q)"
| "wait_loop sleepDelay orig waitUntil (t # ticks) q =
     (let q = tk_env t q in
      if tk_done t then Some (WaitStopped, finish_wait orig q)
      else
        (let waitUntil = (if cancelDelay q then tk_elapsed t else waitUntil);
             checkTask = (tk_elapsed t \<ge> waitUntil) in
         if checkTask \<and> Length (storage q) \<noteq> 0
         then map_option (\<lambda>res. (res, finish_wait orig q)) (first_task q)
         else wait_loop sleepDelay orig (if checkTask then waitUntil + DelayOnQueueIsEmpty q else waitUntil)
                ticks (SetStatusText (wait_status sleepDelay orig (tk_now t)) q)))"

definition waitForTask :: "duration \<Rightarrow> tick list \<Rightarrow> TaskQueue \<Rightarrow> (wait_result \<times> TaskQueue) option" where
  "waitForTask sleepDelay ticks q =
     (if ctxDone q then Some (WaitStopped, q)
      else if Length (storage q) > 0 \<and> sleepDelay = 0 then map_option (\<lambda>res. (res, q)) (first_task q)
      else wait_loop sleepDelay (status_Snapshot (status q))
             (if sleepDelay \<noteq> 0 then sleepDelay else DelayOnQueueIsEmpty q) ticks
             (q\<lparr>waitInProgress := True, cancelDelay := False\<rparr>))"

text \<open>One round of the loop in \<open>Start\<close>: wait, then process.\<close>

definition worker_round :: "qruntime \<Rightarrow> task_handler \<Rightarrow> after_handle \<Rightarrow> tick list \<Rightarrow> duration \<Rightarrow> qworld \<Rightarrow> TaskQueue \<Rightarrow>
    (duration \<times> bool \<times> qworld \<times> TaskQueue) option" where
  "worker_round rt handler after ticks sleepDelay w q = do {
     (res, q) \<leftarrow> waitForTask sleepDelay ticks q;
     (case res of
        WaitMore \<Rightarrow> Some (sleepDelay, False, w, q)
      | WaitStopped \<Rightarrow> Some (0, True, w, SetStatus QueueStatusStop q)
      | WaitTask r \<Rightarrow> processOne rt handler after r w q)
   }"

text \<open>\<open>Start\<close> up to the launch of the goroutine: \<open>True\<close> when a worker is started.\<close>

definition q_Start :: "TaskQueue \<Rightarrow> bool \<times> TaskQueue" where
  "q_Start q =
     (if q_started q then (False, q)
      else if \<not> hasHandler q then (False, SetStatus QueueStatusNoHandlerSet q)
      else (True, (SetStatus QueueStatusIdle q)\<lparr>q_started := True\<rparr>))"

section \<open>Metrics and description\<close>

fun bump :: "string \<Rightarrow> (string \<times> 64 word) list \<Rightarrow> (string \<times> 64 word) list" where
  "bump h [] = [(h, 1)]"
| "bump h ((k, n) # xs) = (if k = h then (k, n + 1) # xs else (k, n) # bump h xs)"

definition updateCompactionMetrics :: "qworld \<Rightarrow> TaskQueue \<Rightarrow> (string \<times> string \<times> 64 word) list option" where
  "updateCompactionMetrics w q = do {
     rs \<leftarrow> GetSnapshot (storage q);
     let hookCounts = fold (\<lambda>r acc.
           if task_Type (tasks w r) \<notin> compactableTypes q then acc
           else (case HookMetadataAccessor (Metadata (tasks w r)) of
                   None \<Rightarrow> acc
                 | Some m \<Rightarrow> if HookName m \<noteq> [] then bump (HookName m) acc else acc)) rs [];
     Some (UpdateHookMetricsFromSnapshot (queueTasksCounter q) hookCounts)
   }"

definition q_String :: "qworld \<Rightarrow> TaskQueue \<Rightarrow> string option" where
  "q_String w q = do {
     rs \<leftarrow> GetSnapshot (storage q);
     Some (strings_join '', '' (map (\<lambda>r. ''['' @ GetDescription (tasks w r) @ '',id='' @
       (let i = take 10 (GetId w r) in replicate (10 - length i) (CHR '' '') @ i) @ '']'') rs))
   }"

section \<open>Lemmas\<close>

lemma upd_task_simps [simp]:
  "tasks (upd_task r f w) = (tasks w)(r := f (tasks w r))" "ctxs (upd_task r f w) = ctxs w" "mons (upd_task r f w) = mons w"
  by (simp_all add: upd_task_def)

lemma GetId_upd [simp]:
  "GetId (upd_task r (SetProcessing b) w) = GetId w" "GetId (upd_task r IncrementFailureCount w) = GetId w"
  by (auto simp: GetId_def fun_eq_iff)

lemma status_simps [simp]:
  "storage (SetStatus s q) = storage q" "storage (SetStatusText x q) = storage q"
  "queueTasksCounter (SetStatus s q) = queueTasksCounter q" "queueTasksCounter (SetStatusText x q) = queueTasksCounter q"
  "hasContext (SetStatus s q) = hasContext q" "ctxDone (SetStatus s q) = ctxDone q"
  "DelayOnRepeat (SetStatus s q) = DelayOnRepeat q" "DelayOnQueueIsEmpty (SetStatusText x q) = DelayOnQueueIsEmpty q"
  "cancelDelay (SetStatusText x q) = cancelDelay q"
  by (simp_all add: SetStatus_def SetStatusText_def)

lemma same_queue_flags:
  "same_queue q q' \<Longrightarrow> hasContext q' = hasContext q \<and> ctxDone q' = ctxDone q \<and> DelayOnRepeat q' = DelayOnRepeat q"
  unfolding same_queue_def by (metis TaskQueue.select_convs(10,11,14) TaskQueue.surjective TaskQueue.update_convs(2,3))

lemma only_meta_FailureCount: "only_meta w w' \<Longrightarrow> FailureCount (tasks w' r) = FailureCount (tasks w r)"
  unfolding only_meta_def UpdateMetadata_def by (metis BaseTask.select_convs(4) BaseTask.surjective BaseTask.update_convs(9))

lemma survivors_head: "\<exists>rest'. survivors hk {} (r # rest) = r # rest' \<and> subseq rest' rest"
  using survivors_subseq [of hk _ rest] by (cases "hk r") auto

text \<open>The compaction the worker does before it hands a task over.\<close>

definition precompact :: "qruntime \<Rightarrow> qworld \<Rightarrow> TaskQueue \<Rightarrow> (qworld \<times> TaskQueue) option" where
  "precompact rt w q = (if IsAnyCapReached (queueTasksCounter q)
     then compaction rt (GetReachedCap (queueTasksCounter q)) w q else Some (w, q))"

context queue_runtime
begin

lemma precompact_inv:
  assumes "queue_inv w q (r # rest)"
  shows "\<exists>w' q' rest'. precompact rt w q = Some (w', q') \<and> only_meta w w' \<and> same_queue q q' \<and>
     queue_inv w' q' (r # rest') \<and> subseq rest' rest \<and>
     (\<not> IsAnyCapReached (queueTasksCounter q) \<longrightarrow> rest' = rest \<and> q' = q)"
proof (cases "IsAnyCapReached (queueTasksCounter q)")
  case True
  from compaction_inv [OF assms, of "GetReachedCap (queueTasksCounter q)"] obtain w' q' where
    "compaction rt (GetReachedCap (queueTasksCounter q)) w q = Some (w', q')" "only_meta w w'" "same_queue q q'"
    "queue_inv w' q' (survivors (hook_of w q (GetReachedCap (queueTasksCounter q))) {} (r # rest))" by blast
  with True survivors_head [of "hook_of w q (GetReachedCap (queueTasksCounter q))" r rest] show ?thesis
    by (auto simp: precompact_def)
next
  case False
  with assms show ?thesis by (auto simp: precompact_def only_meta_refl)
qed

end

text \<open>What the queue and the delay are after a task was processed, by outcome.\<close>

definition settled :: "qruntime \<Rightarrow> taskref TaskResult option \<Rightarrow> taskref \<Rightarrow> taskref list \<Rightarrow> nat \<Rightarrow> duration \<Rightarrow>
    taskref list \<times> nat \<times> duration" where
  "settled rt out r rest failures repeatDelay =
     (case out of
        None \<Rightarrow> (r # rest, failures + 1, rt_backoff rt (failures + 1))
      | Some res \<Rightarrow>
          (let own = DelayBeforeNextTask res;
               delay = (\<lambda>d. if own \<noteq> 0 then own else d) in
           case Status res of
             Success \<Rightarrow> (headTasks res @ afterTasks res @ rest @ tailTasks res, failures, delay 0)
           | Keep \<Rightarrow> (headTasks res @ r # afterTasks res @ rest @ tailTasks res, failures, delay 0)
           | Fail \<Rightarrow> (r # rest, failures + 1, delay (rt_backoff rt failures))
           | Repeat \<Rightarrow> (r # rest, failures, delay repeatDelay)
           | UnknownStatus _ \<Rightarrow> (r # rest, failures, delay 0)))"

definition new_tasks :: "taskref TaskResult option \<Rightarrow> taskref list" where
  "new_tasks out = (case out of None \<Rightarrow> [] | Some res \<Rightarrow> headTasks res @ afterTasks res @ tailTasks res)"

definition known_status :: "taskref TaskResult option \<Rightarrow> bool" where
  "known_status out \<longleftrightarrow> (case out of None \<Rightarrow> True | Some res \<Rightarrow> Status res \<in> {Success, Fail, Repeat, Keep})"

lemma apply_result_settled:
  assumes seq: "task_seq (GetId w) (storage q) (r # rest)"
    and dist: "distinct (map (GetId w) (headTasks res @ r # afterTasks res @ rest @ tailTasks res))"
  shows "\<exists>d w' q'. apply_result rt res r w q = Some (d, w', q') \<and> GetId w' = GetId w \<and>
     (let (rs, fails, delay) = settled rt (Some res) r rest (FailureCount (tasks w r)) (DelayOnRepeat q) in
      task_seq (GetId w') (storage q') rs \<and> FailureCount (tasks w' r) = fails \<and>
      (if DelayBeforeNextTask res \<noteq> 0 then DelayBeforeNextTask res else d) = delay) \<and>
     (Status res \<in> {Success, Fail, Repeat, Keep} \<longrightarrow> \<not> processing (tasks w' r)) \<and>
     queueTasksCounter q' = queueTasksCounter q"
proof -
  have settle: "\<exists>ts. ProcessResult (GetId w) (storage q) res r = Some ts \<and>
      task_seq (GetId w) ts (headTasks res @ (if Status res = Success then [] else [r]) @ afterTasks res @ rest @ tailTasks res)"
    using storage.settle_seq [of "GetId w" "storage q" "[]" r rest "headTasks res" "afterTasks res" "tailTasks res"
        "Status res = Success"] seq dist by (simp add: ProcessResult_settle)
  show ?thesis
  proof (cases "Status res")
    case Success
    with settle show ?thesis by (auto simp: apply_result_def settled_def Let_def)
  next
    case Keep
    with settle show ?thesis by (auto simp: apply_result_def settled_def Let_def)
  next
    case Fail
    with seq show ?thesis
      by (simp add: apply_result_def settled_def Let_def)
  next
    case Repeat
    with seq show ?thesis by (simp add: apply_result_def settled_def Let_def)
  next
    case (UnknownStatus u)
    with seq show ?thesis by (simp add: apply_result_def settled_def Let_def)
  qed
qed

section \<open>Properties\<close>

text \<open>
  C2. Processing the head task, for every outcome of its handler. Success takes the task out, puts
  its after tasks in its place, head tasks before and tail tasks behind the rest; Keep does the same
  but leaves the task; on Fail, Repeat and a panic the task stays first. The delay is the result's
  own delay, or the backoff for the number of failures (counted before the failure is added; after
  it for a panic), or the repeat delay. The task is no longer marked as processing and the worker
  goes on.
\<close>

theorem processOne_outcome:
  assumes "\<And>c n. n \<le> rt_grow rt c n"
    and "\<And>ks. distinct ks \<Longrightarrow> distinct (rt_range rt ks) \<and> set (rt_range rt ks) = set ks"
    and inv: "queue_inv w q (r # rest)" and ctx: "hasContext q" "\<not> ctxDone q"
    and dist: "distinct (map (GetId w) (new_tasks out @ r # rest))"
  shows "\<exists>d w' q' rest'. processOne rt (\<lambda>w q r. (out, w, q)) no_after r w q = Some (d, False, w', q') \<and>
     subseq rest' rest \<and> (\<not> IsAnyCapReached (queueTasksCounter q) \<longrightarrow> rest' = rest) \<and>
     (let (rs, fails, delay) = settled rt out r rest' (FailureCount (tasks w r)) (DelayOnRepeat q) in
      task_seq (GetId w') (storage q') rs \<and> FailureCount (tasks w' r) = fails \<and> d = delay) \<and>
     (known_status out \<longrightarrow> \<not> processing (tasks w' r))"
proof -
  from queue_runtime.precompact_inv [OF queue_runtimeI inv, of rt] assms(1,2) obtain w0 q0 rest' where
    pre: "precompact rt w q = Some (w0, q0)" "only_meta w w0" "same_queue q q0" "queue_inv w0 q0 (r # rest')"
      "subseq rest' rest" "\<not> IsAnyCapReached (queueTasksCounter q) \<longrightarrow> rest' = rest" by blast
  let ?w = "upd_task r (SetProcessing True) w0" and ?q = "SetStatus QueueStatusRunningTask q0"
  have id: "GetId w0 = GetId w" by (rule only_metaD(6) [OF pre(2)])
  have fl: "FailureCount (tasks w0 r) = FailureCount (tasks w r)" by (rule only_meta_FailureCount [OF pre(2)])
  note flags = same_queue_flags [OF pre(3)]
  have seq: "task_seq (GetId ?w) (storage ?q) (r # rest')" using pre(4) by (simp add: queue_inv_def)
  show ?thesis
  proof (cases out)
    case None
    have "processOne rt (\<lambda>w q r. (out, w, q)) no_after r w q = Some (recover_task rt r ?w ?q)"
      using pre(1) None by (simp add: processOne_def precompact_def)
    with None seq fl pre(5,6) show ?thesis
      by (simp add: recover_task_def Let_def settled_def) blast
  next
    case (Some res)
    have "subseq (new_tasks out @ r # rest') (new_tasks out @ r # rest)"
      by (intro list_emb_append_mono) (use pre(5) in simp_all)
    from distinct_subseq [OF subseq_map [OF this, of "GetId w"] dist]
    have d: "distinct (map (GetId ?w) (headTasks res @ r # afterTasks res @ rest' @ tailTasks res))"
      using Some by (auto simp: new_tasks_def id)
    from apply_result_settled [OF seq d, of rt] obtain d w' q' where
      A: "apply_result rt res r ?w ?q = Some (d, w', q')"
        "let (rs, fails, delay) = settled rt (Some res) r rest' (FailureCount (tasks ?w r)) (DelayOnRepeat ?q) in
         task_seq (GetId w') (storage q') rs \<and> FailureCount (tasks w' r) = fails \<and>
         (if DelayBeforeNextTask res \<noteq> 0 then DelayBeforeNextTask res else d) = delay"
        "Status res \<in> {Success, Fail, Repeat, Keep} \<longrightarrow> \<not> processing (tasks w' r)" by blast
    let ?d = "if DelayBeforeNextTask res \<noteq> 0 then DelayBeforeNextTask res else d"
    let ?q' = "if DelayBeforeNextTask res \<noteq> 0
      then SetStatusText (''sleep for '' @ Duration_String (DelayBeforeNextTask res)) q' else q'"
    have "processOne rt (\<lambda>w q r. (out, w, q)) no_after r w q = Some (?d, False, w', ?q')"
      using pre(1) Some A(1) ctx flags by (simp add: processOne_def precompact_def no_after_def)
    moreover have "storage ?q' = storage q'" by simp
    ultimately show ?thesis using A(2,3) Some pre(5,6) fl flags
      by (intro exI [of _ ?d] exI [of _ w'] exI [of _ ?q'] exI [of _ rest'])
        (auto simp: known_status_def Let_def split: prod.splits)
  qed
qed

lemma demo_started:
  "\<exists>q0 q. NewTasksQueue ''main'' True [WithContext, WithHandler, WithCompactableTypes [HookRun]] = Some q0 \<and>
     AddFirst demo_world [0, 1] q0 = Some q \<and> queue_inv demo_world q [0, 1] \<and> hasContext q \<and> \<not> ctxDone q \<and>
     \<not> IsAnyCapReached (queueTasksCounter q) \<and> countableTypes (queueTasksCounter q) = {HookRun}"
proof -
  obtain q0 where q0: "NewTasksQueue ''main'' True [WithContext, WithHandler, WithCompactableTypes [HookRun]] = Some q0"
    "storage q0 = newTaskStorage" "queueTasksCounter q0 = \<lparr>tc_queueName = ''main'', counter = Map.empty,
       reachedCap = {}, countableTypes = {HookRun}\<rparr>" "hasContext q0" "\<not> ctxDone q0"
    by (simp add: NewTasksQueue_def NewTaskCounter_def)
  have inv0: "queue_inv demo_world q0 []" using q0(2,3) task_seq_new
    by (simp add: queue_inv_def counter_exact_def counts_def count_of_def)
  have d: "distinct (map (GetId demo_world) ([0, 1] @ []))" by code_simp
  from AddFirst_inv [OF inv0 d] obtain q where
    q: "AddFirst demo_world [0, 1] q0 = Some q" "queue_inv demo_world q [0, 1]" by auto
  have "hasContext q = hasContext q0" "ctxDone q = ctxDone q0"
    "queueTasksCounter q = fold (\<lambda>r tc. counter_Add tc (tasks demo_world r)) [0, 1] (queueTasksCounter q0)"
    using q(1) unfolding AddFirst_def bind_eq_Some_conv by (auto simp: count_all_def)
  moreover have "reachedCap (fold (\<lambda>r tc. counter_Add tc (tasks demo_world r)) [0, 1] \<lparr>tc_queueName = ''main'',
       counter = Map.empty, reachedCap = {}, countableTypes = {HookRun}\<rparr>) = {}"
    "countableTypes (fold (\<lambda>r tc. counter_Add tc (tasks demo_world r)) [0, 1] \<lparr>tc_queueName = ''main'',
       counter = Map.empty, reachedCap = {}, countableTypes = {HookRun}\<rparr>) = {HookRun}"
    by code_simp+
  ultimately show ?thesis using q0 q by (auto simp: IsAnyCapReached_def)
qed

theorem processOne_outcome_witness:
  "\<exists>q d w' q'. queue_inv demo_world q [0, 1] \<and>
     processOne fresh_runtime (\<lambda>w q r. (Some (AddAfterTasks (empty_result Success) [2, 3]), w, q)) no_after 0 demo_world q
       = Some (d, False, w', q') \<and> GetSnapshot (storage q') = Some [2, 3, 1] \<and> d = 0"
proof -
  let ?out = "Some (AddAfterTasks (empty_result Success) [2, 3 :: taskref])"
  from demo_started obtain q where q: "queue_inv demo_world q (0 # [1])" "hasContext q" "\<not> ctxDone q"
    "\<not> IsAnyCapReached (queueTasksCounter q)" by auto
  have d: "distinct (map (GetId demo_world) (new_tasks ?out @ 0 # [1]))" by code_simp
  from processOne_outcome [OF fresh_rt.grow.grow_enough fresh_rt.visit_all q(1-3) d] q(4) obtain d w' q' where
    "processOne fresh_runtime (\<lambda>w q r. (?out, w, q)) no_after 0 demo_world q = Some (d, False, w', q')"
    "let (rs, fails, delay) = settled fresh_runtime ?out 0 [1] (FailureCount (tasks demo_world 0)) (DelayOnRepeat q) in
      task_seq (GetId w') (storage q') rs \<and> FailureCount (tasks w' 0) = fails \<and> d = delay" by blast
  with q(1) reads_seq(2) show ?thesis
    by (fastforce simp: settled_def AddAfterTasks_def empty_result_def)
qed

text \<open>
  C37. The counter of the queue drifts: processing a countable task to Success takes the task out of
  the queue but leaves its counter as it was, so the counter is not exact any more.
\<close>

theorem processOne_leaves_counter:
  assumes inv: "queue_inv w q (r # rest)" and ctx: "hasContext q" "\<not> ctxDone q"
    and cap: "\<not> IsAnyCapReached (queueTasksCounter q)" and c: "countable (queueTasksCounter q) (tasks w r)"
  shows "\<exists>w' q'. processOne rt (\<lambda>w q r. (Some (empty_result Success), w, q)) no_after r w q = Some (0, False, w', q') \<and>
     task_seq (GetId w') (storage q') rest \<and> queueTasksCounter q' = queueTasksCounter q \<and> \<not> counter_exact w' q' rest"
proof -
  let ?w = "upd_task r (SetProcessing True) w" and ?q = "SetStatus QueueStatusRunningTask q"
  have seq: "task_seq (GetId ?w) (storage ?q) (r # rest)" using inv by (simp add: queue_inv_def)
  have d: "distinct (map (GetId ?w) (headTasks (empty_result Success) @ r # afterTasks (empty_result Success) @ rest @
      tailTasks (empty_result Success)))"
    using storage.rep_distinct [OF seq] by (simp add: empty_result_def)
  from apply_result_settled [OF seq d, of rt] obtain d w' q' where
    A: "apply_result rt (empty_result Success) r ?w ?q = Some (d, w', q')" "task_seq (GetId w') (storage q') rest" "d = 0"
      "queueTasksCounter q' = queueTasksCounter q"
    by (auto simp: settled_def empty_result_def Let_def)
  have w': "task_Type (tasks w' x) = task_Type (tasks w x)" "compactionID (tasks w' x) = compactionID (tasks w x)" for x
    using A(1) by (auto simp: apply_result_def empty_result_def bind_eq_Some_conv)
  have cnt: "count_of w' (queueTasksCounter q) = count_of w (queueTasksCounter q)"
    by (simp add: count_of_def [abs_def] countable_def w')
  have "processOne rt (\<lambda>w q r. (Some (empty_result Success), w, q)) no_after r w q = Some (0, False, w', q')"
    using cap ctx A(1,3) by (simp add: processOne_def no_after_def empty_result_def)
  moreover have "\<not> counter_exact w' q' rest"
  proof
    assume "counter_exact w' q' rest"
    then have "counts (queueTasksCounter q) (count_of w (queueTasksCounter q) (mset rest))"
      by (simp add: counter_exact_def A(4) cnt)
    moreover have "counts (queueTasksCounter q) (count_of w (queueTasksCounter q) (mset (r # rest)))"
      using inv by (simp add: queue_inv_def counter_exact_def)
    ultimately have "count_of w (queueTasksCounter q) (mset rest) = count_of w (queueTasksCounter q) (mset (r # rest))"
      by (rule counts_unique)
    then show False using c by (simp add: count_of_add fun_eq_iff split: if_splits)
  qed
  ultimately show ?thesis using A(2,4) by blast
qed

theorem processOne_leaves_counter_witness:
  "\<exists>q w' q'. queue_inv demo_world q [0, 1] \<and>
     processOne fresh_runtime (\<lambda>w q r. (Some (empty_result Success), w, q)) no_after 0 demo_world q = Some (0, False, w', q') \<and>
     \<not> counter_exact w' q' [1]"
proof -
  from demo_started obtain q where q: "queue_inv demo_world q (0 # [1])" "hasContext q" "\<not> ctxDone q"
    "\<not> IsAnyCapReached (queueTasksCounter q)" "countableTypes (queueTasksCounter q) = {HookRun}" by auto
  have "countable (queueTasksCounter q) (tasks demo_world 0)"
    using q(5) by (simp add: countable_def demo_world_def demo_task_def NewTask_def)
  from processOne_leaves_counter [OF q(1-4) this, of fresh_runtime] q(1) show ?thesis by blast
qed



lemma wait_loop_waits:
  assumes "wait_loop sleepDelay orig waitUntil ticks q = Some (WaitTask r, q')" and "\<not> cancelDelay q"
    and "\<forall>t \<in> set ticks. \<forall>q. \<not> cancelDelay q \<longrightarrow> \<not> cancelDelay (tk_env t q)"
    and "\<forall>t \<in> set ticks. \<forall>q. 0 \<le> DelayOnQueueIsEmpty q \<longrightarrow> 0 \<le> DelayOnQueueIsEmpty (tk_env t q)"
    and "0 \<le> DelayOnQueueIsEmpty q"
  shows "\<exists>t \<in> set ticks. waitUntil \<le> tk_elapsed t"
  using assms
proof (induction ticks arbitrary: waitUntil q)
  case (Cons t ticks)
  let ?q = "tk_env t q"
  have nc: "\<not> cancelDelay ?q" and dl: "0 \<le> DelayOnQueueIsEmpty ?q" using Cons.prems by auto
  show ?case
  proof (cases "waitUntil \<le> tk_elapsed t")
    case False
    have "\<not> tk_done t" using Cons.prems(1) by (auto simp: Let_def split: if_splits)
    with False nc Cons.prems(1)
    have "wait_loop sleepDelay orig waitUntil ticks (SetStatusText (wait_status sleepDelay orig (tk_now t)) ?q) =
        Some (WaitTask r, q')" by (simp add: Let_def)
    from Cons.IH [OF this] nc dl Cons.prems(3,4) show ?thesis by auto
  qed auto
qed simp

text \<open>
  Waiting does not end early: when nobody cancels the delay, the worker gets a task only at a
  tick at which the whole delay has passed.
\<close>

lemma waitForTask_waits:
  assumes "waitForTask sleepDelay ticks q = Some (WaitTask r, q')" and "sleepDelay \<noteq> 0"
    and "\<forall>t \<in> set ticks. \<forall>q. \<not> cancelDelay q \<longrightarrow> \<not> cancelDelay (tk_env t q)"
    and "\<forall>t \<in> set ticks. \<forall>q. 0 \<le> DelayOnQueueIsEmpty q \<longrightarrow> 0 \<le> DelayOnQueueIsEmpty (tk_env t q)"
    and "0 \<le> DelayOnQueueIsEmpty q"
  shows "\<exists>t \<in> set ticks. sleepDelay \<le> tk_elapsed t"
proof -
  have "\<not> ctxDone q" using assms(1) by (auto simp: waitForTask_def)
  with assms(1,2) have "wait_loop sleepDelay (status_Snapshot (status q)) sleepDelay ticks
      (q\<lparr>waitInProgress := True, cancelDelay := False\<rparr>) = Some (WaitTask r, q')"
    by (simp add: waitForTask_def)
  from wait_loop_waits [OF this] assms(3-5) show ?thesis by simp
qed

end
