(* ===== verification/Queue_Set.thy ===== *)
theory Queue_Set
  imports Queue_Worker
begin

text \<open>
  \<open>pkg/task/queue/queue_set.go\<close> and \<open>queue_storage.go\<close>: the named queues of the operator.

  The queues are a map by name; \<open>visit\<close> is the order in which the map is ranged over. Cancelling
  the context of the set cancels the contexts the queues were made with. \<open>Shutdown\<close> polls; it is
  modelled over a list of polls, each the set at that moment and whether the caller's context is
  done.
\<close>

record TaskQueueSet =
  MainName :: string
  Queues :: "string \<rightharpoonup> TaskQueue"
  hasMetricStorage :: bool
  setHasContext :: bool

definition NewTaskQueueSet :: TaskQueueSet where
  "NewTaskQueueSet = \<lparr>MainName = ''main'', Queues = Map.empty, hasMetricStorage = False, setHasContext = False\<rparr>"

definition WithMainName :: "string \<Rightarrow> TaskQueueSet \<Rightarrow> TaskQueueSet" where
  "WithMainName name tqs = tqs\<lparr>MainName := name\<rparr>"

definition tqs_Add :: "TaskQueue \<Rightarrow> TaskQueueSet \<Rightarrow> TaskQueueSet" where
  "tqs_Add q tqs = tqs\<lparr>Queues := (Queues tqs)(q_Name q \<mapsto> q)\<rparr>"

text \<open>The options given here are applied after the queue was made, and so after its counter was.\<close>

definition NewNamedQueue :: "string \<Rightarrow> TaskQueueOption list \<Rightarrow> TaskQueueSet \<Rightarrow> TaskQueueSet option" where
  "NewNamedQueue name opts tqs = do {
     q \<leftarrow> NewTasksQueue name (hasMetricStorage tqs) [WithHandler, WithContext];
     let q = fold apply_option opts q;
     Some (tqs\<lparr>Queues := (Queues tqs)(q_Name q \<mapsto> q)\<rparr>)
   }"

definition GetByName :: "string \<Rightarrow> TaskQueueSet \<Rightarrow> TaskQueue option" where
  "GetByName name tqs = Queues tqs name"

definition GetMain :: "TaskQueueSet \<Rightarrow> TaskQueue option" where
  "GetMain tqs = GetByName (MainName tqs) tqs"

fun tqs_AddTailTasks :: "qruntime \<Rightarrow> taskref list \<Rightarrow> qworld \<Rightarrow> TaskQueueSet \<Rightarrow> (qworld \<times> TaskQueueSet) option" where
  "tqs_AddTailTasks rt [] w tqs = Some (w, tqs)"
| "tqs_AddTailTasks rt (r # rs) w tqs =
     (case Queues tqs (QueueName (tasks w r)) of
        None \<Rightarrow> tqs_AddTailTasks rt rs w tqs
      | Some q \<Rightarrow> do {
          (w', q) \<leftarrow> AddLast rt [r] w q;
          tqs_AddTailTasks rt rs w' (tqs\<lparr>Queues := (Queues tqs)(QueueName (tasks w r) \<mapsto> q)\<rparr>)
        })"

definition queue_list :: "string list \<Rightarrow> TaskQueueSet \<Rightarrow> TaskQueue list" where
  "queue_list visit tqs = List.map_filter (Queues tqs) visit"

definition tqs_GetSnapshot :: "string list \<Rightarrow> TaskQueueSet \<Rightarrow> TaskQueue list" where
  "tqs_GetSnapshot visit tqs =
     (case GetMain tqs of None \<Rightarrow> [] | Some q \<Rightarrow> [q]) @
     List.filter (\<lambda>q. q_Name q \<noteq> MainName tqs) (queue_list visit tqs)"

definition tqs_Stop :: "TaskQueueSet \<Rightarrow> TaskQueueSet" where
  "tqs_Stop tqs = (if setHasContext tqs
     then tqs\<lparr>Queues := (\<lambda>n. map_option q_Stop (Queues tqs n))\<rparr> else tqs)"

text \<open>A missing main queue is a nil pointer: \<open>Start\<close> panics on it.\<close>

definition StartMain :: "TaskQueueSet \<Rightarrow> TaskQueueSet option" where
  "StartMain tqs = do {
     q \<leftarrow> GetMain tqs;
     Some (tqs\<lparr>Queues := (Queues tqs)(MainName tqs \<mapsto> snd (q_Start q))\<rparr>)
   }"

definition tqs_Start :: "TaskQueueSet \<Rightarrow> TaskQueueSet" where
  "tqs_Start tqs = tqs\<lparr>Queues := (\<lambda>n. map_option (\<lambda>q. snd (q_Start q)) (Queues tqs n))\<rparr>"

definition tqs_Remove :: "string \<Rightarrow> TaskQueueSet \<Rightarrow> TaskQueueSet" where
  "tqs_Remove name tqs = tqs\<lparr>Queues := (Queues tqs)(name := None)\<rparr>"

definition all_stopped :: "string list \<Rightarrow> TaskQueueSet \<Rightarrow> bool" where
  "all_stopped visit tqs = list_all (\<lambda>q. statusType (status q) = QueueStatusStop) (queue_list visit tqs)"

datatype shutdown_result = ShutdownClean | ShutdownTimeout | ShutdownPolling

fun Shutdown :: "(string list \<times> TaskQueueSet \<times> bool) list \<Rightarrow> shutdown_result" where
  "Shutdown [] = ShutdownPolling"
| "Shutdown ((visit, tqs, done) # polls) =
     (if all_stopped visit tqs then ShutdownClean
      else if done then ShutdownTimeout else Shutdown polls)"

text \<open>\<open>WaitStopWithTimeout\<close> is the same loop with a timer in place of the context.\<close>

fun WaitStopWithTimeout :: "(string list \<times> TaskQueueSet \<times> bool) list \<Rightarrow> bool" where
  "WaitStopWithTimeout [] = False"
| "WaitStopWithTimeout ((visit, tqs, timeout) # polls) =
     (if timeout then True else if all_stopped visit tqs then True else WaitStopWithTimeout polls)"

section \<open>Properties\<close>

definition set_inv :: "qworld \<Rightarrow> TaskQueueSet \<Rightarrow> (string \<Rightarrow> taskref list) \<Rightarrow> bool" where
  "set_inv w tqs rs \<longleftrightarrow> (\<forall>n q. Queues tqs n = Some q \<longrightarrow> queue_inv w q (rs n))"

text \<open>The tasks of a list that go to one queue.\<close>

definition routed :: "qworld \<Rightarrow> string \<Rightarrow> taskref list \<Rightarrow> taskref list" where
  "routed w n new = List.filter (\<lambda>r. QueueName (tasks w r) = n) new"

lemma only_meta_QueueName: "only_meta w w' \<Longrightarrow> QueueName (tasks w' r) = QueueName (tasks w r)"
  unfolding only_meta_def UpdateMetadata_def by (metis BaseTask.select_convs(6) BaseTask.surjective BaseTask.update_convs(9))

context queue_runtime
begin

lemma AddTailTasks_routes:
  assumes "set_inv w tqs rs" and "\<And>n. distinct (map (GetId w) (rs n @ routed w n new))"
    and "\<And>n. fits64 (rs n @ routed w n new)"
  shows "\<exists>w' tqs' rs'. tqs_AddTailTasks rt new w tqs = Some (w', tqs') \<and> only_meta w w' \<and> set_inv w' tqs' rs' \<and>
     dom (Queues tqs') = dom (Queues tqs) \<and> (\<forall>n. subseq (rs' n) (rs n @ routed w n new)) \<and>
     (\<forall>n \<in> dom (Queues tqs). hook_names w (rs' n) = hook_names w (rs n @ routed w n new)) \<and>
     (\<forall>n. n \<notin> QueueName ` tasks w ` set new \<longrightarrow> Queues tqs' n = Queues tqs n)"
  using assms
proof (induction new arbitrary: w tqs rs)
  case Nil
  then show ?case by (intro exI [of _ w] exI [of _ tqs] exI [of _ rs]) (simp add: only_meta_refl routed_def)
next
  case (Cons r new)
  let ?n = "QueueName (tasks w r)"
  show ?case
  proof (cases "Queues tqs ?n")
    case None
    define rs0 where "rs0 = rs(?n := [])"
    have "set_inv w tqs rs0" using Cons.prems(1) None by (simp add: set_inv_def rs0_def)
    moreover have "subseq (rs0 n @ routed w n new) (rs n @ routed w n (r # new))" for n
    proof (cases "n = ?n")
      case True
      then have "rs0 n @ routed w n new = routed w n new" "routed w n (r # new) = r # routed w n new"
        by (simp_all add: rs0_def routed_def)
      then show ?thesis using list_emb_append2 [of "(=)" "routed w n new" "[r] @ routed w n new" "rs n"]
        by (simp add: subseq_Cons')
    next
      case False
      then show ?thesis by (simp add: rs0_def routed_def)
    qed
    note sub = this
    have "distinct (map (GetId w) (rs0 n @ routed w n new))" "fits64 (rs0 n @ routed w n new)" for n
      using distinct_subseq [OF subseq_map [OF sub] Cons.prems(2)]
        le_less_trans [OF list_emb_length [OF sub] Cons.prems(3)] by blast+
    with Cons.IH [OF \<open>set_inv w tqs rs0\<close>] obtain w' tqs' rs' where
      "tqs_AddTailTasks rt new w tqs = Some (w', tqs')" "only_meta w w'" "set_inv w' tqs' rs'"
      "dom (Queues tqs') = dom (Queues tqs)" "\<forall>n. subseq (rs' n) (rs0 n @ routed w n new)"
      "\<forall>n \<in> dom (Queues tqs). hook_names w (rs' n) = hook_names w (rs0 n @ routed w n new)"
      "\<forall>n. n \<notin> QueueName ` tasks w ` set new \<longrightarrow> Queues tqs' n = Queues tqs n" by blast
    moreover have "rs0 n @ routed w n new = rs n @ routed w n (r # new)" if "n \<in> dom (Queues tqs)" for n
      using that None by (cases "n = ?n") (auto simp: rs0_def routed_def)
    ultimately show ?thesis using None sub
      by (intro exI [of _ w'] exI [of _ tqs'] exI [of _ rs']) (auto intro: subseq_order.trans)
  next
    case (Some q)
    have q: "queue_inv w q (rs ?n)" using Cons.prems(1) Some by (simp add: set_inv_def)
    have "rs ?n @ routed w ?n (r # new) = (rs ?n @ [r]) @ routed w ?n new" by (simp add: routed_def)
    then have d1: "distinct (map (GetId w) (rs ?n @ [r]))" and f1: "fits64 (rs ?n @ [r])"
      using Cons.prems(2) [of ?n] Cons.prems(3) [of ?n] by (simp_all add: routed_def)
    from AddLast_inv [OF q d1 f1] obtain w1 q1 rs1 where
      one: "AddLast rt [r] w q = Some (w1, q1)" "only_meta w w1" "queue_inv w1 q1 rs1" "subseq rs1 (rs ?n @ [r])"
        "hook_names w rs1 = hook_names w (rs ?n @ [r])" by blast
    have id: "GetId w1 = GetId w" by (rule only_metaD(6) [OF one(2)])
    have rt1: "routed w1 n new = routed w n new" for n
      by (simp add: routed_def only_meta_QueueName [OF one(2)])
    let ?tqs = "tqs\<lparr>Queues := (Queues tqs)(?n \<mapsto> q1)\<rparr>" and ?rs = "rs(?n := rs1)"
    have inv1: "set_inv w1 ?tqs ?rs"
      using Cons.prems(1) one(3) queue_inv_only_meta [OF one(2)] by (simp add: set_inv_def)
    have sub: "subseq (?rs n @ routed w1 n new) (rs n @ routed w n (r # new))" for n
    proof (cases "n = ?n")
      case True
      then show ?thesis using list_emb_append_mono [OF one(4), of "routed w n new" "routed w n new"]
        by (simp add: rt1) (simp add: routed_def)
    next
      case False
      then show ?thesis by (simp add: rt1) (simp add: routed_def)
    qed
    have "distinct (map (GetId w1) (?rs n @ routed w1 n new))" "fits64 (?rs n @ routed w1 n new)" for n
      using distinct_subseq [OF subseq_map [OF sub] Cons.prems(2)]
        le_less_trans [OF list_emb_length [OF sub] Cons.prems(3)] unfolding id by blast+
    with Cons.IH [OF inv1] obtain w' tqs' rs' where
      IH: "tqs_AddTailTasks rt new w1 ?tqs = Some (w', tqs')" "only_meta w1 w'" "set_inv w' tqs' rs'"
        "dom (Queues tqs') = dom (Queues ?tqs)" "\<forall>n. subseq (rs' n) (?rs n @ routed w1 n new)"
        "\<forall>n \<in> dom (Queues ?tqs). hook_names w1 (rs' n) = hook_names w1 (?rs n @ routed w1 n new)"
        "\<forall>n. n \<notin> QueueName ` tasks w1 ` set new \<longrightarrow> Queues tqs' n = Queues ?tqs n" by blast
    have "tqs_AddTailTasks rt (r # new) w tqs = Some (w', tqs')" using Some one(1) IH(1) by simp
    moreover have "\<forall>n. subseq (rs' n) (rs n @ routed w n (r # new))"
      using IH(5) sub by (meson subseq_order.trans)
    moreover have "QueueName ` tasks w1 ` set new = QueueName ` tasks w ` set new"
      by (simp add: image_image only_meta_QueueName [OF one(2)])
    moreover have "hook_names w (rs' n) = hook_names w (rs n @ routed w n (r # new))" if "n \<in> dom (Queues tqs)" for n
    proof -
      have "hook_names w (rs' n) = hook_names w (?rs n @ routed w n new)"
        using IH(6) that by (auto simp: hook_names_only_meta [OF one(2)] rt1 dom_def)
      also have "\<dots> = hook_names w (rs n @ routed w n (r # new))"
        using one(5) by (cases "n = ?n") (simp_all add: hook_names_append, simp_all add: routed_def hook_names_def Un_commute)
      finally show ?thesis .
    qed
    ultimately show ?thesis using IH(3,4,7) only_meta_trans [OF one(2) IH(2)] Some
      by (intro exI [of _ w'] exI [of _ tqs'] exI [of _ rs']) auto
  qed
qed

end

text \<open>
  Routing: every new task goes to the tail of the queue it names (a task for a queue that does
  not exist is dropped), in order and up to compaction; queues that no task names do not change;
  no queue appears or disappears; index and counters of all queues stay exact.
\<close>

lemma AddTailTasks_routing:
  assumes "\<And>c n. n \<le> rt_grow rt c n"
    and "\<And>ks. distinct ks \<Longrightarrow> distinct (rt_range rt ks) \<and> set (rt_range rt ks) = set ks"
    and "set_inv w tqs rs" and "\<And>n. distinct (map (GetId w) (rs n @ routed w n new))"
    and "\<And>n. fits64 (rs n @ routed w n new)"
  shows "\<exists>w' tqs' rs'. tqs_AddTailTasks rt new w tqs = Some (w', tqs') \<and> only_meta w w' \<and> set_inv w' tqs' rs' \<and>
     dom (Queues tqs') = dom (Queues tqs) \<and> (\<forall>n. subseq (rs' n) (rs n @ routed w n new)) \<and>
     (\<forall>n \<in> dom (Queues tqs). hook_names w (rs' n) = hook_names w (rs n @ routed w n new)) \<and>
     (\<forall>n. n \<notin> QueueName ` tasks w ` set new \<longrightarrow> Queues tqs' n = Queues tqs n)"
  using queue_runtime.AddTailTasks_routes [OF queue_runtimeI assms(3-5)] assms(1,2) by blast

text \<open>
  The snapshot of the set lists every queue exactly once, the main queue first.
\<close>

lemma GetSnapshot_main_first:
  assumes "map_order (Queues tqs) visit" and "\<And>n q. Queues tqs n = Some q \<Longrightarrow> q_Name q = n"
  shows "distinct (map q_Name (tqs_GetSnapshot visit tqs)) \<and> q_Name ` set (tqs_GetSnapshot visit tqs) = dom (Queues tqs) \<and>
     (MainName tqs \<in> dom (Queues tqs) \<longrightarrow> map q_Name (take 1 (tqs_GetSnapshot visit tqs)) = [MainName tqs])"
proof -
  have v: "distinct visit" "set visit = dom (Queues tqs)" using assms(1) by (simp_all add: map_order_def)
  have "List.filter (\<lambda>n. Queues tqs n \<noteq> None) visit = visit" using v(2) by (auto simp: filter_id_conv)
  then have ql: "queue_list visit tqs = map (\<lambda>n. the (Queues tqs n)) visit"
    by (simp add: queue_list_def List.map_filter_def comp_def)
  have nm: "q_Name (the (Queues tqs n)) = n" if "n \<in> set visit" for n
    using that v(2) assms(2) by force
  have "map q_Name (List.filter (\<lambda>q. q_Name q \<noteq> MainName tqs) (queue_list visit tqs)) =
      List.filter (\<lambda>n. n \<noteq> MainName tqs) visit"
    unfolding ql using nm by (induction visit) auto
  moreover from this have "q_Name ` set (List.filter (\<lambda>q. q_Name q \<noteq> MainName tqs) (queue_list visit tqs)) =
      {n \<in> set visit. n \<noteq> MainName tqs}" by (metis list.set_map set_filter)
  ultimately show ?thesis using v assms(2)
    by (auto simp: tqs_GetSnapshot_def GetMain_def GetByName_def split: option.splits)
qed

text \<open>
  A queue made through the set counts every type of task: its compactable types are set after
  its counter was made, so the counter's list of types is empty, which means all.
\<close>

lemma NewNamedQueue_counts_all_types:
  assumes "NewNamedQueue name [WithCompactableTypes types] tqs = Some tqs'"
  shows "\<exists>q. Queues tqs' name = Some q \<and> compactableTypes q = set types \<and>
     countableTypes (queueTasksCounter q) = {} \<and> countable (queueTasksCounter q) t"
  using assms
  by (auto simp: NewNamedQueue_def NewTasksQueue_def NewTaskCounter_def countable_def Let_def split: if_splits)

end
