(* ===== verification/Combine_Contexts.thy ===== *)
theory Combine_Contexts
  imports Queue_Set
begin

text \<open>
  \<open>pkg/shell-operator/combine_binding_context.go\<close>: before a hook runs, the tasks that follow in the
  queue for the same hook are merged into the task at hand.

  The combined binding contexts are in a new slice, so they are given as values; the monitor ids are
  appended to the slice of the task itself, so they are a slice over the arrays of the world. \<open>None\<close> is
  a panic; \<open>IterateSnapshot\<close> recovers from a panic of its callback.
\<close>

record CombineResult =
  BindingContexts :: "BindingContext list"
  cr_MonitorIDs :: slice

text \<open>The callback of \<open>IterateSnapshot\<close>, over the tasks of the queue.\<close>

fun other_tasks :: "qworld \<Rightarrow> string \<Rightarrow> taskref \<Rightarrow> taskref list \<Rightarrow> taskref list" where
  "other_tasks w hookName t [] = []"
| "other_tasks w hookName t (r # rs) =
     (if GetId w r = GetId w t then other_tasks w hookName t rs
      else
        case Metadata (tasks w r) of
          MetaNil \<Rightarrow> []
        | MetaOther _ \<Rightarrow> []
        | MetaHook m \<Rightarrow>
            if HookName m \<noteq> hookName \<or> task_Type (tasks w t) \<noteq> task_Type (tasks w r) then []
            else r # other_tasks w hookName t rs)"

text \<open>The loop that appends the contexts and monitor ids of the other tasks.\<close>

fun append_tasks :: "(nat \<Rightarrow> nat \<Rightarrow> nat) \<Rightarrow> qworld \<Rightarrow> taskref list \<Rightarrow> BindingContext list \<Rightarrow> slice \<Rightarrow> string store
    \<Rightarrow> (BindingContext list \<times> slice \<times> string store) option" where
  "append_tasks grow w [] combined ids st = Some (combined, ids, st)"
| "append_tasks grow w (r # rs) combined ids st = do {
     m \<leftarrow> HookMetadataAccessor (Metadata (tasks w r));
     let combined = combined @ slice_vals (ctxs w) (hm_BindingContext m);
     let (ids, st) = (if s_len (MonitorIDs m) > 0
                      then slice_append grow st ids (slice_vals st (MonitorIDs m)) else (ids, st));
     append_tasks grow w rs combined ids st
   }"

text \<open>A context is dropped when the next one has the same group.\<close>

fun compact_groups :: "BindingContext list \<Rightarrow> BindingContext list" where
  "compact_groups (c # d # cs) =
     (if bc_Group c \<noteq> [] \<and> bc_Group d = bc_Group c then compact_groups (d # cs)
      else c # compact_groups (d # cs))"
| "compact_groups cs = cs"

definition combineBindingContextForHook :: "(nat \<Rightarrow> nat \<Rightarrow> nat) \<Rightarrow> taskref \<Rightarrow> TaskQueue option \<Rightarrow> qworld \<Rightarrow> TaskQueueSet
    \<Rightarrow> (CombineResult option \<times> qworld \<times> TaskQueueSet) option" where
  "combineBindingContextForHook grow t q w tqs =
     (case q of
        None \<Rightarrow> Some (None, w, tqs)
      | Some q \<Rightarrow>
          if Metadata (tasks w t) = MetaNil then Some (None, w, tqs)
          else do {
            taskMeta \<leftarrow> HookMetadataAccessor (Metadata (tasks w t));
            rs \<leftarrow> GetSnapshot (storage q);
            let others = other_tasks w (HookName taskMeta) t rs;
            if others = [] then Some (None, w, tqs)
            else do {
              (combined, ids, st) \<leftarrow> append_tasks grow w others
                 (slice_vals (ctxs w) (hm_BindingContext taskMeta)) (MonitorIDs taskMeta) (mons w);
              let tasksFilter = [GetId w t \<mapsto> True] ++ map_of (map (\<lambda>r. (GetId w r, False)) others);
              q' \<leftarrow> Queues tqs (QueueName (tasks w t));
              q' \<leftarrow> q_DeleteFunc w (\<lambda>r. case tasksFilter (GetId w r) of Some v \<Rightarrow> v | None \<Rightarrow> True) q';
              Some (Some \<lparr>BindingContexts = compact_groups combined, cr_MonitorIDs = ids\<rparr>,
                    w\<lparr>mons := st\<rparr>,
                    tqs\<lparr>Queues := (Queues tqs)(QueueName (tasks w t) \<mapsto> q')\<rparr>)
            }
          })"

section \<open>Compacting groups\<close>

lemma compact_groups_subseq: "subseq (compact_groups cs) cs"
  by (induction cs rule: compact_groups.induct) (auto intro: subseq_Cons')

lemma compact_groups_last: "cs \<noteq> [] \<Longrightarrow> compact_groups cs \<noteq> [] \<and> last (compact_groups cs) = last cs"
  by (induction cs rule: compact_groups.induct) auto

lemma compact_groups_hd: "cs \<noteq> [] \<Longrightarrow> bc_Group (hd (compact_groups cs)) = bc_Group (hd cs)"
  by (induction cs rule: compact_groups.induct) auto

lemma compact_groups_ungrouped:
  "filter (\<lambda>c. bc_Group c = []) (compact_groups cs) = filter (\<lambda>c. bc_Group c = []) cs"
  by (induction cs rule: compact_groups.induct) auto

lemma compact_groups_no_repeat:
  "successively (\<lambda>c d. bc_Group c = [] \<or> bc_Group d \<noteq> bc_Group c) (compact_groups cs)"
proof (induction cs rule: compact_groups.induct)
  case (1 c d cs)
  have "compact_groups (d # cs) \<noteq> [] \<and> bc_Group (hd (compact_groups (d # cs))) = bc_Group d"
    using compact_groups_last [of "d # cs"] compact_groups_hd [of "d # cs"] by simp
  with 1 show ?case by (cases "compact_groups (d # cs)") auto
qed auto

lemma compact_groups_ids:
  "set (map bc_Group (compact_groups cs)) = set (map bc_Group cs)"
  by (induction cs rule: compact_groups.induct) auto

section \<open>What is combined\<close>

definition same_hook :: "qworld \<Rightarrow> taskref \<Rightarrow> taskref \<Rightarrow> bool" where
  "same_hook w t r \<longleftrightarrow>
     task_Type (tasks w r) = task_Type (tasks w t) \<and>
     map_option HookName (HookMetadataAccessor (Metadata (tasks w r))) =
       map_option HookName (HookMetadataAccessor (Metadata (tasks w t))) \<and>
     HookMetadataAccessor (Metadata (tasks w r)) \<noteq> None"

lemma other_tasks_takeWhile:
  assumes "HookMetadataAccessor (Metadata (tasks w t)) = Some m"
  shows "GetId w t \<notin> GetId w ` set rs \<Longrightarrow> other_tasks w (HookName m) t rs = takeWhile (same_hook w t) rs"
proof (induction rs)
  case (Cons r rs)
  then show ?case using assms
    by (cases "Metadata (tasks w r)") (auto simp: same_hook_def HookMetadataAccessor_def image_iff)
qed simp

text \<open>No other task's monitor ids lie in the array of the task at hand.\<close>

definition own_ids :: "qworld \<Rightarrow> slice \<Rightarrow> taskref list \<Rightarrow> bool" where
  "own_ids w s rs \<longleftrightarrow> (\<forall>r \<in> set rs. \<forall>m. HookMetadataAccessor (Metadata (tasks w r)) = Some m \<longrightarrow>
     s_arr (MonitorIDs m) \<noteq> s_arr s \<or> s_len (MonitorIDs m) = 0)"

text \<open>\<open>grown st0 s0 st s\<close>: arrays of \<open>st0\<close> other than that of \<open>s0\<close> are as they were; \<open>s\<close> is in that one or a new one.\<close>

definition grown :: "'a store \<Rightarrow> slice \<Rightarrow> 'a store \<Rightarrow> slice \<Rightarrow> bool" where
  "grown st0 s0 st s \<longleftrightarrow> slice_ok st s \<and> length st0 \<le> length st \<and>
     (\<forall>a < length st0. a \<noteq> s_arr s0 \<longrightarrow> st ! a = st0 ! a) \<and> (s_arr s = s_arr s0 \<or> length st0 \<le> s_arr s)"

lemma grown_vals:
  assumes "grown st0 s0 st s" "slice_ok st0 t" "s_arr t \<noteq> s_arr s0 \<or> s_len t = 0"
  shows "slice_vals st t = slice_vals st0 t"
  using assms by (auto simp: grown_def slice_vals_def slice_ok_def)

context growslice
begin

lemma grown_append:
  assumes "grown st0 s0 st s" and app: "slice_append grow st s xs = (s', st')"
  shows "grown st0 s0 st' s'"
proof -
  have ok: "slice_ok st s" using assms(1) by (simp add: grown_def)
  have "length st0 \<le> length st' \<and> (\<forall>a < length st0. a \<noteq> s_arr s0 \<longrightarrow> st' ! a = st0 ! a) \<and>
      (s_arr s' = s_arr s0 \<or> length st0 \<le> s_arr s')"
    using assms by (auto simp: grown_def slice_append_def Let_def nth_list_update nth_append split: if_splits)
  with append_ok [OF ok app] show ?thesis by (simp add: grown_def)
qed

lemma append_tasks_vals:
  assumes "world_ok w" "own_ids w s0 rs" "list_all (same_hook w t) rs" "grown (mons w) s0 st ids"
  shows "\<exists>ids' st'. append_tasks grow w rs combined ids st = Some (combined @ concat (map (ctx_vals w) rs), ids', st') \<and>
     slice_vals st' ids' = slice_vals st ids @ concat (map (mon_vals w) rs)"
  using assms
proof (induction rs arbitrary: combined ids st)
  case (Cons r rs)
  from Cons.prems(3) obtain m where m: "HookMetadataAccessor (Metadata (tasks w r)) = Some m"
    by (auto simp: same_hook_def)
  have ok: "slice_ok (mons w) (MonitorIDs m)" using Cons.prems(1) m by (auto simp: world_ok_def)
  have v: "slice_vals st (MonitorIDs m) = mon_vals w r"
    using grown_vals [OF Cons.prems(4) ok] Cons.prems(2) m by (auto simp: mon_vals_def own_ids_def)
  have c: "slice_vals (ctxs w) (hm_BindingContext m) = ctx_vals w r" using m by (simp add: ctx_vals_def)
  obtain ids1 st1 where app: "(if s_len (MonitorIDs m) > 0 then slice_append grow st ids (mon_vals w r) else (ids, st)) = (ids1, st1)"
    by fastforce
  have g: "grown (mons w) s0 st1 ids1"
    using app grown_append [OF Cons.prems(4)] Cons.prems(4) by (auto split: if_splits)
  have ids: "slice_ok st ids" using Cons.prems(4) by (simp add: grown_def)
  have "mon_vals w r = []" if "s_len (MonitorIDs m) = 0"
    using that m by (simp add: mon_vals_def slice_vals_def)
  then have vals: "slice_vals st1 ids1 = slice_vals st ids @ mon_vals w r"
    using app slice_append_vals [OF ids] by (auto split: if_splits)
  have "own_ids w s0 rs" "list_all (same_hook w t) rs" using Cons.prems by (auto simp: own_ids_def)
  note ih = Cons.IH [OF Cons.prems(1) this g, of "combined @ ctx_vals w r"]
  have "append_tasks grow w (r # rs) combined ids st = append_tasks grow w rs (combined @ ctx_vals w r) ids1 st1"
    using app by (cases "s_len (MonitorIDs m) > 0") (simp_all add: m v c)
  with ih vals show ?case by simp
qed simp

end

section \<open>Properties\<close>

lemma filter_not_others:
  assumes "distinct (map f (t # xs @ ys))"
  shows "filter (\<lambda>r. case ([f t \<mapsto> True] ++ map_of (map (\<lambda>r. (f r, False)) xs)) (f r) of Some v \<Rightarrow> v | None \<Rightarrow> True)
     (t # xs @ ys) = t # ys"
proof -
  have x: "map_of (map (\<lambda>r. (f r, False)) xs) (f r) = (if f r \<in> f ` set xs then Some False else None)" for r
    by (induction xs) auto
  let ?P = "\<lambda>r. case ([f t \<mapsto> True] ++ map_of (map (\<lambda>r. (f r, False)) xs)) (f r) of Some v \<Rightarrow> v | None \<Rightarrow> True"
  have P: "?P r \<longleftrightarrow> f r \<notin> f ` set xs" for r by (simp add: map_add_def x)
  have "f t \<notin> f ` set xs" "filter ?P xs = []" "filter ?P ys = ys"
    unfolding P using assms by (auto simp: filter_empty_conv filter_id_conv)
  then show ?thesis using P by simp
qed

lemma combine_head:
  assumes "\<And>c n. n \<le> grow c n" and "world_ok w" and "Queues tqs (QueueName (tasks w t)) = Some q"
    and "queue_inv w q (t # rs)" and "HookMetadataAccessor (Metadata (tasks w t)) = Some m"
    and "own_ids w (MonitorIDs m) rs" and "takeWhile (same_hook w t) rs \<noteq> []"
  shows "\<exists>ids st q'. combineBindingContextForHook grow t (Some q) w tqs =
       Some (Some \<lparr>BindingContexts = compact_groups (ctx_vals w t @ concat (map (ctx_vals w) (takeWhile (same_hook w t) rs))), cr_MonitorIDs = ids\<rparr>,
         w\<lparr>mons := st\<rparr>, tqs\<lparr>Queues := (Queues tqs)(QueueName (tasks w t) \<mapsto> q')\<rparr>) \<and>
     queue_inv w q' (t # dropWhile (same_hook w t) rs) \<and>
     slice_vals st ids = mon_vals w t @ concat (map (mon_vals w) (takeWhile (same_hook w t) rs))"
proof -
  let ?xs = "takeWhile (same_hook w t) rs" and ?ys = "dropWhile (same_hook w t) rs"
  have g: "growslice grow" using assms(1) by (rule growslice.intro)
  have seq: "task_seq (GetId w) (storage q) (t # rs)" and dist: "distinct (map (GetId w) (t # rs))"
    using assms(4) by (auto simp: queue_inv_def task_seq_def)
  have others: "other_tasks w (HookName m) t (t # rs) = ?xs"
    using other_tasks_takeWhile [OF assms(5), of rs] dist by simp
  have ok: "slice_ok (mons w) (MonitorIDs m)" using assms(2,5) by (auto simp: world_ok_def)
  have start: "grown (mons w) (MonitorIDs m) (mons w) (MonitorIDs m)" using ok by (simp add: grown_def)
  have own: "own_ids w (MonitorIDs m) ?xs" using assms(6) by (auto simp: own_ids_def dest: set_takeWhileD)
  have same: "list_all (same_hook w t) ?xs" by (auto simp: list_all_iff dest: set_takeWhileD)
  obtain ids st where app: "append_tasks grow w ?xs (ctx_vals w t) (MonitorIDs m) (mons w) =
      Some (ctx_vals w t @ concat (map (ctx_vals w) ?xs), ids, st)"
      "slice_vals st ids = mon_vals w t @ concat (map (mon_vals w) ?xs)"
    using growslice.append_tasks_vals [OF g assms(2) own same start, of "ctx_vals w t"] assms(5)
    by (auto simp: mon_vals_def)
  let ?fn = "\<lambda>r. case ([GetId w t \<mapsto> True] ++ map_of (map (\<lambda>r. (GetId w r, False)) ?xs)) (GetId w r) of
      Some v \<Rightarrow> v | None \<Rightarrow> True"
  have "filter ?fn (t # rs) = t # ?ys"
    using filter_not_others [of "GetId w" t ?xs ?ys] dist by simp
  then obtain q' where q': "q_DeleteFunc w ?fn q = Some q'" "queue_inv w q' (t # ?ys)"
    using q_DeleteFunc_inv [OF assms(4), of ?fn] by auto
  have meta: "Metadata (tasks w t) \<noteq> MetaNil" using assms(5) by (auto simp: HookMetadataAccessor_def)
  have ctx: "slice_vals (ctxs w) (hm_BindingContext m) = ctx_vals w t" using assms(5) by (simp add: ctx_vals_def)
  have "combineBindingContextForHook grow t (Some q) w tqs =
      Some (Some \<lparr>BindingContexts = compact_groups (ctx_vals w t @ concat (map (ctx_vals w) ?xs)), cr_MonitorIDs = ids\<rparr>,
        w\<lparr>mons := st\<rparr>, tqs\<lparr>Queues := (Queues tqs)(QueueName (tasks w t) \<mapsto> q')\<rparr>)"
    using meta assms(3,5,7) reads_seq(2) [OF seq] others app(1) ctx q'(1)
    by (simp add: combineBindingContextForHook_def)
  with q'(2) app(2) show ?thesis by auto
qed

lemma combine_none:
  assumes "queue_inv w q (t # rs)" and "HookMetadataAccessor (Metadata (tasks w t)) = Some m" and "takeWhile (same_hook w t) rs = []"
  shows "combineBindingContextForHook grow t (Some q) w tqs = Some (None, w, tqs)"
proof -
  have seq: "task_seq (GetId w) (storage q) (t # rs)" and dist: "distinct (map (GetId w) (t # rs))"
    using assms(1) by (auto simp: queue_inv_def task_seq_def)
  have "other_tasks w (HookName m) t (t # rs) = []" using other_tasks_takeWhile [OF assms(2), of rs] dist assms(3) by simp
  then show ?thesis using assms(2) reads_seq(2) [OF seq] by (simp add: combineBindingContextForHook_def)
qed

text \<open>
  C13. Combining at the head of a queue: when the tasks behind the head task, up to the first one of
  another hook or type (or without metadata), are not none, exactly these tasks leave the queue; the
  result carries the binding contexts of the head task and of all of them, in queue order, with
  runs of one group cut to their last context, and all their monitor ids.
\<close>

theorem combine_at_head:
  assumes "\<And>c n. n \<le> grow c n" and "world_ok w" and "Queues tqs (QueueName (tasks w t)) = Some q"
    and "queue_inv w q (t # rs)" and "HookMetadataAccessor (Metadata (tasks w t)) = Some m"
    and "own_ids w (MonitorIDs m) rs" and "takeWhile (same_hook w t) rs \<noteq> []"
  shows "\<exists>res w' q'. combineBindingContextForHook grow t (Some q) w tqs =
       Some (Some res, w', tqs\<lparr>Queues := (Queues tqs)(QueueName (tasks w t) \<mapsto> q')\<rparr>) \<and>
     queue_inv w q' (t # dropWhile (same_hook w t) rs) \<and>
     BindingContexts res = compact_groups (ctx_vals w t @ concat (map (ctx_vals w) (takeWhile (same_hook w t) rs))) \<and>
     slice_vals (mons w') (cr_MonitorIDs res) = mon_vals w t @ concat (map (mon_vals w) (takeWhile (same_hook w t) rs)) \<and>
     tasks w' = tasks w"
  using combine_head [OF assms] by fastforce

theorem combine_at_head_witness:
  "\<exists>q tqs res w' q'. queue_inv demo_world q [0, 1, 2] \<and>
     combineBindingContextForHook go_grow 0 (Some q) demo_world tqs =
       Some (Some res, w', tqs\<lparr>Queues := (Queues tqs)([] \<mapsto> q')\<rparr>) \<and>
     queue_inv demo_world q' [0, 2] \<and> slice_vals (mons w') (cr_MonitorIDs res) = [''A'', ''B'']"
proof -
  from demo_inv obtain q0 where q0: "queue_inv demo_world q0 []" by blast
  have d: "distinct (map (GetId demo_world) ([0, 1, 2] @ []))" by code_simp
  from AddFirst_inv [OF q0 d] obtain q where q: "queue_inv demo_world q (0 # [1, 2])" by auto
  define tqs where "tqs = NewTaskQueueSet\<lparr>Queues := [[] \<mapsto> q]\<rparr>"
  obtain m where m: "HookMetadataAccessor (Metadata (tasks demo_world 0)) = Some m"
      "MonitorIDs m = \<lparr>s_arr = 0, s_len = 1, s_cap = 1\<rparr>"
    by (simp add: demo_world_def demo_task_def HookMetadataAccessor_def)
  have name: "QueueName (tasks demo_world 0) = []" by code_simp
  have at: "Queues tqs (QueueName (tasks demo_world 0)) = Some q" by (simp add: tqs_def name)
  have own: "own_ids demo_world (MonitorIDs m) [1, 2]"
    by (simp add: own_ids_def m(2) demo_world_def demo_task_def HookMetadataAccessor_def)
  have tw: "takeWhile (same_hook demo_world 0) [1, 2] = [1]" "dropWhile (same_hook demo_world 0) [1, 2] = [2]"
    by code_simp+
  have vals: "mon_vals demo_world 0 @ concat (map (mon_vals demo_world) [1]) = [''A'', ''B'']" by code_simp
  from combine_at_head [where grow = go_grow, OF go_runtime.grow_enough demo_world_ok at q m(1) own] tw
  obtain res w' q' where "combineBindingContextForHook go_grow 0 (Some q) demo_world tqs =
       Some (Some res, w', tqs\<lparr>Queues := (Queues tqs)([] \<mapsto> q')\<rparr>)" "queue_inv demo_world q' [0, 2]"
      "slice_vals (mons w') (cr_MonitorIDs res) = mon_vals demo_world 0 @ concat (map (mon_vals demo_world) [1])"
    unfolding name by auto
  with q vals show ?thesis by metis
qed

text \<open>
  Compaction of combined contexts: the result is a subsequence; contexts without a group all stay; of
  every run of one group the last context stays, so no two neighbours have the same group and
  every group that occurs is still there.
\<close>

lemma compact_groups_keeps:
  "subseq (compact_groups cs) cs \<and>
   filter (\<lambda>c. bc_Group c = []) (compact_groups cs) = filter (\<lambda>c. bc_Group c = []) cs \<and>
   successively (\<lambda>c d. bc_Group c = [] \<or> bc_Group d \<noteq> bc_Group c) (compact_groups cs) \<and>
   set (map bc_Group (compact_groups cs)) = set (map bc_Group cs) \<and>
   (cs = [] \<or> last (compact_groups cs) = last cs)"
  using compact_groups_subseq compact_groups_ungrouped compact_groups_no_repeat compact_groups_ids
    compact_groups_last by blast

end
