(* ===== verification/Shell_Operator.thy ===== *)
theory Shell_Operator
  imports Hook_Run Combine_Contexts
begin

text \<open>
  \<open>pkg/shell-operator/operator.go\<close> (task handlers, start of the queues), \<open>task_handler_registry.go\<close> and
  \<open>manager_events_handler.go\<close>: how the parts of the operator work together.

  The state joins the hooks, the monitors, the schedule manager, the queues with their tasks, the files and the cluster.
  New tasks get the next free reference; their slices are new arrays. Arguments (\<open>operator_env\<close>) are the runtime, the environment of
  a run, the clock, the random ids, the texts of errors, and the rate limiter (\<open>True\<close>: its wait ended with an error).
  \<open>None\<close> in place of a result is a panic. Log labels are one argument; metrics, tracing, HTTP servers and \<open>Shutdown\<close> are left out.
\<close>

section \<open>State\<close>

record ('v, 'm, 's, 'c) operator =
  op_hooks :: "('v, 'm) hook_manager"
  op_kube :: kube_world
  op_sched :: "'s scheduleManager"
  op_queues :: TaskQueueSet
  op_tasks :: qworld
  op_next :: taskref
  op_uuids :: nat
  op_files :: files
  op_cluster :: 'c
  op_started :: bool

record ('o, 'r, 's, 'c) operator_env =
  oe_runtime :: qruntime
  oe_run :: "'o run_env"
  oe_patch :: "('r, 'c) patch_env"
  oe_cluster :: cluster_env
  oe_cron :: "'s cron_ops"
  oe_sorter :: "(nat \<Rightarrow> rat) \<Rightarrow> nat list \<Rightarrow> nat list"
  oe_perm :: iteration
  oe_uuid :: "nat \<Rightarrow> string"
  oe_now :: int
  oe_labels :: labels
  oe_error :: "handle_error \<Rightarrow> string"
  oe_enableError :: string
  RateLimitWait :: "string \<Rightarrow> bool"

definition store_slice :: "'a store \<Rightarrow> 'a list \<Rightarrow> slice \<times> 'a store" where
  "store_slice st xs = (if xs = [] then (nil_slice, st) else slice_of_list st xs)"

text \<open>A task made outside of a queue becomes an object with a reference.\<close>

definition alloc_task :: "run_task \<Rightarrow> ('v, 'm, 's, 'c) operator \<Rightarrow> taskref \<times> ('v, 'm, 's, 'c) operator" where
  "alloc_task t st =
     (let w = op_tasks st;
          (meta, cs, ms) =
            (case Metadata t of
               MetaHook m \<Rightarrow>
                 let (bc, cs) = store_slice (ctxs w) (hm_BindingContext m); (ids, ms) = store_slice (mons w) (MonitorIDs m)
                 in (MetaHook \<lparr>HookName = HookName m, hm_Binding = hm_Binding m, hm_Group = hm_Group m, hm_BindingType = hm_BindingType m,
                       hm_BindingContext = bc, AllowFailure = AllowFailure m, MonitorIDs = ids,
                       ExecuteOnSynchronization = ExecuteOnSynchronization m\<rparr>, cs, ms)
             | MetaNil \<Rightarrow> (MetaNil, ctxs w, mons w)
             | MetaOther s \<Rightarrow> (MetaOther s, ctxs w, mons w));
          qt = \<lparr>task_Id = task_Id t, task_Type = task_Type t, LogLabels = LogLabels t, FailureCount = FailureCount t,
                FailureMessage = FailureMessage t, QueueName = QueueName t, QueuedAt = QueuedAt t, Props = Props t, Metadata = meta,
                compactionID = compactionID t, processing = processing t\<rparr>;
          r = op_next st
      in (r, st\<lparr>op_tasks := w\<lparr>tasks := (tasks w)(r := qt), ctxs := cs, mons := ms\<rparr>, op_next := r + 1, op_uuids := op_uuids st + 1\<rparr>))"

text \<open>\<open>mk n\<close> is a task with the \<open>n\<close>-th random id.\<close>

fun alloc_tasks :: "(nat \<Rightarrow> run_task) list \<Rightarrow> ('v, 'm, 's, 'c) operator \<Rightarrow> taskref list \<times> ('v, 'm, 's, 'c) operator" where
  "alloc_tasks [] st = ([], st)"
| "alloc_tasks (mk # mks) st =
     (let (r, st) = alloc_task (mk (op_uuids st)) st; (rs, st) = alloc_tasks mks st in (r # rs, st))"

section \<open>The registry of handlers\<close>

type_synonym 'h TaskHandlerRegistry = "TaskType \<rightharpoonup> 'h"

definition NewTaskHandlerRegistry :: "'h TaskHandlerRegistry" where
  "NewTaskHandlerRegistry = Map.empty"

definition Register :: "TaskType \<Rightarrow> 'h \<Rightarrow> 'h TaskHandlerRegistry \<Rightarrow> 'h TaskHandlerRegistry" where
  "Register taskType handler r = r(taskType \<mapsto> handler)"

type_synonym ('v, 'm, 's, 'c) handled = "taskref TaskResult option \<times> ('v, 'm, 's, 'c) operator"
type_synonym ('v, 'm, 's, 'c) TaskHandlerFunc = "taskref \<Rightarrow> ('v, 'm, 's, 'c) operator \<Rightarrow> ('v, 'm, 's, 'c) handled"

definition reg_Handle :: "('v, 'm, 's, 'c) TaskHandlerFunc TaskHandlerRegistry \<Rightarrow> taskref \<Rightarrow> ('v, 'm, 's, 'c) operator \<Rightarrow>
    ('v, 'm, 's, 'c) handled \<times> bool" where
  "reg_Handle r t st =
     (case r (task_Type (tasks (op_tasks st) t)) of
        None \<Rightarrow> ((Some (Task_Storage.empty_result Fail), st), False)
      | Some h \<Rightarrow> (h t st, True))"

section \<open>Handlers\<close>

definition set_controller :: "string \<Rightarrow> ('v, 'm) HookController \<Rightarrow> ('v, 'm, 's, 'c) operator \<Rightarrow> ('v, 'm, 's, 'c) operator" where
  "set_controller name hc st =
     (let hm = op_hooks st
      in case hooksByName hm name of
           None \<Rightarrow> st
         | Some p \<Rightarrow> st\<lparr>op_hooks := hm\<lparr>hook_heap := (hook_heap hm)[p := (hook_heap hm ! p)\<lparr>h_Controller := hc\<rparr>]\<rparr>\<rparr>)"

definition task_hook :: "taskref \<Rightarrow> ('v, 'm, 's, 'c) operator \<Rightarrow> ((slice, slice) HookMetadata \<times> ('v, 'm) hook) option" where
  "task_hook t st = do {
     hookMeta \<leftarrow> HookMetadataAccessor (Metadata (tasks (op_tasks st) t));
     h \<leftarrow> GetHook (op_hooks st) (HookName hookMeta);
     Some (hookMeta, h)
   }"

definition taskHandleEnableScheduleBindings :: "('o, 'r, 's, 'c) operator_env \<Rightarrow> ('v, 'm, 's, 'c) TaskHandlerFunc" where
  "taskHandleEnableScheduleBindings e t st =
     (case task_hook t st of
        None \<Rightarrow> (Some (Task_Storage.empty_result Fail), st)
      | Some (hookMeta, h) \<Rightarrow>
          let hc = h_Controller h
          in case ScheduleController hc of
               None \<Rightarrow> (Some (Task_Storage.empty_result Success), st)
             | Some c \<Rightarrow>
                 let (c, sm) = Hook_Bindings.EnableScheduleBindings (oe_cron e) c (op_sched st)
                 in (Some (Task_Storage.empty_result Success),
                     set_controller (HookName hookMeta) (hc\<lparr>ScheduleController := Some c\<rparr>) (st\<lparr>op_sched := sm\<rparr>)))"

definition sync_tasks :: "('o, 'r, 's, 'c) operator_env \<Rightarrow> kube_world \<Rightarrow> string \<Rightarrow> BindingExecutionInfo list \<Rightarrow> (nat \<Rightarrow> run_task) list option" where
  "sync_tasks e w hookName infos =
     those (map (\<lambda>info. map_option (\<lambda>config n. WithQueuedAt (oe_now e) (NewSyncHookRunTask w (oe_uuid e n) hookName config info (oe_labels e)))
       (bei_KubernetesBinding info)) infos)"

definition taskHandleEnableKubernetesBindings :: "('o, 'r, 's, 'c) operator_env \<Rightarrow> ('v, 'm, 's, 'c) TaskHandlerFunc" where
  "taskHandleEnableKubernetesBindings e t st =
     (case task_hook t st of
        None \<Rightarrow> (Some (Task_Storage.empty_result Fail), st)
      | Some (hookMeta, h) \<Rightarrow>
          let hc = h_Controller h
          in case KubernetesController hc of
               None \<Rightarrow> (Some (Task_Storage.empty_result Success), st)
             | Some c \<Rightarrow>
                 (case kube_EnableKubernetesBindings (oe_cluster e) c (op_kube st) of
                    None \<Rightarrow> (None, st)
                  | Some (infos, c, w) \<Rightarrow>
                      let st = set_controller (HookName hookMeta) (hc\<lparr>KubernetesController := Some c\<rparr>) (st\<lparr>op_kube := w\<rparr>)
                      in case infos of
                           None \<Rightarrow> (Some (Task_Storage.empty_result Fail),
                                      st\<lparr>op_tasks := upd_task t (UpdateFailureMessage (oe_enableError e)) (op_tasks st)\<rparr>)
                         | Some infos \<Rightarrow>
                             (case sync_tasks e w (h_Name h) infos of
                                None \<Rightarrow> (None, st)
                              | Some mks \<Rightarrow>
                                  let (rs, st) = alloc_tasks mks st
                                  in (Some (AddHeadTasks (Task_Storage.empty_result Success) rs), st))))"

text \<open>
  \<open>taskHandleHookRun\<close>. The metadata is a copy of that of the task; what combining found is put into the copy and the copy
  into the task. Reading the first context of a kubernetes task without contexts panics.
\<close>

definition shouldRunHook :: "('v, 'm) hook \<Rightarrow> bool \<Rightarrow> (slice, slice) HookMetadata \<Rightarrow> bool" where
  "shouldRunHook h isSynchronization hookMeta \<longleftrightarrow>
     \<not> (isSynchronization \<and> (Version (h_Config h) = ''v0'' \<or> \<not> ExecuteOnSynchronization hookMeta))"

definition shouldCombine :: "qworld \<Rightarrow> (slice, slice) HookMetadata \<Rightarrow> bool option" where
  "shouldCombine w hookMeta =
     (if hm_BindingType hookMeta = bt_OnKubernetesEvent
      then (case slice_vals (ctxs w) (hm_BindingContext hookMeta) of
              [] \<Rightarrow> None
            | bc # _ \<Rightarrow> Some (\<not> (bc_Type bc = TypeSynchronization \<and> hm_Group hookMeta = [])))
      else Some True)"

definition combine_step :: "('o, 'r, 's, 'c) operator_env \<Rightarrow> taskref \<Rightarrow> (slice, slice) HookMetadata \<Rightarrow> ('v, 'm, 's, 'c) operator \<Rightarrow>
    ((slice, slice) HookMetadata \<times> ('v, 'm, 's, 'c) operator) option" where
  "combine_step e t hookMeta st = do {
     let w = op_tasks st;
     let tqs = op_queues st;
     sc \<leftarrow> shouldCombine w hookMeta;
     if \<not> sc then Some (hookMeta, st)
     else do {
       (res, w, tqs) \<leftarrow> combineBindingContextForHook (rt_grow (oe_runtime e)) t (GetByName (QueueName (tasks w t)) tqs) w tqs;
       case res of
         None \<Rightarrow> Some (hookMeta, st\<lparr>op_tasks := w, op_queues := tqs\<rparr>)
       | Some res \<Rightarrow>
           let (bc, cs) = store_slice (ctxs w) (BindingContexts res);
               hookMeta = hookMeta\<lparr>hm_BindingContext := bc\<rparr>;
               hookMeta = (if s_len (cr_MonitorIDs res) > 0 then hookMeta\<lparr>MonitorIDs := cr_MonitorIDs res\<rparr> else hookMeta);
               w = upd_task t (UpdateMetadata (MetaHook hookMeta)) (w\<lparr>ctxs := cs\<rparr>)
           in Some (hookMeta, st\<lparr>op_tasks := w, op_queues := tqs\<rparr>)
     }
   }"

definition run_step :: "('o, 'r, 's, 'c) operator_env \<Rightarrow> taskref \<Rightarrow> ('v, 'm) hook \<Rightarrow> (slice, slice) HookMetadata \<Rightarrow> ('v, 'm, 's, 'c) operator \<Rightarrow>
    (TaskStatus \<times> 'o run_props \<times> ('v, 'm, 's, 'c) operator) option" where
  "run_step e t h hookMeta st =
     map_option (\<lambda>(err, props, w, fs, c).
         let st = st\<lparr>op_kube := w, op_files := fs, op_cluster := c, op_uuids := op_uuids st + 5\<rparr>
         in case err of
              None \<Rightarrow> (Success, props, st)
            | Some er \<Rightarrow>
                if AllowFailure hookMeta then (Success, props, st)
                else (Fail, props, st\<lparr>op_tasks := upd_task t (WithQueuedAt (oe_now e)) (upd_task t (UpdateFailureMessage (oe_error e er)) (op_tasks st))\<rparr>))
       (handleRunHook (oe_run e) (oe_patch e) h (slice_vals (ctxs (op_tasks st)) (hm_BindingContext hookMeta)) (op_uuids st)
          (op_kube st) (op_files st) (op_cluster st))"

definition UnlockKubernetesEventsFor :: "('v, 'm) HookController \<Rightarrow> string \<Rightarrow> kube_world \<Rightarrow> kube_world" where
  "UnlockKubernetesEventsFor hc monitorID w = (if KubernetesController hc \<noteq> None then UnlockEventsFor monitorID w else w)"

definition taskHandleHookRun :: "('o, 'r, 's, 'c) operator_env \<Rightarrow> ('v, 'm, 's, 'c) TaskHandlerFunc" where
  "taskHandleHookRun e t st =
     (case task_hook t st of
        None \<Rightarrow> (Some (Task_Storage.empty_result Fail), st)
      | Some (hookMeta, h) \<Rightarrow>
          if RateLimitWait e (HookName hookMeta) then (Some (Task_Storage.empty_result Repeat), st)
          else
            let isSynchronization = (case slice_vals (ctxs (op_tasks st)) (hm_BindingContext hookMeta) of
                                       [] \<Rightarrow> False | bc # _ \<Rightarrow> bc_IsSynchronization bc);
                run = shouldRunHook h isSynchronization hookMeta
            in case (if run \<and> Version (h_Config h) = ''v1'' then combine_step e t hookMeta st else Some (hookMeta, st)) of
                 None \<Rightarrow> (None, st)
               | Some (hookMeta, st) \<Rightarrow>
                   (case (if run then map_option (\<lambda>(s, props, st). (s, st)) (run_step e t h hookMeta st) else Some (Success, st)) of
                      None \<Rightarrow> (None, st)
                    | Some (resStatus, st) \<Rightarrow>
                        let w = (if isSynchronization \<and> resStatus = Success
                                 then fold (UnlockKubernetesEventsFor (h_Controller h)) (slice_vals (mons (op_tasks st)) (MonitorIDs hookMeta)) (op_kube st)
                                 else op_kube st)
                        in (Some (Task_Storage.empty_result resStatus), st\<lparr>op_kube := w\<rparr>)))"

definition RegisterBuiltinTaskHandlers :: "('o, 'r, 's, 'c) operator_env \<Rightarrow> ('v, 'm, 's, 'c) TaskHandlerFunc TaskHandlerRegistry" where
  "RegisterBuiltinTaskHandlers e =
     Register ''EnableScheduleBindings'' (taskHandleEnableScheduleBindings e)
       (Register ''EnableKubernetesBindings'' (taskHandleEnableKubernetesBindings e)
         (Register HookRun (taskHandleHookRun e) NewTaskHandlerRegistry))"

definition taskHandler :: "('v, 'm, 's, 'c) TaskHandlerFunc TaskHandlerRegistry \<Rightarrow> ('v, 'm, 's, 'c) TaskHandlerFunc" where
  "taskHandler r t st =
     (let (res, isHandled) = reg_Handle r t st
      in if \<not> isHandled then (Some (Task_Storage.empty_result Fail), st) else res)"

section \<open>Combining with a stop function\<close>

text \<open>
  The exported variant of \<open>combineBindingContextForHook\<close>: a task of the same hook and type for which
  \<open>stopCombineFn\<close> is true ends the search and stays in the queue.
\<close>

fun other_tasks_until :: "(taskref \<Rightarrow> bool) option \<Rightarrow> qworld \<Rightarrow> string \<Rightarrow> taskref \<Rightarrow> taskref list \<Rightarrow> taskref list" where
  "other_tasks_until stop w hookName t [] = []"
| "other_tasks_until stop w hookName t (r # rs) =
     (if GetId w r = GetId w t then other_tasks_until stop w hookName t rs
      else
        case Metadata (tasks w r) of
          MetaNil \<Rightarrow> []
        | MetaOther _ \<Rightarrow> []
        | MetaHook m \<Rightarrow>
            let stopIterate = (if HookName m = hookName \<and> task_Type (tasks w t) = task_Type (tasks w r)
                               then (case stop of None \<Rightarrow> False | Some stopCombineFn \<Rightarrow> stopCombineFn r)
                               else True)
            in if stopIterate then [] else r # other_tasks_until stop w hookName t rs)"

definition CombineBindingContextForHook :: "(nat \<Rightarrow> nat \<Rightarrow> nat) \<Rightarrow> (taskref \<Rightarrow> bool) option \<Rightarrow> taskref \<Rightarrow> TaskQueue option \<Rightarrow> qworld \<Rightarrow>
    TaskQueueSet \<Rightarrow> (CombineResult option \<times> qworld \<times> TaskQueueSet) option" where
  "CombineBindingContextForHook grow stop t q w tqs =
     (case q of
        None \<Rightarrow> Some (None, w, tqs)
      | Some q \<Rightarrow>
          if Metadata (tasks w t) = MetaNil then Some (None, w, tqs)
          else do {
            taskMeta \<leftarrow> HookMetadataAccessor (Metadata (tasks w t));
            rs \<leftarrow> GetSnapshot (storage q);
            let others = other_tasks_until stop w (HookName taskMeta) t rs;
            if others = [] then Some (None, w, tqs)
            else do {
              (combined, ids, st) \<leftarrow> append_tasks grow w others
                 (slice_vals (ctxs w) (hm_BindingContext taskMeta)) (MonitorIDs taskMeta) (mons w);
              let tasksFilter = [GetId w t \<mapsto> True] ++ map_of (map (\<lambda>r. (GetId w r, False)) others);
              q' \<leftarrow> Queues tqs (QueueName (tasks w t));
              q' \<leftarrow> q_DeleteFunc w (\<lambda>r. case tasksFilter (GetId w r) of Some v \<Rightarrow> v | None \<Rightarrow> True) q';
              Some (Some \<lparr>BindingContexts = compact_groups combined, cr_MonitorIDs = ids\<rparr>,
                    w\<lparr>mons := st\<rparr>,
                    tqs\<lparr>Queues := (Queues tqs)(QueueName (tasks w t) \<mapsto> q')\<rparr>)
            }
          })"

section \<open>Start\<close>

definition hook_meta :: "string \<Rightarrow> string \<Rightarrow> BindingType \<Rightarrow> BindingContext list \<Rightarrow> (BindingContext list, string list) HookMetadata" where
  "hook_meta hookName binding bindingType contexts =
     \<lparr>HookName = hookName, hm_Binding = binding, hm_Group = [], hm_BindingType = bindingType, hm_BindingContext = contexts,
      AllowFailure = False, MonitorIDs = [], ExecuteOnSynchronization = False\<rparr>"

text \<open>These tasks have no queue name.\<close>

definition boot_task :: "('o, 'r, 's, 'c) operator_env \<Rightarrow> TaskType \<Rightarrow> (BindingContext list, string list) HookMetadata \<Rightarrow> nat \<Rightarrow> run_task" where
  "boot_task e taskType m n =
     WithQueuedAt (oe_now e) (WithCompactionID (HookName m) (WithMetadata (MetaHook m) (NewTask (oe_uuid e n) taskType)))"

definition startup_task :: "('o, 'r, 's, 'c) operator_env \<Rightarrow> string \<Rightarrow> nat \<Rightarrow> run_task" where
  "startup_task e hookName =
     boot_task e HookRun (hook_meta hookName [] bt_OnStartup [empty_bc\<lparr>bc_Binding := bt_OnStartup, bc_BindingType := bt_OnStartup\<rparr>])"

definition enable_task :: "('o, 'r, 's, 'c) operator_env \<Rightarrow> TaskType \<Rightarrow> string \<Rightarrow> nat \<Rightarrow> run_task" where
  "enable_task e taskType hookName = boot_task e taskType (hook_meta hookName taskType [] [])"

definition enable_tasks :: "('o, 'r, 's, 'c) operator_env \<Rightarrow> string \<Rightarrow> ('v, 'm) hook \<Rightarrow> (nat \<Rightarrow> run_task) list" where
  "enable_tasks e hookName h =
     (if HasBinding (h_Config h) bt_OnKubernetesEvent then [enable_task e ''EnableKubernetesBindings'' hookName] else []) @
     (if HasBinding (h_Config h) bt_Schedule then [enable_task e ''EnableScheduleBindings'' hookName] else [])"

fun queue_main :: "('o, 'r, 's, 'c) operator_env \<Rightarrow> (nat \<Rightarrow> run_task) list \<Rightarrow> ('v, 'm, 's, 'c) operator \<Rightarrow> ('v, 'm, 's, 'c) operator option" where
  "queue_main e [] st = Some st"
| "queue_main e (mk # mks) st = do {
     let (newTask, st) = alloc_task (mk (op_uuids st)) st;
     let tqs = op_queues st;
     q \<leftarrow> GetMain tqs;
     (w, q) \<leftarrow> AddLast (oe_runtime e) [newTask] (op_tasks st) q;
     queue_main e mks (st\<lparr>op_tasks := w, op_queues := tqs\<lparr>Queues := (Queues tqs)(MainName tqs \<mapsto> q)\<rparr>\<rparr>)
   }"

definition bootstrapMainQueue :: "('o, 'r, 's, 'c) operator_env \<Rightarrow> ('v, 'm, 's, 'c) operator \<Rightarrow> ('v, 'm, 's, 'c) operator option" where
  "bootstrapMainQueue e st = do {
     tqs \<leftarrow> NewNamedQueue ''main'' [WithCompactableTypes [HookRun]] (WithMainName ''main'' (op_queues st));
     let st = st\<lparr>op_queues := tqs\<rparr>;
     case GetHooksInOrder (oe_sorter e) (op_hooks st) bt_OnStartup of
       None \<Rightarrow> Some st
     | Some onStartupHooks \<Rightarrow> do {
         hs \<leftarrow> those (map (\<lambda>hookName. map_option (Pair hookName) (GetHook (op_hooks st) hookName)) (hookNamesInOrder (op_hooks st)));
         queue_main e (map (startup_task e) onStartupHooks @ concat (map (\<lambda>(hookName, h). enable_tasks e hookName h) hs)) st
       }
   }"

definition ensure_queue :: "string \<Rightarrow> TaskQueueSet \<Rightarrow> TaskQueueSet option" where
  "ensure_queue name tqs =
     (if GetByName name tqs = None
      then do {
        tqs \<leftarrow> NewNamedQueue name [WithCompactableTypes [HookRun]] tqs;
        q \<leftarrow> GetByName name tqs;
        Some (tqs\<lparr>Queues := (Queues tqs)(name \<mapsto> snd (q_Start q))\<rparr>)
      }
      else Some tqs)"

fun ensure_queues :: "string list \<Rightarrow> TaskQueueSet \<Rightarrow> TaskQueueSet option" where
  "ensure_queues [] tqs = Some tqs"
| "ensure_queues (name # names) tqs = Option.bind (ensure_queue name tqs) (ensure_queues names)"

definition initAndStartHookQueues :: "('o, 'r, 's, 'c) operator_env \<Rightarrow> ('v, 'm, 's, 'c) operator \<Rightarrow> ('v, 'm, 's, 'c) operator option" where
  "initAndStartHookQueues e st = do {
     schHooks \<leftarrow> hooks_for (oe_sorter e) (op_hooks st) bt_Schedule;
     kubeHooks \<leftarrow> hooks_for (oe_sorter e) (op_hooks st) bt_OnKubernetesEvent;
     tqs \<leftarrow> ensure_queues (concat (map (\<lambda>h. map sc_Queue (Schedules (h_Config h))) schHooks) @
              concat (map (\<lambda>h. map ok_Queue (OnKubernetesEvents (h_Config h))) kubeHooks)) (op_queues st);
     Some (st\<lparr>op_queues := tqs\<rparr>)
   }"

text \<open>\<open>Start\<close>, for an operator with a set of queues and both managers.\<close>

definition op_Start :: "('o, 'r, 's, 'c) operator_env \<Rightarrow> ('v, 'm, 's, 'c) operator \<Rightarrow> ('v, 'm, 's, 'c) operator option" where
  "op_Start e st =
     (if op_started st then Some st
      else do {
        st \<leftarrow> bootstrapMainQueue e st;
        tqs \<leftarrow> StartMain (op_queues st);
        st \<leftarrow> initAndStartHookQueues e (st\<lparr>op_queues := tqs\<rparr>);
        Some (st\<lparr>op_sched := sm_Start (op_sched st), op_started := True\<rparr>)
      })"

section \<open>Events\<close>

text \<open>One round of the loop of \<open>ManagerEventsHandler.Start\<close>. A panic of the callback gives no tasks.\<close>

datatype manager_event = EventSchedule string | EventKube KubeEvent

definition newHookRunTaskNow :: "('o, 'r, 's, 'c) operator_env \<Rightarrow> BindingType \<Rightarrow> ('v, 'm) hook \<Rightarrow> BindingExecutionInfo \<Rightarrow> nat \<Rightarrow> run_task" where
  "newHookRunTaskNow e bindingType h info n =
     WithQueuedAt (oe_now e) (NewHookRunTask (oe_uuid e n) (h_Name h) bindingType info (oe_labels e))"

definition runEventCb :: "'t list option \<Rightarrow> 't list" where
  "runEventCb cb = (case cb of None \<Rightarrow> [] | Some ts \<Rightarrow> ts)"

definition event_callback :: "('o, 'r, 's, 'c) operator_env \<Rightarrow> manager_event \<Rightarrow> ('v, 'm, 's, 'c) operator \<Rightarrow> (nat \<Rightarrow> run_task) list option" where
  "event_callback e ev st =
     (case ev of
        EventSchedule crontab \<Rightarrow>
          HandleCreateTasksFromScheduleEvent (oe_sorter e) (oe_perm e) (op_hooks st) crontab (newHookRunTaskNow e bt_Schedule)
      | EventKube kubeEvent \<Rightarrow>
          CreateTasksFromKubeEvent (oe_sorter e) (op_kube st) (op_hooks st) kubeEvent (newHookRunTaskNow e bt_OnKubernetesEvent))"

definition handle_event :: "('o, 'r, 's, 'c) operator_env \<Rightarrow> manager_event \<Rightarrow> ('v, 'm, 's, 'c) operator \<Rightarrow> ('v, 'm, 's, 'c) operator option" where
  "handle_event e ev st =
     (let (tailTasks, st) = alloc_tasks (runEventCb (event_callback e ev st)) st
      in map_option (\<lambda>(w, tqs). st\<lparr>op_tasks := w, op_queues := tqs\<rparr>)
           (tqs_AddTailTasks (oe_runtime e) tailTasks (op_tasks st) (op_queues st)))"

end
