(* ===== verification/Operator_Props.thy ===== *)
theory Operator_Props
  imports Shell_Operator
begin

text \<open>
  Properties of the operator as a whole: the start, the events, the run of a hook task, and the two ways of combining.
\<close>

section \<open>New tasks\<close>

lemma task_seq_cong:
  assumes "task_seq idf ts tks" and "\<And>v. v \<in> set tks \<Longrightarrow> idf' v = idf v"
  shows "task_seq idf' ts tks"
proof -
  from assms(1) obtain xs where xs: "storage_ok idf ts xs" "index_complete idf ts xs" "tasks_at ts xs = tks" "distinct (map idf tks)"
    by (rule task_seqE)
  have at: "idf' (the (val (items ts) p)) = idf (the (val (items ts) p))" if "p \<in> set xs" for p
    using that xs(3) assms(2) by (auto simp: go_list.contents_def)
  have "storage_ok idf' ts xs" using xs(1) at unfolding storage_ok_def
    by (force split: option.splits)
  moreover have "index_complete idf' ts xs" using xs(2) at by (simp add: index_complete_def)
  moreover have "distinct (map idf' tks)" using xs(4) assms(2) by (metis map_cong)
  ultimately show ?thesis using xs(3) unfolding task_seq_def by blast
qed

lemma queue_inv_frame:
  assumes "queue_inv w q rs"
    and "\<And>r. r \<in> set rs \<Longrightarrow> task_Id (tasks w' r) = task_Id (tasks w r) \<and> task_Type (tasks w' r) = task_Type (tasks w r) \<and>
      compactionID (tasks w' r) = compactionID (tasks w r)"
  shows "queue_inv w' q rs"
proof -
  have "filter_mset (\<lambda>r. countable tc (tasks w' r) \<and> compactionID (tasks w' r) = k) (mset rs) =
      filter_mset (\<lambda>r. countable tc (tasks w r) \<and> compactionID (tasks w r) = k) (mset rs)" for tc k
    using assms(2) by (intro filter_mset_cong) (simp_all add: countable_def)
  then have "count_of w' (queueTasksCounter q) (mset rs) = count_of w (queueTasksCounter q) (mset rs)"
    by (simp add: count_of_def fun_eq_iff)
  moreover have "task_seq (GetId w') (storage q) rs"
  proof (rule task_seq_cong)
    show "task_seq (GetId w) (storage q) rs" using assms(1) by (simp add: queue_inv_def)
    show "GetId w' v = GetId w v" if "v \<in> set rs" for v using assms(2) [OF that] by (simp add: GetId_def)
  qed
  ultimately show ?thesis using assms(1) by (simp add: queue_inv_def counter_exact_def)
qed

lemma queue_inv_cong:
  assumes "queue_inv w q rs" and "\<And>r. r \<in> set rs \<Longrightarrow> tasks w' r = tasks w r"
  shows "queue_inv w' q rs"
  by (rule queue_inv_frame [OF assms(1)]) (simp add: assms(2))

text \<open>
  The queues hold the tasks \<open>rs\<close>; all of them were made by the operator: references and random ids are below the next ones.
\<close>

definition op_inv :: "('o, 'r, 's, 'c) operator_env \<Rightarrow> ('v, 'm, 's, 'c) operator \<Rightarrow> (string \<Rightarrow> taskref list) \<Rightarrow> bool" where
  "op_inv e st rs \<longleftrightarrow> set_inv (op_tasks st) (op_queues st) rs \<and>
     (\<forall>n. \<forall>r \<in> set (rs n). r < op_next st \<and> task_Id (tasks (op_tasks st) r) \<in> oe_uuid e ` {..<op_uuids st})"

lemma op_inv_queue: "op_inv e st rs \<Longrightarrow> Queues (op_queues st) n = Some q \<Longrightarrow> queue_inv (op_tasks st) q (rs n)"
  by (simp add: op_inv_def set_inv_def)

text \<open>What is told of a task: its type, its hook and its queue.\<close>

definition brief :: "('a, 'b) HookMetadata BaseTask \<Rightarrow> TaskType \<times> string option \<times> string" where
  "brief t = (task_Type t, map_option HookName (HookMetadataAccessor (Metadata t)), QueueName t)"

text \<open>A maker of tasks: the random id is the one given, the rest does not depend on it.\<close>

definition maker :: "('o, 'r, 's, 'c) operator_env \<Rightarrow> (nat \<Rightarrow> run_task) \<Rightarrow> bool" where
  "maker e mk \<longleftrightarrow> (\<forall>n. task_Id (mk n) = oe_uuid e n \<and> brief (mk n) = brief (mk 0) \<and> compactionID (mk n) = compactionID (mk 0))"

lemma alloc_task_facts:
  assumes "alloc_task t st = (r, st')"
  shows "r = op_next st" "op_next st' = op_next st + 1" "op_uuids st' = op_uuids st + 1"
    "op_queues st' = op_queues st" "op_hooks st' = op_hooks st" "op_sched st' = op_sched st" "op_started st' = op_started st"
    "\<And>r'. r' \<noteq> op_next st \<Longrightarrow> tasks (op_tasks st') r' = tasks (op_tasks st) r'"
    "task_Id (tasks (op_tasks st') r) = task_Id t" "compactionID (tasks (op_tasks st') r) = compactionID t"
    "brief (tasks (op_tasks st') r) = brief t"
  using assms by (auto simp: alloc_task_def brief_def HookMetadataAccessor_def Let_def split: metadata.splits prod.splits)

lemma alloc_task_inv:
  assumes "op_inv e st rs" and "alloc_task t st = (r, st')" and "task_Id t = oe_uuid e (op_uuids st)"
  shows "op_inv e st' rs" and "r < op_next st' \<and> task_Id (tasks (op_tasks st') r) \<in> oe_uuid e ` {..<op_uuids st'}"
    and "inj (oe_uuid e) \<Longrightarrow> r' \<in> set (rs n) \<Longrightarrow> task_Id (tasks (op_tasks st') r') \<noteq> task_Id (tasks (op_tasks st') r)"
proof -
  note A = alloc_task_facts [OF assms(2)]
  have old: "tasks (op_tasks st') r' = tasks (op_tasks st) r'" if "r' \<in> set (rs n)" for r' n
    using that assms(1) by (intro A(8)) (auto simp: op_inv_def)
  show "op_inv e st' rs"
    unfolding op_inv_def set_inv_def A(2-4)
  proof (intro conjI allI impI ballI)
    fix n q assume "Queues (op_queues st) n = Some q"
    then have "queue_inv (op_tasks st) q (rs n)" using assms(1) by (simp add: op_inv_def set_inv_def)
    then show "queue_inv (op_tasks st') q (rs n)" by (rule queue_inv_cong) (rule old)
  next
    fix n r' assume r': "r' \<in> set (rs n)"
    then show "r' < op_next st + 1" using assms(1) by (force simp: op_inv_def)
    show "task_Id (tasks (op_tasks st') r') \<in> oe_uuid e ` {..<op_uuids st + 1}"
      using assms(1) r' unfolding old [OF r'] op_inv_def by force
  qed
  show "r < op_next st' \<and> task_Id (tasks (op_tasks st') r) \<in> oe_uuid e ` {..<op_uuids st'}"
    using A(1-3,9) assms(3) by auto
  assume inj: "inj (oe_uuid e)" and r': "r' \<in> set (rs n)"
  then obtain k where "k < op_uuids st" "task_Id (tasks (op_tasks st') r') = oe_uuid e k"
    using assms(1) old [OF r'] by (force simp: op_inv_def)
  then show "task_Id (tasks (op_tasks st') r') \<noteq> task_Id (tasks (op_tasks st') r)"
    using inj A(9) assms(3) by (auto dest: injD)
qed

lemma alloc_tasks_facts:
  assumes "alloc_tasks mks st = (new, st')" and "list_all (maker e) mks" and "op_inv e st rs"
  shows "op_inv e st' rs \<and> new = [op_next st ..< op_next st'] \<and> op_next st' = op_next st + length mks \<and>
    op_uuids st' = op_uuids st + length mks \<and>
    map (\<lambda>r. task_Id (tasks (op_tasks st') r)) new = map (oe_uuid e) [op_uuids st ..< op_uuids st'] \<and>
    map (\<lambda>r. brief (tasks (op_tasks st') r)) new = map (\<lambda>mk. brief (mk 0)) mks \<and>
    (\<forall>r < op_next st. tasks (op_tasks st') r = tasks (op_tasks st) r) \<and>
    op_queues st' = op_queues st \<and> op_hooks st' = op_hooks st"
  using assms
proof (induction mks arbitrary: st new)
  case Nil
  then show ?case by simp
next
  case (Cons mk mks)
  obtain r st1 where one: "alloc_task (mk (op_uuids st)) st = (r, st1)" by (cases "alloc_task (mk (op_uuids st)) st")
  note A = alloc_task_facts [OF one]
  obtain rs1 where two: "alloc_tasks mks st1 = (rs1, st')" "new = r # rs1"
    using Cons.prems(1) one by (auto split: prod.splits)
  have mk: "task_Id (mk n) = oe_uuid e n" "brief (mk n) = brief (mk 0)" for n
    using Cons.prems(2) by (simp_all add: maker_def)
  have "list_all (maker e) mks" using Cons.prems(2) by simp
  note I = Cons.IH [OF two(1) this alloc_task_inv(1) [OF Cons.prems(3) one mk(1)]]
  have "tasks (op_tasks st') r = tasks (op_tasks st1) r" using I A(1,2) by simp
  then have r: "task_Id (tasks (op_tasks st') r) = oe_uuid e (op_uuids st)" "brief (tasks (op_tasks st') r) = brief (mk 0)"
    using A(9,11) mk by simp_all
  show ?case
    using I r A(1-5,8) two(2) by (auto simp: upt_conv_Cons simp del: upt_Suc)
qed

section \<open>Events\<close>

lemma newHookRunTaskNow_maker: "maker e (newHookRunTaskNow e bt h info)"
  by (simp add: maker_def newHookRunTaskNow_def NewHookRunTask_def brief_def NewTask_def WithQueuedAt_def WithCompactionID_def
      WithQueueName_def WithLogLabels_def WithMetadata_def)

lemma event_makers: "list_all (maker e) (runEventCb (event_callback e ev st))"
  by (cases ev; cases "hooks_for (oe_sorter e) (op_hooks st) bt_Schedule"; cases "hooks_for (oe_sorter e) (op_hooks st) bt_OnKubernetesEvent")
    (auto simp: runEventCb_def event_callback_def HandleCreateTasksFromScheduleEvent_def CreateTasksFromKubeEvent_def
      newHookRunTaskNow_maker list_all_iff)

lemma only_meta_brief: "only_meta w w' \<Longrightarrow> brief (tasks w' r) = brief (tasks w r)"
  by (simp add: brief_def only_metaD(2) only_meta_QueueName) (simp add: only_meta_def)

lemma new_ids_distinct:
  assumes "op_inv e st rs" and "inj (oe_uuid e)" and "n \<in> dom (Queues (op_queues st))"
    and "map (\<lambda>r. task_Id (tasks (op_tasks st') r)) new = map (oe_uuid e) [op_uuids st ..< u]"
    and "\<And>r. r \<in> set (rs n) \<Longrightarrow> tasks (op_tasks st') r = tasks (op_tasks st) r"
  shows "distinct (map (GetId (op_tasks st')) (rs n @ new))"
proof -
  have old: "map (GetId (op_tasks st')) (rs n) = map (GetId (op_tasks st)) (rs n)" using assms(5) by (simp add: GetId_def)
  obtain q where "queue_inv (op_tasks st) q (rs n)" using assms(1,3) by (auto simp: op_inv_def set_inv_def)
  then have "distinct (map (GetId (op_tasks st)) (rs n))" by (simp add: queue_inv_def task_seq_def)
  moreover have new: "map (GetId (op_tasks st')) new = map (oe_uuid e) [op_uuids st ..< u]" using assms(4) by (simp add: GetId_def [abs_def])
  moreover have "distinct (map (oe_uuid e) [op_uuids st ..< u])" using assms(2) by (simp add: distinct_map inj_on_def)
  moreover have "GetId (op_tasks st) ` set (rs n) \<inter> oe_uuid e ` {op_uuids st ..< u} = {}"
    using assms(1,2) by (fastforce simp: op_inv_def GetId_def dest: injD)
  moreover have "GetId (op_tasks st') ` set new = oe_uuid e ` {op_uuids st ..< u}" using arg_cong [OF new, of set] by simp
  moreover have "GetId (op_tasks st') ` set (rs n) = GetId (op_tasks st) ` set (rs n)" using arg_cong [OF old, of set] by simp
  ultimately show ?thesis by (simp only: distinct_append map_append old new set_map) simp
qed


section \<open>Start\<close>

subsection \<open>A queue that is not near its cap\<close>

lemma length_filter_conj: "length (filter (\<lambda>x. P x \<and> Q x) xs) \<le> length (filter Q xs)"
  by (induction xs) auto

lemma AddLast_uncapped:
  assumes "queue_inv w q rs" and "distinct (map (GetId w) (rs @ [r]))" and "fits64 (rs @ [r])"
    and "\<And>k. count_list (map (\<lambda>r. compactionID (tasks w r)) (rs @ [r])) k < compactionThreshold"
  shows "\<exists>q'. AddLast rt [r] w q = Some (w, q') \<and> queue_inv w q' (rs @ [r]) \<and> hasHandler q' = hasHandler q \<and> q_started q' = q_started q"
proof -
  have seq: "task_seq (GetId w) (storage q) rs" using assms(1) by (simp add: queue_inv_def)
  from storage.add_last_law [OF this assms(2)] obtain ts where
    ts: "addLast (GetId w) (storage q) [r] = Some ts" "task_seq (GetId w) ts (rs @ [r])" by blast
  let ?q = "count_all w [r] (q\<lparr>storage := ts\<rparr>)"
  have inv: "queue_inv w ?q (rs @ [r])" using storage_update_inv [OF assms(1), of ts rs "[r]" "[]"] ts(2) assms(3) by simp
  have "count_of w tc (mset (rs @ [r])) k < compactionThreshold" for tc k
  proof -
    have "count_of w tc (mset (rs @ [r])) k \<le> length (filter (\<lambda>r. compactionID (tasks w r) = k) (rs @ [r]))"
      unfolding count_of_def mset_filter [symmetric] size_mset by (rule length_filter_conj)
    also have "\<dots> = count_list (map (\<lambda>r. compactionID (tasks w r)) (rs @ [r])) k"
      by (simp add: count_list_eq_length_filter filter_map comp_def eq_commute)
    finally show ?thesis using assms(4) [of k] by simp
  qed
  then have "reachedCap (queueTasksCounter ?q) = {}"
    using inv unfolding queue_inv_def counter_exact_def counts_def by (metis equals0I not_less)
  then show ?thesis using ts(1) inv by (simp add: IsAnyCapReached_def count_all_def Let_def)
qed

lemma NewNamedQueue_new:
  assumes "hasMetricStorage tqs"
  shows "\<exists>q. NewNamedQueue name [WithCompactableTypes ts] tqs = Some (tqs\<lparr>Queues := (Queues tqs)(name \<mapsto> q)\<rparr>) \<and>
     queue_inv w q [] \<and> hasHandler q \<and> \<not> q_started q"
  using assms task_seq_new [of "GetId w"]
  by (simp add: NewNamedQueue_def NewTasksQueue_def NewTaskCounter_def)
    (rule exI, rule conjI, rule refl, simp add: queue_inv_def counter_exact_def counts_def count_of_def)

lemma q_Start_inv [simp]: "queue_inv w (snd (q_Start q)) rs = queue_inv w q rs"
  by (simp add: q_Start_def queue_inv_def counter_exact_def SetStatus_def)

lemma q_Start_started: "hasHandler q \<Longrightarrow> q_started (snd (q_Start q))"
  by (simp add: q_Start_def)

lemma ensure_queues_facts:
  assumes "hasMetricStorage tqs"
  shows "\<exists>tqs'. ensure_queues names tqs = Some tqs' \<and> dom (Queues tqs') = dom (Queues tqs) \<union> set names \<and>
     hasMetricStorage tqs' \<and> MainName tqs' = MainName tqs \<and>
     (\<forall>n. if n \<in> dom (Queues tqs) then Queues tqs' n = Queues tqs n
          else (\<forall>q. Queues tqs' n = Some q \<longrightarrow> queue_inv w q [] \<and> q_started q))"
  using assms
proof (induction names arbitrary: tqs)
  case Nil
  then show ?case by (auto simp: dom_def)
next
  case (Cons name names)
  show ?case
  proof (cases "GetByName name tqs")
    case None
    then have fresh: "name \<notin> dom (Queues tqs)" by (auto simp: GetByName_def)
    from NewNamedQueue_new [OF Cons.prems, of name "[HookRun]" w] obtain q where
      q: "NewNamedQueue name [WithCompactableTypes [HookRun]] tqs = Some (tqs\<lparr>Queues := (Queues tqs)(name \<mapsto> q)\<rparr>)"
        "queue_inv w q []" "hasHandler q" by blast
    let ?tqs = "tqs\<lparr>Queues := (Queues tqs)(name \<mapsto> snd (q_Start q))\<rparr>"
    have "ensure_queue name tqs = Some ?tqs" using None q(1) by (simp add: ensure_queue_def GetByName_def)
    moreover have d: "dom (Queues ?tqs) = insert name (dom (Queues tqs))" by (simp add: dom_def) blast
    moreover have m: "hasMetricStorage ?tqs" "MainName ?tqs = MainName tqs" using Cons.prems by simp_all
    moreover from Cons.IH [OF m(1), unfolded d m(2)] obtain tqs' where
      "ensure_queues names ?tqs = Some tqs'" "dom (Queues tqs') = insert name (dom (Queues tqs)) \<union> set names" "hasMetricStorage tqs'"
      "MainName tqs' = MainName tqs" and
      each: "\<And>n. if n \<in> insert name (dom (Queues tqs)) then Queues tqs' n = Queues ?tqs n
          else (\<forall>q. Queues tqs' n = Some q \<longrightarrow> queue_inv w q [] \<and> q_started q)" by blast
    moreover have "if n \<in> dom (Queues tqs) then Queues tqs' n = Queues tqs n
          else (\<forall>q. Queues tqs' n = Some q \<longrightarrow> queue_inv w q [] \<and> q_started q)" for n
      using each [of n] q(2) q_Start_started [OF q(3)] fresh by (cases "n = name") (auto split: if_splits)
    ultimately show ?thesis using fresh by (intro exI [of _ tqs']) simp
  next
    case (Some q)
    then have "ensure_queue name tqs = Some tqs" "name \<in> dom (Queues tqs)" by (auto simp: ensure_queue_def GetByName_def)
    then have "ensure_queues (name # names) tqs = ensure_queues names tqs"
      "dom (Queues tqs) \<union> set (name # names) = dom (Queues tqs) \<union> set names" by auto
    then show ?thesis using Cons.IH [OF Cons.prems] by simp
  qed
qed

subsection \<open>Adding the first tasks\<close>

definition main_only :: "taskref list \<Rightarrow> string \<Rightarrow> taskref list" where
  "main_only rs n = (if n = ''main'' then rs else [])"

lemma main_only_main [simp]: "main_only rs ''main'' = rs"
  by (simp add: main_only_def)

lemma op_inv_main:
  "op_inv e st (main_only rs) \<longleftrightarrow> set_inv (op_tasks st) (op_queues st) (main_only rs) \<and>
     (\<forall>r \<in> set rs. r < op_next st \<and> task_Id (tasks (op_tasks st) r) \<in> oe_uuid e ` {..<op_uuids st})"
proof -
  have "(\<forall>n. \<forall>r \<in> set (main_only rs n). P r) \<longleftrightarrow> (\<forall>r \<in> set rs. P r)" for P
    using main_only_main [of rs] by (metis empty_iff list.set(1) main_only_def)
  then show ?thesis by (simp add: op_inv_def)
qed

text \<open>What stays while tasks are added to the main queue.\<close>

definition booting :: "('v, 'm, 's, 'c) operator \<Rightarrow> ('v, 'm, 's, 'c) operator \<Rightarrow> bool" where
  "booting st st' \<longleftrightarrow> op_hooks st' = op_hooks st \<and> op_sched st' = op_sched st \<and> op_started st' = op_started st \<and>
     hasMetricStorage (op_queues st') = hasMetricStorage (op_queues st) \<and>
     (\<forall>r < op_next st. tasks (op_tasks st') r = tasks (op_tasks st) r)"

text \<open>The set holds just the main queue, ready to be started.\<close>

definition main_ready :: "('v, 'm, 's, 'c) operator \<Rightarrow> bool" where
  "main_ready st \<longleftrightarrow> MainName (op_queues st) = ''main'' \<and>
     (\<exists>q. Queues (op_queues st) = [''main'' \<mapsto> q] \<and> hasHandler q \<and> \<not> q_started q)"

lemma queue_main_facts:
  assumes "list_all (maker e) mks" and "op_inv e st (main_only rs)" and "main_ready st" and "inj (oe_uuid e)"
    and "length rs + length mks < 2 ^ 64"
    and "\<And>k. count_list (map (\<lambda>r. compactionID (tasks (op_tasks st) r)) rs @ map (\<lambda>mk. compactionID (mk 0)) mks) k < compactionThreshold"
  shows "\<exists>st' new. queue_main e mks st = Some st' \<and> op_inv e st' (main_only (rs @ new)) \<and> main_ready st' \<and> booting st st' \<and>
    op_next st \<le> op_next st' \<and> map (\<lambda>r. brief (tasks (op_tasks st') r)) new = map (\<lambda>mk. brief (mk 0)) mks"
  using assms
proof (induction mks arbitrary: st rs)
  case Nil
  then show ?case by (intro exI [of _ st] exI [of _ "[]"]) (simp add: booting_def)
next
  case (Cons mk mks)
  obtain r st1 where one: "alloc_task (mk (op_uuids st)) st = (r, st1)" by (cases "alloc_task (mk (op_uuids st)) st")
  note A = alloc_task_facts [OF one]
  have mk: "task_Id (mk n) = oe_uuid e n" "brief (mk n) = brief (mk 0)" "compactionID (mk n) = compactionID (mk 0)" for n
    using Cons.prems(1) by (simp_all add: maker_def)
  note I = alloc_task_inv [OF Cons.prems(2) one mk(1)]
  obtain q where q: "Queues (op_queues st) = [''main'' \<mapsto> q]" "hasHandler q" "\<not> q_started q" "MainName (op_queues st) = ''main''"
    using Cons.prems(3) by (auto simp: main_ready_def)
  have inv: "queue_inv (op_tasks st1) q rs" using op_inv_queue [OF I(1), of "''main''" q] q(1) A(4) by simp
  have old: "tasks (op_tasks st1) r' = tasks (op_tasks st) r'" if "r' \<in> set rs" for r'
    using Cons.prems(2) that by (intro A(8)) (force simp: op_inv_main)
  have "distinct (map (GetId (op_tasks st1)) rs)" using inv by (simp add: queue_inv_def task_seq_def)
  moreover have "GetId (op_tasks st1) r \<notin> GetId (op_tasks st1) ` set rs"
    using I(3) [OF Cons.prems(4), where n = "''main''"] by (force simp: GetId_def)
  ultimately have dist: "distinct (map (GetId (op_tasks st1)) (rs @ [r]))" by simp
  have cids: "map (\<lambda>r. compactionID (tasks (op_tasks st1) r)) (rs @ [r]) =
      map (\<lambda>r. compactionID (tasks (op_tasks st) r)) rs @ [compactionID (mk 0)]" using old A(10) mk(3) by simp
  have cap: "count_list (map (\<lambda>r. compactionID (tasks (op_tasks st1) r)) (rs @ [r]) @ map (\<lambda>mk. compactionID (mk 0)) mks) k < compactionThreshold" for k
    unfolding cids using Cons.prems(6) [of k] by simp
  have "count_list (map (\<lambda>r. compactionID (tasks (op_tasks st1) r)) (rs @ [r])) k < compactionThreshold" for k
    using cap [of k] by (simp only: count_list_append)
  from AddLast_uncapped [OF inv dist _ this] Cons.prems(5) obtain q' where
    q': "AddLast (oe_runtime e) [r] (op_tasks st1) q = Some (op_tasks st1, q')" "queue_inv (op_tasks st1) q' (rs @ [r])"
      "hasHandler q'" "\<not> q_started q'" using q(2,3) by auto
  let ?st = "st1\<lparr>op_queues := (op_queues st)\<lparr>Queues := [''main'' \<mapsto> q']\<rparr>\<rparr>"
  have step: "queue_main e (mk # mks) st = queue_main e mks ?st" using one q q'(1) A(4) by (simp add: GetMain_def GetByName_def del: AddLast.simps)
  have inv2: "op_inv e ?st (main_only (rs @ [r]))" using q'(2) I(1,2) by (auto simp: op_inv_main set_inv_def)
  have ready: "main_ready ?st" using q'(3,4) q(4) by (simp add: main_ready_def) blast
  have len: "length (rs @ [r]) + length mks < 2 ^ 64" using Cons.prems(5) by simp
  have mks: "list_all (maker e) mks" using Cons.prems(1) by simp
  have "count_list (map (\<lambda>r. compactionID (tasks (op_tasks ?st) r)) (rs @ [r]) @ map (\<lambda>mk. compactionID (mk 0)) mks) k < compactionThreshold" for k
    using cap [of k] by simp
  from Cons.IH [OF mks inv2 ready Cons.prems(4) len this] obtain st' new where
    S: "queue_main e mks ?st = Some st'" "op_inv e st' (main_only ((rs @ [r]) @ new))" "main_ready st'" "booting ?st st'"
      "op_next ?st \<le> op_next st'" "map (\<lambda>r. brief (tasks (op_tasks st') r)) new = map (\<lambda>mk. brief (mk 0)) mks" by blast
  have "tasks (op_tasks st') r = tasks (op_tasks st1) r" using S(4) A(1,2) by (simp add: booting_def)
  then have "brief (tasks (op_tasks st') r) = brief (mk 0)" using A(11) mk(2) by simp
  moreover have "booting st st'" using S(4) A by (simp add: booting_def)
  ultimately show ?case using S step A(2) by (intro exI [of _ st'] exI [of _ "r # new"]) simp
qed


subsection \<open>The tasks of the start\<close>

lemma boot_maker [simp]: "maker e (startup_task e name)" "maker e (enable_task e ty name)"
  by (simp_all add: maker_def startup_task_def enable_task_def boot_task_def brief_def NewTask_def WithQueuedAt_def
      WithCompactionID_def WithMetadata_def)

lemma boot_cid [simp]: "compactionID (startup_task e name n) = name" "compactionID (enable_task e ty name n) = name"
  by (simp_all add: startup_task_def enable_task_def boot_task_def WithQueuedAt_def WithCompactionID_def hook_meta_def)

lemma boot_brief [simp]: "brief (startup_task e name n) = (HookRun, Some name, [])" "brief (enable_task e ty name n) = (ty, Some name, [])"
  by (simp_all add: startup_task_def enable_task_def boot_task_def brief_def NewTask_def WithQueuedAt_def
      WithCompactionID_def WithMetadata_def hook_meta_def HookMetadataAccessor_def)

definition enable_types :: "('v, 'm) hook \<Rightarrow> TaskType list" where
  "enable_types h = (if HasBinding (h_Config h) bt_OnKubernetesEvent then [''EnableKubernetesBindings''] else []) @
     (if HasBinding (h_Config h) bt_Schedule then [''EnableScheduleBindings''] else [])"

lemma enable_tasks_types: "enable_tasks e name h = map (\<lambda>ty. enable_task e ty name) (enable_types h)"
  by (simp add: enable_tasks_def enable_types_def)

lemma enable_types_length: "length (enable_types h) \<le> 2"
  by (simp add: enable_types_def)

lemma count_concat_replicate:
  assumes "distinct (map f xs)" and "\<And>x. x \<in> set xs \<Longrightarrow> length (g x) \<le> m"
  shows "count_list (concat (map (\<lambda>x. map (\<lambda>_. f x) (g x)) xs)) k \<le> m"
  using assms
proof (induction xs)
  case (Cons x xs)
  show ?case
  proof (cases "f x = k")
    case True
    have none: "k \<notin> set (concat (map (\<lambda>x. map (\<lambda>_. f x) (g x)) xs))" using Cons.prems(1) True by auto
    have "count_list (map (\<lambda>_. f x) (g x)) k \<le> length (g x)" using count_le_length [of "map (\<lambda>_. f x) (g x)" k] by simp
    then show ?thesis using none Cons.prems(2) [of x] by (simp add: count_notin)
  next
    case False
    then have "count_list (map (\<lambda>_. f x) (g x)) k = 0" by (intro count_notin) auto
    then show ?thesis using Cons.IH Cons.prems by simp
  qed
qed simp

lemma boot_names_count:
  assumes "distinct names" and "distinct (map h_Name hs)"
  shows "count_list (names @ concat (map (\<lambda>h. map (\<lambda>_. h_Name h) (enable_types h)) hs)) k < compactionThreshold"
proof -
  have "count_list names k \<le> 1" using distinct_count_atmost_1 [THEN iffD1, OF assms(1)] by (simp add: count_mset) 
  moreover have "count_list (concat (map (\<lambda>h. map (\<lambda>_. h_Name h) (enable_types h)) hs)) k \<le> 2"
    by (rule count_concat_replicate [OF assms(2) enable_types_length])
  ultimately show ?thesis by (simp add: compactionThreshold_def)
qed


lemma bootstrap_facts:
  assumes sort: "go_sort (oe_sorter e)" and hs: "indexed hs (op_hooks st)" and "inj (oe_uuid e)"
    and "Queues (op_queues st) = Map.empty" and "hasMetricStorage (op_queues st)" and "3 * length hs < 2 ^ 64"
  shows "\<exists>st' names rs. bootstrapMainQueue e st = Some st' \<and> GetHooksInOrder (oe_sorter e) (op_hooks st) bt_OnStartup = Some names \<and>
     op_inv e st' (main_only rs) \<and> main_ready st' \<and> booting st st' \<and>
     map (\<lambda>r. brief (tasks (op_tasks st') r)) rs =
       map (\<lambda>name. (HookRun, Some name, [])) names @ concat (map (\<lambda>h. map (\<lambda>ty. (ty, Some (h_Name h), [])) (enable_types h)) hs)"
proof -
  from go_sort.names_in_order [OF sort hs, of bt_OnStartup] obtain ps where
    ps: "GetHooksInOrder (oe_sorter e) (op_hooks st) bt_OnStartup = Some (map (\<lambda>p. h_Name (hs ! p)) ps)"
      "mset ps = mset (binding_hooks hs bt_OnStartup)" by blast
  let ?names = "map (\<lambda>p. h_Name (hs ! p)) ps"
  have dist: "distinct (map h_Name hs)" and heap: "hookNamesInOrder (op_hooks st) = map h_Name hs" using hs by (simp_all add: indexed_def)
  have "distinct (binding_hooks hs bt_OnStartup)" "set (binding_hooks hs bt_OnStartup) \<subseteq> {..<length hs}"
    by (auto simp: binding_hooks_def)
  then have dps: "distinct ps" "set ps \<subseteq> {..<length hs}" using ps(2) mset_eq_imp_distinct_iff mset_eq_setD by metis+
  have names: "distinct ?names"
    using dps dist by (auto simp: distinct_map inj_on_def distinct_conv_nth subset_iff)
  have len: "length ps \<le> length hs" using dps card_mono [OF _ dps(2)] by (simp add: distinct_card)
  let ?mks = "map (startup_task e) ?names @ concat (map (\<lambda>h. enable_tasks e (h_Name h) h) hs)"
  have "length (concat (map (\<lambda>h. enable_tasks e (h_Name h) h) hs)) \<le> 2 * length hs"
  proof (induction hs)
    case (Cons h hs)
    then show ?case using enable_types_length [of h] by (simp add: enable_tasks_types)
  qed simp
  then have small: "length [] + length ?mks < 2 ^ 64" using len assms(6) by simp
  let ?tqs = "(op_queues st)\<lparr>MainName := ''main''\<rparr>"
  from NewNamedQueue_new [of ?tqs "''main''" "[HookRun]" "op_tasks st"] assms(4,5) obtain q where
    q: "NewNamedQueue ''main'' [WithCompactableTypes [HookRun]] ?tqs = Some (?tqs\<lparr>Queues := [''main'' \<mapsto> q]\<rparr>)"
      "queue_inv (op_tasks st) q []" "hasHandler q" "\<not> q_started q" by auto
  let ?st = "st\<lparr>op_queues := ?tqs\<lparr>Queues := [''main'' \<mapsto> q]\<rparr>\<rparr>"
  have inv: "op_inv e ?st (main_only [])" using q(2) by (simp add: op_inv_main set_inv_def main_only_def)
  have ready: "main_ready ?st" using q(3,4) by (simp add: main_ready_def) blast
  have mks: "list_all (maker e) ?mks" by (auto simp: list_all_iff enable_tasks_types)
  have "count_list (map (\<lambda>r. compactionID (tasks (op_tasks ?st) r)) [] @ map (\<lambda>mk. compactionID (mk 0)) ?mks) k < compactionThreshold" for k
    using boot_names_count [OF names dist, of k] by (simp add: map_concat comp_def enable_tasks_types)
  from queue_main_facts [OF mks inv ready assms(3) small this] obtain st' new where
    S: "queue_main e ?mks ?st = Some st'" "op_inv e st' (main_only ([] @ new))" "main_ready st'" "booting ?st st'"
      "map (\<lambda>r. brief (tasks (op_tasks st') r)) new = map (\<lambda>mk. brief (mk 0)) ?mks" by blast
  have "those (map (\<lambda>hookName. map_option (Pair hookName) (GetHook (op_hooks st) hookName)) (map h_Name hs)) = Some (map (\<lambda>h. (h_Name h, h)) hs)"
    unfolding map_map comp_def
  proof (rule those_map_Some)
    fix h assume "h \<in> set hs"
    then obtain p where "p < length hs" "h = hs ! p" by (auto simp: in_set_conv_nth)
    then show "map_option (Pair (h_Name h)) (GetHook (op_hooks st) (h_Name h)) = Some (h_Name h, h)" using indexed_GetHook [OF hs] by simp
  qed
  then have "bootstrapMainQueue e st = Some st'"
    using q(1) ps(1) S(1) heap by (simp add: bootstrapMainQueue_def WithMainName_def comp_def)
  moreover have "booting st st'" using S(4) by (simp add: booting_def)
  moreover have "map (\<lambda>mk. brief (mk 0)) ?mks = map (\<lambda>name. (HookRun, Some name, [])) ?names @
      concat (map (\<lambda>h. map (\<lambda>ty. (ty, Some (h_Name h), [])) (enable_types h)) hs)"
    by (simp add: map_concat comp_def enable_tasks_types)
  ultimately show ?thesis using S(2,3,5) ps(1) by (intro exI [of _ st'] exI [of _ ?names] exI [of _ new]) simp
qed


definition binding_queues :: "('v, 'm) hook \<Rightarrow> string list" where
  "binding_queues h = map sc_Queue (Schedules (h_Config h)) @ map ok_Queue (OnKubernetesEvents (h_Config h))"

lemma concat_map_filter: "(\<And>x. \<not> P x \<Longrightarrow> f x = []) \<Longrightarrow> concat (map f (filter P xs)) = concat (map f xs)"
  by (induction xs) auto

lemma hooks_for_queues:
  assumes "go_sort sorter" and "indexed hs hm" and "hooks_for sorter hm bt_Schedule = Some schHooks"
    and "hooks_for sorter hm bt_OnKubernetesEvent = Some kubeHooks"
  shows "set (concat (map (\<lambda>h. map sc_Queue (Schedules (h_Config h))) schHooks) @
      concat (map (\<lambda>h. map ok_Queue (OnKubernetesEvents (h_Config h))) kubeHooks)) = (\<Union>h \<in> set hs. set (binding_queues h))"
proof -
  have "bt_Schedule \<noteq> bt_OnStartup" "bt_OnKubernetesEvent \<noteq> bt_OnStartup" by code_simp+
  with go_sort.hooks_for_indexed [OF assms(1,2), of bt_Schedule] go_sort.hooks_for_indexed [OF assms(1,2), of bt_OnKubernetesEvent] assms(3,4)
  have sch: "schHooks = filter (\<lambda>h. HasBinding (h_Config h) bt_Schedule) hs" and kube: "kubeHooks = filter (\<lambda>h. HasBinding (h_Config h) bt_OnKubernetesEvent) hs"
    by (auto simp: binding_hooks_nth)
  have "concat (map (\<lambda>h. map sc_Queue (Schedules (h_Config h))) schHooks) = concat (map (\<lambda>h. map sc_Queue (Schedules (h_Config h))) hs)"
    unfolding sch by (rule concat_map_filter) (simp add: HasBinding_def)
  moreover have "concat (map (\<lambda>h. map ok_Queue (OnKubernetesEvents (h_Config h))) kubeHooks) =
      concat (map (\<lambda>h. map ok_Queue (OnKubernetesEvents (h_Config h))) hs)"
    unfolding kube by (rule concat_map_filter) (simp add: HasBinding_def)
  ultimately show ?thesis by (auto simp: binding_queues_def)
qed



subsection \<open>Examples\<close>

definition demo_op_env :: "bool \<Rightarrow> (json, small_version, string option list, small_server) operator_env" where
  "demo_op_env ok = \<lparr>oe_runtime = fresh_runtime, oe_run = demo_run_env ok, oe_patch = demo_patch_env, oe_cluster = demo_env,
     oe_cron = numbered_cron (\<lambda>_. True), oe_sorter = sort_key, oe_perm = oldest_first, oe_uuid = (\<lambda>n. replicate n CHR ''u''),
     oe_now = 0, oe_labels = Map.empty, oe_error = (\<lambda>_. []), oe_enableError = [], RateLimitWait = (\<lambda>_. False)\<rparr>"

definition demo_op_hook :: "(unit, unit) hook" where
  "demo_op_hook =
     (let config = (demo_hook_config (Some 1))\<lparr>Schedules := [demo_schedule ''s'' ''* *'']\<rparr>
      in \<lparr>h_Name = ''h'', h_Path = ''/h'', h_Config = config,
          h_Controller = NewHookController\<lparr>ScheduleController := Some (fst (Hook_Bindings.EnableScheduleBindings (numbered_cron (\<lambda>_. True))
            (NewScheduleBindingsController (Schedules config)) (NewScheduleManager [])))\<rparr>\<rparr>)"

definition demo_operator :: "(unit, unit, string option list, small_server) operator" where
  "demo_operator = \<lparr>op_hooks = register_hook demo_op_hook NewHookManager, op_kube = demo_kube_world, op_sched = NewScheduleManager [],
     op_queues = NewTaskQueueSet\<lparr>hasMetricStorage := True\<rparr>, op_tasks = demo_world, op_next = 10, op_uuids = 0,
     op_files = Map.empty, op_cluster = demo_server, op_started = False\<rparr>"

lemma demo_uuid_inj: "inj (oe_uuid (demo_op_env ok))"
  by (rule injI) (simp add: demo_op_env_def)




end
