(* ===== verification/Hook_Task.thy ===== *)
theory Hook_Task
  imports Operator_Props
begin

text \<open>
  The run of a hook task by the operator: combining, execution, retry and the unlocking of kubernetes events.
\<close>

section \<open>Combining before the run\<close>

text \<open>The tasks that are merged into the task at hand, and what it shows afterwards.\<close>

definition may_combine :: "qworld \<Rightarrow> taskref \<Rightarrow> (slice, slice) HookMetadata \<Rightarrow> bool" where
  "may_combine w t m \<longleftrightarrow>
     \<not> (hm_BindingType m = bt_OnKubernetesEvent \<and> bc_Type (hd (ctx_vals w t)) = TypeSynchronization \<and> hm_Group m = [])"

definition merged :: "qworld \<Rightarrow> taskref \<Rightarrow> (slice, slice) HookMetadata \<Rightarrow> taskref list \<Rightarrow> taskref list" where
  "merged w t m rs = (if may_combine w t m then takeWhile (same_hook w t) rs else [])"

definition merged_contexts :: "qworld \<Rightarrow> taskref \<Rightarrow> taskref list \<Rightarrow> BindingContext list" where
  "merged_contexts w t others =
     (if others = [] then ctx_vals w t else compact_groups (ctx_vals w t @ concat (map (ctx_vals w) others)))"

definition merged_ids :: "qworld \<Rightarrow> taskref \<Rightarrow> taskref list \<Rightarrow> string list" where
  "merged_ids w t others = mon_vals w t @ concat (map (mon_vals w) others)"

lemma slice_vals_empty: "s_len s = 0 \<Longrightarrow> slice_vals st s = []"
  by (simp add: slice_vals_def)

lemma store_slice_vals: "store_slice st xs = (s, st') \<Longrightarrow> slice_vals st' s = xs"
  by (auto simp: store_slice_def slice_of_list_def slice_vals_def nil_slice_def split: if_splits)

lemma shouldCombine_may:
  assumes "HookMetadataAccessor (Metadata (tasks w t)) = Some m" and "ctx_vals w t \<noteq> []"
  shows "shouldCombine w m = Some (may_combine w t m)"
  using assms by (auto simp: shouldCombine_def may_combine_def ctx_vals_def split: list.splits)

lemma takeWhile_drop: "drop (length (takeWhile P xs)) xs = dropWhile P xs"
  by (simp add: dropWhile_eq_drop)

text \<open>What the handler has in hand after combining: metadata \<open>m'\<close> that shows the merged contexts and ids, also in the task.\<close>

definition combined_to :: "qworld \<Rightarrow> taskref \<Rightarrow> (slice, slice) HookMetadata \<Rightarrow> taskref list \<Rightarrow>
    (slice, slice) HookMetadata \<Rightarrow> qworld \<Rightarrow> bool" where
  "combined_to w t m others m' w' \<longleftrightarrow>
     HookMetadataAccessor (Metadata (tasks w' t)) = Some m' \<and> AllowFailure m' = AllowFailure m \<and>
     tasks w' = (tasks w)(t := UpdateMetadata (MetaHook m') (tasks w t)) \<and>
     slice_vals (ctxs w') (hm_BindingContext m') = merged_contexts w t others \<and>
     slice_vals (mons w') (MonitorIDs m') = merged_ids w t others"

lemma combine_step_facts:
  assumes "\<And>c n. n \<le> rt_grow (oe_runtime e) c n" and "world_ok (op_tasks st)"
    and "Queues (op_queues st) (QueueName (tasks (op_tasks st) t)) = Some q" and "queue_inv (op_tasks st) q (t # rs)"
    and "HookMetadataAccessor (Metadata (tasks (op_tasks st) t)) = Some m" and "own_ids (op_tasks st) (MonitorIDs m) rs"
    and "ctx_vals (op_tasks st) t \<noteq> []"
  shows "\<exists>m' w' q'. combine_step e t m st = Some (m', st\<lparr>op_tasks := w',
       op_queues := (op_queues st)\<lparr>Queues := (Queues (op_queues st))(QueueName (tasks (op_tasks st) t) \<mapsto> q')\<rparr>\<rparr>) \<and>
     combined_to (op_tasks st) t m (merged (op_tasks st) t m rs) m' w' \<and>
     queue_inv (op_tasks st) q' (t # drop (length (merged (op_tasks st) t m rs)) rs)"
proof -
  let ?w = "op_tasks st" and ?tqs = "op_queues st"
  let ?n = "QueueName (tasks ?w t)"
  have sc: "shouldCombine ?w m = Some (may_combine ?w t m)" by (rule shouldCombine_may [OF assms(5,7)])
  have meta: "Metadata (tasks ?w t) = MetaHook m" using assms(5) by (auto simp: HookMetadataAccessor_def split: metadata.splits)
  have vals: "slice_vals (ctxs ?w) (hm_BindingContext m) = ctx_vals ?w t" "slice_vals (mons ?w) (MonitorIDs m) = mon_vals ?w t"
    using assms(5) by (simp_all add: ctx_vals_def mon_vals_def)
  have same: "st\<lparr>op_tasks := ?w, op_queues := ?tqs\<lparr>Queues := (Queues ?tqs)(?n \<mapsto> q)\<rparr>\<rparr> = st" using assms(3) by (simp add: fun_upd_idem)
  have keep: "combined_to ?w t m [] m ?w"
    using assms(5) meta vals by (auto simp: combined_to_def merged_contexts_def merged_ids_def UpdateMetadata_def fun_upd_idem_iff)
  show ?thesis
  proof (cases "merged ?w t m rs = []")
    case True
    have "combine_step e t m st = Some (m, st)"
    proof (cases "may_combine ?w t m")
      case True
      with \<open>merged ?w t m rs = []\<close> have "takeWhile (same_hook ?w t) rs = []" by (simp add: merged_def)
      from combine_none [OF assms(4,5) this] show ?thesis
        using sc True assms(3) by (simp add: combine_step_def GetByName_def)
    qed (simp add: combine_step_def sc)
    then show ?thesis using True keep same assms(4) by (intro exI [of _ m] exI [of _ ?w] exI [of _ q]) simp
  next
    case False
    then have may: "may_combine ?w t m" and others: "merged ?w t m rs = takeWhile (same_hook ?w t) rs"
      by (auto simp: merged_def split: if_splits)
    have "takeWhile (same_hook ?w t) rs \<noteq> []" using False others by simp
    from combine_head [where grow = "rt_grow (oe_runtime e)" and tqs = ?tqs, OF assms(1-6) this] obtain ids ms q' where
      C: "combineBindingContextForHook (rt_grow (oe_runtime e)) t (Some q) ?w ?tqs =
         Some (Some \<lparr>BindingContexts = compact_groups (ctx_vals ?w t @ concat (map (ctx_vals ?w) (merged ?w t m rs))), cr_MonitorIDs = ids\<rparr>,
           ?w\<lparr>mons := ms\<rparr>, ?tqs\<lparr>Queues := (Queues ?tqs)(?n \<mapsto> q')\<rparr>)"
        "queue_inv ?w q' (t # dropWhile (same_hook ?w t) rs)" "slice_vals ms ids = merged_ids ?w t (merged ?w t m rs)"
      unfolding merged_ids_def others by blast
    obtain bc cs where S: "store_slice (ctxs ?w) (merged_contexts ?w t (merged ?w t m rs)) = (bc, cs)"
      by (cases "store_slice (ctxs ?w) (merged_contexts ?w t (merged ?w t m rs))")
    define m' where "m' = (let h = m\<lparr>hm_BindingContext := bc\<rparr> in if s_len ids > 0 then h\<lparr>MonitorIDs := ids\<rparr> else h)"
    let ?w' = "upd_task t (UpdateMetadata (MetaHook m')) (?w\<lparr>mons := ms, ctxs := cs\<rparr>)"
    have step: "combine_step e t m st = Some (m', st\<lparr>op_tasks := ?w', op_queues := ?tqs\<lparr>Queues := (Queues ?tqs)(?n \<mapsto> q')\<rparr>\<rparr>)"
      using sc may C(1) S False assms(3) by (simp add: combine_step_def GetByName_def merged_contexts_def m'_def Let_def)
    have "slice_vals ms (MonitorIDs m') = merged_ids ?w t (merged ?w t m rs)"
    proof (cases "s_len ids > 0")
      case False
      then have none: "merged_ids ?w t (merged ?w t m rs) = []" using C(3) by (simp add: slice_vals_empty)
      then have "mon_vals ?w t = []" by (simp add: merged_ids_def)
      then have "s_len (MonitorIDs m) = 0"
        using assms(2,5) vals(2) by (fastforce simp: world_ok_def slice_ok_def slice_vals_def split: if_splits)
      then show ?thesis using False none by (simp add: m'_def slice_vals_empty)
    qed (simp add: m'_def C(3) Let_def)
    moreover have "slice_vals cs (hm_BindingContext m') = merged_contexts ?w t (merged ?w t m rs)" "AllowFailure m' = AllowFailure m"
      using store_slice_vals [OF S] by (simp_all add: m'_def Let_def)
    ultimately have "combined_to ?w t m (merged ?w t m rs) m' ?w'"
      by (simp add: combined_to_def upd_task_def HookMetadataAccessor_def UpdateMetadata_def)
    then show ?thesis using step C(2) others by (intro exI [of _ m'] exI [of _ ?w'] exI [of _ q']) (simp add: takeWhile_drop)
  qed
qed

section \<open>The run\<close>

lemma run_step_facts:
  assumes "Version (h_Config h) = ''v1''" and "\<And>spec. pe_valid (oe_patch e) spec \<Longrightarrow> NewFromOperationSpec (pe_env (oe_patch e)) spec \<noteq> None"
  shows "\<exists>err props kw fs c w'. handleRunHook (oe_run e) (oe_patch e) h (slice_vals (ctxs (op_tasks st)) (hm_BindingContext m)) (op_uuids st)
       (op_kube st) (op_files st) (op_cluster st) = Some (err, props, kw, fs, c) \<and>
     run_step e t h m st = Some (if err = None \<or> AllowFailure m then Success else Fail, props,
       st\<lparr>op_kube := kw, op_files := fs, op_cluster := c, op_uuids := op_uuids st + 5, op_tasks := w'\<rparr>) \<and>
     (w' = op_tasks st \<or> (\<exists>msg now. w' = upd_task t (WithQueuedAt now) (upd_task t (UpdateFailureMessage msg) (op_tasks st))))"
proof -
  from handleRunHook_facts [OF assms, where e = "oe_run e" and contexts = "slice_vals (ctxs (op_tasks st)) (hm_BindingContext m)"
      and n = "op_uuids st" and w = "op_kube st" and fs = "op_files st" and c = "op_cluster st"]
  obtain err props kw fs c where H: "handleRunHook (oe_run e) (oe_patch e) h (slice_vals (ctxs (op_tasks st)) (hm_BindingContext m)) (op_uuids st)
       (op_kube st) (op_files st) (op_cluster st) = Some (err, props, kw, fs, c)" by blast
  define w' where "w' = (case err of Some er \<Rightarrow> if AllowFailure m then op_tasks st
      else upd_task t (WithQueuedAt (oe_now e)) (upd_task t (UpdateFailureMessage (oe_error e er)) (op_tasks st)) | None \<Rightarrow> op_tasks st)"
  have "run_step e t h m st = Some (if err = None \<or> AllowFailure m then Success else Fail, props,
       st\<lparr>op_kube := kw, op_files := fs, op_cluster := c, op_uuids := op_uuids st + 5, op_tasks := w'\<rparr>)"
    using H by (simp add: run_step_def w'_def Let_def split: option.splits)
  moreover have "w' = op_tasks st \<or> (\<exists>msg now. w' = upd_task t (WithQueuedAt now) (upd_task t (UpdateFailureMessage msg) (op_tasks st)))"
    by (auto simp: w'_def split: option.splits)
  ultimately show ?thesis using H by blast
qed

text \<open>A failed run changes times and messages of the task only.\<close>

lemma failed_task_shows:
  assumes "w' = w \<or> (\<exists>msg now. w' = upd_task t (WithQueuedAt now) (upd_task t (UpdateFailureMessage msg) w))"
  shows "ctx_vals w' r = ctx_vals w r" "mon_vals w' r = mon_vals w r" "queue_inv w q rs \<Longrightarrow> queue_inv w' q rs"
proof -
  have "Metadata (tasks w' r) = Metadata (tasks w r)" "ctxs w' = ctxs w" "mons w' = mons w" for r
    using assms by (auto simp: upd_task_def WithQueuedAt_def UpdateFailureMessage_def)
  then show "ctx_vals w' r = ctx_vals w r" "mon_vals w' r = mon_vals w r" by (simp_all add: ctx_vals_def mon_vals_def cong: option.case_cong)
  show "queue_inv w' q rs" if "queue_inv w q rs"
    using assms by (intro queue_inv_frame [OF that]) (auto simp: upd_task_def WithQueuedAt_def UpdateFailureMessage_def)
qed

text \<open>The hook is not run for a Synchronization it does not want.\<close>

abbreviation is_sync :: "qworld \<Rightarrow> taskref \<Rightarrow> bool" where
  "is_sync w t \<equiv> bc_IsSynchronization (hd (ctx_vals w t))"

definition runs :: "qworld \<Rightarrow> taskref \<Rightarrow> (slice, slice) HookMetadata \<Rightarrow> bool" where
  "runs w t m \<longleftrightarrow> \<not> is_sync w t \<or> ExecuteOnSynchronization m"

text \<open>
  C6. A hook task at the head of its queue, for a hook of version v1. When the hook is to run, the tasks behind it for the same hook (none, for
  a Synchronization without group) leave the queue and the hook is executed with the combined contexts; the task keeps them, so a retry has
  them too. The task fails exactly when the execution gives an error and the binding does not allow failures. A Synchronization that succeeds, or
  that the hook does not want, unlocks the events of all monitors of all combined tasks; nothing else unlocks events.
\<close>

theorem taskHandleHookRun_outcome:
  assumes "\<And>c n. n \<le> rt_grow (oe_runtime e) c n" and "world_ok (op_tasks st)"
    and "Queues (op_queues st) (QueueName (tasks (op_tasks st) t)) = Some q" and "queue_inv (op_tasks st) q (t # rs)"
    and "task_hook t st = Some (m, h)" and "own_ids (op_tasks st) (MonitorIDs m) rs" and "ctx_vals (op_tasks st) t \<noteq> []"
    and "Version (h_Config h) = ''v1''" and "\<not> RateLimitWait e (HookName m)"
    and "\<And>spec. pe_valid (oe_patch e) spec \<Longrightarrow> NewFromOperationSpec (pe_env (oe_patch e)) spec \<noteq> None"
  shows "\<exists>s st' q' err props kw fs c others. taskHandleHookRun e t st = (Some (Task_Storage.empty_result s), st') \<and>
     others = (if runs (op_tasks st) t m then merged (op_tasks st) t m rs else []) \<and>
     Queues (op_queues st') (QueueName (tasks (op_tasks st) t)) = Some q' \<and> queue_inv (op_tasks st') q' (t # drop (length others) rs) \<and>
     ctx_vals (op_tasks st') t = merged_contexts (op_tasks st) t others \<and> mon_vals (op_tasks st') t = merged_ids (op_tasks st) t others \<and>
     (if runs (op_tasks st) t m
      then handleRunHook (oe_run e) (oe_patch e) h (merged_contexts (op_tasks st) t others) (op_uuids st) (op_kube st) (op_files st) (op_cluster st) =
          Some (err, props, kw, fs, c) \<and>
        s = (if err = None \<or> AllowFailure m then Success else Fail)
      else s = Success \<and> kw = op_kube st \<and> fs = op_files st \<and> c = op_cluster st) \<and>
     op_files st' = fs \<and> op_cluster st' = c \<and>
     op_kube st' = (if is_sync (op_tasks st) t \<and> s = Success
       then fold (UnlockKubernetesEventsFor (h_Controller h)) (merged_ids (op_tasks st) t others) kw else kw)"
proof -
  let ?w = "op_tasks st" and ?tqs = "op_queues st"
  let ?n = "QueueName (tasks ?w t)"
  have meta: "HookMetadataAccessor (Metadata (tasks ?w t)) = Some m" using assms(5) by (auto simp: task_hook_def bind_eq_Some_conv)
  have vals: "slice_vals (ctxs ?w) (hm_BindingContext m) = ctx_vals ?w t" "slice_vals (mons ?w) (MonitorIDs m) = mon_vals ?w t"
    using meta by (simp_all add: ctx_vals_def mon_vals_def)
  have sync: "(case slice_vals (ctxs ?w) (hm_BindingContext m) of [] \<Rightarrow> False | bc # _ \<Rightarrow> bc_IsSynchronization bc) = is_sync ?w t"
    using assms(7) by (simp add: vals split: list.splits)
  have run: "shouldRunHook h (is_sync ?w t) m = runs ?w t m" using assms(8) by (auto simp: shouldRunHook_def runs_def)
  show ?thesis
  proof (cases "runs ?w t m")
    case False
    then have "taskHandleHookRun e t st = (Some (Task_Storage.empty_result Success),
        st\<lparr>op_kube := fold (UnlockKubernetesEventsFor (h_Controller h)) (mon_vals ?w t) (op_kube st)\<rparr>)"
      using assms(5,9) sync run by (simp add: taskHandleHookRun_def Let_def vals runs_def)
    then show ?thesis using False assms(3,4)
      by (intro exI [of _ Success] exI [of _ "st\<lparr>op_kube := fold (UnlockKubernetesEventsFor (h_Controller h)) (mon_vals ?w t) (op_kube st)\<rparr>"]
          exI [of _ q] exI [of _ "None"] exI [of _ no_props] exI [of _ "op_kube st"] exI [of _ "op_files st"] exI [of _ "op_cluster st"] exI [of _ "[]"])
        (simp add: merged_contexts_def merged_ids_def runs_def)
  next
    case True
    let ?others = "merged ?w t m rs"
    from combine_step_facts [OF assms(1-4) meta assms(6,7)] obtain m' w1 q' where
      C: "combine_step e t m st = Some (m', st\<lparr>op_tasks := w1, op_queues := ?tqs\<lparr>Queues := (Queues ?tqs)(?n \<mapsto> q')\<rparr>\<rparr>)"
        "combined_to ?w t m ?others m' w1" "queue_inv ?w q' (t # drop (length ?others) rs)" by blast
    let ?st1 = "st\<lparr>op_tasks := w1, op_queues := ?tqs\<lparr>Queues := (Queues ?tqs)(?n \<mapsto> q')\<rparr>\<rparr>"
    have shown: "slice_vals (ctxs w1) (hm_BindingContext m') = merged_contexts ?w t ?others" "slice_vals (mons w1) (MonitorIDs m') = merged_ids ?w t ?others"
      "AllowFailure m' = AllowFailure m" "ctx_vals w1 t = merged_contexts ?w t ?others" "mon_vals w1 t = merged_ids ?w t ?others"
      using C(2) by (auto simp: combined_to_def ctx_vals_def mon_vals_def)
    from run_step_facts [OF assms(8,10), where st = ?st1 and m = m' and t = t] obtain err props kw fs c w2 where
      "handleRunHook (oe_run e) (oe_patch e) h (slice_vals (ctxs (op_tasks ?st1)) (hm_BindingContext m')) (op_uuids ?st1)
         (op_kube ?st1) (op_files ?st1) (op_cluster ?st1) = Some (err, props, kw, fs, c)"
      "run_step e t h m' ?st1 = Some (if err = None \<or> AllowFailure m' then Success else Fail, props,
         ?st1\<lparr>op_kube := kw, op_files := fs, op_cluster := c, op_uuids := op_uuids ?st1 + 5, op_tasks := w2\<rparr>)"
      "w2 = op_tasks ?st1 \<or> (\<exists>msg now. w2 = upd_task t (WithQueuedAt now) (upd_task t (UpdateFailureMessage msg) (op_tasks ?st1)))" by blast
    then have R: "handleRunHook (oe_run e) (oe_patch e) h (merged_contexts ?w t ?others) (op_uuids st) (op_kube st) (op_files st) (op_cluster st) =
            Some (err, props, kw, fs, c)"
        "run_step e t h m' ?st1 = Some (if err = None \<or> AllowFailure m then Success else Fail, props,
            ?st1\<lparr>op_kube := kw, op_files := fs, op_cluster := c, op_uuids := op_uuids st + 5, op_tasks := w2\<rparr>)"
        "w2 = w1 \<or> (\<exists>msg now. w2 = upd_task t (WithQueuedAt now) (upd_task t (UpdateFailureMessage msg) w1))"
      using shown(1,3) by simp_all
    define s where "s = (if err = None \<or> AllowFailure m then Success else Fail)"
    have mons2: "slice_vals (mons w2) (MonitorIDs m') = merged_ids ?w t ?others" using R(3) shown(2) by (auto simp: upd_task_def)
    let ?kw = "if is_sync ?w t \<and> s = Success then fold (UnlockKubernetesEventsFor (h_Controller h)) (merged_ids ?w t ?others) kw else kw"
    let ?st' = "?st1\<lparr>op_kube := ?kw, op_files := fs, op_cluster := c, op_uuids := op_uuids st + 5, op_tasks := w2\<rparr>"
    have "taskHandleHookRun e t st = (Some (Task_Storage.empty_result s), ?st')"
      using assms(5,8,9) sync run True C(1) R(2) mons2 by (simp add: taskHandleHookRun_def Let_def s_def)
    moreover have "queue_inv w1 q' (t # drop (length ?others) rs)"
    proof (rule queue_inv_frame [OF C(3)])
      have "tasks w1 = (tasks ?w)(t := UpdateMetadata (MetaHook m') (tasks ?w t))" using C(2) by (simp add: combined_to_def)
      then show "task_Id (tasks w1 r) = task_Id (tasks ?w r) \<and> task_Type (tasks w1 r) = task_Type (tasks ?w r) \<and>
          compactionID (tasks w1 r) = compactionID (tasks ?w r)" for r by (simp add: UpdateMetadata_def)
    qed
    then have "queue_inv w2 q' (t # drop (length ?others) rs)" by (rule failed_task_shows(3) [OF R(3)])
    moreover have "ctx_vals w2 t = merged_contexts ?w t ?others" "mon_vals w2 t = merged_ids ?w t ?others"
      using failed_task_shows(1,2) [OF R(3)] shown(4,5) by simp_all
    ultimately show ?thesis using True R(1)
      by (intro exI [of _ s] exI [of _ ?st'] exI [of _ q'] exI [of _ err] exI [of _ props] exI [of _ kw] exI [of _ fs] exI [of _ c]
          exI [of _ ?others]) (simp add: s_def)
  qed
qed


definition demo_meta :: "(slice, slice) HookMetadata" where
  "demo_meta = the (HookMetadataAccessor (Metadata (tasks demo_world 0)))"

definition demo_failing :: "(unit, unit, string option list, small_server) operator" where
  "demo_failing = demo_operator\<lparr>op_hooks := register_hook (demo_run_hook\<lparr>h_Name := ''hookA''\<rparr>) NewHookManager\<rparr>"

theorem taskHandleHookRun_outcome_witness:
  "\<exists>q q' tqs st'. queue_inv demo_world q [0, 1, 2] \<and>
     taskHandleHookRun (demo_op_env False) 0 (demo_failing\<lparr>op_queues := tqs\<rparr>) = (Some (Task_Storage.empty_result Fail), st') \<and>
     queue_inv (op_tasks st') q' [0, 2] \<and> mon_vals (op_tasks st') 0 = [''A'', ''B'']"
proof -
  let ?e = "demo_op_env False"
  from demo_inv obtain q0 where q0: "queue_inv demo_world q0 []" by blast
  have d: "distinct (map (GetId demo_world) ([0, 1, 2] @ []))" by code_simp
  from AddFirst_inv [OF q0 d] obtain q where q: "queue_inv demo_world q (0 # [1, 2])" by auto
  define tqs where "tqs = NewTaskQueueSet\<lparr>Queues := [[] \<mapsto> q]\<rparr>"
  let ?st = "demo_failing\<lparr>op_queues := tqs\<rparr>"
  let ?h = "demo_run_hook\<lparr>h_Name := ''hookA''\<rparr>"
  have w: "op_tasks ?st = demo_world" by (simp add: demo_failing_def demo_operator_def)
  have name: "QueueName (tasks demo_world 0) = []" by code_simp
  then have at: "Queues (op_queues ?st) (QueueName (tasks (op_tasks ?st) 0)) = Some q" unfolding w by (simp add: tqs_def)
  have m: "HookMetadataAccessor (Metadata (tasks demo_world 0)) = Some demo_meta" "HookName demo_meta = ''hookA''"
      "MonitorIDs demo_meta = \<lparr>s_arr = 0, s_len = 1, s_cap = 1\<rparr>" "AllowFailure demo_meta = False"
    by (simp_all add: demo_meta_def demo_world_def demo_task_def HookMetadataAccessor_def)
  have hook: "GetHook (op_hooks ?st) ''hookA'' = Some ?h"
    by (simp add: demo_failing_def GetHook_def register_hook_def NewHookManager_def Let_def)
  have th: "task_hook 0 ?st = Some (demo_meta, ?h)" using m hook unfolding task_hook_def w by simp
  have own: "own_ids (op_tasks ?st) (MonitorIDs demo_meta) [1, 2]"
    unfolding w by (simp add: own_ids_def m(3) demo_world_def demo_task_def HookMetadataAccessor_def)
  have ctx: "ctx_vals (op_tasks ?st) 0 \<noteq> []" unfolding w by code_simp
  have v: "Version (h_Config ?h) = ''v1''" by code_simp
  have free: "\<not> RateLimitWait ?e (HookName demo_meta)" by (simp add: demo_op_env_def)
  have valid: "pe_valid (oe_patch ?e) spec \<Longrightarrow> NewFromOperationSpec (pe_env (oe_patch ?e)) spec \<noteq> None" for spec
    by (simp add: demo_op_env_def demo_patch_env_def)
  have grow: "n \<le> rt_grow (oe_runtime ?e) c n" for c n using fresh_rt.grow.grow_enough by (simp add: demo_op_env_def)
  have ev: "runs demo_world 0 demo_meta" "merged demo_world 0 demo_meta [1, 2] = [1]" "merged_ids demo_world 0 [1] = [''A'', ''B'']" by code_simp+
  have env: "oe_run ?e = demo_run_env False" "oe_patch ?e = demo_patch_env" "op_uuids ?st = 0" "op_kube ?st = demo_kube_world"
      "op_files ?st = Map.empty" "op_cluster ?st = demo_server"
    by (simp_all add: demo_op_env_def demo_failing_def demo_operator_def)
  have fails: "(case handleRunHook (demo_run_env False) demo_patch_env ?h (merged_contexts demo_world 0 [1]) 0 demo_kube_world Map.empty demo_server of
      None \<Rightarrow> False | Some (None, _) \<Rightarrow> False | Some (Some _, _) \<Rightarrow> True)" by code_simp
  have qi: "queue_inv (op_tasks ?st) q (0 # [1, 2])" "world_ok (op_tasks ?st)" unfolding w by (rule q, rule demo_world_ok)
  from taskHandleHookRun_outcome [where e = ?e and st = ?st and t = 0, OF grow qi(2) at qi(1) th own ctx v free valid, unfolded w env]
  obtain s st' q' err props kw fs c others where
    O: "taskHandleHookRun ?e 0 ?st = (Some (Task_Storage.empty_result s), st')"
      "others = (if runs demo_world 0 demo_meta then merged demo_world 0 demo_meta [1, 2] else [])"
      "queue_inv (op_tasks st') q' (0 # drop (length others) [1, 2])" "mon_vals (op_tasks st') 0 = merged_ids demo_world 0 others"
      "if runs demo_world 0 demo_meta
       then handleRunHook (demo_run_env False) demo_patch_env ?h (merged_contexts demo_world 0 others) 0 demo_kube_world Map.empty demo_server =
           Some (err, props, kw, fs, c) \<and> s = (if err = None \<or> AllowFailure demo_meta then Success else Fail)
       else s = Success \<and> kw = demo_kube_world \<and> fs = Map.empty \<and> c = demo_server" by blast
  have others: "others = [1]" unfolding O(2) ev(2) using ev(1) by (rule if_P)
  have R: "queue_inv (op_tasks st') q' [0, 2]" "mon_vals (op_tasks st') 0 = [''A'', ''B'']"
      "handleRunHook (demo_run_env False) demo_patch_env ?h (merged_contexts demo_world 0 [1]) 0 demo_kube_world Map.empty demo_server =
         Some (err, props, kw, fs, c)" "s = (if err = None \<or> AllowFailure demo_meta then Success else Fail)"
    using O(3-5) ev(1,3) unfolding others by simp_all
  have "err \<noteq> None" using fails R(3) by (auto split: option.splits)
  then have "s = Fail" using R(4) m(4) by simp
  with O(1) R(1,2) q show ?thesis by blast
qed

section \<open>The two ways of combining\<close>

lemma other_tasks_until_None: "other_tasks_until None w hookName t rs = other_tasks w hookName t rs"
  by (induction rs) (auto split: metadata.splits)

text \<open>
  Without a stop function the exported \<open>CombineBindingContextForHook\<close> is the function the handler uses.
\<close>

lemma CombineBindingContextForHook_None:
  "CombineBindingContextForHook grow None t q w tqs = combineBindingContextForHook grow t q w tqs"
  unfolding CombineBindingContextForHook_def combineBindingContextForHook_def other_tasks_until_None by (rule refl)

text \<open>With one, the tasks taken are those without one, up to the first task it holds for.\<close>

lemma other_tasks_until_takeWhile:
  "other_tasks_until (Some stop) w hookName t rs = takeWhile (\<lambda>r. \<not> stop r) (other_tasks w hookName t rs)"
  by (induction rs) (auto split: metadata.splits)


end
