(* ===== verification/Admission_Routing.thy ===== *)
theory Admission_Routing
  imports Webhook_Handlers
begin

text \<open>
  From the path of an admission request to the hook that answers it: the ids made when hooks are loaded, the links made when
  their bindings are enabled, and the search of the hook manager fit together.
\<close>

section \<open>Links of one controller\<close>

abbreviation wid :: "'spec admission_binding \<Rightarrow> string" where
  "wid b \<equiv> WebhookId (wc_Metadata (ab_Webhook b))"

abbreviation cid :: "'spec admission_binding \<Rightarrow> string" where
  "cid b \<equiv> ConfigurationId (wc_Metadata (ab_Webhook b))"

definition ids_ok :: "'v admission_binding list \<Rightarrow> 'm admission_binding list \<Rightarrow> bool" where
  "ids_ok vs ms \<longleftrightarrow> distinct (map wid vs @ map wid ms) \<and>
     (\<forall>b \<in> set vs. cid b = DefaultConfigurationId) \<and> (\<forall>b \<in> set ms. cid b = DefaultConfigurationId)"

definition adm_state :: "'v admission_binding list \<Rightarrow> 'm admission_binding list \<Rightarrow> ('v, 'm) AdmissionBindingsController \<Rightarrow> bool" where
  "adm_state vs ms c \<longleftrightarrow> ValidatingBindings c = vs \<and> MutatingBindings c = ms \<and>
     (\<forall>i \<in> set (map_keys (AdmissionLinks c)). i \<in> wid ` set vs \<union> wid ` set ms)"

definition adm_enabled :: "'v admission_binding list \<Rightarrow> 'm admission_binding list \<Rightarrow> ('v, 'm) AdmissionBindingsController \<Rightarrow> bool" where
  "adm_enabled vs ms c \<longleftrightarrow> adm_state vs ms c \<and> ac_ConfigurationId c = DefaultConfigurationId \<and>
     (\<forall>b \<in> set vs. map_of (AdmissionLinks c) (wid b) = Some (admission_link bt_KubernetesValidating DefaultConfigurationId b)) \<and>
     (\<forall>b \<in> set ms. map_of (AdmissionLinks c) (wid b) = Some (admission_link bt_KubernetesMutating DefaultConfigurationId b))"

lemma map_of_fold_update:
  "x \<in> set xs \<Longrightarrow> distinct (map key xs) \<Longrightarrow> map_of (fold (\<lambda>x. AList.update (key x) (val x)) xs m) (key x) = Some (val x)"
proof (induction xs arbitrary: m)
  case (Cons y ys)
  have keep: "k \<notin> key ` set zs \<Longrightarrow> map_of (fold (\<lambda>x. AList.update (key x) (val x)) zs m) k = map_of m k" for zs k m
    by (induction zs arbitrary: m) (auto simp: update_conv')
  from Cons keep [of "key y" ys] show ?case by (auto simp: update_conv')
qed simp

lemma map_of_fold_update_other:
  "k \<notin> key ` set xs \<Longrightarrow> map_of (fold (\<lambda>x. AList.update (key x) (val x)) xs m) k = map_of m k"
  by (induction xs arbitrary: m) (auto simp: update_conv')

lemma keys_fold_update:
  "set (map_keys (fold (\<lambda>x. AList.update (key x) (val x)) xs m)) = key ` set xs \<union> set (map_keys m)"
  by (induction xs arbitrary: m) auto

lemma find_confId_default:
  "\<forall>b \<in> set bs. cid b = DefaultConfigurationId \<Longrightarrow> bs \<noteq> [] \<Longrightarrow> find_confId bs [] = DefaultConfigurationId"
proof -
  have keep: "conf \<noteq> [] \<Longrightarrow> find_confId bs conf = conf" for bs :: "'a admission_binding list" and conf
    by (induction bs) auto
  show "\<forall>b \<in> set bs. cid b = DefaultConfigurationId \<Longrightarrow> bs \<noteq> [] \<Longrightarrow> find_confId bs [] = DefaultConfigurationId"
    by (cases bs) (auto simp: keep)
qed

lemma fold_pair: "fold (\<lambda>x (c, m). (f x c, g x m)) xs (c, m) = (fold f xs c, fold g xs m)"
  by (induction xs arbitrary: c m) auto

lemma fold_links:
  "fold (\<lambda>b c. c\<lparr>AdmissionLinks := AList.update (wid b) (val b) (AdmissionLinks c)\<rparr>) bs c =
     c\<lparr>AdmissionLinks := fold (\<lambda>b. AList.update (wid b) (val b)) bs (AdmissionLinks c)\<rparr>"
  by (induction bs arbitrary: c) simp_all

lemma enable_validating_links:
  assumes "\<forall>b \<in> set (ValidatingBindings c). cid b = DefaultConfigurationId"
  shows "\<exists>mgr'. EnableValidatingBindings c mgr =
     (if ValidatingBindings c = [] then c
      else c\<lparr>ac_ConfigurationId := DefaultConfigurationId, AdmissionLinks := fold (\<lambda>b. AList.update (wid b)
             (admission_link bt_KubernetesValidating DefaultConfigurationId b)) (ValidatingBindings c) (AdmissionLinks c)\<rparr>, mgr')"
proof -
  show ?thesis
    using find_confId_default [OF assms] by (simp add: EnableValidatingBindings_def Let_def fold_pair fold_links)
qed

lemma enable_mutating_links:
  assumes "\<forall>b \<in> set (MutatingBindings c). cid b = DefaultConfigurationId"
  shows "\<exists>mgr'. EnableMutatingBindings c mgr =
     (if MutatingBindings c = [] then c
      else c\<lparr>ac_ConfigurationId := DefaultConfigurationId, AdmissionLinks := fold (\<lambda>b. AList.update (wid b)
             (admission_link bt_KubernetesMutating DefaultConfigurationId b)) (MutatingBindings c) (AdmissionLinks c)\<rparr>, mgr')"
proof -
  show ?thesis
    using find_confId_default [OF assms] by (simp add: EnableMutatingBindings_def Let_def fold_pair fold_links)
qed

lemma enable_both:
  assumes "adm_state vs ms c" "ids_ok vs ms" "vs \<noteq> [] \<or> ms \<noteq> []"
  obtains c' mgr' where "adm_enabled vs ms c'"
    "(case EnableValidatingBindings c mgr of (c, mgr) \<Rightarrow> EnableMutatingBindings c mgr) = (c', mgr')"
proof -
  let ?V = "admission_link bt_KubernetesValidating DefaultConfigurationId" and ?M = "admission_link bt_KubernetesMutating DefaultConfigurationId"
  let ?L1 = "fold (\<lambda>b. AList.update (wid b) (?V b)) vs (AdmissionLinks c)"
  let ?L2 = "fold (\<lambda>b. AList.update (wid b) (?M b)) ms ?L1"
  from assms(1) have b: "ValidatingBindings c = vs" "MutatingBindings c = ms" by (simp_all add: adm_state_def)
  let ?c1 = "if vs = [] then c else c\<lparr>ac_ConfigurationId := DefaultConfigurationId, AdmissionLinks := ?L1\<rparr>"
  from enable_validating_links [of c mgr] assms(2) b obtain m1 where 1: "EnableValidatingBindings c mgr = (?c1, m1)"
    by (auto simp: ids_ok_def)
  have b1: "MutatingBindings ?c1 = ms" "ValidatingBindings ?c1 = vs" "AdmissionLinks ?c1 = ?L1" using b by simp_all
  let ?c2 = "if ms = [] then ?c1 else ?c1\<lparr>ac_ConfigurationId := DefaultConfigurationId, AdmissionLinks := ?L2\<rparr>"
  from enable_mutating_links [of ?c1 m1] assms(2) b1 obtain m2 where 2: "EnableMutatingBindings ?c1 m1 = (?c2, m2)"
    unfolding b1 ids_ok_def by blast
  have d: "distinct (map wid vs)" "distinct (map wid ms)" "wid ` set vs \<inter> wid ` set ms = {}" using assms(2) by (auto simp: ids_ok_def)
  have L2: "AdmissionLinks ?c2 = ?L2" using b1 by simp
  have "adm_state vs ms ?c2"
    using assms(1) b b1 unfolding adm_state_def L2 by (auto simp: keys_fold_update)
  moreover have "map_of ?L2 (wid b) = Some (?M b)" if "b \<in> set ms" for b
    by (rule map_of_fold_update [OF that d(2)])
  moreover have "map_of ?L2 (wid b) = Some (?V b)" if "b \<in> set vs" for b
  proof -
    have "wid b \<notin> wid ` set ms" using d(3) that by blast
    then have "map_of ?L2 (wid b) = map_of ?L1 (wid b)" by (rule map_of_fold_update_other)
    also have "\<dots> = Some (?V b)" by (rule map_of_fold_update [OF that d(1)])
    finally show ?thesis .
  qed
  moreover have "ac_ConfigurationId ?c2 = DefaultConfigurationId" using assms(3) by auto
  ultimately have "adm_enabled vs ms ?c2" unfolding adm_enabled_def L2 by blast
  then show ?thesis by (rule that) (simp only: 1 2 prod.case)
qed

section \<open>Links of all hooks\<close>

abbreviation V_of :: "('v, 'm) hook \<Rightarrow> 'v admission_binding list" where "V_of h \<equiv> KubernetesValidating (h_Config h)"
abbreviation M_of :: "('v, 'm) hook \<Rightarrow> 'm admission_binding list" where "M_of h \<equiv> KubernetesMutating (h_Config h)"

definition adm_hook :: "('v, 'm) hook \<Rightarrow> bool" where
  "adm_hook h \<longleftrightarrow> ids_ok (V_of h) (M_of h) \<and> (\<exists>c. AdmissionController (h_Controller h) = Some c \<and> adm_state (V_of h) (M_of h) c)"

definition adm_on :: "('v, 'm) hook \<Rightarrow> bool" where
  "adm_on h \<longleftrightarrow> (\<exists>c. AdmissionController (h_Controller h) = Some c \<and> adm_enabled (V_of h) (M_of h) c)"

lemma enable_hook:
  assumes "adm_hook h" "V_of h \<noteq> [] \<or> M_of h \<noteq> []"
  obtains hc mgr' where "EnableAdmissionBindings (h_Controller h) mgr = (hc, mgr')"
    "adm_hook (h\<lparr>h_Controller := hc\<rparr>)" "adm_on (h\<lparr>h_Controller := hc\<rparr>)"
proof -
  from assms(1) obtain c where c: "AdmissionController (h_Controller h) = Some c" "adm_state (V_of h) (M_of h) c" "ids_ok (V_of h) (M_of h)"
    by (auto simp: adm_hook_def)
  from enable_both [OF c(2,3) assms(2), of mgr] obtain c' mgr' where e: "adm_enabled (V_of h) (M_of h) c'"
      "(case EnableValidatingBindings c mgr of (c, mgr) \<Rightarrow> EnableMutatingBindings c mgr) = (c', mgr')" by blast
  show ?thesis
  proof (rule that)
    show "EnableAdmissionBindings (h_Controller h) mgr = ((h_Controller h)\<lparr>AdmissionController := Some c'\<rparr>, mgr')"
      using e(2) by (simp add: EnableAdmissionBindings_def c(1) case_prod_beta)
  qed (use e(1) c(3) in \<open>simp_all add: adm_hook_def adm_on_def adm_enabled_def\<close>)
qed

definition same_hook :: "('v, 'm) hook \<Rightarrow> ('v, 'm) hook \<Rightarrow> bool" where
  "same_hook h h' \<longleftrightarrow> h_Name h' = h_Name h \<and> h_Config h' = h_Config h"

lemma indexed_same:
  assumes "indexed hs hm" "list_all2 same_hook hs hs'" shows "indexed hs' (hm\<lparr>hook_heap := hs'\<rparr>)"
proof -
  have n: "length hs' = length hs" "\<And>p. p < length hs \<Longrightarrow> h_Name (hs' ! p) = h_Name (hs ! p) \<and> h_Config (hs' ! p) = h_Config (hs ! p)"
    using assms(2) by (auto simp: list_all2_conv_all_nth same_hook_def)
  have "map h_Name hs' = map h_Name hs" by (rule nth_equalityI) (use n in simp_all)
  moreover have "binding_hooks hs' = binding_hooks hs"
    by (intro ext) (auto simp: binding_hooks_def n intro!: filter_cong)
  ultimately show ?thesis using assms(1) n unfolding indexed_def by auto
qed

lemma enable_admission_keeps:
  assumes "indexed hs hm" "\<forall>h \<in> set hs. adm_hook h"
    "\<forall>name \<in> set names. \<exists>h \<in> set hs. h_Name h = name \<and> (V_of h \<noteq> [] \<or> M_of h \<noteq> [])"
  shows "\<exists>hs' mgr'. enable_admission names hm mgr = Some (hm\<lparr>hook_heap := hs'\<rparr>, mgr') \<and>
     list_all2 (\<lambda>h h'. same_hook h h' \<and> adm_hook h' \<and> (h_Name h \<in> set names \<or> adm_on h \<longrightarrow> adm_on h')) hs hs'"
  using assms
proof (induction names arbitrary: hs hm mgr)
  case Nil
  then have "hm\<lparr>hook_heap := hs\<rparr> = hm" by (simp add: indexed_def)
  with Nil show ?case by (auto simp: same_hook_def list_all2_conv_all_nth intro!: exI [of _ hs])
next
  case (Cons name names)
  obtain p where p: "p < length hs" "h_Name (hs ! p) = name" "V_of (hs ! p) \<noteq> [] \<or> M_of (hs ! p) \<noteq> []"
    using Cons.prems(3) by (auto simp: in_set_conv_nth)
  have ix: "hooksByName hm name = Some p" "hook_heap hm = hs" using Cons.prems(1) p(1,2) unfolding indexed_def by blast+
  have adm: "adm_hook (hs ! p)" using Cons.prems(2) p(1) by simp
  obtain hc mgr1 where e: "EnableAdmissionBindings (h_Controller (hs ! p)) mgr = (hc, mgr1)"
      "adm_hook ((hs ! p)\<lparr>h_Controller := hc\<rparr>)" "adm_on ((hs ! p)\<lparr>h_Controller := hc\<rparr>)"
    by (rule enable_hook [OF adm p(3)])
  let ?hs = "hs[p := (hs ! p)\<lparr>h_Controller := hc\<rparr>]"
  have same: "list_all2 same_hook hs ?hs" using p(1) by (auto simp: list_all2_conv_all_nth same_hook_def nth_list_update)
  have prem: "\<forall>h \<in> set ?hs. adm_hook h" using Cons.prems(2) e(2) by (auto dest!: set_update_subset_insert [THEN subsetD])
  have "\<forall>name \<in> set names. \<exists>h \<in> set ?hs. h_Name h = name \<and> (V_of h \<noteq> [] \<or> M_of h \<noteq> [])"
  proof
    fix n assume "n \<in> set names"
    with Cons.prems(3) obtain h where "h \<in> set hs" "h_Name h = n" "V_of h \<noteq> [] \<or> M_of h \<noteq> []" by auto
    then obtain q where q: "q < length hs" "h_Name (hs ! q) = n" "V_of (hs ! q) \<noteq> [] \<or> M_of (hs ! q) \<noteq> []"
      by (metis in_set_conv_nth)
    with same have "?hs ! q \<in> set ?hs" "h_Name (?hs ! q) = n \<and> (V_of (?hs ! q) \<noteq> [] \<or> M_of (?hs ! q) \<noteq> [])"
      by (auto simp: list_all2_conv_all_nth same_hook_def)
    then show "\<exists>h \<in> set ?hs. h_Name h = n \<and> (V_of h \<noteq> [] \<or> M_of h \<noteq> [])" by blast
  qed
  from Cons.IH [OF indexed_same [OF Cons.prems(1) same] prem this, of mgr1] obtain hs' mgr' where r:
    "enable_admission names (hm\<lparr>hook_heap := ?hs\<rparr>) mgr1 = Some (hm\<lparr>hook_heap := hs'\<rparr>, mgr')"
    "list_all2 (\<lambda>h h'. same_hook h h' \<and> adm_hook h' \<and> (h_Name h \<in> set names \<or> adm_on h \<longrightarrow> adm_on h')) ?hs hs'"
    by auto
  have "list_all2 (\<lambda>h h'. same_hook h h' \<and> adm_hook h' \<and> (h_Name h \<in> set (name # names) \<or> adm_on h \<longrightarrow> adm_on h')) hs hs'"
    unfolding list_all2_conv_all_nth
  proof (intro conjI allI impI)
    show "length hs = length hs'" using r(2) by (auto dest: list_all2_lengthD)
    fix q assume q: "q < length hs"
    with r(2) have s: "same_hook (?hs ! q) (hs' ! q) \<and> adm_hook (hs' ! q) \<and> (h_Name (?hs ! q) \<in> set names \<or> adm_on (?hs ! q) \<longrightarrow> adm_on (hs' ! q))"
      by (simp add: list_all2_conv_all_nth)
    have sq: "same_hook (hs ! q) (?hs ! q)" using same q by (simp add: list_all2_conv_all_nth)
    show "same_hook (hs ! q) (hs' ! q)" "adm_hook (hs' ! q)" using s sq by (simp_all add: same_hook_def)
    assume on: "h_Name (hs ! q) \<in> set (name # names) \<or> adm_on (hs ! q)"
    show "adm_on (hs' ! q)"
    proof (cases "q = p")
      case True
      then show ?thesis using s e(3) p(1) by simp
    next
      case False
      have "h_Name (hs ! q) \<noteq> name"
        using ix(1) Cons.prems(1) False q unfolding indexed_def by (metis option.inject)
      then show ?thesis using s on False by auto
    qed
  qed
  moreover have "enable_admission (name # names) hm mgr = Some (hm\<lparr>hook_heap := hs'\<rparr>, mgr')"
    using r(1) by (simp add: ix e(1) Let_def)
  ultimately show ?case by blast
qed

section \<open>Loaded hooks\<close>

definition webhook_names :: "('v, 'm) hook \<Rightarrow> string list" where
  "webhook_names h = map ab_BindingName (V_of h) @ map ab_BindingName (M_of h)"

text \<open>The type, name and path of each admission webhook of a hook.\<close>

definition webhook_paths :: "('v, 'm) hook \<Rightarrow> (BindingType \<times> string \<times> string) list" where
  "webhook_paths h =
     map (\<lambda>b. (bt_KubernetesValidating, ab_BindingName b, createWebhookPath (wc_Metadata (ab_Webhook b)))) (V_of h) @
     map (\<lambda>b. (bt_KubernetesMutating, ab_BindingName b, createWebhookPath (wc_Metadata (ab_Webhook b)))) (M_of h)"

lemma enriched_ids:
  assumes "h_Config h = enrichHookMetadata c" "b \<in> set (V_of h)"
  shows "wid b = SafeURLString (ab_BindingName b)" "cid b = DefaultConfigurationId"
  using assms by (auto simp: enrichHookMetadata_def update_webhook_def UpdateIds_def)

lemma enriched_ids_M:
  assumes "h_Config h = enrichHookMetadata c" "b \<in> set (M_of h)"
  shows "wid b = SafeURLString (ab_BindingName b)" "cid b = DefaultConfigurationId"
  using assms by (auto simp: enrichHookMetadata_def update_webhook_def UpdateIds_def)

lemma loaded_adm_hook:
  assumes "loadHook fetch wd p = Some h" "distinct (map SafeURLString (webhook_names h))"
  shows "adm_hook h"
proof -
  from assms(1) obtain c where c: "h_Config h = enrichHookMetadata c" "h_Controller h = wireHookController (h_Config h)"
    by (auto simp: loadHook_def Let_def bind_eq_Some_conv)
  have "map wid (V_of h) @ map wid (M_of h) = map SafeURLString (webhook_names h)"
    using enriched_ids(1) [OF c(1)] enriched_ids_M(1) [OF c(1)] by (simp add: webhook_names_def)
  then have "ids_ok (V_of h) (M_of h)"
    using assms(2) enriched_ids(2) [OF c(1)] enriched_ids_M(2) [OF c(1)] unfolding ids_ok_def by metis
  moreover have "AdmissionController (h_Controller h) = Some (NewAdmissionBindingsController (V_of h) (M_of h))"
    by (simp add: c(2) wireHookController_def InitAdmissionBindings_def)
  ultimately show ?thesis by (simp add: adm_hook_def adm_state_def NewAdmissionBindingsController_def)
qed

text \<open>What an enabled hook does with an event, and that no other hook answers it.\<close>

lemma adm_on_handles:
  assumes "adm_on h" "(ty, name, path) \<in> set (webhook_paths h)" "h_Config h = enrichHookMetadata c"
  shows "CanHandleAdmissionEvent (h_Controller h) (ev\<lparr>ev_ConfigurationId := DefaultConfigurationId, ev_WebhookId := SafeURLString name\<rparr>)"
    and "\<exists>info. hc_HandleAdmissionEvent review (h_Controller h)
        (ev\<lparr>ev_ConfigurationId := DefaultConfigurationId, ev_WebhookId := SafeURLString name\<rparr>) = [info] \<and>
      bei_Binding info = name \<and> map bc_BindingType (bei_BindingContext info) = [ty]"
proof -
  from assms(1) obtain ac where ac: "AdmissionController (h_Controller h) = Some ac" "adm_enabled (V_of h) (M_of h) ac"
    by (auto simp: adm_on_def)
  have "\<exists>link. map_of (AdmissionLinks ac) (SafeURLString name) = Some link \<and> al_BindingType link = ty \<and> al_BindingName link = name"
    using assms(2) ac(2) enriched_ids(1) [OF assms(3)] enriched_ids_M(1) [OF assms(3)]
    by (auto simp: webhook_paths_def adm_enabled_def admission_link_def)
  moreover have "ac_ConfigurationId ac = DefaultConfigurationId" using ac(2) by (simp add: adm_enabled_def)
  ultimately show "CanHandleAdmissionEvent (h_Controller h) (ev\<lparr>ev_ConfigurationId := DefaultConfigurationId, ev_WebhookId := SafeURLString name\<rparr>)"
    and "\<exists>info. hc_HandleAdmissionEvent review (h_Controller h)
        (ev\<lparr>ev_ConfigurationId := DefaultConfigurationId, ev_WebhookId := SafeURLString name\<rparr>) = [info] \<and>
      bei_Binding info = name \<and> map bc_BindingType (bei_BindingContext info) = [ty]"
    unfolding CanHandleAdmissionEvent_def adm_CanHandleEvent_def has_key_def hc_HandleAdmissionEvent_def adm_HandleEvent_def
    by (auto simp: ac(1))
qed

lemma adm_hook_names:
  assumes "adm_hook h" "h_Config h = enrichHookMetadata c" "CanHandleAdmissionEvent (h_Controller h) ev"
  shows "ev_WebhookId ev \<in> set (map SafeURLString (webhook_names h))"
proof -
  from assms(1,3) obtain ac where "adm_state (V_of h) (M_of h) ac" "ev_WebhookId ev \<in> set (map_keys (AdmissionLinks ac))"
    by (auto simp: adm_hook_def CanHandleAdmissionEvent_def adm_CanHandleEvent_def)
  then show ?thesis
    using enriched_ids(1) [OF assms(2)] enriched_ids_M(1) [OF assms(2)] by (auto simp: adm_state_def webhook_names_def)
qed

lemma distinct_concat_nth:
  "distinct (concat xss) \<Longrightarrow> i < length xss \<Longrightarrow> j < length xss \<Longrightarrow> x \<in> set (xss ! i) \<Longrightarrow> x \<in> set (xss ! j) \<Longrightarrow> i = j"
proof (induction xss arbitrary: i j)
  case (Cons xs xss)
  have apart: "x \<notin> set (xss ! k)" if "x \<in> set xs" "k < length xss" for k
    using Cons.prems(1) that by (auto dest: nth_mem)
  show ?case using Cons apart by (cases i; cases j) auto
qed simp

text \<open>The state after the admission bindings are enabled: \<open>hs'\<close> are the hooks, and only the hook of the name answers.\<close>

lemma enabled_hooks:
  assumes "go_sort sorter" and "distinct paths" and "hm_Init sorter fetch wd (Some paths) NewHookManager = Some (Inr hm)"
    and "distinct (concat (map (\<lambda>h. map SafeURLString (webhook_names h)) (hook_heap hm)))"
    and "initValidatingWebhookManager sorter hm mgr = Some (hm', mgr')"
    and "h \<in> set (hook_heap hm)" and "(ty, name, path) \<in> set (webhook_paths h)"
  obtains hs' h' c where "indexed hs' hm'" "h' \<in> set hs'" "same_hook h h'" "adm_on h'" "h_Config h' = enrichHookMetadata c"
    "\<And>g ev. g \<in> set hs' \<Longrightarrow> ev_WebhookId ev = SafeURLString name \<Longrightarrow> CanHandleAdmissionEvent (h_Controller g) ev \<Longrightarrow> g = h'"
proof -
  obtain hs where hs: "indexed hs hm" "list_all2 (\<lambda>p h. loadHook fetch wd p = Some h) (sort paths) hs"
    using hm_Init_indexed [OF assms(1,2) NewHookManager_chains assms(3)] by blast
  have heap: "hook_heap hm = hs" using hs(1) by (simp add: indexed_def)
  have loaded: "\<exists>p. loadHook fetch wd p = Some g" if "g \<in> set hs" for g
    using hs(2) that by (auto simp: list_all2_conv_all_nth in_set_conv_nth)
  have adm: "\<forall>g \<in> set hs. adm_hook g"
    using loaded loaded_adm_hook assms(4) unfolding heap by (fastforce simp: distinct_concat_iff)
  have enriched: "\<exists>c. h_Config g = enrichHookMetadata c" if "g \<in> set hs" for g
    using loaded [OF that] loadHook_path(3) by blast
  define names where "names = (case GetHooksInOrder sorter hm bt_KubernetesValidating of None \<Rightarrow> [] | Some ns \<Rightarrow> ns) @
    (case GetHooksInOrder sorter hm bt_KubernetesMutating of None \<Rightarrow> [] | Some ns \<Rightarrow> ns)"
  have names: "set names = h_Name ` {g \<in> set hs. V_of g \<noteq> [] \<or> M_of g \<noteq> []}"
  proof -
    have order: "GetHooksInOrder sorter hm t = Some (map h_Name (filter (\<lambda>g. HasBinding (h_Config g) t) hs))"
      if "t \<noteq> bt_OnStartup" for t
    proof -
      have "map (\<lambda>p. h_Name (hs ! p)) (binding_hooks hs t) = map h_Name (filter (\<lambda>g. HasBinding (h_Config g) t) hs)"
        unfolding binding_hooks_nth [symmetric] map_map comp_def ..
      then show ?thesis using go_sort.names_in_order [OF assms(1) hs(1), of t] that by auto
    qed
    show ?thesis by (auto simp: names_def order HasBinding_def)
  qed
  from names have exist: "\<forall>n \<in> set names. \<exists>g \<in> set hs. h_Name g = n \<and> (V_of g \<noteq> [] \<or> M_of g \<noteq> [])" by auto
  obtain hs' mgr1 where en: "enable_admission names hm mgr = Some (hm\<lparr>hook_heap := hs'\<rparr>, mgr1)"
      "list_all2 (\<lambda>h h'. same_hook h h' \<and> adm_hook h' \<and> (h_Name h \<in> set names \<or> adm_on h \<longrightarrow> adm_on h')) hs hs'"
    using enable_admission_keeps [OF hs(1) adm exist, of mgr] by blast
  with assms(5) have hm': "hm' = hm\<lparr>hook_heap := hs'\<rparr>" by (simp add: initValidatingWebhookManager_def names_def)
  have same: "list_all2 same_hook hs hs'" using en(2) by (rule list_all2_mono) simp
  from assms(6) obtain p where p: "p < length hs" "h = hs ! p" by (auto simp: heap in_set_conv_nth)
  let ?h = "hs' ! p"
  have "V_of h \<noteq> [] \<or> M_of h \<noteq> []" using assms(7) by (auto simp: webhook_paths_def)
  then have "h_Name h \<in> set names" using assms(6) by (auto simp: names heap)
  with en(2) p have on: "adm_on ?h" "same_hook h ?h" "p < length hs'" by (auto simp: list_all2_conv_all_nth)
  have name: "SafeURLString name \<in> set (map SafeURLString (webhook_names h))"
    using assms(7) by (auto simp: webhook_paths_def webhook_names_def)
  obtain c where c: "h_Config ?h = enrichHookMetadata c" using enriched [of h] p on(2) by (auto simp: same_hook_def)
  have only: "g = ?h" if g: "g \<in> set hs'" "ev_WebhookId ev = SafeURLString name" "CanHandleAdmissionEvent (h_Controller g) ev" for g ev
  proof -
    obtain q where q: "q < length hs'" "g = hs' ! q" using g(1) by (auto simp: in_set_conv_nth)
    then have qs: "q < length hs" "same_hook (hs ! q) g" "adm_hook g" using en(2) by (auto simp: list_all2_conv_all_nth)
    obtain cg where "h_Config g = enrichHookMetadata cg" using enriched [of "hs ! q"] qs by (auto simp: same_hook_def)
    from adm_hook_names [OF qs(3) this g(3)] g(2) qs(2)
    have "SafeURLString name \<in> set (map SafeURLString (webhook_names (hs ! q)))" by (simp add: same_hook_def webhook_names_def)
    with name p qs(1) have "q = p"
      using distinct_concat_nth [OF assms(4) [unfolded heap], of q p "SafeURLString name"] by simp
    with q show ?thesis by simp
  qed
  show ?thesis
    by (rule that [of hs' ?h c]) (use indexed_same [OF hs(1) same] on c only hm' nth_mem in auto)
qed

section \<open>Properties\<close>

text \<open>
  C22. An admission request reaches its hook: hooks are loaded and their admission bindings enabled, with webhook names that
  stay different when made safe for a URL. Then a request to the path registered for a webhook whose id has no empty part is given to the
  hook that has the binding and to no other, with the binding's name and type in the context. The type of the task is
  that of the binding, unless a mutating binding belongs to a hook that also has validating ones: then it
  is the type of validating bindings.
\<close>

theorem admission_request_reaches_hook:
  assumes "go_sort sorter" and "distinct paths" and "hm_Init sorter fetch wd (Some paths) NewHookManager = Some (Inr hm)"
    and "distinct (concat (map (\<lambda>h. map SafeURLString (webhook_names h)) (hook_heap hm)))"
    and "initValidatingWebhookManager sorter hm mgr = Some (hm', mgr')"
    and "h \<in> set (hook_heap hm)" and "(ty, name, path) \<in> set (webhook_paths h)"
    and "[] \<notin> set (strings_split CHR ''/'' (SafeURLString name))"
    and "ev = \<lparr>ev_WebhookId = snd (detectConfigurationAndWebhook path), ev_ConfigurationId = fst (detectConfigurationAndWebhook path), ev_Request = uid\<rparr>"
  shows "(\<exists>infos. HandleAdmissionEvent sorter review hm' ev = Some infos \<and> infos \<noteq> [] \<and>
       (\<forall>(g, info) \<in> set infos. h_Name g = h_Name h \<and> bei_Binding info = name \<and> map bc_BindingType (bei_BindingContext info) = [ty])) \<and>
     DetectAdmissionEventType sorter hm' ev =
       Some (if V_of h \<noteq> [] then bt_KubernetesValidating else bt_KubernetesMutating)"
proof -
  obtain hs' h' c where h': "indexed hs' hm'" "h' \<in> set hs'" "same_hook h h'" "adm_on h'" "h_Config h' = enrichHookMetadata c"
      and only: "\<And>g ev. g \<in> set hs' \<Longrightarrow> ev_WebhookId ev = SafeURLString name \<Longrightarrow> CanHandleAdmissionEvent (h_Controller g) ev \<Longrightarrow> g = h'"
    using enabled_hooks [OF assms(1-7)] by blast
  have paths: "(ty, name, path) \<in> set (webhook_paths h')" "V_of h' = V_of h" "M_of h' = M_of h"
    using assms(7) h'(3) by (simp_all add: webhook_paths_def same_hook_def)
  have "path = ''/'' @ DefaultConfigurationId @ ''/'' @ SafeURLString name"
    using paths(1) enriched_ids [OF h'(5)] enriched_ids_M [OF h'(5)] by (auto simp: webhook_paths_def createWebhookPath_def)
  moreover have "filter (\<lambda>p. p \<noteq> []) (strings_split CHR ''/'' (SafeURLString name)) = strings_split CHR ''/'' (SafeURLString name)"
    using assms(8) by (auto intro!: filter_True)
  ultimately have "detectConfigurationAndWebhook path = (DefaultConfigurationId, SafeURLString name)"
    using detect_path [of DefaultConfigurationId "SafeURLString name"] join_split [of "CHR ''/''" "SafeURLString name"] by simp
  then have ev: "ev\<lparr>ev_ConfigurationId := DefaultConfigurationId, ev_WebhookId := SafeURLString name\<rparr> = ev"
      "ev_WebhookId ev = SafeURLString name" using assms(9) by simp_all
  note can = adm_on_handles(1) [OF h'(4) paths(1) h'(5), of ev, unfolded ev(1)]
  from adm_on_handles(2) [OF h'(4) paths(1) h'(5), of review ev, unfolded ev(1)]
  obtain info where info: "hc_HandleAdmissionEvent review (h_Controller h') ev = [info]"
      "bei_Binding info = name" "map bc_BindingType (bei_BindingContext info) = [ty]" by (elim exE conjE)
  have hooks: "hooks_for sorter hm' t = Some (filter (\<lambda>g. HasBinding (h_Config g) t) hs')" if "t \<noteq> bt_OnStartup" for t
    using go_sort.hooks_for_indexed [OF assms(1) h'(1), of t] that by (auto simp: binding_hooks_nth)
  have who: "CanHandleAdmissionEvent (h_Controller g) ev \<longleftrightarrow> g = h'" if "g \<in> set hs'" for g
    using only [OF that ev(2)] can by blast
  have answers: "set (admission_infos review ev (filter P hs')) = (if P h' then {(h', info)} else {})" for P
  proof -
    have "admission_infos review ev gs = concat (map (\<lambda>g. if g = h' then [(h', info)] else []) gs)" if "set gs \<subseteq> set hs'" for gs
      using that info(1) by (induction gs) (simp_all add: admission_infos_def who)
    from this [of "filter P hs'"] show ?thesis using h'(2) by auto
  qed
  have has: "HasBinding (h_Config g) bt_KubernetesValidating \<longleftrightarrow> V_of g \<noteq> []" "HasBinding (h_Config g) bt_KubernetesMutating \<longleftrightarrow> M_of g \<noteq> []"
    for g :: "('a, 'b) hook" by (simp_all add: HasBinding_def)
  have some: "V_of h \<noteq> [] \<or> M_of h \<noteq> []" using assms(7) by (auto simp: webhook_paths_def)
  let ?infos = "admission_infos review ev (filter (\<lambda>g. HasBinding (h_Config g) bt_KubernetesValidating) hs') @
      admission_infos review ev (filter (\<lambda>g. HasBinding (h_Config g) bt_KubernetesMutating) hs')"
  have run: "HandleAdmissionEvent sorter review hm' ev = Some ?infos" by (simp add: HandleAdmissionEvent_def hooks)
  have set: "set ?infos = {(h', info)}" using some paths(2,3) by (auto simp: answers has)
  then have ne: "?infos \<noteq> []" by (metis empty_iff list.set(1) singletonI)
  have all: "\<forall>(g, i) \<in> set ?infos. h_Name g = h_Name h \<and> bei_Binding i = name \<and> map bc_BindingType (bei_BindingContext i) = [ty]"
    unfolding set using info h'(3) by (simp add: same_hook_def)
  have found: "(\<exists>g \<in> set (filter P hs'). CanHandleAdmissionEvent (h_Controller g) ev) \<longleftrightarrow> P h'" for P
    using who h'(2) by auto
  have type: "DetectAdmissionEventType sorter hm' ev = Some (if V_of h \<noteq> [] then bt_KubernetesValidating else bt_KubernetesMutating)"
    using some paths(2,3) by (simp add: DetectAdmissionEventType_def hooks has found del: set_filter)
  show ?thesis by (intro conjI exI [of _ ?infos] run ne all type)
qed

text \<open>Two hooks, one with a validating and a mutating binding.\<close>

definition demo_adm_binding :: "string \<Rightarrow> unit admission_binding" where
  "demo_adm_binding name = \<lparr>ab_BindingName = name, ab_AllowFailure = False, ab_IncludeSnapshotsFrom = [], ab_Group = [],
     ab_Webhook = demo_webhook\<rparr>"

definition demo_adm_fetch :: "string \<Rightarrow> (unit, unit) HookConfig option" where
  "demo_adm_fetch path =
     (if path = ''/h/a'' then Some ((demo_hook_config None)\<lparr>KubernetesValidating := [demo_adm_binding ''v.io''],
        KubernetesMutating := [demo_adm_binding ''m.io'']\<rparr>)
      else Some ((demo_hook_config None)\<lparr>KubernetesValidating := [demo_adm_binding ''w.io'']\<rparr>))"

definition demo_adm_hm :: "(unit, unit) hook_manager option" where
  "demo_adm_hm = (case hm_Init sort_key demo_adm_fetch ''/h'' (Some [''/h/b'', ''/h/a'']) NewHookManager of
     Some (Inr hm) \<Rightarrow> Some hm | _ \<Rightarrow> None)"

definition demo_adm_mgr :: "(unit, unit) admission_manager" where
  "demo_adm_mgr = \<lparr>am_settings = \<lparr>ws_ConfigurationName = ''c'', ws_ServiceName = ''s'', ws_Namespace = ''n'',
     ws_DefaultConfigurationId = ''hooks'', ws_CABundle = []\<rparr>, ValidatingResources = [], MutatingResources = []\<rparr>"

theorem admission_request_reaches_hook_witness:
  "\<exists>hm hm' mgr'. demo_adm_hm = Some hm \<and> initValidatingWebhookManager sort_key hm demo_adm_mgr = Some (hm', mgr') \<and>
     DetectAdmissionEventType sort_key hm' \<lparr>ev_WebhookId = ''m-io'', ev_ConfigurationId = ''hooks'', ev_Request = ''u''\<rparr> = Some bt_KubernetesValidating"
proof -
  have "case demo_adm_hm of None \<Rightarrow> False
    | Some hm \<Rightarrow> distinct (concat (map (\<lambda>h. map SafeURLString (webhook_names h)) (hook_heap hm))) \<and> hook_heap hm \<noteq> [] \<and>
        V_of (hd (hook_heap hm)) \<noteq> [] \<and>
        (bt_KubernetesMutating, ''m.io'', ''/hooks/m-io'') \<in> set (webhook_paths (hd (hook_heap hm))) \<and>
        initValidatingWebhookManager sort_key hm demo_adm_mgr \<noteq> None"
    by code_simp
  then obtain hm hm' mgr' where hm: "demo_adm_hm = Some hm"
      "distinct (concat (map (\<lambda>h. map SafeURLString (webhook_names h)) (hook_heap hm)))" "hd (hook_heap hm) \<in> set (hook_heap hm)"
      "V_of (hd (hook_heap hm)) \<noteq> []" "(bt_KubernetesMutating, ''m.io'', ''/hooks/m-io'') \<in> set (webhook_paths (hd (hook_heap hm)))"
      "initValidatingWebhookManager sort_key hm demo_adm_mgr = Some (hm', mgr')"
    by (auto split: option.splits)
  then have init: "hm_Init sort_key demo_adm_fetch ''/h'' (Some [''/h/b'', ''/h/a'']) NewHookManager = Some (Inr hm)"
    by (auto simp: demo_adm_hm_def split: option.splits sum.splits)
  have d: "distinct [''/h/b'', ''/h/a'']" by simp
  have split: "[] \<notin> set (strings_split CHR ''/'' (SafeURLString ''m.io''))" by code_simp
  have ev: "\<lparr>ev_WebhookId = ''m-io'', ev_ConfigurationId = ''hooks'', ev_Request = ''u''\<rparr> =
      \<lparr>ev_WebhookId = snd (detectConfigurationAndWebhook ''/hooks/m-io''),
       ev_ConfigurationId = fst (detectConfigurationAndWebhook ''/hooks/m-io''), ev_Request = ''u''\<rparr>" by code_simp
  from admission_request_reaches_hook [OF stable.go_sort_axioms d init hm(2) hm(6) hm(3) hm(5) split ev] hm(4)
  have "DetectAdmissionEventType sort_key hm' \<lparr>ev_WebhookId = ''m-io'', ev_ConfigurationId = ''hooks'', ev_Request = ''u''\<rparr> =
      Some bt_KubernetesValidating" by presburger
  with hm(1,6) show ?thesis by blast
qed

end
