(* ===== verification/Queue_Dump.thy ===== *)
theory Queue_Dump
  imports Queue_Set
begin

text \<open>
  \<open>pkg/task/dump/dump.go\<close>: the report of the debug interface on the queues, as a structure and as text.

  \<open>sort.Sort\<close> leaves the order of equal elements open, so \<open>sorter\<close> is any function that sorts; \<open>visit\<close> is the order in
  which the queues are ranged over. A panic of the callback ends the iteration over the queues, which recovers from it.
\<close>

record dumpTask =
  dt_Index :: nat
  dt_Description :: string

record dumpQueue =
  dq_Name :: string
  dq_TasksCount :: nat
  dq_Status :: string
  dq_Tasks :: "dumpTask list"

record dumpSummary =
  mainQueueTasksCount :: nat
  otherQueuesActiveCount :: nat
  otherQueuesEmptyCount :: nat
  otherQueuesTasksCount :: nat
  totalTasksCount :: nat

record dumpTaskQueues =
  dtq_MainQueue :: "dumpQueue option"
  dtq_Active :: "dumpQueue list"
  dtq_Empty :: "dumpQueue list"
  dtq_Summary :: dumpSummary

datatype dump_result = DumpText string | DumpQueue dumpQueue | DumpQueues dumpTaskQueues

definition MainQueueName :: string where
  "MainQueueName = ''main''"

fun queue_Less :: "dumpQueue \<Rightarrow> dumpQueue \<Rightarrow> bool" where
  "queue_Less p q =
     (if dq_Name q = MainQueueName then False
      else if dq_Name p = MainQueueName then True
      else dq_Name p < dq_Name q)"

type_synonym queue_sorter = "dumpQueue list \<Rightarrow> dumpQueue list"

definition getTasksForQueue :: "qworld \<Rightarrow> TaskQueue \<Rightarrow> dumpTask list option" where
  "getTasksForQueue w q = do {
     rs \<leftarrow> GetSnapshot (storage q);
     Some (map (\<lambda>(i, r). \<lparr>dt_Index = i, dt_Description = GetDescription (tasks w r)\<rparr>) (List.enumerate 1 rs))
   }"

section \<open>Text\<close>

text \<open>\<open>%2d\<close>\<close>

definition show_nat2 :: "nat \<Rightarrow> string" where
  "show_nat2 n = (let s = show_nat n in replicate (2 - length s) (CHR '' '') @ s)"

abbreviation newline :: string where
  "newline \<equiv> [CHR 0x0A]"

definition pluralize :: "nat \<Rightarrow> string \<Rightarrow> string \<Rightarrow> string \<Rightarrow> string" where
  "pluralize n zero one many =
     (if n = 0 \<and> zero \<noteq> [] then zero
      else show_nat n @ '' '' @ (if n = 1 then one else many))"

definition queue_text :: "dumpQueue \<Rightarrow> string" where
  "queue_text dq =
     ''Queue '' @ [CHR 0x27] @ dq_Name dq @ [CHR 0x27] @ '': length '' @ show_nat (dq_TasksCount dq) @
     '', status: '' @ [CHR 0x27] @ dq_Status dq @ [CHR 0x27] @ newline @ newline @
     concat (map (\<lambda>ts. show_nat2 (dt_Index ts) @ ''. '' @ dt_Description ts @ newline) (dq_Tasks dq))"

definition summary_text :: "bool \<Rightarrow> dumpTaskQueues \<Rightarrow> string" where
  "summary_text nonempty dtq =
     (if dtq_Active dtq = [] \<and> dtq_Empty dtq = [] then ''Summary:'' @ newline @ ''  No queues.'' @ newline
      else
        (let others = length (dtq_Active dtq) + length (dtq_Empty dtq);
             (others, main) = (case dtq_MainQueue dtq of
                 None \<Rightarrow> (others, [])
               | Some mq \<Rightarrow> (others - 1, ''- '' @ [CHR 0x27] @ dq_Name mq @ [CHR 0x27] @ '' queue: '' @
                   pluralize (length (dq_Tasks mq)) ''empty'' ''task'' ''tasks'' @ ''.'' @ newline))
         in (if nonempty then newline else []) @ ''Summary:'' @ newline @ main @
            (if others > 0 then ''- '' @ pluralize others [] ''other queue'' ''other queues'' @
               '' ('' @ show_nat (otherQueuesActiveCount (dtq_Summary dtq)) @ '' active, '' @
               show_nat (otherQueuesEmptyCount (dtq_Summary dtq)) @ '' empty): '' @
               pluralize (otherQueuesTasksCount (dtq_Summary dtq)) [] ''task'' ''tasks'' @ ''.'' @ newline
             else []) @
            (if totalTasksCount (dtq_Summary dtq) = 0 then ''- no tasks to handle.'' @ newline
             else ''- total '' @ pluralize (totalTasksCount (dtq_Summary dtq)) [] ''task'' ''tasks'' @ '' to handle.'' @ newline)))"

definition asText :: "bool \<Rightarrow> dumpTaskQueues \<Rightarrow> string" where
  "asText showEmpty dtq =
     (let active = strings_join newline (map queue_text (dtq_Active dtq));
          empty = (if showEmpty then newline @ ''Empty queues ('' @ show_nat (length (dtq_Empty dtq)) @ ''):'' @ newline @
            concat (map (\<lambda>q. ''- '' @ dq_Name q @ newline) (dtq_Empty dtq)) else [])
      in active @ empty @ summary_text (active @ empty \<noteq> []) dtq)"

definition dump_format :: "string \<Rightarrow> bool \<Rightarrow> dumpTaskQueues \<Rightarrow> dump_result" where
  "dump_format fmt showEmpty dtq =
     (if fmt = ''text'' then DumpText (asText showEmpty dtq)
      else if fmt = ''json'' \<or> fmt = ''yaml'' then DumpQueues (if showEmpty then dtq else dtq\<lparr>dtq_Empty := []\<rparr>)
      else DumpText [])"

definition MarshalJSON :: "dumpSummary \<Rightarrow> json" where
  "MarshalJSON ds = JObj [(''mainQueueTasks'', JNum (int (mainQueueTasksCount ds))),
     (''otherQueues'', JObj [(''active'', JNum (int (otherQueuesActiveCount ds))), (''empty'', JNum (int (otherQueuesEmptyCount ds))),
        (''tasks'', JNum (int (otherQueuesTasksCount ds)))]),
     (''totalTasks'', JNum (int (totalTasksCount ds)))]"

section \<open>The dump\<close>

text \<open>The main queue alone; a missing one is reported as such. Outer \<open>None\<close>: a panic.\<close>

definition TaskMainQueue :: "qworld \<Rightarrow> TaskQueueSet \<Rightarrow> string \<Rightarrow> dump_result option" where
  "TaskMainQueue w tqs fmt = do {
     dq \<leftarrow> (case GetMain tqs of
         None \<Rightarrow> Some \<lparr>dq_Name = MainQueueName, dq_TasksCount = 0, dq_Status = ''Queue is not created'', dq_Tasks = []\<rparr>
       | Some q \<Rightarrow> do {
           ts \<leftarrow> getTasksForQueue w q;
           Some \<lparr>dq_Name = q_Name q, dq_TasksCount = Length (storage q), dq_Status = status_Get (status q), dq_Tasks = ts\<rparr>
         });
     Some (if fmt = ''text'' then DumpText (queue_text dq) else DumpQueue dq)
   }"

record dump_state =
  ds_Main :: "dumpQueue option"
  ds_Active :: "dumpQueue list"
  ds_Empty :: "dumpQueue list"
  otherQueuesCount :: nat
  activeQueues :: nat
  emptyQueues :: nat
  tasksCount :: nat
  mainTasksCount :: nat

definition dump_start :: dump_state where
  "dump_start = \<lparr>ds_Main = None, ds_Active = [], ds_Empty = [], otherQueuesCount = 0, activeQueues = 0, emptyQueues = 0,
     tasksCount = 0, mainTasksCount = 0\<rparr>"

definition dump_queue :: "qworld \<Rightarrow> string \<Rightarrow> TaskQueue \<Rightarrow> dump_state \<Rightarrow> dump_state option" where
  "dump_queue w mainName q ds = do {
     ts \<leftarrow> getTasksForQueue w q;
     let len = Length (storage q);
     let isEmpty = (len = 0);
     let full = \<lparr>dq_Name = q_Name q, dq_TasksCount = len, dq_Status = status_Get (status q), dq_Tasks = ts\<rparr>;
     Some (if q_Name q = mainName then
         (let ds = ds\<lparr>mainTasksCount := len\<rparr> in
          if isEmpty then
            (let mainQueue = \<lparr>dq_Name = q_Name q, dq_TasksCount = len, dq_Status = [], dq_Tasks = []\<rparr>
             in ds\<lparr>ds_Empty := ds_Empty ds @ [mainQueue], ds_Main := Some mainQueue\<rparr>)
          else ds\<lparr>ds_Active := ds_Active ds @ [full], ds_Main := Some full\<rparr>)
       else
         (let ds = ds\<lparr>otherQueuesCount := otherQueuesCount ds + 1\<rparr> in
          if isEmpty then
            ds\<lparr>emptyQueues := emptyQueues ds + 1,
               ds_Empty := ds_Empty ds @ [\<lparr>dq_Name = q_Name q, dq_TasksCount = 0, dq_Status = [], dq_Tasks = []\<rparr>]\<rparr>
          else
            ds\<lparr>activeQueues := activeQueues ds + 1, tasksCount := tasksCount ds + len, ds_Active := ds_Active ds @ [full]\<rparr>))
   }"

fun dump_queues :: "qworld \<Rightarrow> string \<Rightarrow> TaskQueue list \<Rightarrow> dump_state \<Rightarrow> dump_state" where
  "dump_queues w mainName [] ds = ds"
| "dump_queues w mainName (q # qs) ds =
     (case dump_queue w mainName q ds of None \<Rightarrow> ds | Some ds \<Rightarrow> dump_queues w mainName qs ds)"

definition TaskQueues :: "queue_sorter \<Rightarrow> string list \<Rightarrow> qworld \<Rightarrow> TaskQueueSet \<Rightarrow> string \<Rightarrow> bool \<Rightarrow> dump_result" where
  "TaskQueues sorter visit w tqs fmt showEmpty =
     (let ds = dump_queues w (MainName tqs) (tqs_GetSnapshot visit tqs) dump_start;
          result = \<lparr>dtq_MainQueue = ds_Main ds, dtq_Active = sorter (ds_Active ds), dtq_Empty = sorter (ds_Empty ds),
            dtq_Summary = \<lparr>mainQueueTasksCount = mainTasksCount ds, otherQueuesActiveCount = activeQueues ds,
              otherQueuesEmptyCount = emptyQueues ds, otherQueuesTasksCount = tasksCount ds,
              totalTasksCount = mainTasksCount ds + tasksCount ds\<rparr>\<rparr>;
          showEmpty = (showEmpty \<and> \<not> (length (dtq_Empty result) > 0 \<and> otherQueuesCount ds = 0))
      in dump_format fmt showEmpty result)"

section \<open>Lemmas\<close>

text \<open>All that is assumed of \<open>sort.Sort\<close>.\<close>

locale queue_sort =
  fixes sorter :: queue_sorter
  assumes sorter_mset: "mset (sorter ds) = mset ds"
    and sorter_sorted: "sorted_wrt (\<lambda>p q. \<not> queue_Less q p) (sorter ds)"
begin

lemma set_sorter [simp]: "set (sorter ds) = set ds"
  using sorter_mset by (metis set_mset_mset)

lemma sorter_strict:
  assumes "distinct (map dq_Name ds)" shows "sorted_wrt queue_Less (sorter ds)"
proof -
  have "mset (map dq_Name (sorter ds)) = mset (map dq_Name ds)" by (simp add: sorter_mset)
  then have dist: "distinct (map dq_Name (sorter ds))" using assms mset_eq_imp_distinct_iff by blast
  show ?thesis
    unfolding sorted_wrt_iff_nth_less
  proof (intro allI impI)
    fix i j assume ij: "i < j" "j < length (sorter ds)"
    then have "dq_Name (sorter ds ! i) \<noteq> dq_Name (sorter ds ! j)"
      using dist by (auto simp: distinct_conv_nth)
    moreover have "\<not> queue_Less (sorter ds ! j) (sorter ds ! i)"
      using sorter_sorted [of ds] ij by (simp only: sorted_wrt_iff_nth_less) blast
    ultimately show "queue_Less (sorter ds ! i) (sorter ds ! j)" by (auto split: if_splits)
  qed
qed

end

text \<open>A sort that keeps the order of equal elements.\<close>

fun insert_queue :: "dumpQueue \<Rightarrow> dumpQueue list \<Rightarrow> dumpQueue list" where
  "insert_queue d [] = [d]"
| "insert_queue d (e # es) = (if queue_Less e d then e # insert_queue d es else d # e # es)"

definition insertion_sort :: queue_sorter where
  "insertion_sort ds = foldr insert_queue ds []"

lemma insert_queue_mset [simp]: "mset (insert_queue d es) = add_mset d (mset es)"
  by (induction es) auto

lemma insert_queue_sorted:
  "sorted_wrt (\<lambda>p q. \<not> queue_Less q p) es \<Longrightarrow> sorted_wrt (\<lambda>p q. \<not> queue_Less q p) (insert_queue d es)"
proof (induction es)
  case (Cons e es)
  have "set (insert_queue d es) = insert d (set es)" using insert_queue_mset by (metis set_mset_add_mset_insert set_mset_mset)
  with Cons show ?case by (auto split: if_splits)
qed simp

interpretation insertion: queue_sort insertion_sort
proof
  show "mset (insertion_sort ds) = mset ds" for ds by (induction ds) (simp_all add: insertion_sort_def)
  show "sorted_wrt (\<lambda>p q. \<not> queue_Less q p) (insertion_sort ds)" for ds
    by (induction ds) (simp_all add: insertion_sort_def insert_queue_sorted del: queue_Less.simps)
qed

text \<open>The entries of the dump.\<close>

definition full_entry :: "qworld \<Rightarrow> taskref list \<Rightarrow> TaskQueue \<Rightarrow> dumpQueue" where
  "full_entry w rs q = \<lparr>dq_Name = q_Name q, dq_TasksCount = length rs, dq_Status = status_Get (status q),
     dq_Tasks = map (\<lambda>(i, r). \<lparr>dt_Index = i, dt_Description = GetDescription (tasks w r)\<rparr>) (List.enumerate 1 rs)\<rparr>"

definition empty_entry :: "TaskQueue \<Rightarrow> dumpQueue" where
  "empty_entry q = \<lparr>dq_Name = q_Name q, dq_TasksCount = 0, dq_Status = [], dq_Tasks = []\<rparr>"

lemma dump_queue_eq:
  assumes "task_seq (GetId w) (storage q) rs"
  shows "dump_queue w mainName q ds = Some (let ds = (if rs = [] then ds\<lparr>ds_Empty := ds_Empty ds @ [empty_entry q]\<rparr>
       else ds\<lparr>ds_Active := ds_Active ds @ [full_entry w rs q]\<rparr>) in
     if q_Name q = mainName then ds\<lparr>mainTasksCount := length rs, ds_Main := Some (if rs = [] then empty_entry q else full_entry w rs q)\<rparr>
     else if rs = [] then ds\<lparr>otherQueuesCount := otherQueuesCount ds + 1, emptyQueues := emptyQueues ds + 1\<rparr>
     else ds\<lparr>otherQueuesCount := otherQueuesCount ds + 1, activeQueues := activeQueues ds + 1, tasksCount := tasksCount ds + length rs\<rparr>)"
  using reads_seq(1,2) [OF assms]
  by (simp add: dump_queue_def getTasksForQueue_def full_entry_def empty_entry_def Let_def)

lemma dump_queues_eq:
  fixes rs :: "string \<Rightarrow> taskref list"
  assumes "\<forall>q \<in> set qs. task_seq (GetId w) (storage q) (rs (q_Name q))"
  shows "ds_Active (dump_queues w mainName qs ds) =
      ds_Active ds @ map (\<lambda>q. full_entry w (rs (q_Name q)) q) (List.filter (\<lambda>q. rs (q_Name q) \<noteq> []) qs)"
    and "ds_Empty (dump_queues w mainName qs ds) = ds_Empty ds @ map empty_entry (List.filter (\<lambda>q. rs (q_Name q) = []) qs)"
    and "otherQueuesCount (dump_queues w mainName qs ds) = otherQueuesCount ds + length (List.filter (\<lambda>q. q_Name q \<noteq> mainName) qs)"
    and "activeQueues (dump_queues w mainName qs ds) =
      activeQueues ds + length (List.filter (\<lambda>q. q_Name q \<noteq> mainName \<and> rs (q_Name q) \<noteq> []) qs)"
    and "emptyQueues (dump_queues w mainName qs ds) =
      emptyQueues ds + length (List.filter (\<lambda>q. q_Name q \<noteq> mainName \<and> rs (q_Name q) = []) qs)"
    and "tasksCount (dump_queues w mainName qs ds) =
      tasksCount ds + sum_list (map (\<lambda>q. if q_Name q = mainName then 0 else length (rs (q_Name q))) qs)"
    and "mainTasksCount (dump_queues w mainName qs ds) =
      (if mainName \<in> q_Name ` set qs then length (rs mainName) else mainTasksCount ds)"
  using assms by (induction qs arbitrary: ds) (auto simp: dump_queue_eq Let_def)

lemma snapshot_mem:
  assumes "\<And>n q. Queues tqs n = Some q \<Longrightarrow> q_Name q = n" and "q \<in> set (tqs_GetSnapshot visit tqs)"
  shows "Queues tqs (q_Name q) = Some q"
  using assms(2) assms(1)
  by (auto simp: tqs_GetSnapshot_def GetMain_def GetByName_def queue_list_def List.map_filter_def split: option.splits)

lemma snapshot_iff:
  assumes "map_order (Queues tqs) visit" and "\<And>n q. Queues tqs n = Some q \<Longrightarrow> q_Name q = n"
  shows "q \<in> set (tqs_GetSnapshot visit tqs) \<longleftrightarrow> Queues tqs (q_Name q) = Some q"
proof
  assume q: "Queues tqs (q_Name q) = Some q"
  then have "q_Name q \<in> q_Name ` set (tqs_GetSnapshot visit tqs)" using GetSnapshot_main_first [OF assms] by blast
  then obtain q' where q': "q' \<in> set (tqs_GetSnapshot visit tqs)" "q_Name q' = q_Name q" by auto
  have "Queues tqs (q_Name q') = Some q'" by (rule snapshot_mem [OF assms(2) q'(1)])
  then have "q' = q" using q q'(2) by (metis option.inject)
  with q'(1) show "q \<in> set (tqs_GetSnapshot visit tqs)" by blast
qed (rule snapshot_mem [OF assms(2)])

lemma queues_image:
  assumes "\<And>q. q \<in> set qs \<longleftrightarrow> Queues tqs (q_Name q) = Some q" and "\<And>n q. Queues tqs n = Some q \<Longrightarrow> q_Name q = n"
  shows "{f n q |n q. Queues tqs n = Some q \<and> P n} = (\<lambda>q. f (q_Name q) q) ` {q \<in> set qs. P (q_Name q)}" (is "?l = ?r")
proof
  show "?l \<subseteq> ?r"
  proof
    fix x assume "x \<in> ?l"
    then obtain n q where x: "x = f n q" "Queues tqs n = Some q" "P n" by blast
    with assms(2) have "q_Name q = n" by blast
    with x assms(1) show "x \<in> ?r" by blast
  qed
  show "?r \<subseteq> ?l" using assms(1) by blast
qed

text \<open>The number of tasks outside the main queue.\<close>

lemma sum_others:
  assumes "distinct (map f xs)"
  shows "sum_list (map (\<lambda>x. if f x = n then 0 else g (f x)) xs) = (\<Sum>y \<in> f ` set xs - {n}. g y :: nat)"
proof -
  have "sum_list (map (\<lambda>y. if y = n then 0 else g y) (map f xs)) = (\<Sum>y \<in> set (map f xs). if y = n then 0 else g y)"
    by (rule sum_list_distinct_conv_sum_set [OF assms])
  also have "\<dots> = (\<Sum>y \<in> f ` set xs - {n}. g y)" by (intro sum.mono_neutral_cong_right) auto
  finally show ?thesis by (simp add: comp_def)
qed

lemma filter_card:
  "distinct (map f xs) \<Longrightarrow> length (List.filter (\<lambda>x. P (f x)) xs) = card {y \<in> f ` set xs. P y}"
proof -
  assume "distinct (map f xs)"
  then have "distinct (map f (List.filter (\<lambda>x. P (f x)) xs))" by (rule distinct_map_filter)
  then have "length (List.filter (\<lambda>x. P (f x)) xs) = card (f ` set (List.filter (\<lambda>x. P (f x)) xs))"
    by (metis distinct_card length_map list.set_map)
  also have "f ` set (List.filter (\<lambda>x. P (f x)) xs) = {y \<in> f ` set xs. P y}" by auto
  finally show ?thesis .
qed

section \<open>Properties\<close>

text \<open>
  C25. The report on the queues, for any order of the range over them and any sorting algorithm: a queue with tasks is listed once among the active ones, with its status
  and its tasks numbered from 1 in their order, a queue without tasks once among the empty ones; both lists have the queue named
  main first and the others by name; the counts of the summary are those of the queues. Empty queues are left out on request and when the main queue is the only one.
\<close>

theorem TaskQueues_report:
  assumes "queue_sort sorter" and "map_order (Queues tqs) visit" and "\<And>n q. Queues tqs n = Some q \<Longrightarrow> q_Name q = n"
    and "\<And>n q. Queues tqs n = Some q \<Longrightarrow> task_seq (GetId w) (storage q) (rs n)"
  shows "\<exists>d. TaskQueues sorter visit w tqs fmt showEmpty =
        dump_format fmt (showEmpty \<and> \<not> (dom (Queues tqs) = {MainName tqs} \<and> rs (MainName tqs) = [])) d \<and>
     set (dtq_Active d) = {full_entry w (rs n) q |n q. Queues tqs n = Some q \<and> rs n \<noteq> []} \<and>
     set (dtq_Empty d) = {empty_entry q |n q. Queues tqs n = Some q \<and> rs n = []} \<and>
     sorted_wrt queue_Less (dtq_Active d) \<and> sorted_wrt queue_Less (dtq_Empty d) \<and>
     dtq_Summary d = \<lparr>mainQueueTasksCount = (if MainName tqs \<in> dom (Queues tqs) then length (rs (MainName tqs)) else 0),
       otherQueuesActiveCount = card {n \<in> dom (Queues tqs). n \<noteq> MainName tqs \<and> rs n \<noteq> []},
       otherQueuesEmptyCount = card {n \<in> dom (Queues tqs). n \<noteq> MainName tqs \<and> rs n = []},
       otherQueuesTasksCount = (\<Sum>n \<in> dom (Queues tqs) - {MainName tqs}. length (rs n)),
       totalTasksCount = (\<Sum>n \<in> dom (Queues tqs). length (rs n))\<rparr>"
proof -
  define qs where "qs = tqs_GetSnapshot visit tqs"
  define ds where "ds = dump_queues w (MainName tqs) qs dump_start"
  have fin: "finite (dom (Queues tqs))" using assms(2) by (metis List.finite_set map_order_def)
  have nd: "distinct (map q_Name qs)" and dom: "q_Name ` set qs = dom (Queues tqs)"
    using GetSnapshot_main_first [OF assms(2,3)] by (simp_all add: qs_def)
  have mem: "q \<in> set qs \<longleftrightarrow> Queues tqs (q_Name q) = Some q" for q
    unfolding qs_def by (rule snapshot_iff [OF assms(2,3)])
  have seq: "\<forall>q \<in> set qs. task_seq (GetId w) (storage q) (rs (q_Name q))"
    using assms(4) mem by blast
  note eqs = dump_queues_eq [OF seq, where mainName = "MainName tqs" and ds = dump_start, folded ds_def, simplified dump_start_def dump_state.select_convs append_Nil add_0]
  have names: "distinct (map dq_Name (ds_Active ds))" "distinct (map dq_Name (ds_Empty ds))"
    using distinct_map_filter [OF nd] by (simp_all add: eqs comp_def full_entry_def empty_entry_def)
  have sets: "set (ds_Active ds) = {full_entry w (rs n) q |n q. Queues tqs n = Some q \<and> rs n \<noteq> []}"
    "set (ds_Empty ds) = {empty_entry q |n q. Queues tqs n = Some q \<and> rs n = []}"
    unfolding eqs by (simp_all add: queues_image [OF mem assms(3)] del: append.simps)
  have others: "tasksCount ds = (\<Sum>n \<in> dom (Queues tqs) - {MainName tqs}. length (rs n))"
    unfolding eqs using sum_others [OF nd, of "MainName tqs" "\<lambda>n. length (rs n)"] dom by simp
  have total: "mainTasksCount ds + tasksCount ds = (\<Sum>n \<in> dom (Queues tqs). length (rs n))"
    using fin others by (simp add: eqs dom sum.remove)
  have "otherQueuesCount ds = 0 \<longleftrightarrow> (\<forall>n \<in> dom (Queues tqs). n = MainName tqs)" "ds_Empty ds \<noteq> [] \<longleftrightarrow> (\<exists>n \<in> dom (Queues tqs). rs n = [])"
    unfolding eqs dom [symmetric] by (simp_all add: filter_empty_conv)
  then have hide: "ds_Empty ds \<noteq> [] \<and> otherQueuesCount ds = 0 \<longleftrightarrow> dom (Queues tqs) = {MainName tqs} \<and> rs (MainName tqs) = []"
    by (metis insertI1 singletonD subsetI subset_singleton_iff empty_iff)
  let ?d = "\<lparr>dtq_MainQueue = ds_Main ds, dtq_Active = sorter (ds_Active ds), dtq_Empty = sorter (ds_Empty ds),
      dtq_Summary = \<lparr>mainQueueTasksCount = mainTasksCount ds, otherQueuesActiveCount = activeQueues ds,
        otherQueuesEmptyCount = emptyQueues ds, otherQueuesTasksCount = tasksCount ds,
        totalTasksCount = mainTasksCount ds + tasksCount ds\<rparr>\<rparr>"
  have "sorter (ds_Empty ds) \<noteq> [] \<longleftrightarrow> ds_Empty ds \<noteq> []"
    using queue_sort.set_sorter [OF assms(1), of "ds_Empty ds"] by (metis set_empty)
  then have "TaskQueues sorter visit w tqs fmt showEmpty =
      dump_format fmt (showEmpty \<and> \<not> (dom (Queues tqs) = {MainName tqs} \<and> rs (MainName tqs) = [])) ?d"
    by (simp add: TaskQueues_def Let_def hide [symmetric] flip: qs_def ds_def)
  moreover have "activeQueues ds = card {n \<in> dom (Queues tqs). n \<noteq> MainName tqs \<and> rs n \<noteq> []}"
      "emptyQueues ds = card {n \<in> dom (Queues tqs). n \<noteq> MainName tqs \<and> rs n = []}"
    using filter_card [OF nd, of "\<lambda>n. n \<noteq> MainName tqs \<and> rs n \<noteq> []"] filter_card [OF nd, of "\<lambda>n. n \<noteq> MainName tqs \<and> rs n = []"]
    by (simp_all add: eqs dom)
  ultimately show ?thesis
    using sets others total queue_sort.set_sorter [OF assms(1)] queue_sort.sorter_strict [OF assms(1)] names
    by (intro exI [of _ ?d]) (simp add: eqs(7) dom)
qed

theorem TaskQueues_report_witness:
  "\<exists>tqs d. TaskQueues insertion_sort [''b'', ''main''] demo_world tqs ''yaml'' True = DumpQueues d \<and>
     map_option q_Name (Queues tqs ''main'') = Some ''main'' \<and> totalTasksCount (dtq_Summary d) = 2 \<and> otherQueuesEmptyCount (dtq_Summary d) = 1"
proof -
  have "distinct (map (GetId demo_world) ([] @ [0, 1]))" by code_simp
  from addLast_seq [OF task_seq_new this] obtain ts where ts: "task_seq (GetId demo_world) ts [0, 1]" by auto
  obtain b where b: "NewTasksQueue ''b'' True [] = Some b" "q_Name b = ''b''" "storage b = newTaskStorage"
    by (simp add: NewTasksQueue_def NewTaskCounter_def Let_def)
  let ?m = "b\<lparr>q_Name := ''main'', storage := ts\<rparr>" and ?rs = "(\<lambda>_. [])(''main'' := [0, 1 :: taskref])"
  let ?tqs = "tqs_Add ?m (tqs_Add b NewTaskQueueSet)"
  have qs: "Queues ?tqs = [''b'' \<mapsto> b, ''main'' \<mapsto> ?m]" "MainName ?tqs = ''main''" "dom (Queues ?tqs) = {''main'', ''b''}"
    using b(2) by (auto simp: tqs_Add_def NewTaskQueueSet_def)
  have ord: "map_order (Queues ?tqs) [''b'', ''main'']" by (auto simp: map_order_def qs(3))
  have wf: "q_Name q = n" "task_seq (GetId demo_world) (storage q) (?rs n)" if "Queues ?tqs n = Some q" for n q
    using that ts task_seq_new b(2,3) by (auto simp: qs(1) split: if_splits)
  have "\<exists>d. TaskQueues insertion_sort [''b'', ''main''] demo_world ?tqs ''yaml'' True =
      dump_format ''yaml'' (True \<and> \<not> (dom (Queues ?tqs) = {MainName ?tqs} \<and> ?rs (MainName ?tqs) = [])) d \<and>
      totalTasksCount (dtq_Summary d) = (\<Sum>n \<in> dom (Queues ?tqs). length (?rs n)) \<and>
      otherQueuesEmptyCount (dtq_Summary d) = card {n \<in> dom (Queues ?tqs). n \<noteq> MainName ?tqs \<and> ?rs n = []}"
    by (rule exE [OF TaskQueues_report [of insertion_sort ?tqs "[''b'', ''main'']" demo_world ?rs "''yaml''" True]],
        rule insertion.queue_sort_axioms, rule ord, erule wf(1), erule wf(2), elim conjE, intro exI conjI, assumption)
      (simp_all only: dumpSummary.select_convs)
  then obtain d where d: "TaskQueues insertion_sort [''b'', ''main''] demo_world ?tqs ''yaml'' True =
      dump_format ''yaml'' (True \<and> \<not> (dom (Queues ?tqs) = {MainName ?tqs} \<and> ?rs (MainName ?tqs) = [])) d"
      "totalTasksCount (dtq_Summary d) = (\<Sum>n \<in> dom (Queues ?tqs). length (?rs n))"
      "otherQueuesEmptyCount (dtq_Summary d) = card {n \<in> dom (Queues ?tqs). n \<noteq> MainName ?tqs \<and> ?rs n = []}" by blast
  have "{n \<in> {''main'', ''b''}. n \<noteq> ''main'' \<and> ?rs n = []} = {''b''}" by auto
  with d show ?thesis by (intro exI [of _ ?tqs] exI [of _ d]) (simp add: qs dump_format_def)
qed

end
