(* ===== verification/Namespace_Informer.thy ===== *)
theory Namespace_Informer
  imports Kube_Monitor
begin

text \<open>
  \<open>pkg/kube_events_manager/namespace_informer.go\<close> and \<open>error_handler.go\<close>: the informer that tells a monitor which namespaces
  match its label selector, and the handler of watch errors.

  The shared informer of client-go is represented by the calls it makes (\<open>OnAdd\<close>, \<open>OnUpdate\<close>, \<open>OnDelete\<close>). The callbacks are
  those the monitor gives to the informer: \<open>ns_added\<close> and \<open>ns_deleted\<close>. A panic is \<open>None\<close>.
\<close>

datatype ns_object = NsObject string | DeletedFinalStateUnknown ns_object | OtherObject

record namespaceInformer =
  ni_cancelled :: bool
  ni_stopped :: bool
  hasSharedInformer :: bool
  hasCallbacks :: bool
  ExistedObjects :: "string list"
  ni_running :: bool \<comment> \<open>\<open>done\<close> was made\<close>

text \<open>A context made from a context that is done is done as well.\<close>

definition NewNamespaceInformer :: "bool \<Rightarrow> namespaceInformer" where
  "NewNamespaceInformer ctxDone = \<lparr>ni_cancelled = ctxDone, ni_stopped = False, hasSharedInformer = False, hasCallbacks = False,
     ExistedObjects = [], ni_running = False\<rparr>"

definition ni_withContext :: "bool \<Rightarrow> namespaceInformer \<Rightarrow> namespaceInformer" where
  "ni_withContext ctxDone ni = ni\<lparr>ni_cancelled := ctxDone\<rparr>"

datatype ns_error = FormatSelectorError | ListError

text \<open>Outer \<open>None\<close>: the monitor has no namespace selector, which is dereferenced.\<close>

definition ni_createSharedInformer :: "cluster_env \<Rightarrow> MonitorConfig \<Rightarrow> namespaceInformer \<Rightarrow> (ns_error option \<times> namespaceInformer) option" where
  "ni_createSharedInformer env mc ni = do {
     sel \<leftarrow> mc_NamespaceSelector mc;
     Some (case FormatLabelSelector (env_api env) (ns_LabelSelector sel) of
         None \<Rightarrow> (Some FormatSelectorError, ni)
       | Some _ \<Rightarrow>
           (let ni = ni\<lparr>hasSharedInformer := True, hasCallbacks := True\<rparr> in
            case env_namespaces env of
              None \<Rightarrow> (Some ListError, ni)
            | Some nss \<Rightarrow> (None, ni\<lparr>ExistedObjects := fold List.insert nss (ExistedObjects ni)\<rparr>)))
   }"

definition OnAdd :: "cluster_env \<Rightarrow> ns_object \<Rightarrow> namespaceInformer \<Rightarrow> monitor \<Rightarrow> monitor option" where
  "OnAdd env obj ni m =
     (if ni_stopped ni then Some m
      else case obj of
        NsObject name \<Rightarrow> Some (if hasCallbacks ni then ns_added env name m else m)
      | _ \<Rightarrow> None)"

definition OnUpdate :: "ns_object \<Rightarrow> ns_object \<Rightarrow> namespaceInformer \<Rightarrow> monitor \<Rightarrow> monitor option" where
  "OnUpdate old new ni m = Some m"

definition OnDelete :: "ns_object \<Rightarrow> namespaceInformer \<Rightarrow> monitor \<Rightarrow> monitor option" where
  "OnDelete obj ni m =
     (if ni_stopped ni then Some m
      else
        (let obj = (case obj of DeletedFinalStateUnknown staleObj \<Rightarrow> staleObj | _ \<Rightarrow> obj) in
         case obj of
           NsObject name \<Rightarrow> Some (if hasCallbacks ni then ns_deleted name m else m)
         | _ \<Rightarrow> None))"

text \<open>\<open>start\<close> before \<open>createSharedInformer\<close> is only logged.\<close>

definition ni_start :: "namespaceInformer \<Rightarrow> namespaceInformer" where
  "ni_start ni = (if \<not> hasSharedInformer ni then ni else ni\<lparr>ni_running := True\<rparr>)"

text \<open>The goroutine of \<open>start\<close> that waits for the context.\<close>

definition ni_context_done :: "namespaceInformer \<Rightarrow> namespaceInformer" where
  "ni_context_done ni = (if ni_running ni \<and> ni_cancelled ni then ni\<lparr>ni_stopped := True\<rparr> else ni)"

text \<open>\<open>wait\<close>: the loop over what \<open>select\<close> finds ready, \<open>True\<close> when \<open>done\<close> is closed and \<open>False\<close> for the timer; whether it has returned.\<close>

fun ni_wait :: "namespaceInformer \<Rightarrow> bool list \<Rightarrow> bool" where
  "ni_wait ni [] = (\<not> ni_running ni)"
| "ni_wait ni (closed # rest) = (\<not> ni_running ni \<or> closed \<or> ni_wait ni rest)"

section \<open>Watch errors\<close>

record watch_error =
  IsResourceExpired :: bool
  IsGone :: bool
  is_EOF :: bool
  is_ErrUnexpectedEOF :: bool

definition IsExpiredError :: "watch_error option \<Rightarrow> bool" where
  "IsExpiredError err = (case err of None \<Rightarrow> False | Some e \<Rightarrow> IsResourceExpired e \<or> IsGone e)"

definition watch_error_type :: "watch_error option \<Rightarrow> string" where
  "watch_error_type err =
     (if IsExpiredError err then ''expired''
      else case err of
        None \<Rightarrow> ''nil''
      | Some e \<Rightarrow> if is_EOF e then ''eof'' else if is_ErrUnexpectedEOF e then ''unexpected-eof'' else ''fail'')"

text \<open>The metric \<open>KubernetesClientWatchErrorsTotal\<close> by error type; \<open>None\<close>: there is no metric storage.\<close>

definition watch_handler :: "watch_error option \<Rightarrow> (string \<Rightarrow> nat) option \<Rightarrow> (string \<Rightarrow> nat) option" where
  "watch_handler err metric =
     map_option (\<lambda>m. m(watch_error_type err := m (watch_error_type err) + 1)) metric"

lemma watch_handler_counts:
  "watch_handler err (Some m) = Some m' \<Longrightarrow>
     m' (watch_error_type err) = m (watch_error_type err) + 1 \<and> (\<forall>t. t \<noteq> watch_error_type err \<longrightarrow> m' t = m t) \<and>
     watch_error_type err \<in> {''nil'', ''expired'', ''eof'', ''unexpected-eof'', ''fail''} \<and>
     (watch_error_type err = ''nil'' \<longleftrightarrow> err = None)"
  by (auto simp: watch_handler_def watch_error_type_def IsExpiredError_def split: option.splits)

section \<open>The monitor follows the namespaces\<close>

datatype ns_change = Added string | Modified string | Deleted string bool \<comment> \<open>\<open>True\<close>: the last state is not known for sure\<close>

fun ns_event :: "cluster_env \<Rightarrow> namespaceInformer \<Rightarrow> ns_change \<Rightarrow> monitor \<Rightarrow> monitor option" where
  "ns_event env ni (Added n) m = OnAdd env (NsObject n) ni m"
| "ns_event env ni (Modified n) m = OnUpdate (NsObject n) (NsObject n) ni m"
| "ns_event env ni (Deleted n stale) m = OnDelete (if stale then DeletedFinalStateUnknown (NsObject n) else NsObject n) ni m"

fun ns_events :: "cluster_env \<Rightarrow> namespaceInformer \<Rightarrow> ns_change list \<Rightarrow> monitor \<Rightarrow> monitor option" where
  "ns_events env ni [] m = Some m"
| "ns_events env ni (e # es) m = do { m \<leftarrow> ns_event env ni e m; ns_events env ni es m }"

fun matching :: "ns_change \<Rightarrow> string set \<Rightarrow> string set" where
  "matching (Added n) N = insert n N"
| "matching (Modified n) N = N"
| "matching (Deleted n stale) N = N - {n}"

lemma ns_added_sel:
  "staticNamespaces (ns_added env n m) = staticNamespaces m" "mon_started (ns_added env n m) = mon_started m"
  "set (map_keys (VaryingInformers (ns_added env n m))) = set (map_keys (VaryingInformers m)) \<union> ({n} - set (staticNamespaces m))"
  by (auto simp: ns_added_def Let_def)

lemma ns_deleted_sel:
  assumes "mon_inv m" and "mon_started m"
  shows "staticNamespaces (ns_deleted n m) = staticNamespaces m" "mon_started (ns_deleted n m) = mon_started m"
    "set (map_keys (VaryingInformers (ns_deleted n m))) = set (map_keys (VaryingInformers m)) - {n}"
  using mon_invD(2,3) [OF assms(1)] assms(2) by (auto simp: ns_deleted_def)

text \<open>
  While the informer runs, the monitor has dynamic informers for exactly the namespaces that match and are not static, and no
  event makes it panic; once it is stopped, events change nothing.
\<close>

lemma namespaces_followed:
  assumes "mon_inv m" and "mon_started m" and "hasCallbacks ni" and "\<not> ni_stopped ni"
    and "set (map_keys (VaryingInformers m)) = N - set (staticNamespaces m)"
  shows "\<exists>m'. ns_events env ni es m = Some m' \<and> mon_inv m' \<and>
     set (map_keys (VaryingInformers m')) = fold matching es N - set (staticNamespaces m')"
  using assms(1,2,5)
proof (induction es arbitrary: m N)
  case (Cons e es)
  note keep = ns_added_sel ns_deleted_sel [OF Cons.prems(1,2)] and inv = ns_added_inv [OF Cons.prems(1)] ns_deleted_inv [OF Cons.prems(1)]
  have "\<exists>m1. ns_event env ni e m = Some m1 \<and> mon_inv m1 \<and> mon_started m1 \<and>
      set (map_keys (VaryingInformers m1)) = matching e N - set (staticNamespaces m1)"
    using assms(3,4) Cons.prems keep inv by (cases e) (auto simp: OnAdd_def OnUpdate_def OnDelete_def Let_def)
  with Cons.IH show ?case by fastforce
qed auto

lemma stopped_informer_silent: "ni_stopped ni \<Longrightarrow> ns_events env ni es m = Some m"
proof (induction es)
  case (Cons e es)
  then show ?case by (cases e) (simp_all add: OnAdd_def OnUpdate_def OnDelete_def)
qed simp

end
