(* ===== verification/Hook_Executor.thy ===== *)
theory Hook_Executor
  imports Go_Prelude
begin

text \<open>
  \<open>pkg/executor/executor.go\<close> and \<open>registry.go\<close>: how the command of a hook is run, how its output gets into the log,
  and the registry of the process ids that belong to running commands.

  The process is an argument: the chunks it writes to its two outputs, in their order, and how it ends. The
  JSON libraries, the log levels and \<open>exec.LookPath\<close> are arguments as well. The log is the list of its entries; the attributes of
  an entry are a map; the attribute named by \<open>proxyJsonKey\<close>, which all entries made from JSON have, is left out. The debug messages of the executor about itself are left out, except the one about a
  value that is not an object.
\<close>

section \<open>Trimming\<close>

text \<open>The encodings of the runes that \<open>strings.TrimSpace\<close> cuts off.\<close>

definition space_runes :: "string list" where
  "space_runes =
     [[CHR 0x09], [CHR 0x0A], [CHR 0x0B], [CHR 0x0C], [CHR 0x0D], [CHR 0x20],
      [CHR 0xC2, CHR 0x85], [CHR 0xC2, CHR 0xA0], [CHR 0xE1, CHR 0x9A, CHR 0x80]] @
     map (\<lambda>b. [CHR 0xE2, CHR 0x80, b])
       [CHR 0x80, CHR 0x81, CHR 0x82, CHR 0x83, CHR 0x84, CHR 0x85, CHR 0x86, CHR 0x87, CHR 0x88, CHR 0x89, CHR 0x8A, CHR 0xA8, CHR 0xA9, CHR 0xAF] @
     [[CHR 0xE2, CHR 0x81, CHR 0x9F], [CHR 0xE3, CHR 0x80, CHR 0x80]]"

function trim_runes :: "string list \<Rightarrow> string \<Rightarrow> string" where
  "trim_runes runes s =
     (case List.find (\<lambda>r. r \<noteq> [] \<and> prefix r s) runes of
        None \<Rightarrow> s
      | Some r \<Rightarrow> trim_runes runes (drop (length r) s))"
  by auto
termination
  by (relation "measure (\<lambda>(runes, s). length s)") (auto simp: find_Some_iff prefix_def)

declare trim_runes.simps [simp del]

definition TrimSpace :: "string \<Rightarrow> string" where
  "TrimSpace s = rev (trim_runes (map rev space_runes) (rev (trim_runes space_runes s)))"

definition TrimLeft :: "string \<Rightarrow> string" where
  "TrimLeft s = dropWhile (\<lambda>c. c \<in> set [CHR '' '', CHR 0x09, CHR 0x0D, CHR 0x0A]) s"

definition TrimPrefix :: "string \<Rightarrow> string \<Rightarrow> string" where
  "TrimPrefix s p = (if prefix p s then drop (length p) s else s)"

section \<open>The log proxy\<close>

datatype json_error = ErrUnexpectedEOF | ErrJSON

record log_lib =
  json_Unmarshal :: "string \<Rightarrow> json_error + json"
  decoder_incomplete :: "string \<Rightarrow> bool" \<comment> \<open>the decoder of \<open>encoding/json\<close> wants more\<close>
  json_Marshal :: "(string \<times> json) list \<Rightarrow> string"
  LogLevelFromStr :: "string \<Rightarrow> int"

datatype log_entry =
    InfoLine string
  | DebugValue json
  | HookLine int string "(string \<times> json) list"
  | HookTruncated int string string

record proxyLogger =
  logProxyHookJSON :: bool
  buf :: string
  jsonBuf :: string
  logged :: "log_entry list"

definition MaxScanTokenSize :: nat where
  "MaxScanTokenSize = 64 * 1024"

definition newProxyLogger :: "bool \<Rightarrow> proxyLogger" where
  "newProxyLogger proxy = \<lparr>logProxyHookJSON = proxy, buf = [], jsonBuf = [], logged = []\<rparr>"

definition emit :: "log_entry \<Rightarrow> proxyLogger \<Rightarrow> proxyLogger" where
  "emit e pl = pl\<lparr>logged := logged pl @ [e]\<rparr>"

definition truncated :: "string \<Rightarrow> string" where
  "truncated s = take 10000 s @ '':truncated''"

definition logText :: "string \<Rightarrow> proxyLogger \<Rightarrow> proxyLogger" where
  "logText s pl =
     (let line = TrimSpace s in
      emit (InfoLine (if length line > 10000 then truncated line else line)) pl)"

text \<open>The keys that are looked up are \<open>level\<close>, \<open>msg\<close> and \<open>time\<close>; a missing level is the zero value.\<close>

definition mergeAndLogInputLog :: "log_lib \<Rightarrow> (string \<times> json) list \<Rightarrow> string \<Rightarrow> proxyLogger \<Rightarrow> proxyLogger" where
  "mergeAndLogInputLog lib inputLog pre pl =
     (let (lvl, inputLog) = (case map_of inputLog ''level'' of
            Some (JStr l) \<Rightarrow> (LogLevelFromStr lib l, List.filter (\<lambda>(k, _). k \<noteq> ''level'') inputLog)
          | _ \<Rightarrow> (0, inputLog));
          msg = (case map_of inputLog ''msg'' of Some (JStr m) \<Rightarrow> m | _ \<Rightarrow> ''hook result'');
          inputLog = List.filter (\<lambda>(k, _). k \<noteq> ''msg'' \<and> k \<noteq> ''time'') inputLog;
          logLine = json_Marshal lib inputLog
      in if length logLine > 10000 then emit (HookTruncated lvl msg (truncated logLine)) pl
         else emit (HookLine lvl msg (map (\<lambda>(k, v). (pre @ ''_'' @ k, v)) inputLog)) pl)"

definition tryLogJSON :: "log_lib \<Rightarrow> string \<Rightarrow> proxyLogger \<Rightarrow> json_error option \<times> proxyLogger" where
  "tryLogJSON lib s pl =
     (case json_Unmarshal lib s of
        Inl err \<Rightarrow> if decoder_incomplete lib s then (Some ErrUnexpectedEOF, pl) else (Some err, pl)
      | Inr (JObj logMap) \<Rightarrow> (None, mergeAndLogInputLog lib logMap ''hook'' pl)
      | Inr value \<Rightarrow>
          if value = JNull \<and> \<not> logProxyHookJSON pl then (None, mergeAndLogInputLog lib [] ''hook'' pl)
          else if \<not> logProxyHookJSON pl then (Some ErrJSON, pl)
          else (None, emit (InfoLine s) (emit (DebugValue value) pl)))"

definition json_start :: "bool \<Rightarrow> string \<Rightarrow> bool" where
  "json_start proxy line \<longleftrightarrow>
     prefix ''{'' line \<or> proxy \<and> (prefix ''['' line \<or> prefix [CHR 0x22] line)"

definition logLine :: "log_lib \<Rightarrow> string \<Rightarrow> proxyLogger \<Rightarrow> proxyLogger" where
  "logLine lib raw pl =
     (let line = TrimSpace raw in
      if line = [] \<and> jsonBuf pl = [] then pl
      else if jsonBuf pl \<noteq> [] \<or> json_start (logProxyHookJSON pl) line then
        (let pl = pl\<lparr>jsonBuf := jsonBuf pl @ raw\<rparr>;
             (err, pl) = tryLogJSON lib (jsonBuf pl) pl
         in case err of
              Some ErrUnexpectedEOF \<Rightarrow> pl
            | Some ErrJSON \<Rightarrow> (logText (jsonBuf pl) pl)\<lparr>jsonBuf := []\<rparr>
            | None \<Rightarrow> pl\<lparr>jsonBuf := []\<rparr>)
      else
        (case tryLogJSON lib raw pl of
           (None, pl) \<Rightarrow> pl
         | (Some _, pl) \<Rightarrow> logText line pl))"

definition hasPendingJSON :: "proxyLogger \<Rightarrow> bool" where
  "hasPendingJSON pl \<longleftrightarrow> jsonBuf pl \<noteq> [] \<or> json_start (logProxyHookJSON pl) (TrimLeft (buf pl))"

definition line_size :: "proxyLogger \<Rightarrow> nat" where
  "line_size pl =
     (let lineSize = (case index_rune (CHR 0x0A) (buf pl) of None \<Rightarrow> 0 | Some i \<Rightarrow> i + 1)
      in if \<not> hasPendingJSON pl \<and> length (buf pl) \<ge> MaxScanTokenSize \<and> (lineSize = 0 \<or> lineSize > MaxScanTokenSize)
         then MaxScanTokenSize else lineSize)"

function write_loop :: "log_lib \<Rightarrow> proxyLogger \<Rightarrow> proxyLogger" where
  "write_loop lib pl =
     (if buf pl = [] then pl
      else let lineSize = line_size pl in
        if lineSize = 0 then pl
        else write_loop lib ((logLine lib (take lineSize (buf pl)) pl)\<lparr>buf := drop lineSize (buf pl)\<rparr>))"
  by auto
termination
  by (relation "measure (\<lambda>(lib, pl). length (buf pl))") auto

declare write_loop.simps [simp del]

definition pl_Write :: "log_lib \<Rightarrow> string \<Rightarrow> proxyLogger \<Rightarrow> proxyLogger" where
  "pl_Write lib p pl = write_loop lib (pl\<lparr>buf := buf pl @ p\<rparr>)"

definition flush :: "log_lib \<Rightarrow> proxyLogger \<Rightarrow> proxyLogger" where
  "flush lib pl =
     (let pl = (if buf pl \<noteq> [] then (logLine lib (buf pl) pl)\<lparr>buf := []\<rparr> else pl)
      in if jsonBuf pl \<noteq> [] then (logText (jsonBuf pl) pl)\<lparr>jsonBuf := []\<rparr> else pl)"

section \<open>Commands\<close>

record CmdUsage =
  Sys :: duration
  User :: duration
  MaxRss :: int

record Cmd =
  cmd_Path :: string
  cmd_Args :: "string list"
  cmd_Env :: "string list"
  cmd_Dir :: string
  cmd_Chroot :: "string option"
  cmd_Stdout :: bool \<comment> \<open>a writer is set\<close>
  cmd_Stderr :: bool

text \<open>
  What a run of a command does: its writes, \<open>False\<close> for stdout and \<open>True\<close> for stderr, and the outcome. A \<open>child\<close> is
  the same for a child process: it may not start, and \<open>Wait\<close> may fail, with an exit error or another one.
\<close>

record process =
  writes :: "(bool \<times> string) list"
  outcome :: "string + CmdUsage option"

type_synonym Runner = "Cmd \<Rightarrow> process"

record ProcessState =
  SystemTime :: duration
  UserTime :: duration
  Maxrss :: "int option"

record child =
  start_error :: "string option"
  child_writes :: "(bool \<times> string) list"
  wait_error :: "(bool \<times> string) option"
  child_state :: "ProcessState option"

definition cmd_usage :: "ProcessState option \<Rightarrow> CmdUsage option" where
  "cmd_usage st = map_option (\<lambda>st. \<lparr>Sys = SystemTime st, User = UserTime st,
     MaxRss = (case Maxrss st of Some v \<Rightarrow> v | None \<Rightarrow> 0)\<rparr>) st"

definition ProcessRunner :: "(Cmd \<Rightarrow> child) \<Rightarrow> Runner" where
  "ProcessRunner os cmd =
     (let c = os cmd in
      case start_error c of
        Some err \<Rightarrow> \<lparr>writes = [], outcome = Inl (''cmd start: '' @ err)\<rparr>
      | None \<Rightarrow> \<lparr>writes = child_writes c, outcome = (case wait_error c of
            Some (_, err) \<Rightarrow> Inl (''cmd run: '' @ err)
          | None \<Rightarrow> Inr (cmd_usage (child_state c)))\<rparr>)"

record Executor =
  ex_cmd :: Cmd
  ex_runner :: Runner
  ex_logProxyHookJSON :: bool
  proxyJsonKey :: string

definition NewExecutor :: "(string \<Rightarrow> string) \<Rightarrow> Runner \<Rightarrow> string \<Rightarrow> string \<Rightarrow> string list \<Rightarrow> string list \<Rightarrow> Executor" where
  "NewExecutor lookPath processRunner dir entrypoint args envs =
     \<lparr>ex_cmd = \<lparr>cmd_Path = lookPath entrypoint, cmd_Args = entrypoint # args, cmd_Env = envs, cmd_Dir = dir,
        cmd_Chroot = None, cmd_Stdout = False, cmd_Stderr = False\<rparr>,
      ex_runner = processRunner, ex_logProxyHookJSON = False, proxyJsonKey = ''proxyJsonLog''\<rparr>"

definition WithRunner :: "Runner option \<Rightarrow> Executor \<Rightarrow> Executor" where
  "WithRunner runner e = (case runner of None \<Rightarrow> e | Some r \<Rightarrow> e\<lparr>ex_runner := r\<rparr>)"

definition WithLogProxyHookJSON :: "bool \<Rightarrow> Executor \<Rightarrow> Executor" where
  "WithLogProxyHookJSON b e = e\<lparr>ex_logProxyHookJSON := b\<rparr>"

definition WithLogProxyHookJSONKey :: "string \<Rightarrow> Executor \<Rightarrow> Executor" where
  "WithLogProxyHookJSONKey key e = (if key = [] then e else e\<lparr>proxyJsonKey := key\<rparr>)"

definition WithChroot :: "string \<Rightarrow> Executor \<Rightarrow> Executor" where
  "WithChroot path e =
     (if path \<noteq> [] then e\<lparr>ex_cmd := (ex_cmd e)\<lparr>cmd_Chroot := Some path,
        cmd_Path := TrimPrefix (cmd_Path (ex_cmd e)) path, cmd_Dir := ''/''\<rparr>\<rparr> else e)"

definition WithCMDStdout :: "bool \<Rightarrow> Executor \<Rightarrow> Executor" where
  "WithCMDStdout w e = e\<lparr>ex_cmd := (ex_cmd e)\<lparr>cmd_Stdout := w\<rparr>\<rparr>"

definition WithCMDStderr :: "bool \<Rightarrow> Executor \<Rightarrow> Executor" where
  "WithCMDStderr w e = e\<lparr>ex_cmd := (ex_cmd e)\<lparr>cmd_Stderr := w\<rparr>\<rparr>"

datatype exec_error = StderrError string | RunError string | StdoutAlreadySet

text \<open>The writers of \<open>RunAndLogLines\<close>: the two proxies, and the buffer that also gets what goes to stderr.\<close>

record outputs =
  out_log :: proxyLogger
  err_log :: proxyLogger
  stdErr :: string

definition handle_write :: "log_lib \<Rightarrow> bool \<times> string \<Rightarrow> outputs \<Rightarrow> outputs" where
  "handle_write lib = (\<lambda>(to_stderr, p) o'.
     if to_stderr then o'\<lparr>err_log := pl_Write lib p (err_log o'), stdErr := stdErr o' @ p\<rparr>
     else o'\<lparr>out_log := pl_Write lib p (out_log o')\<rparr>)"

definition RunAndLogLines :: "log_lib \<Rightarrow> Executor \<Rightarrow> (exec_error + CmdUsage option) \<times> log_entry list \<times> log_entry list" where
  "RunAndLogLines lib e =
     (let pl = newProxyLogger (ex_logProxyHookJSON e);
          p = ex_runner e ((ex_cmd e)\<lparr>cmd_Stdout := True, cmd_Stderr := True\<rparr>);
          os = fold (handle_write lib) (writes p) \<lparr>out_log = pl, err_log = pl, stdErr = []\<rparr>;
          res = (case outcome p of
              Inl err \<Rightarrow> Inl (if stdErr os \<noteq> [] then StderrError (stdErr os) else RunError err)
            | Inr usage \<Rightarrow> Inr usage)
      in (res, logged (flush lib (out_log os)), logged (flush lib (err_log os))))"

text \<open>\<open>Output\<close>: what the process wrote to stdout, and its error; an exit error carries what it wrote to stderr, unless a writer was set.\<close>

definition Output :: "(Cmd \<Rightarrow> child) \<Rightarrow> Executor \<Rightarrow> string option \<times> (exec_error \<times> string) option" where
  "Output os e =
     (if cmd_Stdout (ex_cmd e) then (None, Some (StdoutAlreadySet, []))
      else
        (let captureErr = (\<not> cmd_Stderr (ex_cmd e));
             c = os ((ex_cmd e)\<lparr>cmd_Stdout := True, cmd_Stderr := True\<rparr>);
             stdout = concat (map snd (List.filter (\<lambda>w. \<not> fst w) (child_writes c)));
             stderr = concat (map snd (List.filter fst (child_writes c)))
         in case start_error c of
              Some err \<Rightarrow> (None, Some (RunError err, []))
            | None \<Rightarrow> (Some stdout, map_option (\<lambda>(is_exit, err).
                (RunError err, if captureErr \<and> is_exit then stderr else [])) (wait_error c))))"

section \<open>The registry of process ids\<close>

type_synonym processRegistry = "int set"

definition register :: "int \<Rightarrow> processRegistry \<Rightarrow> processRegistry" where
  "register pid r = insert pid r"

definition unregister :: "int \<Rightarrow> processRegistry \<Rightarrow> processRegistry" where
  "unregister pid r = r - {pid}"

definition startAndRegister :: "string + int \<Rightarrow> processRegistry \<Rightarrow> string option \<times> processRegistry" where
  "startAndRegister started r = (case started of Inl err \<Rightarrow> (Some err, r) | Inr pid \<Rightarrow> (None, insert pid r))"

definition IsActive :: "int \<Rightarrow> processRegistry \<Rightarrow> bool" where
  "IsActive pid r \<longleftrightarrow> pid \<in> r"

text \<open>
  Commands run concurrently. A call is waiting for its child, or \<open>Wait\<close> has returned (and the child is gone)
  and the deferred \<open>unregisterPID\<close> is still to come. The kernel gives a child a pid that no process has; with
  \<open>reuse\<close> it may be the pid of a child that is gone, but still registered.
\<close>

datatype phase = Waiting int | Reaped int

record exec_state =
  registry :: processRegistry
  calls :: "nat \<rightharpoonup> phase"

definition idle :: exec_state where
  "idle = \<lparr>registry = {}, calls = Map.empty\<rparr>"

inductive exec_step :: "bool \<Rightarrow> exec_state \<Rightarrow> exec_state \<Rightarrow> bool" for reuse where
  started: "calls s c = None \<Longrightarrow> Waiting pid \<notin> ran (calls s) \<Longrightarrow> reuse \<or> Reaped pid \<notin> ran (calls s) \<Longrightarrow>
     startAndRegister (Inr pid) (registry s) = (None, r) \<Longrightarrow>
     exec_step reuse s (s\<lparr>registry := r, calls := (calls s)(c \<mapsto> Waiting pid)\<rparr>)"
| start_failed: "calls s c = None \<Longrightarrow> startAndRegister (Inl err) (registry s) = (Some err, r) \<Longrightarrow>
     exec_step reuse s (s\<lparr>registry := r\<rparr>)"
| waited: "calls s c = Some (Waiting pid) \<Longrightarrow> exec_step reuse s (s\<lparr>calls := (calls s)(c \<mapsto> Reaped pid)\<rparr>)"
| finished: "calls s c = Some (Reaped pid) \<Longrightarrow>
     exec_step reuse s (s\<lparr>registry := unregister pid (registry s), calls := (calls s)(c := None)\<rparr>)"

section \<open>What the log of a stream is\<close>

text \<open>The reference: the stream is cut after each newline, and the pieces are logged in turn.\<close>

function records :: "string \<Rightarrow> string list" where
  "records s =
     (if s = [] then []
      else case index_rune (CHR 0x0A) s of
        None \<Rightarrow> [s]
      | Some i \<Rightarrow> take (i + 1) s # records (drop (i + 1) s))"
  by auto
termination
  by (relation "measure length") auto

declare records.simps [simp del]

definition flush_json :: "proxyLogger \<Rightarrow> proxyLogger" where
  "flush_json pl = (if jsonBuf pl \<noteq> [] then (logText (jsonBuf pl) pl)\<lparr>jsonBuf := []\<rparr> else pl)"

definition stream_log :: "log_lib \<Rightarrow> bool \<Rightarrow> string \<Rightarrow> log_entry list" where
  "stream_log lib proxy s = logged (flush_json (fold (logLine lib) (records s) (newProxyLogger proxy)))"

definition stream_of :: "bool \<Rightarrow> (bool \<times> string) list \<Rightarrow> string" where
  "stream_of to_stderr ws = concat (map snd (List.filter (\<lambda>w. fst w = to_stderr) ws))"

text \<open>No line is longer than the limit: among that many consecutive bytes there is always a newline.\<close>

definition short_lines :: "string \<Rightarrow> bool" where
  "short_lines s \<longleftrightarrow> list_all (\<lambda>k. CHR 0x0A \<in> set (take MaxScanTokenSize (drop k s))) [0..<Suc (length s) - MaxScanTokenSize]"

section \<open>Lemmas\<close>

lemma short_lines_iff:
  "short_lines s \<longleftrightarrow> (\<forall>k. k + MaxScanTokenSize \<le> length s \<longrightarrow> CHR 0x0A \<in> set (take MaxScanTokenSize (drop k s)))"
  by (auto simp: short_lines_def list_all_iff MaxScanTokenSize_def)

lemma short_linesD:
  "short_lines s \<Longrightarrow> k + MaxScanTokenSize \<le> length s \<Longrightarrow> CHR 0x0A \<in> set (take MaxScanTokenSize (drop k s))"
  by (simp add: short_lines_iff)

lemma short_lines_prefix:
  assumes "short_lines (s @ p)" shows "short_lines s"
  unfolding short_lines_iff
proof (intro allI impI)
  fix k assume "k + MaxScanTokenSize \<le> length s"
  with short_linesD [OF assms, of k] show "CHR 0x0A \<in> set (take MaxScanTokenSize (drop k s))" by simp
qed

lemma short_lines_drop:
  assumes "short_lines s" shows "short_lines (drop n s)"
  unfolding short_lines_iff
proof (intro allI impI)
  fix k assume "k + MaxScanTokenSize \<le> length (drop n s)"
  moreover have "0 < MaxScanTokenSize" by (simp add: MaxScanTokenSize_def)
  ultimately have "k + n + MaxScanTokenSize \<le> length s" by simp
  from short_linesD [OF assms this] show "CHR 0x0A \<in> set (take MaxScanTokenSize (drop k (drop n s)))" by simp
qed

lemma logText_upd_buf: "logText s (pl\<lparr>buf := b\<rparr>) = (logText s pl)\<lparr>buf := b\<rparr>"
  by (simp add: logText_def emit_def Let_def)

lemma merge_upd_buf: "mergeAndLogInputLog lib m pre (pl\<lparr>buf := b\<rparr>) = (mergeAndLogInputLog lib m pre pl)\<lparr>buf := b\<rparr>"
  by (simp add: mergeAndLogInputLog_def emit_def Let_def split: prod.splits)

lemma tryLogJSON_upd_buf:
  "tryLogJSON lib s (pl\<lparr>buf := b\<rparr>) = (case tryLogJSON lib s pl of (err, pl') \<Rightarrow> (err, pl'\<lparr>buf := b\<rparr>))"
  by (simp add: tryLogJSON_def merge_upd_buf emit_def split: sum.splits json.splits)

lemma logLine_upd_buf: "logLine lib raw (pl\<lparr>buf := b\<rparr>) = (logLine lib raw pl)\<lparr>buf := b\<rparr>"
proof -
  have comm: "pl\<lparr>buf := b, jsonBuf := j\<rparr> = pl\<lparr>jsonBuf := j, buf := b\<rparr>" for pl :: proxyLogger and b j by simp
  show ?thesis
    by (auto simp: logLine_def Let_def comm tryLogJSON_upd_buf logText_upd_buf split: prod.splits option.splits json_error.splits)
qed

lemma logLine_buf [simp]: "buf (logLine lib raw pl) = buf pl"
proof -
  have "logLine lib raw pl = (logLine lib raw pl)\<lparr>buf := buf pl\<rparr>"
    using logLine_upd_buf [where pl = pl and b = "buf pl"] by simp
  then show ?thesis by (metis proxyLogger.select_convs(2) proxyLogger.surjective proxyLogger.update_convs(2))
qed

lemma fold_logLine_upd_buf: "fold (logLine lib) raws (pl\<lparr>buf := b\<rparr>) = (fold (logLine lib) raws pl)\<lparr>buf := b\<rparr>"
  by (induction raws arbitrary: pl) (simp_all add: logLine_upd_buf)

lemma fold_logLine_buf [simp]: "buf (fold (logLine lib) raws pl) = buf pl"
  by (induction raws arbitrary: pl) simp_all

text \<open>With short lines the limit never applies.\<close>

lemma line_size_short:
  assumes "short_lines (buf pl)"
  shows "line_size pl = (case index_rune (CHR 0x0A) (buf pl) of None \<Rightarrow> 0 | Some i \<Rightarrow> i + 1)"
proof -
  have "\<exists>i < MaxScanTokenSize. index_rune (CHR 0x0A) (buf pl) = Some i" if "MaxScanTokenSize \<le> length (buf pl)"
  proof -
    from short_linesD [OF assms, of 0] that have nl: "CHR 0x0A \<in> set (take MaxScanTokenSize (buf pl))" by simp
    then have "CHR 0x0A \<in> set (buf pl)" by (rule in_set_takeD)
    then obtain i where i: "index_rune (CHR 0x0A) (buf pl) = Some i" by (cases "index_rune (CHR 0x0A) (buf pl)") auto
    with nl have "\<not> MaxScanTokenSize \<le> i"
      by (auto simp: index_rune_Some dest: set_take_subset_set_take [THEN subsetD])
    with i show ?thesis by auto
  qed
  then show ?thesis by (auto simp: line_size_def Let_def simp del: index_rune_None split: option.splits)
qed

lemma index_rune_append_Some: "index_rune c s = Some i \<Longrightarrow> index_rune c (s @ p) = Some i"
  by (auto simp: index_rune_Some nth_append)

lemma write_loop_append:
  assumes "short_lines (buf pl @ p)"
  shows "write_loop lib ((write_loop lib pl)\<lparr>buf := buf (write_loop lib pl) @ p\<rparr>) = write_loop lib (pl\<lparr>buf := buf pl @ p\<rparr>)"
  using assms
proof (induction lib pl rule: write_loop.induct)
  case (1 lib pl)
  show ?case
  proof (cases "index_rune (CHR 0x0A) (buf pl)")
    case None
    with line_size_short [OF short_lines_prefix [OF 1(2)]] have "write_loop lib pl = pl"
      by (simp add: write_loop.simps [of lib pl])
    then show ?thesis by simp
  next
    case (Some i)
    let ?pl = "(logLine lib (take (i + 1) (buf pl)) pl)\<lparr>buf := drop (i + 1) (buf pl)\<rparr>"
    from Some have ne: "buf pl \<noteq> []" "i + 1 \<le> length (buf pl)" by (auto simp: index_rune_Some)
    have size: "line_size pl = i + 1" using line_size_short [OF short_lines_prefix [OF 1(2)]] Some by simp
    have step: "write_loop lib pl = write_loop lib ?pl"
      using ne size by (simp add: write_loop.simps [of lib pl])
    have "line_size (pl\<lparr>buf := buf pl @ p\<rparr>) = i + 1"
      using line_size_short [of "pl\<lparr>buf := buf pl @ p\<rparr>"] 1(2) index_rune_append_Some [OF Some] by simp
    with ne have long: "write_loop lib (pl\<lparr>buf := buf pl @ p\<rparr>) = write_loop lib (?pl\<lparr>buf := buf ?pl @ p\<rparr>)"
      by (simp add: write_loop.simps [of lib "pl\<lparr>buf := buf pl @ p\<rparr>"] logLine_upd_buf)
    have "short_lines (buf ?pl @ p)" using short_lines_drop [OF 1(2), of "i + 1"] ne by simp
    then show ?thesis using 1(1) [OF ne(1) refl] size unfolding step long by simp
  qed
qed

lemma fold_Write:
  assumes "buf pl = []" and "short_lines (concat chunks)"
  shows "fold (pl_Write lib) chunks pl = write_loop lib (pl\<lparr>buf := concat chunks\<rparr>)"
  using assms(2)
proof (induction chunks rule: rev_induct)
  case Nil
  show ?case using assms(1) by (simp add: write_loop.simps)
next
  case (snoc p chunks)
  from snoc.prems have short: "short_lines (concat chunks @ p)" by simp
  with snoc.IH short_lines_prefix have "fold (pl_Write lib) chunks pl = write_loop lib (pl\<lparr>buf := concat chunks\<rparr>)" by blast
  then show ?case using write_loop_append [of "pl\<lparr>buf := concat chunks\<rparr>" p lib] short by (simp add: pl_Write_def [of lib p])
qed

lemma flush_write_loop:
  assumes "short_lines (buf pl)"
  shows "flush lib (write_loop lib pl) = flush_json ((fold (logLine lib) (records (buf pl)) pl)\<lparr>buf := []\<rparr>)"
  using assms
proof (induction lib pl rule: write_loop.induct)
  case (1 lib pl)
  show ?case
  proof (cases "buf pl = [] \<or> index_rune (CHR 0x0A) (buf pl) = None")
    case True
    with line_size_short [OF 1(2)] have "buf pl = [] \<or> line_size pl = 0" by (auto simp del: index_rune_None)
    then have stop: "write_loop lib pl = pl" by (auto simp: write_loop.simps [of lib pl])
    show ?thesis
    proof (cases "buf pl = []")
      case True
      then have "pl\<lparr>buf := []\<rparr> = pl" by simp
      then have "(fold (logLine lib) (records (buf pl)) pl)\<lparr>buf := []\<rparr> = pl"
        using True by (simp add: records.simps [of "[]"])
      then show ?thesis unfolding stop using True by (simp add: flush_def flush_json_def)
    next
      case False
      with \<open>buf pl = [] \<or> index_rune (CHR 0x0A) (buf pl) = None\<close> have "records (buf pl) = [buf pl]"
        by (simp add: records.simps [of "buf pl"] del: index_rune_None)
      with False show ?thesis unfolding stop by (simp add: flush_def flush_json_def Let_def)
    qed
  next
    case False
    then obtain i where ne: "buf pl \<noteq> []" and i: "index_rune (CHR 0x0A) (buf pl) = Some i" by blast
    let ?pl = "(logLine lib (take (i + 1) (buf pl)) pl)\<lparr>buf := drop (i + 1) (buf pl)\<rparr>"
    have size: "line_size pl = i + 1" using line_size_short [OF 1(2)] i by simp
    have "write_loop lib pl = write_loop lib ?pl" using ne size by (simp add: write_loop.simps [of lib pl])
    moreover have "flush lib (write_loop lib ?pl) = flush_json ((fold (logLine lib) (records (buf ?pl)) ?pl)\<lparr>buf := []\<rparr>)"
      using 1(1) [OF ne refl] size short_lines_drop [OF 1(2), of "i + 1"] by simp
    ultimately show ?thesis using ne i by (simp add: records.simps [of "buf pl"] fold_logLine_upd_buf)
  qed
qed

lemma stream_log_chunks:
  assumes "short_lines (concat chunks)"
  shows "logged (flush lib (fold (pl_Write lib) chunks (newProxyLogger proxy))) = stream_log lib proxy (concat chunks)"
proof -
  let ?pl = "(newProxyLogger proxy)\<lparr>buf := concat chunks\<rparr>"
  have new: "buf (newProxyLogger proxy) = []" "(newProxyLogger proxy)\<lparr>buf := []\<rparr> = newProxyLogger proxy"
    by (simp_all add: newProxyLogger_def)
  have "flush lib (fold (pl_Write lib) chunks (newProxyLogger proxy)) =
      flush_json ((fold (logLine lib) (records (concat chunks)) ?pl)\<lparr>buf := []\<rparr>)"
    using flush_write_loop [of ?pl lib] assms by (simp add: fold_Write [OF new(1) assms])
  also have "\<dots> = flush_json (fold (logLine lib) (records (concat chunks)) (newProxyLogger proxy))"
    by (simp add: fold_logLine_upd_buf [symmetric] new(2))
  finally show ?thesis by (simp add: stream_log_def)
qed

text \<open>The two proxies see the writes of their streams.\<close>

lemma handle_write_split:
  "fold (handle_write lib) ws os = \<lparr>out_log = fold (pl_Write lib) (map snd (List.filter (\<lambda>w. fst w = False) ws)) (out_log os),
     err_log = fold (pl_Write lib) (map snd (List.filter (\<lambda>w. fst w = True) ws)) (err_log os),
     stdErr = stdErr os @ stream_of True ws\<rparr>"
  by (induction ws arbitrary: os) (auto simp: handle_write_def stream_of_def)

lemma concat_records: "concat (records s) = s"
proof (induction s rule: records.induct)
  case (1 s)
  then show ?case by (cases "index_rune (CHR 0x0A) s") (auto simp: records.simps [of s] simp del: index_rune_None)
qed

text \<open>Every byte is logged or kept, once and in order, however long the lines are.\<close>

lemma write_loop_complete:
  "\<exists>raws. concat raws @ buf (write_loop lib pl) = buf pl \<and> [] \<notin> set raws \<and>
     write_loop lib pl = (fold (logLine lib) raws pl)\<lparr>buf := buf (write_loop lib pl)\<rparr>"
proof (induction lib pl rule: write_loop.induct)
  case (1 lib pl)
  let ?n = "line_size pl"
  let ?pl = "(logLine lib (take ?n (buf pl)) pl)\<lparr>buf := drop ?n (buf pl)\<rparr>"
  have [simp]: "pl\<lparr>buf := buf pl\<rparr> = pl" for pl :: proxyLogger by simp
  show ?case
  proof (cases "buf pl = [] \<or> ?n = 0")
    case True
    then have "write_loop lib pl = pl" by (auto simp: write_loop.simps [of lib pl])
    then show ?thesis by (intro exI [of _ "[]"]) simp
  next
    case False
    then have step: "write_loop lib pl = write_loop lib ?pl" by (simp add: write_loop.simps [of lib pl] Let_def)
    from 1 False obtain raws where raws: "concat raws @ buf (write_loop lib ?pl) = buf ?pl" "[] \<notin> set raws"
        "write_loop lib ?pl = (fold (logLine lib) raws ?pl)\<lparr>buf := buf (write_loop lib ?pl)\<rparr>" by blast
    from raws(3) have eq: "write_loop lib pl = (fold (logLine lib) (take ?n (buf pl) # raws) pl)\<lparr>buf := buf (write_loop lib pl)\<rparr>"
      unfolding step by (simp add: fold_logLine_upd_buf)
    have "concat (take ?n (buf pl) # raws) @ buf (write_loop lib pl) = buf pl"
      using raws(1) unfolding step by simp
    moreover have "[] \<notin> set (take ?n (buf pl) # raws)" using raws(2) False by simp
    ultimately show ?thesis using eq by blast
  qed
qed

section \<open>Properties\<close>

text \<open>
  C23. Whatever the pieces in which a hook writes its output and however its two streams are interleaved, as long as no line is longer
  than 64 KiB, the log gets exactly what the lines of each stream give one after the other: each line as text or as a JSON entry, JSON
  records that span several lines as one entry, an unfinished last record as text. A failed hook gives an error with everything
  it wrote to stderr, if it wrote anything, and the error of the run otherwise.
\<close>

theorem RunAndLogLines_log:
  assumes "p = ex_runner e ((ex_cmd e)\<lparr>cmd_Stdout := True, cmd_Stderr := True\<rparr>)"
    and "short_lines (stream_of False (writes p))" and "short_lines (stream_of True (writes p))"
  shows "RunAndLogLines lib e =
     (case outcome p of
        Inr usage \<Rightarrow> Inr usage
      | Inl err \<Rightarrow> Inl (if stream_of True (writes p) \<noteq> [] then StderrError (stream_of True (writes p)) else RunError err),
      stream_log lib (ex_logProxyHookJSON e) (stream_of False (writes p)),
      stream_log lib (ex_logProxyHookJSON e) (stream_of True (writes p)))"
proof -
  have "logged (flush lib (fold (pl_Write lib) (map snd (List.filter (\<lambda>w. fst w = b) (writes p))) (newProxyLogger proxy))) =
      stream_log lib proxy (stream_of b (writes p))" for b proxy
    using assms(2,3) stream_log_chunks [of "map snd (List.filter (\<lambda>w. fst w = b) (writes p))" lib proxy]
    by (cases b) (simp_all only: stream_of_def)
  note log = this [of False] this [of True]
  show ?thesis
    unfolding RunAndLogLines_def Let_def assms(1) [symmetric] handle_write_split outputs.select_convs log append_Nil
    by (rule refl)
qed

definition demo_log_lib :: log_lib where
  "demo_log_lib = \<lparr>json_Unmarshal = (\<lambda>s. if prefix ''{'' s \<and> CHR ''}'' \<in> set s then Inr (JObj [(''msg'', JStr ''hi''), (''a'', JNull)]) else Inl ErrJSON),
     decoder_incomplete = (\<lambda>s. prefix ''{'' s \<and> CHR ''}'' \<notin> set s), json_Marshal = (\<lambda>_. ''{}''), LogLevelFromStr = (\<lambda>_. 4)\<rparr>"

definition demo_run :: Runner where
  "demo_run cmd = \<lparr>writes = [(False, ''he''), (True, ''{''), (False, ''llo'' @ [CHR 0x0A] @ ''wor''), (True, [CHR 0x0A] @ ''}''), (False, ''ld'')],
     outcome = Inl ''exit status 1''\<rparr>"

definition demo_executor :: Executor where
  "demo_executor = NewExecutor id demo_run ''/hooks'' ''/hooks/a.sh'' [] []"

lemma demo_streams:
  "stream_log demo_log_lib False (''hello'' @ [CHR 0x0A] @ ''world'') = [InfoLine ''hello'', InfoLine ''world'']"
  "stream_log demo_log_lib False (''{'' @ [CHR 0x0A] @ ''}'') = [HookLine 0 ''hi'' [(''hook_a'', JNull)]]"
proof -
  have trim: "TrimSpace (''hello'' @ [CHR 0x0A]) = ''hello''" "TrimSpace ''hello'' = ''hello''" "TrimSpace ''world'' = ''world''"
      "TrimSpace (''{'' @ [CHR 0x0A]) = ''{''" "TrimSpace ''}'' = ''}''" by code_simp+
  have recs: "records (''hello'' @ [CHR 0x0A] @ ''world'') = [''hello'' @ [CHR 0x0A], ''world'']"
      "records (''{'' @ [CHR 0x0A] @ ''}'') = [''{'' @ [CHR 0x0A], ''}'']"
    by ((subst records.simps, simp)+)
  note eval = stream_log_def recs trim [simplified] logLine_def tryLogJSON_def logText_def mergeAndLogInputLog_def emit_def
    newProxyLogger_def demo_log_lib_def flush_json_def json_start_def
  show "stream_log demo_log_lib False (''hello'' @ [CHR 0x0A] @ ''world'') = [InfoLine ''hello'', InfoLine ''world'']"
    by (simp add: eval del: append.simps) (simp add: eval)
  show "stream_log demo_log_lib False (''{'' @ [CHR 0x0A] @ ''}'') = [HookLine 0 ''hi'' [(''hook_a'', JNull)]]"
    by (simp add: eval del: append.simps) (simp add: eval)
qed

theorem RunAndLogLines_log_witness:
  "RunAndLogLines demo_log_lib demo_executor =
     (Inl (StderrError (''{'' @ [CHR 0x0A] @ ''}'')), [InfoLine ''hello'', InfoLine ''world''], [HookLine 0 ''hi'' [(''hook_a'', JNull)]])"
proof -
  let ?p = "ex_runner demo_executor ((ex_cmd demo_executor)\<lparr>cmd_Stdout := True, cmd_Stderr := True\<rparr>)"
  have "stream_of False (writes ?p) = ''hello'' @ [CHR 0x0A] @ ''world''" "stream_of True (writes ?p) = ''{'' @ [CHR 0x0A] @ ''}''"
      "outcome ?p = Inl ''exit status 1''" "\<not> ex_logProxyHookJSON demo_executor"
    by (simp_all add: stream_of_def demo_run_def demo_executor_def NewExecutor_def)
  moreover from this(1,2) have "short_lines (stream_of False (writes ?p))" "short_lines (stream_of True (writes ?p))"
    by (simp_all add: short_lines_iff MaxScanTokenSize_def)
  moreover note demo_streams
  ultimately show ?thesis using RunAndLogLines_log [OF refl, where e = demo_executor and lib = demo_log_lib] by simp
qed

text \<open>
  While no pid is used again between the end of \<open>Wait\<close> and \<open>unregisterPID\<close>, the registry holds exactly the pids of the calls under way.
\<close>

primrec phase_pid :: "phase \<Rightarrow> int" where
  "phase_pid (Waiting pid) = pid"
| "phase_pid (Reaped pid) = pid"

definition call_pid :: "exec_state \<Rightarrow> nat \<rightharpoonup> int" where
  "call_pid s = (\<lambda>c. map_option phase_pid (calls s c))"

definition reg_inv :: "exec_state \<Rightarrow> bool" where
  "reg_inv s \<longleftrightarrow> registry s = ran (call_pid s) \<and> inj_on (call_pid s) (dom (call_pid s))"

lemma call_pid_upd:
  "call_pid (s\<lparr>registry := r, calls := (calls s)(c := x)\<rparr>) = (call_pid s)(c := map_option phase_pid x)"
  "call_pid (s\<lparr>calls := (calls s)(c := x)\<rparr>) = (call_pid s)(c := map_option phase_pid x)"
  "call_pid (s\<lparr>registry := r\<rparr>) = call_pid s"
  by (auto simp: call_pid_def fun_eq_iff)

lemma ran_call_pid: "pid \<in> ran (call_pid s) \<longleftrightarrow> Waiting pid \<in> ran (calls s) \<or> Reaped pid \<in> ran (calls s)"
  proof -
  have "phase_pid z = pid \<longleftrightarrow> z = Waiting pid \<or> z = Reaped pid" for z by (cases z) auto
  then show ?thesis by (auto simp: ran_def call_pid_def)
qed

lemma exec_step_inv:
  assumes "exec_step False s s'" and "reg_inv s" shows "reg_inv s'"
  using assms(1)
proof cases
  case (started c pid r)
  then have new: "call_pid s c = None" "pid \<notin> ran (call_pid s)" by (auto simp: ran_call_pid) (simp add: call_pid_def)
  then have "inj_on ((call_pid s)(c \<mapsto> pid)) (insert c (dom (call_pid s)))"
    using assms(2) by (auto simp: reg_inv_def inj_on_def ran_def)
  with started new assms(2) show ?thesis by (simp add: reg_inv_def startAndRegister_def call_pid_upd)
next
  case (start_failed c err r)
  with assms(2) show ?thesis by (simp add: reg_inv_def startAndRegister_def call_pid_upd)
next
  case (waited c pid)
  then have "(call_pid s)(c \<mapsto> pid) = call_pid s" by (auto simp: call_pid_def)
  with waited assms(2) show ?thesis by (simp add: reg_inv_def call_pid_upd)
next
  case (finished c pid)
  then have c: "call_pid s c = Some pid" by (simp add: call_pid_def)
  with assms(2) have "ran ((call_pid s)(c := None)) = ran (call_pid s) - {pid}"
    by (auto simp: reg_inv_def ran_def inj_on_def dom_def) (metis option.inject)
  moreover have "inj_on ((call_pid s)(c := None)) (dom (call_pid s) - {c})"
    using assms(2) by (auto simp: reg_inv_def inj_on_def)
  ultimately show ?thesis using finished assms(2) by (simp add: reg_inv_def unregister_def call_pid_upd)
qed

lemma registry_tracks_children:
  assumes "(exec_step False)\<^sup>*\<^sup>* idle s" and "calls s c = Some (Waiting pid)" shows "IsActive pid (registry s)"
proof -
  have "reg_inv s" using assms(1)
  proof (induction rule: rtranclp_induct)
    case base
    show ?case by (simp add: reg_inv_def idle_def call_pid_def)
  qed (rule exec_step_inv)
  with assms(2) show ?thesis by (auto simp: reg_inv_def IsActive_def ran_call_pid intro: ranI)
qed

text \<open>When the pid is used again in between, a child runs that is not registered.\<close>

lemma registry_loses_child:
  "\<exists>s. (exec_step True)\<^sup>*\<^sup>* idle s \<and> calls s 1 = Some (Waiting 7) \<and> \<not> IsActive 7 (registry s)"
proof -
  let ?s1 = "\<lparr>registry = {7}, calls = [0 \<mapsto> Waiting 7]\<rparr>" and ?s2 = "\<lparr>registry = {7}, calls = [0 \<mapsto> Reaped 7]\<rparr>"
    and ?s3 = "\<lparr>registry = {7}, calls = [0 \<mapsto> Reaped 7, 1 \<mapsto> Waiting 7]\<rparr>" and ?s4 = "\<lparr>registry = {}, calls = [1 \<mapsto> Waiting 7]\<rparr>"
  have "exec_step True idle ?s1" using exec_step.started [of idle 0 7 True "{7}"] by (simp add: idle_def startAndRegister_def)
  moreover have "exec_step True ?s1 ?s2" using exec_step.waited [of ?s1 0 7 True] by simp
  moreover have "exec_step True ?s2 ?s3" using exec_step.started [of ?s2 1 7 True "{7}"] by (simp add: startAndRegister_def)
  moreover have "exec_step True ?s3 ?s4" using exec_step.finished [of ?s3 0 7 True] by (simp add: unregister_def fun_upd_twist)
  ultimately have "(exec_step True)\<^sup>*\<^sup>* idle ?s4" by (meson converse_rtranclp_into_rtranclp r_into_rtranclp)
  then show ?thesis by (intro exI [of _ ?s4]) (simp add: IsActive_def)
qed

end
