(* ===== verification/Metric_Collector.thy ===== *)
theory Metric_Collector
  imports Go_Maps Task_Model
begin

text \<open>
  \<open>pkg/metric/collector.go\<close>: collectors of grouped metrics, a counter with 64-bit values and a gauge, whose
  metrics are stored by the hash of their label values. Both collectors are one record over the type of the values.
  The conversion of floats to counter values is an argument (Go leaves it open outside the range of \<open>uint64\<close>);
  gauge values are of any type. \<open>hash/fnv\<close> is the 64-bit FNV-1a. A panic is \<open>None\<close>. The mutex is the atomicity of
  the operations; the slice of label names is taken not to be shared with the caller.
\<close>

unbundle bit_operations_syntax

record 'v GroupedMetric =
  gm_Value :: 'v
  gm_LabelValues :: "string list"
  gm_Group :: string

record 'v ConstCollector =
  collection :: "(64 word \<times> 'v GroupedMetric) list"
  coll_name :: string
  labelNames :: "string list"
  desc_labels :: "string list" \<comment> \<open>the label names of the description\<close>

section \<open>The hash\<close>

definition fnv_byte :: "char \<Rightarrow> 64 word \<Rightarrow> 64 word" where
  "fnv_byte b h = (h XOR of_char b) * 1099511628211"

definition labelsSeparator :: char where
  "labelsSeparator = CHR 0xFF"

definition HashLabelValues :: "string list \<Rightarrow> 64 word" where
  "HashLabelValues labelValues =
     fold (\<lambda>v h. fnv_byte labelsSeparator (fold fnv_byte v h)) labelValues 14695981039346656037"

section \<open>Operations\<close>

definition NewConstCollector :: "string \<Rightarrow> string list \<Rightarrow> 'v ConstCollector" where
  "NewConstCollector name names = \<lparr>collection = [], coll_name = name, labelNames = names, desc_labels = names\<rparr>"

definition counter_add :: "('f \<Rightarrow> 64 word) \<Rightarrow> string \<Rightarrow> 'f \<Rightarrow> labels \<Rightarrow> 64 word ConstCollector \<Rightarrow> 64 word ConstCollector" where
  "counter_add uint64 grp val ls c =
     (let labelValues = LabelValues ls (labelNames c);
          labelsHash = HashLabelValues labelValues;
          storedMetric = (case map_of (collection c) labelsHash of
              None \<Rightarrow> \<lparr>gm_Value = uint64 val, gm_LabelValues = labelValues, gm_Group = grp\<rparr>
            | Some m \<Rightarrow> m\<lparr>gm_Value := gm_Value m + uint64 val\<rparr>)
      in c\<lparr>collection := AList.update labelsHash storedMetric (collection c)\<rparr>)"

definition gauge_Set :: "string \<Rightarrow> 'v \<Rightarrow> labels \<Rightarrow> 'v ConstCollector \<Rightarrow> 'v ConstCollector" where
  "gauge_Set grp val ls c =
     (let labelValues = LabelValues ls (labelNames c);
          labelsHash = HashLabelValues labelValues;
          storedMetric = (case map_of (collection c) labelsHash of
              None \<Rightarrow> \<lparr>gm_Value = val, gm_LabelValues = labelValues, gm_Group = grp\<rparr>
            | Some m \<Rightarrow> m);
          storedMetric = storedMetric\<lparr>gm_Value := val\<rparr>
      in c\<lparr>collection := AList.update labelsHash storedMetric (collection c)\<rparr>)"

text \<open>What \<open>Collect\<close> sends: the value and the label values of each metric, under the description.\<close>

definition Collect_metrics :: "iteration \<Rightarrow> 'v ConstCollector \<Rightarrow> ('v \<times> string list) list" where
  "Collect_metrics perm c = map (\<lambda>(_, m). (gm_Value m, gm_LabelValues m)) (go_range perm [] (collection c))"

definition ExpireGroupMetrics :: "string \<Rightarrow> 'v ConstCollector \<Rightarrow> 'v ConstCollector" where
  "ExpireGroupMetrics grp c = c\<lparr>collection := List.filter (\<lambda>(_, m). gm_Group m \<noteq> grp) (collection c)\<rparr>"

text \<open>The last position of a name in the list of names.\<close>

definition label_index :: "string list \<Rightarrow> string \<rightharpoonup> nat" where
  "label_index names = fold (\<lambda>(i, l) m. m(l \<mapsto> i)) (List.enumerate 0 names) Map.empty"

fun new_values :: "(string \<rightharpoonup> nat) \<Rightarrow> string list \<Rightarrow> string list \<Rightarrow> string list option" where
  "new_values previous old [] = Some []"
| "new_values previous old (n # ns) = do {
     v \<leftarrow> (case previous n of
            None \<Rightarrow> Some []
          | Some i \<Rightarrow> if i < length old then Some (old ! i) else None);
     vs \<leftarrow> new_values previous old ns;
     Some (v # vs)
   }"

fun new_collection :: "(string \<rightharpoonup> nat) \<Rightarrow> string list \<Rightarrow> (64 word \<times> 'v GroupedMetric) list
    \<Rightarrow> (64 word \<times> 'v GroupedMetric) list \<Rightarrow> (64 word \<times> 'v GroupedMetric) list option" where
  "new_collection previous names [] acc = Some acc"
| "new_collection previous names ((h, m) # ms) acc =
     (if length (gm_LabelValues m) \<noteq> length names then do {
        vs \<leftarrow> new_values previous (gm_LabelValues m) names;
        new_collection previous names ms (AList.update (HashLabelValues vs) (m\<lparr>gm_LabelValues := vs\<rparr>) acc)
      }
      else new_collection previous names ms (AList.update h m acc))"

definition UpdateLabels :: "iteration \<Rightarrow> string list \<Rightarrow> 'v ConstCollector \<Rightarrow> 'v ConstCollector option" where
  "UpdateLabels perm ls c =
     (let previous = label_index (labelNames c);
          added = List.filter (\<lambda>l. previous l = None) ls;
          mustUpdate = (added \<noteq> []);
          names = sort (labelNames c @ added);
          c' = c\<lparr>labelNames := names\<rparr>
      in if mustUpdate then do {
           newColl \<leftarrow> new_collection previous names (go_range perm [] (collection c)) [];
           Some (c'\<lparr>collection := newColl, desc_labels := names\<rparr>)
         }
         else Some c')"

section \<open>The abstract collector\<close>

text \<open>
  A metric is identified by what it assigns to the labels, where a missing label and an empty one are the same. The abstract
  state has the set of label names and, for each assignment, the grp and the value.
\<close>

type_synonym 'v metrics = "string set \<times> ((string \<Rightarrow> string) \<rightharpoonup> string \<times> 'v)"

definition assignment :: "string set \<Rightarrow> labels \<Rightarrow> string \<Rightarrow> string" where
  "assignment names ls n = (if n \<in> names then (case ls n of Some v \<Rightarrow> v | None \<Rightarrow> []) else [])"

definition stored :: "'v ConstCollector \<Rightarrow> (string \<Rightarrow> string) \<rightharpoonup> string \<times> 'v" where
  "stored c f =
     (if \<forall>n. n \<notin> set (labelNames c) \<longrightarrow> f n = [] then
        (case map_of (collection c) (HashLabelValues (map f (labelNames c))) of
           None \<Rightarrow> None
         | Some m \<Rightarrow> if gm_LabelValues m = map f (labelNames c) then Some (gm_Group m, gm_Value m) else None)
      else None)"

definition metrics_of :: "'v ConstCollector \<Rightarrow> 'v metrics" where
  "metrics_of c = (set (labelNames c), stored c)"

datatype 'f coll_op = OpAdd string 'f labels | OpExpire string | OpUpdateLabels "string list"

fun spec_op :: "('f \<Rightarrow> 'v option \<Rightarrow> 'v) \<Rightarrow> 'f coll_op \<Rightarrow> 'v metrics \<Rightarrow> 'v metrics" where
  "spec_op put (OpAdd grp val ls) (names, ms) =
     (let f = assignment names ls in
      (names, ms(f \<mapsto> (case ms f of None \<Rightarrow> (grp, put val None) | Some (g, v) \<Rightarrow> (g, put val (Some v))))))"
| "spec_op put (OpExpire grp) (names, ms) =
     (names, \<lambda>f. case ms f of None \<Rightarrow> None | Some (g, v) \<Rightarrow> if g = grp then None else Some (g, v))"
| "spec_op put (OpUpdateLabels ls) (names, ms) = (names \<union> set ls, ms)"

fun counter_op :: "iteration \<Rightarrow> ('f \<Rightarrow> 64 word) \<Rightarrow> 'f coll_op \<Rightarrow> 64 word ConstCollector \<Rightarrow> 64 word ConstCollector option" where
  "counter_op perm uint64 (OpAdd grp val ls) c = Some (counter_add uint64 grp val ls c)"
| "counter_op perm uint64 (OpExpire grp) c = Some (ExpireGroupMetrics grp c)"
| "counter_op perm uint64 (OpUpdateLabels ls) c = UpdateLabels perm ls c"

fun gauge_op :: "iteration \<Rightarrow> 'v coll_op \<Rightarrow> 'v ConstCollector \<Rightarrow> 'v ConstCollector option" where
  "gauge_op perm (OpAdd grp val ls) c = Some (gauge_Set grp val ls c)"
| "gauge_op perm (OpExpire grp) c = Some (ExpireGroupMetrics grp c)"
| "gauge_op perm (OpUpdateLabels ls) c = UpdateLabels perm ls c"

text \<open>No two metrics that meet in the collection have the same hash.\<close>

fun no_collision :: "'f coll_op \<Rightarrow> 'v ConstCollector \<Rightarrow> bool" where
  "no_collision (OpAdd grp val ls) c =
     list_all (\<lambda>(h, m). h = HashLabelValues (LabelValues ls (labelNames c)) \<longrightarrow>
       gm_LabelValues m = LabelValues ls (labelNames c)) (collection c)"
| "no_collision (OpExpire grp) c = True"
| "no_collision (OpUpdateLabels ls) c =
     (distinct ls \<and>
      distinct (map (\<lambda>(_, m). map_option HashLabelValues (new_values (label_index (labelNames c)) (gm_LabelValues m)
        (sort (labelNames c @ List.filter (\<lambda>l. l \<notin> set (labelNames c)) ls)))) (collection c)))"

fun run_ops :: "('f coll_op \<Rightarrow> 'v ConstCollector \<Rightarrow> 'v ConstCollector option) \<Rightarrow> 'f coll_op list \<Rightarrow> 'v ConstCollector
    \<Rightarrow> 'v ConstCollector option" where
  "run_ops step [] c = Some c"
| "run_ops step (op # ops) c = do { c \<leftarrow> step op c; run_ops step ops c }"

fun collision_free :: "('f coll_op \<Rightarrow> 'v ConstCollector \<Rightarrow> 'v ConstCollector option) \<Rightarrow> 'f coll_op list \<Rightarrow> 'v ConstCollector \<Rightarrow> bool" where
  "collision_free step [] c = True"
| "collision_free step (op # ops) c =
     (no_collision op c \<and> (case step op c of None \<Rightarrow> True | Some c' \<Rightarrow> collision_free step ops c'))"

definition coll_inv :: "'v ConstCollector \<Rightarrow> bool" where
  "coll_inv c \<longleftrightarrow> distinct (labelNames c) \<and> sorted (labelNames c) \<and> distinct (map_keys (collection c)) \<and>
     (\<forall>(h, m) \<in> set (collection c). h = HashLabelValues (gm_LabelValues m) \<and> length (gm_LabelValues m) = length (labelNames c))"

section \<open>Lemmas\<close>

lemma option_fun_eqI:
  assumes "\<And>x y. f x = Some y \<longleftrightarrow> g x = Some y" shows "f = g"
proof
  fix x
  show "f x = g x"
  proof (cases "f x")
    case None
    then have "g x \<noteq> Some y" for y using assms [of x y] by simp
    with None show ?thesis by (metis option.exhaust)
  next
    case (Some y)
    with assms [of x y] show ?thesis by simp
  qed
qed

lemma label_index_Nil: "label_index [] = Map.empty"
  by (simp add: label_index_def)

lemma label_index_snoc: "label_index (ns @ [n]) = (label_index ns)(n \<mapsto> length ns)"
  by (simp add: label_index_def enumerate_append_eq)

lemma label_index_None [simp]: "label_index ns n = None \<longleftrightarrow> n \<notin> set ns"
  by (induction ns rule: rev_induct) (auto simp: label_index_snoc label_index_Nil)

lemma label_index_Some: "label_index ns n = Some i \<Longrightarrow> i < length ns \<and> ns ! i = n"
  by (induction ns rule: rev_induct) (auto simp: label_index_snoc nth_append label_index_Nil split: if_splits)

text \<open>The values of a metric after its labels were extended: the assignment stays the same.\<close>

definition value_of :: "string list \<Rightarrow> string list \<Rightarrow> string \<Rightarrow> string" where
  "value_of names vs n = (case label_index names n of None \<Rightarrow> [] | Some i \<Rightarrow> vs ! i)"

lemma new_values_eq:
  "length old = length names \<Longrightarrow> new_values (label_index names) old ns = Some (map (value_of names old) ns)"
  by (induction ns) (auto simp: value_of_def dest: label_index_Some split: option.splits)

lemma map_value_of: "distinct names \<Longrightarrow> length vs = length names \<Longrightarrow> map (value_of names vs) names = vs"
proof (induction names arbitrary: vs rule: rev_induct)
  case (snoc n names)
  then obtain ws w where vs: "vs = ws @ [w]" "length ws = length names" by (cases vs rule: rev_cases) auto
  with snoc have "map (value_of names ws) names = ws" by simp
  moreover have "value_of (names @ [n]) (ws @ [w]) m = value_of names ws m" if "m \<in> set names" for m
    using that snoc.prems(1) vs(2) by (auto simp: value_of_def label_index_snoc nth_append dest: label_index_Some split: option.splits)
  moreover have "value_of (names @ [n]) (ws @ [w]) n = w" using vs(2) by (simp add: value_of_def label_index_snoc nth_append)
  ultimately show ?case using vs snoc.prems(1) by (simp cong: map_cong)
qed simp

lemma value_of_outside [simp]: "n \<notin> set names \<Longrightarrow> value_of names vs n = []"
  by (simp add: value_of_def label_index_None [THEN iffD2] split: option.splits)

lemma value_of_map:
  assumes "distinct names" and "\<And>n. n \<notin> set names \<Longrightarrow> f n = []" shows "value_of names (map f names) = f"
proof
  fix n
  show "value_of names (map f names) n = f n"
  proof (cases "n \<in> set names")
    case True
    then obtain i where "label_index names n = Some i" by (cases "label_index names n") auto
    then show ?thesis using label_index_Some by (fastforce simp: value_of_def)
  qed (simp add: assms(2))
qed

lemma coll_invD:
  assumes "coll_inv c"
  shows "distinct (labelNames c)" and "sorted (labelNames c)" and "distinct (map_keys (collection c))"
    and "(h, m) \<in> set (collection c) \<Longrightarrow> h = HashLabelValues (gm_LabelValues m) \<and> length (gm_LabelValues m) = length (labelNames c)"
  using assms unfolding coll_inv_def by auto

lemma stored_iff:
  assumes "coll_inv c"
  shows "stored c f = Some p \<longleftrightarrow>
     (\<exists>h m. (h, m) \<in> set (collection c) \<and> value_of (labelNames c) (gm_LabelValues m) = f \<and> p = (gm_Group m, gm_Value m))"
proof
  assume "stored c f = Some p"
  then obtain m where m: "\<And>n. n \<notin> set (labelNames c) \<Longrightarrow> f n = []" "map_of (collection c) (HashLabelValues (map f (labelNames c))) = Some m"
      "gm_LabelValues m = map f (labelNames c)" "p = (gm_Group m, gm_Value m)"
    by (auto simp: stored_def split: if_splits option.splits)
  have "value_of (labelNames c) (map f (labelNames c)) = f" by (rule value_of_map [OF coll_invD(1) [OF assms] m(1)])
  with map_of_SomeD [OF m(2)] m(3,4) show "\<exists>h m. (h, m) \<in> set (collection c) \<and> value_of (labelNames c) (gm_LabelValues m) = f \<and> p = (gm_Group m, gm_Value m)" by (metis (no_types))
next
  assume "\<exists>h m. (h, m) \<in> set (collection c) \<and> value_of (labelNames c) (gm_LabelValues m) = f \<and> p = (gm_Group m, gm_Value m)"
  then obtain h m where m: "(h, m) \<in> set (collection c)" "f = value_of (labelNames c) (gm_LabelValues m)" "p = (gm_Group m, gm_Value m)" by auto
  with coll_invD [OF assms] have "map f (labelNames c) = gm_LabelValues m" "map_of (collection c) (HashLabelValues (gm_LabelValues m)) = Some m"
    by (auto simp: map_value_of map_keys_def)
  with m show "stored c f = Some p" by (simp add: stored_def)
qed

lemma LabelValues_assignment: "LabelValues ls names = map (assignment (set names) ls) names"
  by (simp add: LabelValues_def assignment_def)

text \<open>A metric is written under its hash: one assignment changes.\<close>

lemma stored_update:
  assumes "no_collision (OpAdd grp val ls) c" and "gm_LabelValues m = LabelValues ls (labelNames c)"
  shows "stored (c\<lparr>collection := AList.update (HashLabelValues (gm_LabelValues m)) m (collection c)\<rparr>) =
     (stored c)(assignment (set (labelNames c)) ls \<mapsto> (gm_Group m, gm_Value m))"
proof
  fix f
  let ?f = "assignment (set (labelNames c)) ls"
  have out: "?f n = []" if "n \<notin> set (labelNames c)" for n using that by (simp add: assignment_def)
  have same: "f = ?f" if "map f (labelNames c) = map ?f (labelNames c)" "\<forall>n. n \<notin> set (labelNames c) \<longrightarrow> f n = []"
    using that out by (metis ext map_eq_conv)
  have clash: "gm_LabelValues m' = gm_LabelValues m" if "map_of (collection c) (HashLabelValues (gm_LabelValues m)) = Some m'" for m'
    using assms map_of_SomeD [OF that] by (auto simp: list_all_iff)
  show "stored (c\<lparr>collection := AList.update (HashLabelValues (gm_LabelValues m)) m (collection c)\<rparr>) f =
     ((stored c)(?f \<mapsto> (gm_Group m, gm_Value m))) f"
  proof (cases "f = ?f")
    case True
    then show ?thesis using assms(2) out by (simp add: stored_def update_conv' LabelValues_assignment)
  next
    case False
    show ?thesis
    proof (cases "(\<forall>n. n \<notin> set (labelNames c) \<longrightarrow> f n = []) \<and> HashLabelValues (map f (labelNames c)) = HashLabelValues (gm_LabelValues m)")
      case True
      with False same assms(2) have "gm_LabelValues m \<noteq> map f (labelNames c)" by (auto simp: LabelValues_assignment)
      with True False clash show ?thesis by (auto simp: stored_def update_conv' split: option.splits)
    next
      case noclash: False
      with False show ?thesis by (auto simp: stored_def update_conv' split: option.splits)
    qed
  qed
qed

lemma update_inv:
  assumes "coll_inv c" and "gm_LabelValues m = LabelValues ls (labelNames c)"
  shows "coll_inv (c\<lparr>collection := AList.update (HashLabelValues (gm_LabelValues m)) m (collection c)\<rparr>)"
  using assms by (auto simp: coll_inv_def LabelValues_def dest!: set_update_cases)

lemma fold_update_new:
  "distinct (map fst kvs) \<Longrightarrow> fst ` set kvs \<inter> fst ` set acc = {} \<Longrightarrow>
     fold (\<lambda>(k, v). AList.update k v) kvs acc = acc @ kvs"
proof (induction kvs arbitrary: acc)
  case (Cons kv kvs)
  obtain k v where kv: "kv = (k, v)" by fastforce
  with Cons.prems(2) have "AList.update k v acc = acc @ [(k, v)]" by (induction acc) auto
  with Cons kv show ?case by auto
qed simp

text \<open>An entry after its labels were extended.\<close>

definition extend_entry :: "string list \<Rightarrow> string list \<Rightarrow> 64 word \<times> 'v GroupedMetric \<Rightarrow> 64 word \<times> 'v GroupedMetric" where
  "extend_entry names names' = (\<lambda>(_, m).
     (HashLabelValues (map (value_of names (gm_LabelValues m)) names'), m\<lparr>gm_LabelValues := map (value_of names (gm_LabelValues m)) names'\<rparr>))"

lemma new_collection_fold:
  assumes "\<forall>(h, m) \<in> set ms. length (gm_LabelValues m) = length names" and "length names' \<noteq> length names"
  shows "new_collection (label_index names) names' ms acc =
     Some (fold (\<lambda>(k, v). AList.update k v) (map (extend_entry names names') ms) acc)"
  using assms(1)
proof (induction ms arbitrary: acc)
  case (Cons e ms)
  then show ?case using assms(2) by (cases e) (simp add: new_values_eq extend_entry_def)
qed simp

lemma value_of_extend:
  assumes "distinct names'" and "set names \<subseteq> set names'"
  shows "value_of names' (map (value_of names vs) names') = value_of names vs"
proof (rule value_of_map)
  show "value_of names vs n = []" if "n \<notin> set names'" for n using that assms(2) by (intro value_of_outside) blast
qed (rule assms(1))

lemma ExpireGroupMetrics_refines:
  assumes "coll_inv c"
  shows "coll_inv (ExpireGroupMetrics grp c)"
    and "metrics_of (ExpireGroupMetrics grp c) = spec_op put (OpExpire grp) (metrics_of c)"
proof -
  show inv: "coll_inv (ExpireGroupMetrics grp c)"
    using assms unfolding coll_inv_def ExpireGroupMetrics_def map_keys_def by (auto simp: distinct_map_filter)
  have "stored (ExpireGroupMetrics grp c) f = Some p \<longleftrightarrow> (stored c f = Some p \<and> fst p \<noteq> grp)" for f p
    unfolding stored_iff [OF inv] stored_iff [OF assms] by (auto simp: ExpireGroupMetrics_def; metis)
  then have "stored (ExpireGroupMetrics grp c) =
      (\<lambda>f. case stored c f of None \<Rightarrow> None | Some (g, v) \<Rightarrow> if g = grp then None else Some (g, v))"
    by (intro ext) (auto split: option.splits; metis fst_conv not_Some_eq surj_pair)
  then show "metrics_of (ExpireGroupMetrics grp c) = spec_op put (OpExpire grp) (metrics_of c)"
    by (simp add: metrics_of_def ExpireGroupMetrics_def)
qed

text \<open>What \<open>Add\<close> and \<open>Set\<close> store: a new metric, or the old one with another value.\<close>

definition put_metric :: "'v \<Rightarrow> ('v \<Rightarrow> 'v) \<Rightarrow> string \<Rightarrow> labels \<Rightarrow> 'v ConstCollector \<Rightarrow> 'v GroupedMetric" where
  "put_metric new upd grp ls c =
     (case map_of (collection c) (HashLabelValues (LabelValues ls (labelNames c))) of
        None \<Rightarrow> \<lparr>gm_Value = new, gm_LabelValues = LabelValues ls (labelNames c), gm_Group = grp\<rparr>
      | Some m \<Rightarrow> m\<lparr>gm_Value := upd (gm_Value m)\<rparr>)"

lemma counter_add_put: "counter_add uint64 grp val ls c = c\<lparr>collection := AList.update (HashLabelValues (LabelValues ls (labelNames c)))
    (put_metric (uint64 val) (\<lambda>v. v + uint64 val) grp ls c) (collection c)\<rparr>"
  by (simp add: counter_add_def put_metric_def Let_def)

lemma gauge_Set_put: "gauge_Set grp val ls c = c\<lparr>collection := AList.update (HashLabelValues (LabelValues ls (labelNames c)))
    (put_metric val (\<lambda>_. val) grp ls c) (collection c)\<rparr>"
  by (auto simp: gauge_Set_def put_metric_def Let_def split: option.splits)

lemma put_refines:
  fixes new :: 'v and upd :: "'v \<Rightarrow> 'v"
  assumes "coll_inv c" and "no_collision (OpAdd grp val ls) c"
  defines "m \<equiv> put_metric new upd grp ls c" and "f \<equiv> assignment (set (labelNames c)) ls"
  defines "c' \<equiv> c\<lparr>collection := AList.update (HashLabelValues (LabelValues ls (labelNames c))) m (collection c)\<rparr>"
  shows "coll_inv c'" and "labelNames c' = labelNames c"
    and "stored c' = (stored c)(f \<mapsto> (case stored c f of None \<Rightarrow> (grp, new) | Some (g, v) \<Rightarrow> (g, upd v)))"
proof -
  have clash: "gm_LabelValues m' = LabelValues ls (labelNames c)"
    if "map_of (collection c) (HashLabelValues (LabelValues ls (labelNames c))) = Some m'" for m'
    using assms(2) map_of_SomeD [OF that] by (auto simp: list_all_iff)
  then have lv: "gm_LabelValues m = LabelValues ls (labelNames c)" by (auto simp: m_def put_metric_def split: option.splits)
  show "coll_inv c'" using update_inv [OF assms(1) lv] by (simp add: c'_def lv)
  show "labelNames c' = labelNames c" by (simp add: c'_def)
  have "stored c f = map_option (\<lambda>m. (gm_Group m, gm_Value m)) (map_of (collection c) (HashLabelValues (LabelValues ls (labelNames c))))"
    using clash by (auto simp: stored_def f_def LabelValues_assignment assignment_def [of _ _ n for n] split: option.splits)
  then have "(case stored c f of None \<Rightarrow> (grp, new) | Some (g, v) \<Rightarrow> (g, upd v)) = (gm_Group m, gm_Value m)"
    by (auto simp: m_def put_metric_def split: option.splits)
  then show "stored c' = (stored c)(f \<mapsto> (case stored c f of None \<Rightarrow> (grp, new) | Some (g, v) \<Rightarrow> (g, upd v)))"
    using stored_update [OF assms(2) lv] by (simp add: c'_def f_def lv)
qed

context map_iteration
begin

lemma UpdateLabels_refines:
  assumes "coll_inv c" and "no_collision (OpUpdateLabels ls) c"
  shows "\<exists>c'. UpdateLabels perm ls c = Some c' \<and> coll_inv c' \<and> metrics_of c' = spec_op put (OpUpdateLabels ls) (metrics_of c)"
proof -
  note inv = coll_invD [OF assms(1)]
  define added where "added = List.filter (\<lambda>l. l \<notin> set (labelNames c)) ls"
  define names where "names = sort (labelNames c @ added)"
  have names: "distinct names" "sorted names" "set names = set (labelNames c) \<union> set ls"
    using inv(1) assms(2) by (auto simp: names_def added_def)
  show ?thesis
  proof (cases "added = []")
    case True
    then have eq: "UpdateLabels perm ls c = Some c" using inv(2)
      by (simp add: UpdateLabels_def Let_def added_def sorted_sort_id)
    have "set ls \<subseteq> set (labelNames c)" using True by (auto simp: added_def filter_empty_conv)
    with eq assms(1) show ?thesis by (auto simp: metrics_of_def)
  next
    case False
    let ?ms = "map (extend_entry (labelNames c) names) (go_range perm [] (collection c))"
    let ?c = "c\<lparr>labelNames := names, collection := ?ms, desc_labels := names\<rparr>"
    have "map (\<lambda>(_, m). map_option HashLabelValues (new_values (label_index (labelNames c)) (gm_LabelValues m) names)) (collection c) =
        map Some (map (fst \<circ> extend_entry (labelNames c) names) (collection c))"
      using inv(4) by (auto simp: new_values_eq extend_entry_def)
    moreover have "distinct (map (\<lambda>(_, m). map_option HashLabelValues (new_values (label_index (labelNames c)) (gm_LabelValues m) names)) (collection c))"
      using assms(2) by (simp only: no_collision.simps names_def added_def)
    ultimately have "distinct (map Some (map (fst \<circ> extend_entry (labelNames c) names) (collection c)))" by (simp only:)
    then have "distinct (map (fst \<circ> extend_entry (labelNames c) names) (collection c))" by (simp only: distinct_map)
    moreover have "mset (map (fst \<circ> extend_entry (labelNames c) names) (go_range perm [] (collection c))) =
        mset (map (fst \<circ> extend_entry (labelNames c) names) (collection c))" by (simp only: mset_map mset_go_range)
    ultimately have dist: "distinct (map fst ?ms)" by (metis map_map mset_eq_imp_distinct_iff)
    have len: "length names \<noteq> length (labelNames c)" using False by (simp add: names_def)
    have "new_collection (label_index (labelNames c)) names (go_range perm [] (collection c)) [] = Some ?ms"
      using new_collection_fold [of "go_range perm [] (collection c)", OF _ len] fold_update_new [OF dist, of "[]"] inv(4)
      by fastforce
    then have eq: "UpdateLabels perm ls c = Some ?c"
      using False by (simp add: UpdateLabels_def Let_def added_def [symmetric] names_def [symmetric])
    have inv': "coll_inv ?c" using dist names by (auto simp: coll_inv_def map_keys_def extend_entry_def)
    have "stored ?c f = Some p \<longleftrightarrow> stored c f = Some p" for f p
      unfolding stored_iff [OF inv'] stored_iff [OF assms(1)]
      using value_of_extend [OF names(1)] names(3) by (force simp: extend_entry_def)
    then have "stored ?c = stored c" by (rule option_fun_eqI)
    with eq inv' names(3) show ?thesis by (simp add: metrics_of_def)
  qed
qed

lemma counter_op_refines:
  assumes "coll_inv c" and "no_collision op c"
  shows "\<exists>c'. counter_op perm uint64 op c = Some c' \<and> coll_inv c' \<and>
     metrics_of c' = spec_op (\<lambda>d v. case v of None \<Rightarrow> uint64 d | Some v \<Rightarrow> v + uint64 d) op (metrics_of c)"
proof (cases op)
  case (OpAdd grp val ls)
  with assms(2) have nc: "no_collision (OpAdd grp val ls) c" by simp
  note put = put_refines [OF assms(1) nc, where new = "uint64 val" and upd = "\<lambda>v. v + uint64 val", folded counter_add_put]
  then show ?thesis unfolding OpAdd by (simp add: metrics_of_def Let_def put(2) cong: option.case_cong)
next
  case (OpExpire grp)
  then show ?thesis using ExpireGroupMetrics_refines [OF assms(1)] by simp
next
  case (OpUpdateLabels ls)
  with assms(2) have "no_collision (OpUpdateLabels ls) c" by simp
  from UpdateLabels_refines [OF assms(1) this] OpUpdateLabels show ?thesis by simp
qed

lemma gauge_op_refines:
  assumes "coll_inv c" and "no_collision op c"
  shows "\<exists>c'. gauge_op perm op c = Some c' \<and> coll_inv c' \<and> metrics_of c' = spec_op (\<lambda>d _. d) op (metrics_of c)"
proof (cases op)
  case (OpAdd grp val ls)
  with assms(2) have nc: "no_collision (OpAdd grp val ls) c" by simp
  note put = put_refines [OF assms(1) nc, where new = val and upd = "\<lambda>_. val", folded gauge_Set_put]
  then show ?thesis unfolding OpAdd by (simp add: metrics_of_def Let_def put(2) cong: option.case_cong)
next
  case (OpExpire grp)
  then show ?thesis using ExpireGroupMetrics_refines [OF assms(1)] by simp
next
  case (OpUpdateLabels ls)
  with assms(2) have "no_collision (OpUpdateLabels ls) c" by simp
  from UpdateLabels_refines [OF assms(1) this] OpUpdateLabels show ?thesis by simp
qed

end

lemma run_refines:
  assumes "\<And>op c. coll_inv c \<Longrightarrow> no_collision op c \<Longrightarrow>
      \<exists>c'. step op c = Some c' \<and> coll_inv c' \<and> metrics_of c' = spec_op put op (metrics_of c)"
    and "coll_inv c" and "collision_free step ops c"
  shows "\<exists>c'. run_ops step ops c = Some c' \<and> coll_inv c' \<and> metrics_of c' = fold (spec_op put) ops (metrics_of c)"
  using assms(2,3)
proof (induction ops arbitrary: c)
  case (Cons op ops)
  then obtain c1 where c1: "step op c = Some c1" "coll_inv c1" "metrics_of c1 = spec_op put op (metrics_of c)"
    using assms(1) [of c op] by auto
  with Cons.prems Cons.IH [of c1] show ?case by simp
qed simp

lemma NewConstCollector_inv: "sorted names \<Longrightarrow> distinct names \<Longrightarrow> coll_inv (NewConstCollector name names)"
  by (simp add: NewConstCollector_def coll_inv_def)

lemma metrics_of_new: "metrics_of (NewConstCollector name names) = (set names, Map.empty)"
  by (auto simp: metrics_of_def NewConstCollector_def stored_def)

lemma gauge_refines_map:
  assumes "map_iteration perm" and "sorted names" and "distinct names"
    and "collision_free (gauge_op perm) ops (NewConstCollector name names)"
  shows "\<exists>c. run_ops (gauge_op perm) ops (NewConstCollector name names) = Some c \<and> coll_inv c \<and>
     metrics_of c = fold (spec_op (\<lambda>d _. d)) ops (set names, Map.empty)"
  using run_refines [OF map_iteration.gauge_op_refines [OF assms(1)] NewConstCollector_inv [OF assms(2,3)] assms(4)]
  by (simp add: metrics_of_new)

section \<open>Properties\<close>

text \<open>
  C24. A counter collector made with sorted label names refines a map from label assignments to sums, through any sequence of \<open>Add\<close>,
  \<open>ExpireGroupMetrics\<close> and \<open>UpdateLabels\<close> in which no two hashes collide: \<open>Add\<close> adds, modulo 2 to the 64, to the metric with these labels, \<open>ExpireGroupMetrics\<close>
  removes the metrics of the group and no others, new labels change no metric, in whatever order the maps are ranged over, and nothing panics. The metric stays in the group that
  added to it first: what another group adds to the same labels expires with that group.
\<close>

theorem counter_refines_map:
  assumes "map_iteration perm" and "sorted names" and "distinct names"
    and "collision_free (counter_op perm uint64) ops (NewConstCollector name names)"
  shows "\<exists>c. run_ops (counter_op perm uint64) ops (NewConstCollector name names) = Some c \<and> coll_inv c \<and>
     metrics_of c = fold (spec_op (\<lambda>d v. case v of None \<Rightarrow> uint64 d | Some v \<Rightarrow> v + uint64 d)) ops (set names, Map.empty)"
  using run_refines [OF map_iteration.counter_op_refines [OF assms(1)] NewConstCollector_inv [OF assms(2,3)] assms(4)]
  by (simp add: metrics_of_new)

definition demo_ops :: "nat coll_op list" where
  "demo_ops = [OpAdd ''g1'' 2 [''hook'' \<mapsto> ''a''], OpAdd ''g2'' 3 [''hook'' \<mapsto> ''a''], OpUpdateLabels [''kind''], OpExpire ''g2'']"

theorem counter_refines_map_witness:
  "\<exists>c. run_ops (counter_op newest_first of_nat) demo_ops (NewConstCollector ''m'' [''hook'']) = Some c \<and>
     stored c ((\<lambda>_. [])(''hook'' := ''a'')) = Some (''g1'', 5)"
proof -
  have cf: "collision_free (counter_op newest_first of_nat) demo_ops (NewConstCollector ''m'' [''hook''])"
    by (simp add: demo_ops_def NewConstCollector_def counter_add_def LabelValues_def Let_def UpdateLabels_def go_range_def newest_first_def
      label_index_def)
  have as: "assignment {''hook''} [''hook'' \<mapsto> ''a''] = (\<lambda>_. [])(''hook'' := ''a'')"
    by (auto simp: assignment_def)
  let ?spec = "fold (spec_op (\<lambda>d v. case v of None \<Rightarrow> of_nat d | Some v \<Rightarrow> v + of_nat d)) demo_ops (set [''hook''], Map.empty) :: 64 word metrics"
  obtain c where c: "run_ops (counter_op newest_first of_nat) demo_ops (NewConstCollector ''m'' [''hook'']) = Some c" "metrics_of c = ?spec"
    using counter_refines_map [OF newest.map_iteration_axioms _ _ cf] by auto
  have "snd ?spec ((\<lambda>_. [])(''hook'' := ''a'')) = Some (''g1'', 5)" by (simp add: demo_ops_def as Let_def)
  with c(2) have "stored c ((\<lambda>_. [])(''hook'' := ''a'')) = Some (''g1'', 5)" by (simp only: c(2) [symmetric] metrics_of_def snd_conv)
  with c(1) show ?thesis by blast
qed

end
