(* ===== verification/Spec2Isabelle.thy ===== *)
theory Spec2Isabelle
  imports Hook_Task Admission_Routing Conversion_Props Queue_Dump Namespace_Informer Hook_Executor Metric_Collector
begin

text \<open>
  \<^bold>\<open>A verification library for shell-operator.\<close>

  \<^bold>\<open>The program.\<close> The operator runs hooks (executables) for events of a Kubernetes cluster. A hook tells its configuration when it is
  called with \<open>--config\<close>; the hook manager loads all hooks and keeps for each a controller for its bindings. Three sources make
  events: monitors (informers) for kubernetes bindings, a cron for schedules, and HTTP requests for admission and conversion
  webhooks. Events of the first two become tasks in named queues; each queue has a worker that handles its first task, keeps it on failure and
  merges tasks when a queue grows. A task handler runs the hook with its binding contexts and carries out what
  the hook asks for in its output files. Webhook requests run a hook at once and answer with its response.

  \<^bold>\<open>Theories and sources\<close> (paths under \<open>src/pkg\<close>).

  \<^item> \<open>Go_Prelude\<close>, \<open>Go_Maps\<close>: the parts of Go the code depends on. JSON values, 64-bit durations, slices that share arrays (a store of
    arrays, with \<open>append\<close> as the language defines it), maps with an arbitrary order of iteration, collections of simp rules.
  \<^item> \<open>Go_Linked_List\<close>: \<open>utils/list\<close>, a doubly linked list at the level of pointers.
  \<^item> \<open>Task_Model\<close>, \<open>Task_Storage\<close>, \<open>Task_Counter\<close>, \<open>Backoff\<close>: \<open>task/task.go\<close>, \<open>hook/task_metadata\<close>, \<open>task/queue/task_storage.go\<close>,
    \<open>task_result.go\<close>, \<open>task_counter.go\<close>, \<open>utils/exponential_backoff\<close>, \<open>utils/retry\<close>.
  \<^item> \<open>Task_Queue\<close>, \<open>Queue_Compaction\<close>, \<open>Compaction_Values\<close>, \<open>Queue_Ops\<close>, \<open>Queue_Worker\<close>, \<open>Queue_Set\<close>: \<open>task/queue/task_queue.go\<close>,
    \<open>queue_status_type.go\<close>, \<open>queue_set.go\<close>, \<open>queue_storage.go\<close>. \<open>Queue_Dump\<close>: \<open>task/dump\<close>.
  \<^item> \<open>Kube_Types\<close>, \<open>Monitor_Config\<close>, \<open>Resource_Informer\<close>, \<open>Factory_Store\<close>, \<open>Kube_Monitor\<close>, \<open>Namespace_Informer\<close>: \<open>kube_events_manager\<close>.
  \<^item> \<open>Schedule_Manager\<close>: \<open>schedule_manager\<close>.
  \<^item> \<open>Binding_Context\<close>, \<open>Hook_Bindings\<close>, \<open>Webhook_Bindings\<close>: \<open>hook/binding_context\<close>, \<open>hook/controller\<close>, \<open>hook/types\<close>.
  \<^item> \<open>Webhook_Rules\<close>, \<open>Hook_Config\<close>, \<open>Hook_Manager\<close>: \<open>webhook/validating/validation\<close>, \<open>hook/config\<close>, \<open>hook/hook_manager.go\<close>,
    \<open>shell-operator/hook_task_factory.go\<close>.
  \<^item> \<open>Admission_Webhook\<close>, \<open>Admission_Routing\<close>, \<open>Webhook_Handlers\<close>, \<open>Conversion_Chain\<close>, \<open>Conversion_Search\<close>, \<open>Conversion_Props\<close>:
    \<open>webhook/admission\<close>, \<open>webhook/conversion\<close>, \<open>shell-operator/webhook_handlers.go\<close>.
  \<^item> \<open>Object_Patch\<close>: \<open>kube/object_patch\<close>. \<open>Hook_Run\<close>: \<open>hook/hook.go\<close>, \<open>hook_io.go\<close>, \<open>operation.go\<close> and \<open>handleRunHook\<close> of
    \<open>shell-operator/operator.go\<close>. \<open>Hook_Executor\<close>: \<open>executor\<close>, the command of a hook, the log of its output, the registry of process ids.
  \<^item> \<open>Metric_Collector\<close>: \<open>metric/collector.go\<close>, collectors of grouped metrics.
  \<^item> \<open>Combine_Contexts\<close>, \<open>Shell_Operator\<close>, \<open>Operator_Props\<close>, \<open>Hook_Task\<close>: \<open>shell-operator/combine_binding_context.go\<close>, \<open>operator.go\<close>,
    \<open>manager_events_handler.go\<close>, \<open>task_handler_registry.go\<close>.

  \<^bold>\<open>How state and operations are modelled.\<close> A struct is a record with its source name, an operation a function on it, a method
  that returns an error a function with an option or sum result. Panics are \<open>None\<close>. Pointers are addresses in a heap where aliasing
  matters: list elements, slices (tasks share arrays of contexts and monitor ids), monitor configurations, hooks.
  A lock is the atomicity of a step; where the code unlocks between two steps the model has separate steps and an \<open>inductive\<close> or
  explicit order of them (informers, factories, monitors). A task is a reference into a world of tasks, shared by queues and handlers. Loops
  are structural recursion; the search for conversion chains, whose loop may run on, and the walks through lists are
  \<open>partial_function\<close>s into option, and it is proved that they return. Polling loops (\<open>waitForTask\<close>, \<open>Shutdown\<close>) take the list of what
  each tick sees; no other fuel is used.

  \<^bold>\<open>Arguments.\<close> Code outside of the repository is an argument of the definitions that use it, with its documented behaviour as a
  hypothesis or a locale: growth of slices and choice of pooled slices (\<open>growslice\<close>, \<open>queue_runtime\<close>), order of map iteration
  (\<open>map_iteration\<close>), \<open>sort.Slice\<close> and \<open>sort.Sort\<close> (\<open>go_sort\<close>, \<open>queue_sort\<close>), the cron library (\<open>cron_library\<close>), the API server with other clients
  (\<open>api_server\<close>), list and watch of informers, random ids, JSON, YAML and jq, the process that runs a hook, the clock. Every locale is interpreted
  on a concrete instance or on the definitions of the model (\<open>element_list\<close> on the linked list, \<open>task_sequence\<close> on the task storage).

  \<^bold>\<open>What is shown.\<close> The claims are numbered in the texts before them.

  \<^item> Tasks and queues: the storage refines a sequence of tasks and never panics; results of handlers are applied as documented;
    compaction keeps the first task of each hook with all contexts, and every other task, in order; all operations keep index and counters exact; what
    the worker does for every outcome of a handler; it wakes up when a delay ends. Counterexamples: pooled slices are overwritten, the counter
    is not updated by the worker. The report on the queues lists each of them once, with exact counts.
  \<^item> Events: no event of a watched object is lost between the snapshot and the first event (with the race where it can be);
    monitors have exactly the informers they should; one cron job per crontab; snapshots within one run agree; enabling
    bindings repairs what a failure left.
  \<^item> Hooks: loaded configurations are well formed; hooks come in their order; the start fills the queues with the tasks in order; each event reaches
    the queues of its bindings; a hook task takes over the tasks behind it, is repeated with all its contexts until it succeeds, and then unlocks
    its monitors; a failed hook changes nothing in the cluster.
    The log of a hook is that of the lines of its output, however the output arrives.
  \<^item> Webhooks: requests reach the hook that registered the path, and only it; every request is answered; paths round-trip; conversion
    chains are found, with the conditions under which a returned chain is right; rules are accepted exactly when they are in order.
  \<^item> Objects: operations that return no error had their effect, and filters lose no update of other clients.
  \<^item> Metrics: collectors refine a map from label assignments to groups and values, as long as no hashes collide.

  \<^bold>\<open>Not modelled.\<close> The registration of metrics, messages of the log, tracing and their labels; HTTP servers and TLS; command line and settings; the
  OpenAPI schemas; generated mocks; test tools; \<open>Shutdown\<close> of the operator and the assembly of its parts in \<open>bootstrap.go\<close>. These are I/O, glue between libraries, or settings, and hold no state that the modelled parts read. Numbers in metric operations are rationals, not
  floats; in collectors they are of any type. \<open>Hook_Run\<close> takes the run of a hook as an argument, of which \<open>Hook_Executor\<close> describes the part that is in the repository.
\<close>

end
